(* ===== verification/Prelude.thy ===== *)
theory Prelude
  imports Main "HOL-Library.Multiset" "HOL-Library.AList" "HOL-Library.Char_ord" "HOL-Library.List_Lexorder"
begin

text \<open>
  Shared vocabulary of the development: results that may raise (\<open>error + 'a\<close>, with
  \<^term>\<open>Inl\<close> for the exception), Python dictionaries as association lists in insertion
  order, and the generic list lemmas the component theories use.  The dictionary operations are
  stated as a contract (the locale \<open>py_dict\<close>) and interpreted on the association lists.
\<close>

section \<open>Results\<close>

text \<open>
  A statement sequence of the source is a chain of \<^term>\<open>bind_res\<close>: the first exception
  leaves the function, otherwise the value is passed on.
\<close>

definition bind_res :: "'e + 'a \<Rightarrow> ('a \<Rightarrow> 'e + 'b) \<Rightarrow> 'e + 'b" where
  "bind_res m f = (case m of Inl e \<Rightarrow> Inl e | Inr x \<Rightarrow> f x)"

definition guard_res :: "bool \<Rightarrow> 'e \<Rightarrow> 'e + unit" where
  "guard_res c e = (if c then Inr () else Inl e)"

lemma bind_res_simps [simp]:
  "bind_res (Inl e) f = Inl e"
  "bind_res (Inr x) f = f x"
  by (simp_all add: bind_res_def)

lemma bind_res_eq_Inr [simp]:
  "bind_res m f = Inr y \<longleftrightarrow> (\<exists>x. m = Inr x \<and> f x = Inr y)"
  by (cases m) auto

lemma Inr_eq_bind_res [simp]:
  "Inr y = bind_res m f \<longleftrightarrow> (\<exists>x. m = Inr x \<and> f x = Inr y)"
  by (cases m) auto

lemma bind_res_eq_Inl:
  "bind_res m f = Inl e \<longleftrightarrow> m = Inl e \<or> (\<exists>x. m = Inr x \<and> f x = Inl e)"
  by (cases m) auto

lemma guard_res_eq_Inr [simp]: "guard_res c e = Inr u \<longleftrightarrow> c"
  by (simp add: guard_res_def)

lemma guard_res_eq_Inl [simp]: "guard_res c e = Inl e' \<longleftrightarrow> \<not> c \<and> e' = e"
  by (auto simp: guard_res_def)

lemma guard_res_bool [simp]:
  "guard_res True e = Inr ()" "guard_res False e = Inl e"
  by (simp_all add: guard_res_def)

lemma bind_guard_split:
  "bind_res (guard_res c e) f = (if c then f () else Inl e)"
  by simp

text \<open>A loop that raises at the first failing element: the dictionary and list
  comprehensions of the source.\<close>

fun map_res :: "('a \<Rightarrow> 'e + 'b) \<Rightarrow> 'a list \<Rightarrow> 'e + 'b list" where
  "map_res f [] = Inr []"
| "map_res f (x # xs) =
     bind_res (f x) (\<lambda>y. bind_res (map_res f xs) (\<lambda>ys. Inr (y # ys)))"

lemma map_res_eq_Inr:
  "map_res f xs = Inr ys \<longleftrightarrow> list_all2 (\<lambda>x y. f x = Inr y) xs ys"
  by (induction xs arbitrary: ys) (auto simp: list_all2_Cons1)

lemma map_res_cong [fundef_cong]:
  "xs = ys \<Longrightarrow> (\<And>x. x \<in> set ys \<Longrightarrow> f x = g x) \<Longrightarrow> map_res f xs = map_res g ys"
  by (induction xs arbitrary: ys) auto

lemma map_res_all_Inr:
  "(\<And>x. x \<in> set xs \<Longrightarrow> f x = Inr (g x)) \<Longrightarrow> map_res f xs = Inr (map g xs)"
  by (induction xs) auto

lemma map_res_Inr_set:
  "map_res f xs = Inr ys \<Longrightarrow> y \<in> set ys \<Longrightarrow> \<exists>x \<in> set xs. f x = Inr y"
  by (induction xs arbitrary: ys) auto

lemma map_res_Inr_set2:
  "map_res f xs = Inr ys \<Longrightarrow> x \<in> set xs \<Longrightarrow> \<exists>y \<in> set ys. f x = Inr y"
  by (induction xs arbitrary: ys) auto

lemma map_res_length: "map_res f xs = Inr ys \<Longrightarrow> length ys = length xs"
  by (induction xs arbitrary: ys) auto

section \<open>Dictionaries\<close>

text \<open>
  A Python \<open>dict\<close> with string keys: an association list in insertion order.  Assigning to a
  key that is present keeps its position, a new key goes last, \<open>pop\<close> and \<open>del\<close> remove it.
\<close>

type_synonym 'v dict = "(string \<times> 'v) list"

abbreviation dget :: "('k \<times> 'v) list \<Rightarrow> 'k \<Rightarrow> 'v option" where
  "dget d k \<equiv> map_of d k"

abbreviation dset :: "'k \<Rightarrow> 'v \<Rightarrow> ('k \<times> 'v) list \<Rightarrow> ('k \<times> 'v) list" where
  "dset k v d \<equiv> AList.update k v d"

abbreviation ddel :: "'k \<Rightarrow> ('k \<times> 'v) list \<Rightarrow> ('k \<times> 'v) list" where
  "ddel k d \<equiv> AList.delete k d"

abbreviation dkeys :: "('k \<times> 'v) list \<Rightarrow> 'k list" where
  "dkeys d \<equiv> map fst d"

abbreviation dvalues :: "('k \<times> 'v) list \<Rightarrow> 'v list" where
  "dvalues d \<equiv> map snd d"

definition wf_dict :: "('k \<times> 'v) list \<Rightarrow> bool" where
  "wf_dict d \<longleftrightarrow> distinct (dkeys d)"

text \<open>\<open>sorted(d.items())\<close>, the order \<open>sort_keys=True\<close> writes.\<close>

definition dsort :: "'v dict \<Rightarrow> 'v dict" where
  "dsort d = sort_key fst d"

locale py_dict =
  fixes lookup :: "'d \<Rightarrow> 'k \<Rightarrow> 'v option"
    and store :: "'k \<Rightarrow> 'v \<Rightarrow> 'd \<Rightarrow> 'd"
    and drop_key :: "'k \<Rightarrow> 'd \<Rightarrow> 'd"
    and items :: "'d \<Rightarrow> ('k \<times> 'v) list"
    and ok :: "'d \<Rightarrow> bool"
  assumes lookup_store: "lookup (store k v d) k' = (if k' = k then Some v else lookup d k')"
    and lookup_drop: "lookup (drop_key k d) k' = (if k' = k then None else lookup d k')"
    and ok_store: "ok d \<Longrightarrow> ok (store k v d)"
    and ok_drop: "ok d \<Longrightarrow> ok (drop_key k d)"
    and lookup_items: "ok d \<Longrightarrow> lookup d k = Some v \<longleftrightarrow> (k, v) \<in> set (items d)"
begin

lemma lookup_store_same: "lookup (store k v d) k = Some v"
  by (simp add: lookup_store)

lemma store_items:
  "ok d \<Longrightarrow> set (items (store k v d)) = insert (k, v) {p \<in> set (items d). fst p \<noteq> k}"
  by (auto simp: lookup_items[symmetric] ok_store lookup_store split: if_splits)

lemma drop_items:
  "ok d \<Longrightarrow> set (items (drop_key k d)) = {p \<in> set (items d). fst p \<noteq> k}"
  by (auto simp: lookup_items[symmetric] ok_drop lookup_drop split: if_splits)

lemma values_store:
  "ok d \<Longrightarrow> snd ` set (items (store k v d)) = insert v (snd ` {p \<in> set (items d). fst p \<noteq> k})"
  by (auto simp: store_items)

lemma values_drop:
  "ok d \<Longrightarrow> snd ` set (items (drop_key k d)) = snd ` {p \<in> set (items d). fst p \<noteq> k}"
  by (simp add: drop_items)

end

interpretation dict: py_dict map_of AList.update AList.delete "\<lambda>d. d" wf_dict
proof unfold_locales
  fix k k' :: 'a and v :: 'b and d :: "('a \<times> 'b) list"
  show "dget (dset k v d) k' = (if k' = k then Some v else dget d k')"
    by (simp add: update_conv')
  show "dget (ddel k d) k' = (if k' = k then None else dget d k')"
    by (simp add: delete_conv')
  show "wf_dict d \<Longrightarrow> wf_dict (dset k v d)"
    unfolding wf_dict_def by (rule distinct_update)
  show "wf_dict d \<Longrightarrow> wf_dict (ddel k d)"
    unfolding wf_dict_def by (rule distinct_delete)
  show "wf_dict d \<Longrightarrow> dget d k = Some v \<longleftrightarrow> (k, v) \<in> set d"
    unfolding wf_dict_def by auto
qed

lemmas dict_lookup [simp] = dict.lookup_store dict.lookup_drop

lemmas dict_wf [intro] = dict.ok_store dict.ok_drop

lemma wf_dict_Nil [simp]: "wf_dict []"
  by (simp add: wf_dict_def)

lemma dvalues_lookup:
  assumes "wf_dict d"
  shows "v \<in> set (dvalues d) \<longleftrightarrow> (\<exists>k. dget d k = Some v)"
  unfolding dict.lookup_items [OF assms] by force

lemma dkeys_lookup: "k \<in> set (dkeys d) \<longleftrightarrow> dget d k \<noteq> None"
  by (simp add: map_of_eq_None_iff)

lemma set_dsort [simp]: "set (dsort d) = set d"
  by (simp add: dsort_def)

lemma mset_dsort [simp]: "mset (dsort d) = mset d"
  by (simp add: dsort_def)

lemma length_dsort [simp]: "length (dsort d) = length d"
  by (simp add: dsort_def)

lemma wf_dict_dsort [simp]: "wf_dict (dsort d) = wf_dict d"
  unfolding wf_dict_def by (metis mset_dsort mset_map mset_eq_imp_distinct_iff)

lemma dget_dsort [simp]:
  assumes "wf_dict d"
  shows "dget (dsort d) k = dget d k"
proof -
  have "dget (dsort d) k = Some v \<longleftrightarrow> dget d k = Some v" for v
    using assms by (simp add: dict.lookup_items)
  then show ?thesis by (metis not_None_eq)
qed

lemma dsort_Nil [simp]: "dsort [] = []"
  by (simp add: dsort_def)

section \<open>Executable forms\<close>

text \<open>A condition on the value of an optional field, as the evaluator runs it.\<close>

lemma optional_field_code [code_unfold]:
  "(\<forall>s. HOL.equal v (Some s) \<longrightarrow> P s) = (case v of None \<Rightarrow> True | Some s \<Rightarrow> P s)"
  by (cases v) (simp_all add: equal)

end
