(* ===== verification/Py_Json.thy ===== *)
theory Py_Json
  imports Prelude
begin

text \<open>
  The JSON documents the program persists, as a datatype, and the part of Python's \<open>json\<close>
  module it uses: the canonical text \<open>json.dumps(value, sort_keys=True, separators=(",", ":"),
  ensure_ascii=True)\<close> whose UTF-8 bytes are hashed, and the reordering that writing a document
  with \<open>sort_keys=True\<close> and reading it back performs.  A character is its code point
  (up to 255); a floating literal is kept as the text Python prints for it, since the program
  never computes with one.
\<close>

section \<open>Documents\<close>

datatype json =
    JNull
  | JBool bool
  | JInt int
  | JFloat string
  | JStr string
  | JArr "json list"
  | JObj "(string \<times> json) list"

abbreviation jopt :: "string option \<Rightarrow> json" where
  "jopt x \<equiv> (case x of None \<Rightarrow> JNull | Some s \<Rightarrow> JStr s)"

abbreviation jopt_int :: "int option \<Rightarrow> json" where
  "jopt_int x \<equiv> (case x of None \<Rightarrow> JNull | Some n \<Rightarrow> JInt n)"

section \<open>Canonical text\<close>

fun nat_digits :: "nat \<Rightarrow> string" where
  "nat_digits n =
     (if n < 10 then [char_of (n + 48)]
      else nat_digits (n div 10) @ [char_of (n mod 10 + 48)])"

declare nat_digits.simps [simp del]

definition int_text :: "int \<Rightarrow> string" where
  "int_text i = (if i < 0 then ''-'' @ nat_digits (nat (- i)) else nat_digits (nat i))"

definition hex_digit :: "nat \<Rightarrow> char" where
  "hex_digit n = (if n < 10 then char_of (n + 48) else char_of (n + 87))"

definition escape_char :: "char \<Rightarrow> string" where
  "escape_char c =
     (let n = of_char c :: nat in
      if n = 34 then [CHR 0x5C, CHR 0x22]
      else if n = 92 then [CHR 0x5C, CHR 0x5C]
      else if n = 10 then [CHR 0x5C, CHR 0x6E]
      else if n = 13 then [CHR 0x5C, CHR 0x72]
      else if n = 9 then [CHR 0x5C, CHR 0x74]
      else if n = 8 then [CHR 0x5C, CHR 0x62]
      else if n = 12 then [CHR 0x5C, CHR 0x66]
      else if n < 32 \<or> 126 < n
        then [CHR 0x5C, CHR 0x75, CHR 0x30, CHR 0x30, hex_digit (n div 16), hex_digit (n mod 16)]
      else [c])"

definition quote_text :: "string \<Rightarrow> string" where
  "quote_text s = [CHR 0x22] @ concat (map escape_char s) @ [CHR 0x22]"

fun join_text :: "string \<Rightarrow> string list \<Rightarrow> string" where
  "join_text sep [] = []"
| "join_text sep [x] = x"
| "join_text sep (x # xs) = x @ sep @ join_text sep xs"

fun canonical_json :: "json \<Rightarrow> string" where
  "canonical_json JNull = ''null''"
| "canonical_json (JBool b) = (if b then ''true'' else ''false'')"
| "canonical_json (JInt i) = int_text i"
| "canonical_json (JFloat t) = t"
| "canonical_json (JStr s) = quote_text s"
| "canonical_json (JArr xs) = ''['' @ join_text '','' (map canonical_json xs) @ '']''"
| "canonical_json (JObj kvs) =
     ''{'' @ join_text '',''
       (map (\<lambda>(k, t). quote_text k @ '':'' @ t)
         (dsort (map (\<lambda>(k, v). (k, canonical_json v)) kvs))) @ ''}''"

text \<open>\<open>json.dumps(value, indent=2, sort_keys=True)\<close>, the text of the persisted files: its
  length is bounded when an archived record is read.\<close>

definition indent_line :: "nat \<Rightarrow> string" where
  "indent_line n = CHR 0x0A # replicate n (CHR '' '')"

fun pretty_json :: "nat \<Rightarrow> json \<Rightarrow> string" where
  "pretty_json n (JArr xs) =
     (if xs = [] then ''[]''
      else ''['' @ indent_line (n + 2)
        @ join_text ('','' @ indent_line (n + 2)) (map (pretty_json (n + 2)) xs)
        @ indent_line n @ '']'')"
| "pretty_json n (JObj kvs) =
     (if kvs = [] then ''{}''
      else ''{'' @ indent_line (n + 2)
        @ join_text ('','' @ indent_line (n + 2))
            (map (\<lambda>(k, t). quote_text k @ '': '' @ t)
              (dsort (map (\<lambda>(k, v). (k, pretty_json (n + 2) v)) kvs)))
        @ indent_line n @ ''}'')"
| "pretty_json n j = canonical_json j"

section \<open>Writing with sorted keys and reading back\<close>

fun json_norm :: "json \<Rightarrow> json" where
  "json_norm (JArr xs) = JArr (map json_norm xs)"
| "json_norm (JObj kvs) = JObj (dsort (map (\<lambda>(k, v). (k, json_norm v)) kvs))"
| "json_norm j = j"

fun json_wf :: "json \<Rightarrow> bool" where
  "json_wf (JArr xs) = list_all json_wf xs"
| "json_wf (JObj kvs) = (wf_dict kvs \<and> list_all (\<lambda>(k, v). json_wf v) kvs)"
| "json_wf j = True"

text \<open>The items of a normalised dictionary, for the containers that keep unknown fields.\<close>

definition norm_items :: "json dict \<Rightarrow> json dict" where
  "norm_items kvs = dsort (map (\<lambda>(k, v). (k, json_norm v)) kvs)"

lemma json_norm_obj [simp]: "json_norm (JObj kvs) = JObj (norm_items kvs)"
  by (simp add: norm_items_def)

declare json_norm.simps(2) [simp del]

lemma dkeys_norm_map: "dkeys (map (\<lambda>(k, v). (k, f v)) kvs) = dkeys kvs"
  by (induction kvs) auto

lemma dget_norm_map: "dget (map (\<lambda>(k, v). (k, f v)) kvs) k = map_option f (dget kvs k)"
  by (induction kvs) auto

lemma wf_dict_norm_map [simp]:
  "wf_dict (map (\<lambda>(k, v). (k, f v)) kvs) = wf_dict kvs"
  by (simp add: wf_dict_def dkeys_norm_map del: map_map)

lemma wf_dict_norm_items [simp]: "wf_dict (norm_items kvs) = wf_dict kvs"
  by (simp add: norm_items_def)

lemma dget_norm_items [simp]:
  "wf_dict kvs \<Longrightarrow> dget (norm_items kvs) k = map_option json_norm (dget kvs k)"
  by (simp add: norm_items_def dget_norm_map)

lemma set_dkeys_norm_items [simp]: "set (dkeys (norm_items kvs)) = set (dkeys kvs)"
  by (force simp: norm_items_def)

lemma norm_items_Nil [simp]: "norm_items [] = []"
  by (simp add: norm_items_def)

lemma json_norm_jopt [simp]: "json_norm (jopt x) = jopt x"
  by (cases x) simp_all

lemma json_norm_jopt_int [simp]: "json_norm (jopt_int x) = jopt_int x"
  by (cases x) simp_all

text \<open>
  Two sorted association lists with the same entries are equal, so normalising twice changes
  nothing and a normalised document has the same canonical text.
\<close>

lemma dsort_cong:
  assumes "mset d = mset e" and "wf_dict d"
  shows "dsort d = dsort e"
  unfolding dsort_def
proof (rule sort_key_inj_key_eq)
  show "mset d = mset (sort_key fst e)" using assms(1) by simp
  show "inj_on fst (set d)" using assms(2) by (simp add: wf_dict_def distinct_map)
  show "sorted (dkeys (sort_key fst e))" by simp
qed

lemma dsort_idem [simp]: "wf_dict d \<Longrightarrow> dsort (dsort d) = dsort d"
  by (rule dsort_cong) simp_all

lemma filter_dsort: "filter P (dsort d) = dsort (filter P d)"
  by (simp add: dsort_def filter_sort)

lemma json_norm_wf: "json_wf j \<Longrightarrow> json_wf (json_norm j)"
proof (induction j)
  case (JObj kvs)
  have "json_wf (json_norm v)" if "(k, v) \<in> set kvs" for k v
    using JObj.IH [of "(k, v)" v] JObj.prems that by (auto simp: list_all_iff)
  then show ?case using JObj.prems by (auto simp: norm_items_def list_all_iff)
qed (auto simp: list_all_iff)

lemma json_norm_wf_items: "wf_dict kvs \<Longrightarrow> list_all (\<lambda>(k, v). json_wf v) kvs \<Longrightarrow>
    list_all (\<lambda>(k, v). json_wf v) (norm_items kvs)"
  using json_norm_wf [of "JObj kvs"] by simp

lemma json_norm_eq_JInt [simp]: "json_norm j = JInt n \<longleftrightarrow> j = JInt n"
  by (cases j) simp_all

lemma insort_map_rows:
  "insort_key fst (k, f v) (map (\<lambda>(k, v). (k, f v)) d) = map (\<lambda>(k, v). (k, f v)) (insort_key fst (k, v) d)"
  by (induction d) auto

lemma dsort_map_rows: "dsort (map (\<lambda>(k, v). (k, f v)) d) = map (\<lambda>(k, v). (k, f v)) (dsort d)"
  by (induction d) (auto simp: dsort_def insort_map_rows)

lemma canonical_json_norm: "json_wf j \<Longrightarrow> canonical_json (json_norm j) = canonical_json j"
proof (induction j)
  case (JArr xs)
  then show ?case by (simp add: list_all_iff cong: map_cong)
next
  case (JObj kvs)
  have eq: "map (\<lambda>(k, v). (k, canonical_json v)) (map (\<lambda>(k, v). (k, json_norm v)) kvs)
      = map (\<lambda>(k, v). (k, canonical_json v)) kvs"
    using JObj by (force simp: list_all_iff)
  have "map (\<lambda>(k, v). (k, canonical_json v)) (norm_items kvs)
      = dsort (map (\<lambda>(k, v). (k, canonical_json v)) (map (\<lambda>(k, v). (k, json_norm v)) kvs))"
    by (simp only: norm_items_def dsort_map_rows)
  also have "\<dots> = dsort (map (\<lambda>(k, v). (k, canonical_json v)) kvs)"
    by (simp only: eq)
  finally have "dsort (map (\<lambda>(k, v). (k, canonical_json v)) (norm_items kvs))
      = dsort (map (\<lambda>(k, v). (k, canonical_json v)) kvs)"
    using JObj.prems by simp
  then show ?case by simp
qed simp_all

end
