(* ===== verification/Lease_Values.thy ===== *)
theory Lease_Values
  imports Py_Json
begin

text \<open>
  The value layer of \<open>fleet_commons/lease_broker.py\<close>: the broker's exception classes, the
  field validators, the strict and the tolerant reading of a JSON mapping, resource references and
  fencing tokens.  Exceptions keep their class and the attributes callers read; their messages are
  not modelled.
\<close>

section \<open>Exceptions\<close>

text \<open>
  \<open>LeaseConflictError\<close> is a subclass of \<open>LeaseOwnershipError\<close> in the source.
  \<open>PyTypeError\<close> is the built-in exception of \<open>dict(value)\<close> on a value that is no
  mapping, \<open>PyOSError\<close> that of a failed file operation, and \<open>WriterError\<close> whatever a
  caller's callback raises.
\<close>

datatype broker_error =
    LeaseBrokerError
  | UnsafeAuthorityError
  | RegistryCorruptError
  | CapacityExhaustedError "string option"
  | PolicyMismatchError
  | LeaseNotFoundError
  | LeaseOwnershipError
  | LeaseConflictError string
  | LeaseExpiredError
  | LeaseClosedError
  | OwnerAdmissionClosedError
  | LeaseSupersededError
  | MissingResourceError
  | PyTypeError
  | PyValueError
  | PyOSError
  | WriterError

section \<open>Bounds and closed value sets\<close>

definition default_ttl_seconds :: int where "default_ttl_seconds = 300"
definition default_claim_ttl_seconds :: int where "default_claim_ttl_seconds = 30"
definition max_id :: nat where "max_id = 256"
definition max_path :: nat where "max_path = 4096"
definition max_session_admissions :: nat where "max_session_admissions = 64"
definition max_closed_fences :: nat where "max_closed_fences = 128"
definition max_settlements :: nat where "max_settlements = 128"
definition max_extras_bytes :: nat where "max_extras_bytes = 64 * 1024"
definition max_closed_owner_admissions :: nat where "max_closed_owner_admissions = 128"

datatype pool = AgentPool | WorktreePool
datatype mutation_mode = ReadWrite | MutationNone
datatype on_conflict = Supersede | Refuse
datatype token_state = Current | Expired | Closed | Superseded
datatype settlement_phase = Prepared | Committing | Ambiguous

section \<open>Field validators\<close>

definition bounded :: "nat \<Rightarrow> string \<Rightarrow> broker_error + string" where
  "bounded maximum s =
     (if s = [] \<or> maximum < length s then Inl RegistryCorruptError
      else if list_ex (\<lambda>c. (of_char c :: nat) < 32) s then Inl RegistryCorruptError
      else Inr s)"

definition optional_bounded :: "nat \<Rightarrow> string option \<Rightarrow> broker_error + string option" where
  "optional_bounded maximum v =
     (case v of None \<Rightarrow> Inr None | Some s \<Rightarrow> bind_res (bounded maximum s) (\<lambda>t. Inr (Some t)))"

definition positive :: "int \<Rightarrow> broker_error + int" where
  "positive n = (if n < 1 then Inl RegistryCorruptError else Inr n)"

definition nonnegative :: "int \<Rightarrow> broker_error + int" where
  "nonnegative n = (if n < 0 then Inl RegistryCorruptError else Inr n)"

definition hex_chars :: string where "hex_chars = ''0123456789abcdef''"

definition is_sha256_text :: "string \<Rightarrow> bool" where
  "is_sha256_text s \<longleftrightarrow> length s = 64 \<and> list_all (\<lambda>c. c \<in> set hex_chars) s"

definition sha256_text :: "string \<Rightarrow> broker_error + string" where
  "sha256_text s =
     bind_res (bounded 64 s)
       (\<lambda>t. if is_sha256_text t then Inr t else Inl RegistryCorruptError)"

text \<open>\<open>str(uuid.UUID(text)) == text\<close>: the canonical lowercase spelling.\<close>

definition is_uuid_text :: "string \<Rightarrow> bool" where
  "is_uuid_text s \<longleftrightarrow> length s = 36 \<and>
     list_all (\<lambda>(i, c). if i \<in> {8, 13, 18, 23} then c = CHR ''-'' else c \<in> set hex_chars)
       (enumerate 0 s)"

definition uuid_text :: "string \<Rightarrow> broker_error + string" where
  "uuid_text s =
     bind_res (bounded max_id s)
       (\<lambda>t. if is_uuid_text t then Inr t else Inl RegistryCorruptError)"

text \<open>The texts \<open>_bounded\<close> returns unchanged.\<close>

definition text_ok :: "nat \<Rightarrow> string \<Rightarrow> bool" where
  "text_ok m s \<longleftrightarrow> s \<noteq> [] \<and> length s \<le> m \<and> (\<forall>c \<in> set s. 32 \<le> (of_char c :: nat))"

lemma bounded_eq_Inr [simp]: "bounded m s = Inr t \<longleftrightarrow> t = s \<and> text_ok m s"
  by (auto simp: bounded_def text_ok_def list_ex_iff not_le[symmetric] split: if_splits)

lemma text_ok_mono: "text_ok m s \<Longrightarrow> m \<le> n \<Longrightarrow> text_ok n s"
  by (auto simp: text_ok_def)

lemma optional_bounded_eq_Inr [simp]:
  "optional_bounded m v = Inr w \<longleftrightarrow> w = v \<and> (\<forall>s. v = Some s \<longrightarrow> text_ok m s)"
  by (auto simp: optional_bounded_def split: option.splits)

lemma positive_eq_Inr [simp]: "positive n = Inr m \<longleftrightarrow> m = n \<and> 1 \<le> n"
  by (auto simp: positive_def)

lemma nonnegative_eq_Inr [simp]: "nonnegative n = Inr m \<longleftrightarrow> m = n \<and> 0 \<le> n"
  by (auto simp: nonnegative_def)

lemma hex_chars_printable: "c \<in> set hex_chars \<Longrightarrow> 32 \<le> (of_char c :: nat)"
  by (auto simp: hex_chars_def)

lemma sha256_text_eq_Inr [simp]: "sha256_text s = Inr t \<longleftrightarrow> t = s \<and> is_sha256_text s"
  by (auto simp: sha256_text_def is_sha256_text_def text_ok_def list_all_iff hex_chars_printable
      split: if_splits)

lemma is_uuid_text_printable:
  assumes "is_uuid_text s" and "c \<in> set s"
  shows "32 \<le> (of_char c :: nat)"
proof -
  from assms(2) obtain i where i: "i < length s" "c = s ! i"
    by (auto simp: in_set_conv_nth)
  then have "(i, c) \<in> set (enumerate 0 s)"
    by (auto simp: in_set_enumerate_eq)
  with assms(1) have "c = CHR ''-'' \<or> c \<in> set hex_chars"
    by (auto simp: is_uuid_text_def list_all_iff split: if_splits)
  then show ?thesis by (auto simp: hex_chars_printable)
qed

lemma uuid_text_eq_Inr [simp]: "uuid_text s = Inr t \<longleftrightarrow> t = s \<and> is_uuid_text s"
proof -
  have "is_uuid_text s \<Longrightarrow> s \<noteq> [] \<and> length s \<le> max_id"
    by (auto simp: is_uuid_text_def max_id_def)
  then show ?thesis
    by (auto simp: uuid_text_def text_ok_def is_uuid_text_printable split: if_splits)
qed

subsection \<open>Absolute paths\<close>

text \<open>
  \<open>pathlib.Path\<close> and \<open>os.path.normpath\<close> on POSIX text: both split at slashes and drop
  empty and \<open>.\<close> components; exactly two leading slashes are a root of their own.
\<close>

fun split_on :: "char \<Rightarrow> string \<Rightarrow> string list" where
  "split_on sep [] = [[]]"
| "split_on sep (c # cs) =
     (if c = sep then [] # split_on sep cs
      else (case split_on sep cs of [] \<Rightarrow> [[c]] | w # ws \<Rightarrow> (c # w) # ws))"

definition path_root :: "string \<Rightarrow> string" where
  "path_root s =
     (if take 2 s = ''//'' \<and> take 3 s \<noteq> ''///'' then ''//''
      else if take 1 s = ''/'' then ''/'' else [])"

definition path_components :: "string \<Rightarrow> string list" where
  "path_components s = filter (\<lambda>c. c \<noteq> [] \<and> c \<noteq> ''.'') (split_on (CHR ''/'') s)"

definition pure_path_text :: "string \<Rightarrow> string" where
  "pure_path_text s =
     (let t = path_root s @ join_text ''/'' (path_components s)
      in if t = [] then ''.'' else t)"

fun normpath_stack :: "bool \<Rightarrow> string list \<Rightarrow> string list \<Rightarrow> string list" where
  "normpath_stack rooted acc [] = rev acc"
| "normpath_stack rooted acc (c # cs) =
     (if c \<noteq> ''..'' \<or> (\<not> rooted \<and> acc = []) \<or> (acc \<noteq> [] \<and> hd acc = ''..'')
      then normpath_stack rooted (c # acc) cs
      else normpath_stack rooted (tl acc) cs)"

definition normpath :: "string \<Rightarrow> string" where
  "normpath s =
     (let t = path_root s
                @ join_text ''/'' (normpath_stack (path_root s \<noteq> []) [] (path_components s))
      in if t = [] then ''.'' else t)"

definition safe_absolute_path :: "string \<Rightarrow> broker_error + string" where
  "safe_absolute_path s =
     bind_res (bounded max_path s) (\<lambda>text.
       if path_root text = [] \<or> ''..'' \<in> set (path_components text)
            \<or> pure_path_text text \<noteq> normpath text
       then Inl RegistryCorruptError
       else Inr text)"

lemma normpath_stack_no_dotdot:
  "''..'' \<notin> set cs \<Longrightarrow> normpath_stack r acc cs = rev acc @ cs"
  by (induction cs arbitrary: acc) auto

text \<open>
  Without a \<open>..\<close> component the two normal forms agree, so the last test of the source never
  fails: an absolute path is accepted in any spelling.
\<close>

definition path_ok :: "string \<Rightarrow> bool" where
  "path_ok s \<longleftrightarrow>
     text_ok max_path s \<and> path_root s \<noteq> [] \<and> ''..'' \<notin> set (path_components s)"

lemma safe_absolute_path_eq_Inr [simp]: "safe_absolute_path s = Inr t \<longleftrightarrow> t = s \<and> path_ok s"
  by (auto simp: safe_absolute_path_def path_ok_def normpath_def pure_path_text_def normpath_stack_no_dotdot
      split: if_splits)

section \<open>Reading mappings\<close>

definition json_text :: "json \<Rightarrow> broker_error + string" where
  "json_text j = (case j of JStr s \<Rightarrow> Inr s | _ \<Rightarrow> Inl RegistryCorruptError)"

definition json_bounded :: "nat \<Rightarrow> json \<Rightarrow> broker_error + string" where
  "json_bounded maximum j = bind_res (json_text j) (bounded maximum)"

definition json_optional :: "(json \<Rightarrow> broker_error + 'a) \<Rightarrow> json \<Rightarrow> broker_error + 'a option" where
  "json_optional f j =
     (if j = JNull then Inr None else bind_res (f j) (\<lambda>x. Inr (Some x)))"

definition json_int :: "(int \<Rightarrow> broker_error + int) \<Rightarrow> json \<Rightarrow> broker_error + int" where
  "json_int f j = (case j of JInt n \<Rightarrow> f n | _ \<Rightarrow> Inl RegistryCorruptError)"

definition json_sha256 :: "json \<Rightarrow> broker_error + string" where
  "json_sha256 j = bind_res (json_text j) sha256_text"

definition json_uuid :: "json \<Rightarrow> broker_error + string" where
  "json_uuid j = bind_res (json_text j) uuid_text"

definition json_path :: "json \<Rightarrow> broker_error + string" where
  "json_path j = bind_res (json_text j) safe_absolute_path"

lemma json_text_eq_Inr [simp]: "json_text j = Inr s \<longleftrightarrow> j = JStr s"
  by (auto simp: json_text_def split: json.splits)

lemma json_bounded_eq_Inr [simp]:
  "json_bounded m j = Inr s \<longleftrightarrow> j = JStr s \<and> text_ok m s"
  by (auto simp: json_bounded_def)

lemma json_optional_eq_Inr:
  "json_optional f j = Inr v \<longleftrightarrow>
     (case v of None \<Rightarrow> j = JNull | Some x \<Rightarrow> j \<noteq> JNull \<and> f j = Inr x)"
  by (auto simp: json_optional_def split: option.splits)

lemma json_int_eq_Inr [simp]: "json_int f j = Inr n \<longleftrightarrow> (\<exists>m. j = JInt m \<and> f m = Inr n)"
  by (auto simp: json_int_def split: json.splits)

lemma json_sha256_eq_Inr [simp]: "json_sha256 j = Inr s \<longleftrightarrow> j = JStr s \<and> is_sha256_text s"
  by (auto simp: json_sha256_def)

lemma json_uuid_eq_Inr [simp]: "json_uuid j = Inr s \<longleftrightarrow> j = JStr s \<and> is_uuid_text s"
  by (auto simp: json_uuid_def)

lemma json_path_eq_Inr [simp]:
  "json_path j = Inr s \<longleftrightarrow> j = JStr s \<and> path_ok s"
  by (auto simp: json_path_def)

text \<open>
  \<open>dict(value)\<close>: a mapping is copied and a list of pairs with string keys is accepted as
  one; any other non-empty value raises a built-in exception.
\<close>

fun json_pair :: "json \<Rightarrow> (string \<times> json) option" where
  "json_pair (JArr [JStr k, v]) = Some (k, v)"
| "json_pair (JStr [c, d]) = Some ([c], JStr [d])"
| "json_pair _ = None"

fun dict_of_pairs :: "json dict \<Rightarrow> json list \<Rightarrow> broker_error + json dict" where
  "dict_of_pairs d [] = Inr d"
| "dict_of_pairs d (x # xs) =
     (case json_pair x of None \<Rightarrow> Inl PyTypeError | Some (k, v) \<Rightarrow> dict_of_pairs (dset k v d) xs)"

definition py_dict_of :: "json \<Rightarrow> broker_error + json dict" where
  "py_dict_of j =
     (case j of
        JObj kvs \<Rightarrow> Inr kvs
      | JArr xs \<Rightarrow> dict_of_pairs [] xs
      | JStr [] \<Rightarrow> Inr []
      | _ \<Rightarrow> Inl PyTypeError)"

definition same_keys :: "json dict \<Rightarrow> string list \<Rightarrow> bool" where
  "same_keys kvs keys \<longleftrightarrow> set (dkeys kvs) = set keys"

definition closed_mapping :: "json dict \<Rightarrow> string list \<Rightarrow> broker_error + json dict" where
  "closed_mapping kvs keys =
     (if same_keys kvs keys then Inr kvs else Inl RegistryCorruptError)"

definition tolerant_mapping ::
    "json dict \<Rightarrow> string list \<Rightarrow> broker_error + (json dict \<times> json dict)" where
  "tolerant_mapping kvs keys =
     (if list_all (\<lambda>k. k \<in> set (dkeys kvs)) keys
      then Inr (filter (\<lambda>p. fst p \<in> set keys) kvs, filter (\<lambda>p. fst p \<notin> set keys) kvs)
      else Inl RegistryCorruptError)"

definition jfield :: "json dict \<Rightarrow> string \<Rightarrow> json" where
  "jfield kvs k = (case dget kvs k of Some v \<Rightarrow> v | None \<Rightarrow> JNull)"

definition extras_serialized_size :: "json dict \<Rightarrow> nat" where
  "extras_serialized_size extras =
     (if extras = [] then 0 else length (canonical_json (JObj extras)))"

lemma max_extras_bytes_code [code_unfold]: "n \<le> max_extras_bytes \<longleftrightarrow> int n \<le> 65536"
  by (simp add: max_extras_bytes_def)

section \<open>Resource references\<close>

text \<open>
  A canonical resource reference: what \<open>canonical_resource_ref\<close> returns, with its two closed
  shapes as constructors.
\<close>

datatype resource_ref =
    AgentRef (ref_unit: string) (ref_worktree: "string option")
  | WorktreeRef (ref_repo: string) (ref_outcome: string) (ref_subplot: string)

fun resource_ref_json :: "resource_ref \<Rightarrow> json" where
  "resource_ref_json (AgentRef u None) = JObj [(''logical_unit_id'', JStr u)]"
| "resource_ref_json (AgentRef u (Some w)) =
     JObj [(''logical_unit_id'', JStr u), (''worktree_root'', JStr w)]"
| "resource_ref_json (WorktreeRef r oc sp) =
     JObj [(''repo_root'', JStr r), (''outcome_id'', JStr oc), (''subplot_id'', JStr sp)]"

definition worktree_resource_keys :: "string list" where
  "worktree_resource_keys = [''repo_root'', ''outcome_id'', ''subplot_id'']"

definition canonical_resource_ref :: "pool \<Rightarrow> json \<Rightarrow> broker_error + resource_ref" where
  "canonical_resource_ref pl j =
     (case j of
        JObj data \<Rightarrow>
          (case pl of
             AgentPool \<Rightarrow>
               if list_ex (\<lambda>k. k \<notin> {''logical_unit_id'', ''worktree_root''}) (dkeys data)
                    \<or> dget data ''logical_unit_id'' = None
               then Inl RegistryCorruptError
               else bind_res (json_bounded max_id (jfield data ''logical_unit_id'')) (\<lambda>u.
                 if dget data ''worktree_root'' = None then Inr (AgentRef u None)
                 else bind_res (json_path (jfield data ''worktree_root'')) (\<lambda>w.
                   Inr (AgentRef u (Some w))))
           | WorktreePool \<Rightarrow>
               bind_res (closed_mapping data worktree_resource_keys) (\<lambda>_.
               bind_res (json_path (jfield data ''repo_root'')) (\<lambda>r.
               bind_res (json_bounded max_id (jfield data ''outcome_id'')) (\<lambda>oc.
               bind_res (json_bounded max_id (jfield data ''subplot_id'')) (\<lambda>sp.
               Inr (WorktreeRef r oc sp))))))
      | _ \<Rightarrow> Inl RegistryCorruptError)"

definition ref_pool :: "resource_ref \<Rightarrow> pool" where
  "ref_pool r = (case r of AgentRef _ _ \<Rightarrow> AgentPool | WorktreeRef _ _ _ \<Rightarrow> WorktreePool)"

fun ref_ok :: "resource_ref \<Rightarrow> bool" where
  "ref_ok (AgentRef u w) \<longleftrightarrow> text_ok max_id u \<and> (\<forall>t. w = Some t \<longrightarrow> path_ok t)"
| "ref_ok (WorktreeRef r oc sp) \<longleftrightarrow> path_ok r \<and> text_ok max_id oc \<and> text_ok max_id sp"

section \<open>Hashing and fencing tokens\<close>

text \<open>
  What the broker takes from the standard library and the host and never looks into: the SHA-256
  hex digest of a text, and whether \<open>datetime.fromisoformat\<close> reads a text as a timestamp with
  an offset.
\<close>

record host =
  sha256 :: "string \<Rightarrow> string"
  iso_utc :: "string \<Rightarrow> bool"

definition host_ok :: "host \<Rightarrow> bool" where
  "host_ok h \<longleftrightarrow> (\<forall>s. is_sha256_text (sha256 h s))"

definition resource_sha256 :: "host \<Rightarrow> resource_ref \<Rightarrow> string" where
  "resource_sha256 h r = sha256 h (canonical_json (resource_ref_json r))"

definition record_sha256 :: "host \<Rightarrow> json dict \<Rightarrow> string list \<Rightarrow> string" where
  "record_sha256 h value excluded =
     sha256 h (canonical_json (JObj (filter (\<lambda>p. fst p \<notin> set excluded) value)))"

definition parse_utc :: "host \<Rightarrow> json \<Rightarrow> broker_error + string" where
  "parse_utc h j =
     bind_res (json_bounded max_id j) (\<lambda>t. if iso_utc h t then Inr t else Inl RegistryCorruptError)"

lemma parse_utc_eq_Inr [simp]:
  "parse_utc h j = Inr s \<longleftrightarrow> j = JStr s \<and> text_ok max_id s \<and> iso_utc h s"
  by (auto simp: parse_utc_def split: if_splits)

datatype fencing_token = FencingToken (tok_epoch: string) (tok_seq: int)

definition token_keys :: "string list" where
  "token_keys = [''broker_epoch'', ''fencing_sequence'']"

definition token_to_json :: "fencing_token \<Rightarrow> json" where
  "token_to_json t = JObj [(''broker_epoch'', JStr (tok_epoch t)), (''fencing_sequence'', JInt (tok_seq t))]"

text \<open>Every call site pins the exact shape before \<open>FencingToken.from_dict\<close>.\<close>

definition token_from_json :: "json \<Rightarrow> broker_error + fencing_token" where
  "token_from_json j =
     (case j of
        JObj data \<Rightarrow>
          if same_keys data token_keys
          then bind_res (json_uuid (jfield data ''broker_epoch'')) (\<lambda>e.
               bind_res (json_int positive (jfield data ''fencing_sequence'')) (\<lambda>n.
               Inr (FencingToken e n)))
          else Inl RegistryCorruptError
      | _ \<Rightarrow> Inl RegistryCorruptError)"

definition token_generation :: "fencing_token \<Rightarrow> string" where
  "token_generation t = tok_epoch t @ '':'' @ int_text (tok_seq t)"

definition token_ok :: "fencing_token \<Rightarrow> bool" where
  "token_ok t \<longleftrightarrow> is_uuid_text (tok_epoch t) \<and> 1 \<le> tok_seq t"

section \<open>Reading back what was written\<close>

lemma fst_set_norm_items [simp]: "fst ` set (norm_items kvs) = fst ` set kvs"
  using set_dkeys_norm_items [of kvs] by simp

lemma jfield_norm_items [simp]: "wf_dict kvs \<Longrightarrow> jfield (norm_items kvs) k = json_norm (jfield kvs k)"
  by (auto simp: jfield_def split: option.splits)

lemma jfield_known [simp]:
  "k \<in> set keys \<Longrightarrow> jfield (filter (\<lambda>p. fst p \<in> set keys) kvs) k = jfield kvs k"
proof -
  assume "k \<in> set keys"
  then have "dget (filter (\<lambda>p. fst p \<in> set keys) kvs) k = dget kvs k"
    by (induction kvs) auto
  then show ?thesis by (simp add: jfield_def)
qed

lemma tolerant_mapping_eq_Inr [simp]:
  "tolerant_mapping kvs keys = Inr (d, extras) \<longleftrightarrow>
     (\<forall>k \<in> set keys. k \<in> set (dkeys kvs))
     \<and> d = filter (\<lambda>p. fst p \<in> set keys) kvs \<and> extras = filter (\<lambda>p. fst p \<notin> set keys) kvs"
  by (auto simp: tolerant_mapping_def list_all_iff)

lemma json_text_norm [simp]: "json_text (json_norm j) = json_text j"
  by (cases j) (simp_all add: json_text_def)

lemma json_int_norm [simp]: "json_int f (json_norm j) = json_int f j"
  by (cases j) (simp_all add: json_int_def)

lemma json_norm_eq_JNull [simp]: "json_norm j = JNull \<longleftrightarrow> j = JNull"
  by (cases j) simp_all

lemma json_norm_eq_JStr [simp]: "json_norm j = JStr s \<longleftrightarrow> j = JStr s"
  by (cases j) simp_all

lemma json_bounded_norm [simp]: "json_bounded m (json_norm j) = json_bounded m j"
  by (simp add: json_bounded_def)

lemma json_sha256_norm [simp]: "json_sha256 (json_norm j) = json_sha256 j"
  by (simp add: json_sha256_def)

lemma json_uuid_norm [simp]: "json_uuid (json_norm j) = json_uuid j"
  by (simp add: json_uuid_def)

lemma json_path_norm [simp]: "json_path (json_norm j) = json_path j"
  by (simp add: json_path_def)

lemma parse_utc_norm [simp]: "parse_utc h (json_norm j) = parse_utc h j"
  by (simp add: parse_utc_def)

lemma json_optional_norm:
  "(\<And>k. f (json_norm k) = f k) \<Longrightarrow> json_optional f (json_norm j) = json_optional f j"
  by (simp add: json_optional_def)

lemma canonical_resource_ref_json:
  "ref_ok r \<Longrightarrow> canonical_resource_ref (ref_pool r) (resource_ref_json r) = Inr r"
  by (cases r rule: resource_ref_json.cases)
     (auto simp: canonical_resource_ref_def ref_pool_def jfield_def list_ex_iff wf_dict_def
       closed_mapping_def same_keys_def worktree_resource_keys_def)

lemma canonical_resource_ref_sound:
  "canonical_resource_ref pl j = Inr r \<Longrightarrow> ref_ok r \<and> ref_pool r = pl"
  by (auto simp: canonical_resource_ref_def ref_pool_def split: json.splits pool.splits if_splits)
lemma filter_norm_items:
  "filter (\<lambda>p. fst p \<notin> ks) (norm_items kvs) = norm_items (filter (\<lambda>p. fst p \<notin> ks) kvs)"
  by (simp add: norm_items_def filter_dsort filter_map comp_def case_prod_unfold)

end
