(* ===== verification/Lease_Records.thy ===== *)
theory Lease_Records
  imports Lease_Values
begin

text \<open>
  The records of the lease registry (\<open>Lease\<close>, \<open>SettlementRecord\<close>, \<open>ResourceFence\<close>,
  \<open>SessionAdmission\<close>, \<open>OwnerAdmissionClose\<close> and the canonical settlement close) with their
  \<open>from_dict\<close> and \<open>to_dict\<close>.  A dictionary field is read through \<^term>\<open>jfield\<close>, so the
  order of the keys in the document does not matter.
\<close>

section \<open>Documents with preserved unknown fields\<close>

definition extras_ok :: "string list \<Rightarrow> json dict \<Rightarrow> bool" where
  "extras_ok keys extras \<longleftrightarrow>
     json_wf (JObj extras) \<and> (\<forall>k \<in> set (dkeys extras). k \<notin> set keys)"

lemma filter_extras:
  assumes "\<forall>k \<in> set (dkeys known). k \<in> set keys" and "extras_ok keys extras"
  shows "filter (\<lambda>p. fst p \<notin> set keys) (known @ extras) = extras"
proof -
  have "filter (\<lambda>p. fst p \<notin> set keys) known = []"
    using assms(1) by (auto simp: filter_empty_conv)
  moreover have "filter (\<lambda>p. fst p \<notin> set keys) extras = extras"
    using assms(2) by (auto simp: extras_ok_def filter_id_conv)
  ultimately show ?thesis by simp
qed

lemma jfield_append: "jfield (known @ extras) k =
  (case dget known k of Some v \<Rightarrow> v | None \<Rightarrow> jfield extras k)"
  by (simp add: jfield_def map_add_def split: option.splits)

lemma extras_ok_filter:
  "json_wf (JObj d) \<Longrightarrow> extras_ok keys (filter (\<lambda>p. fst p \<notin> set keys) d)"
  by (auto simp: extras_ok_def wf_dict_def distinct_map_filter list_all_iff)

lemma json_wf_obj_iff:
  "json_wf (JObj d) \<longleftrightarrow> wf_dict d \<and> (\<forall>k v. dget d k = Some v \<longrightarrow> json_wf v)"
  by (auto simp: list_all_iff dict.lookup_items)

lemma dset_json_wf: "json_wf (JObj d) \<Longrightarrow> json_wf v \<Longrightarrow> json_wf (JObj (dset k v d))"
  unfolding json_wf_obj_iff by (auto split: if_splits)

lemma dict_of_pairs_json_wf:
  "dict_of_pairs d xs = Inr d' \<Longrightarrow> json_wf (JObj d) \<Longrightarrow> list_all json_wf xs \<Longrightarrow> json_wf (JObj d')"
proof (induction d xs rule: dict_of_pairs.induct)
  case (2 d x xs)
  from "2.prems"(1) obtain k v where kv: "json_pair x = Some (k, v)"
    by (auto split: option.splits)
  with "2.prems" have "dict_of_pairs (dset k v d) xs = Inr d'" "list_all json_wf xs" by auto
  moreover have "json_wf (JObj (dset k v d))"
  proof (rule dset_json_wf)
    show "json_wf (JObj d)" by fact
    show "json_wf v" using kv "2.prems"(3) by (cases x rule: json_pair.cases) auto
  qed
  ultimately show ?case using "2.IH" kv by blast
qed simp

lemma py_dict_of_json_wf:
  assumes "py_dict_of j = Inr d" and "json_wf j"
  shows "json_wf (JObj d)"
proof (cases j)
  case (JArr xs)
  then show ?thesis
    using assms dict_of_pairs_json_wf [of "[]" xs d] by (simp add: py_dict_of_def)
qed (use assms in \<open>auto simp: py_dict_of_def split: list.splits\<close>)

lemma json_optional_SomeD: "json_optional f j = Inr (Some x) \<Longrightarrow> f j = Inr x"
  by (simp add: json_optional_eq_Inr)

text \<open>One fact per container: a document written by \<open>to_dict\<close> is read back.\<close>

lemma tolerant_mapping_written:
  assumes "dkeys known = keys" and "distinct keys" and "extras_ok keys extras"
  shows "wf_dict (known @ extras)"
    and "tolerant_mapping (known @ extras) keys =
      Inr (filter (\<lambda>p. fst p \<in> set keys) (known @ extras), extras)"
    and "k \<in> set keys \<Longrightarrow>
      jfield (filter (\<lambda>p. fst p \<in> set keys) (known @ extras)) k = the (dget known k)"
proof -
  show "wf_dict (known @ extras)"
    using assms by (auto simp: wf_dict_def extras_ok_def)
  have "filter (\<lambda>p. fst p \<notin> set keys) (known @ extras) = extras"
    by (rule filter_extras) (use assms in auto)
  then show "tolerant_mapping (known @ extras) keys =
      Inr (filter (\<lambda>p. fst p \<in> set keys) (known @ extras), extras)"
    using assms(1) by auto
  assume k: "k \<in> set keys"
  then obtain v where "dget known k = Some v"
    using assms(1) by (metis dkeys_lookup not_None_eq)
  with k show "jfield (filter (\<lambda>p. fst p \<in> set keys) (known @ extras)) k = the (dget known k)"
    by (simp add: jfield_append del: filter_append)
qed

text \<open>
  Reading does not see the order a document was written in: every field reader gives the same
  value on the reordered field, so a container differs only in the order of its unknown fields.
\<close>

lemma wf_dict_filter [simp]: "wf_dict d \<Longrightarrow> wf_dict (filter P d)"
  by (auto simp: wf_dict_def distinct_map_filter)

lemma filter_norm_known:
  "filter (\<lambda>p. fst p \<in> ks) (norm_items kvs) = norm_items (filter (\<lambda>p. fst p \<in> ks) kvs)"
  by (simp add: norm_items_def filter_dsort filter_map comp_def case_prod_unfold)

lemma tolerant_mapping_norm:
  "tolerant_mapping (norm_items kvs) keys =
     map_sum id (\<lambda>(d, extras). (norm_items d, norm_items extras)) (tolerant_mapping kvs keys)"
  by (simp add: tolerant_mapping_def filter_norm_items filter_norm_known)

lemma map_sum_bind_res:
  "map_sum id g (bind_res m f) = bind_res m (\<lambda>x. map_sum id g (f x))"
  by (cases m) simp_all

lemma map_sum_id_simps [simp]:
  "map_sum id g (Inl e) = Inl e" "map_sum id g (Inr x) = Inr (g x)"
  by simp_all

lemma bind_res_map_sum: "bind_res (map_sum id g m) f = bind_res m (\<lambda>x. f (g x))"
  by (cases m) simp_all

lemma json_wf_jfield [simp]: "json_wf (JObj d) \<Longrightarrow> json_wf (jfield d k)"
  by (auto simp: jfield_def list_all_iff split: option.splits dest: map_of_SomeD)

lemma json_wf_filter: "json_wf (JObj d) \<Longrightarrow> json_wf (JObj (filter P d))"
  by (auto simp: list_all_iff)

lemma json_optional_norm_wf:
  "(json_wf j \<Longrightarrow> f (json_norm j) = f j) \<Longrightarrow> json_wf j \<Longrightarrow>
     json_optional f (json_norm j) = json_optional f j"
  by (simp add: json_optional_def)

lemma canonical_resource_ref_norm:
  "json_wf j \<Longrightarrow> canonical_resource_ref pl (json_norm j) = canonical_resource_ref pl j"
  by (cases j)
     (auto simp: canonical_resource_ref_def list_ex_iff closed_mapping_def same_keys_def
       split: pool.split cong: if_cong)

lemma json_optional_norms [simp]:
  "json_optional (json_bounded m) (json_norm j) = json_optional (json_bounded m) j"
  "json_optional (parse_utc h) (json_norm j) = json_optional (parse_utc h) j"
  "json_optional (json_int f) (json_norm j) = json_optional (json_int f) j"
  "json_optional json_sha256 (json_norm j) = json_optional json_sha256 j"
  by (simp_all add: json_optional_norm)

lemma json_optional_ref_norm:
  "json_wf j \<Longrightarrow> json_optional (canonical_resource_ref pl) (json_norm j)
     = json_optional (canonical_resource_ref pl) j"
  by (simp add: json_optional_norm_wf canonical_resource_ref_norm)

lemma json_optional_jopt:
  "(\<And>s. v = Some s \<Longrightarrow> f (JStr s) = Inr s) \<Longrightarrow> json_optional f (jopt v) = Inr v"
  by (cases v) (simp_all add: json_optional_def)
lemma json_optional_jopt_int:
  "(\<And>s. v = Some s \<Longrightarrow> f (JInt s) = Inr s) \<Longrightarrow> json_optional f (jopt_int v) = Inr v"
  by (cases v) (simp_all add: json_optional_def)
lemma resource_ref_json_not_null [simp]: "resource_ref_json m \<noteq> JNull"
  by (cases m rule: resource_ref_json.cases) simp_all

lemma json_optional_ref:
  "(\<And>r. v = Some r \<Longrightarrow> ref_ok r \<and> ref_pool r = p) \<Longrightarrow>
    json_optional (canonical_resource_ref p)
      (case v of None \<Rightarrow> JNull | Some r \<Rightarrow> resource_ref_json r) = Inr v"
  using canonical_resource_ref_json by (cases v) (auto simp: json_optional_def)

definition opt_text_ok :: "string option \<Rightarrow> bool" where
  "opt_text_ok v \<longleftrightarrow> (\<forall>s. v = Some s \<longrightarrow> text_ok max_id s)"

definition utc_ok :: "host \<Rightarrow> string \<Rightarrow> bool" where
  "utc_ok h s \<longleftrightarrow> text_ok max_id s \<and> iso_utc h s"

definition opt_utc_ok :: "host \<Rightarrow> string option \<Rightarrow> bool" where
  "opt_utc_ok h v \<longleftrightarrow> (\<forall>s. v = Some s \<longrightarrow> utc_ok h s)"

lemma json_optional_text: "json_optional (json_bounded max_id) j = Inr v \<Longrightarrow> opt_text_ok v"
  by (auto simp: opt_text_ok_def json_optional_eq_Inr)

lemma json_optional_utc: "json_optional (parse_utc h) j = Inr v \<Longrightarrow> opt_utc_ok h v"
  by (auto simp: opt_utc_ok_def utc_ok_def json_optional_eq_Inr)

lemma json_optional_refD:
  "json_optional (canonical_resource_ref p) j = Inr v \<Longrightarrow>
     \<forall>r. v = Some r \<longrightarrow> ref_ok r \<and> ref_pool r = p"
  by (auto simp: json_optional_eq_Inr dest: canonical_resource_ref_sound)

lemma json_optional_positive:
  "json_optional (json_int positive) j = Inr v \<Longrightarrow> \<forall>n. v = Some n \<longrightarrow> 1 \<le> n"
  by (auto simp: json_optional_eq_Inr)

lemmas json_optional_sound = 
  json_optional_text json_optional_utc json_optional_refD json_optional_positive

section \<open>Leases\<close>

record lease =
  l_lease_id :: string
  l_pool :: pool
  l_owner_id :: string
  l_owner_pid :: "int option"
  l_owner_process_start :: "string option"
  l_session_id :: string
  l_agent_id :: "string option"
  l_tool_use_id :: "string option"
  l_agent_type :: "string option"
  l_batch_id :: "string option"
  l_resource_ref :: "resource_ref option"
  l_policy_sha256 :: "string option"
  l_session_limit :: "int option"
  l_aggregate_limit :: "int option"
  l_mutation :: "mutation_mode option"
  l_boot_id :: string
  l_acquired_at :: string
  l_renewed_at :: string
  l_renewed_monotonic_ns :: int
  l_claimed_at :: "string option"
  l_child_terminal_at :: "string option"
  l_parent_completed_at :: "string option"
  l_ttl_seconds :: int
  l_broker_epoch :: string
  l_fencing_sequence :: int
  l_extras :: "json dict"

definition l_token :: "lease \<Rightarrow> fencing_token" where
  "l_token l = FencingToken (l_broker_epoch l) (l_fencing_sequence l)"

definition lease_keys :: "string list" where
  "lease_keys =
     [''pool'', ''owner_id'', ''owner_pid'', ''owner_process_start'', ''session_id'', ''agent_id'',
      ''tool_use_id'', ''agent_type'', ''batch_id'', ''resource_ref'', ''policy_sha256'',
      ''session_limit'', ''aggregate_limit'', ''mutation'', ''boot_id'', ''acquired_at'',
      ''renewed_at'', ''renewed_monotonic_ns'', ''claimed_at'', ''child_terminal_at'',
      ''parent_completed_at'', ''ttl_seconds'', ''fencing_sequence'']"

fun pool_json :: "pool \<Rightarrow> json" where
  "pool_json AgentPool = JStr ''agent''"
| "pool_json WorktreePool = JStr ''worktree''"

definition pool_from_json :: "json \<Rightarrow> broker_error + pool" where
  "pool_from_json j =
     (if j = JStr ''agent'' then Inr AgentPool
      else if j = JStr ''worktree'' then Inr WorktreePool
      else Inl RegistryCorruptError)"

fun mutation_json :: "mutation_mode \<Rightarrow> json" where
  "mutation_json ReadWrite = JStr ''read-write''"
| "mutation_json MutationNone = JStr ''none''"

definition mutation_from_json :: "json \<Rightarrow> broker_error + mutation_mode" where
  "mutation_from_json j =
     (if j = JStr ''read-write'' then Inr ReadWrite
      else if j = JStr ''none'' then Inr MutationNone
      else Inl RegistryCorruptError)"

text \<open>The admission fields of a lease: all present for an agent, all null for a worktree.\<close>

type_synonym admission_fields =
  "string option \<times> int option \<times> int option \<times> mutation_mode option"

definition lease_admission_from_json ::
    "pool \<Rightarrow> json dict \<Rightarrow> resource_ref option \<Rightarrow> broker_error + admission_fields" where
  "lease_admission_from_json pl d res =
     (case pl of
        AgentPool \<Rightarrow>
          bind_res (json_sha256 (jfield d ''policy_sha256'')) (\<lambda>policy.
          bind_res (json_int positive (jfield d ''session_limit'')) (\<lambda>sl.
          bind_res (json_int positive (jfield d ''aggregate_limit'')) (\<lambda>al.
          bind_res (guard_res (sl \<le> al) RegistryCorruptError) (\<lambda>_.
          bind_res (mutation_from_json (jfield d ''mutation'')) (\<lambda>m.
          Inr (Some policy, Some sl, Some al, Some m))))))
      | WorktreePool \<Rightarrow>
          bind_res (guard_res (jfield d ''policy_sha256'' = JNull \<and> jfield d ''session_limit'' = JNull
                \<and> jfield d ''aggregate_limit'' = JNull \<and> jfield d ''mutation'' = JNull)
              RegistryCorruptError) (\<lambda>_.
          bind_res (guard_res (res \<noteq> None) RegistryCorruptError) (\<lambda>_.
          Inr (None, None, None, None))))"

definition lease_from_json ::
    "host \<Rightarrow> string \<Rightarrow> json \<Rightarrow> string \<Rightarrow> broker_error + lease" where
  "lease_from_json h lease_id j epoch =
     bind_res (py_dict_of j) (\<lambda>data.
     bind_res (tolerant_mapping data lease_keys) (\<lambda>(d, extras).
     bind_res (pool_from_json (jfield d ''pool'')) (\<lambda>pl.
     bind_res (json_optional (canonical_resource_ref pl) (jfield d ''resource_ref'')) (\<lambda>res.
     bind_res (json_optional (json_int positive) (jfield d ''owner_pid'')) (\<lambda>pid.
     bind_res (lease_admission_from_json pl d res) (\<lambda>(policy, sl, al, m).
     bind_res (json_optional (json_bounded max_id) (jfield d ''agent_id'')) (\<lambda>agent.
     bind_res (json_optional (parse_utc h) (jfield d ''claimed_at'')) (\<lambda>claimed.
     bind_res (guard_res (\<not> (agent = None \<and> claimed \<noteq> None)) RegistryCorruptError) (\<lambda>_.
     bind_res (guard_res (\<not> (agent \<noteq> None \<and> (claimed = None \<or> res = None)))
       RegistryCorruptError) (\<lambda>_.
     bind_res (bounded max_id lease_id) (\<lambda>lid.
     bind_res (json_bounded max_id (jfield d ''owner_id'')) (\<lambda>owner.
     bind_res (json_optional (json_bounded max_id) (jfield d ''owner_process_start'')) (\<lambda>start.
     bind_res (json_bounded max_id (jfield d ''session_id'')) (\<lambda>session.
     bind_res (json_optional (json_bounded max_id) (jfield d ''tool_use_id'')) (\<lambda>tool.
     bind_res (json_optional (json_bounded max_id) (jfield d ''agent_type'')) (\<lambda>kind.
     bind_res (json_optional (json_bounded max_id) (jfield d ''batch_id'')) (\<lambda>batch.
     bind_res (json_bounded max_id (jfield d ''boot_id'')) (\<lambda>boot.
     bind_res (parse_utc h (jfield d ''acquired_at'')) (\<lambda>acquired.
     bind_res (parse_utc h (jfield d ''renewed_at'')) (\<lambda>renewed.
     bind_res (json_int nonnegative (jfield d ''renewed_monotonic_ns'')) (\<lambda>mono.
     bind_res (json_optional (parse_utc h) (jfield d ''child_terminal_at'')) (\<lambda>child.
     bind_res (json_optional (parse_utc h) (jfield d ''parent_completed_at'')) (\<lambda>parent.
     bind_res (json_int positive (jfield d ''ttl_seconds'')) (\<lambda>ttl.
     bind_res (json_int positive (jfield d ''fencing_sequence'')) (\<lambda>seq.
     Inr \<lparr>l_lease_id = lid, l_pool = pl, l_owner_id = owner, l_owner_pid = pid,
          l_owner_process_start = start, l_session_id = session, l_agent_id = agent,
          l_tool_use_id = tool, l_agent_type = kind, l_batch_id = batch, l_resource_ref = res,
          l_policy_sha256 = policy, l_session_limit = sl, l_aggregate_limit = al, l_mutation = m,
          l_boot_id = boot, l_acquired_at = acquired, l_renewed_at = renewed,
          l_renewed_monotonic_ns = mono, l_claimed_at = claimed, l_child_terminal_at = child,
          l_parent_completed_at = parent, l_ttl_seconds = ttl, l_broker_epoch = epoch,
          l_fencing_sequence = seq, l_extras = extras\<rparr>)))))))))))))))))))))))))"

definition lease_known :: "lease \<Rightarrow> json dict" where
  "lease_known l =
     [(''pool'', pool_json (l_pool l)), (''owner_id'', JStr (l_owner_id l)),
      (''owner_pid'', jopt_int (l_owner_pid l)),
      (''owner_process_start'', jopt (l_owner_process_start l)),
      (''session_id'', JStr (l_session_id l)), (''agent_id'', jopt (l_agent_id l)),
      (''tool_use_id'', jopt (l_tool_use_id l)), (''agent_type'', jopt (l_agent_type l)),
      (''batch_id'', jopt (l_batch_id l)),
      (''resource_ref'', case l_resource_ref l of None \<Rightarrow> JNull | Some r \<Rightarrow> resource_ref_json r),
      (''policy_sha256'', jopt (l_policy_sha256 l)),
      (''session_limit'', jopt_int (l_session_limit l)),
      (''aggregate_limit'', jopt_int (l_aggregate_limit l)),
      (''mutation'', case l_mutation l of None \<Rightarrow> JNull | Some m \<Rightarrow> mutation_json m),
      (''boot_id'', JStr (l_boot_id l)), (''acquired_at'', JStr (l_acquired_at l)),
      (''renewed_at'', JStr (l_renewed_at l)),
      (''renewed_monotonic_ns'', JInt (l_renewed_monotonic_ns l)),
      (''claimed_at'', jopt (l_claimed_at l)),
      (''child_terminal_at'', jopt (l_child_terminal_at l)),
      (''parent_completed_at'', jopt (l_parent_completed_at l)),
      (''ttl_seconds'', JInt (l_ttl_seconds l)),
      (''fencing_sequence'', JInt (l_fencing_sequence l))]"

definition lease_items :: "lease \<Rightarrow> json dict" where
  "lease_items l = lease_known l @ l_extras l"

text \<open>The values \<open>from_dict\<close> produces.\<close>

fun admission_values_ok :: "pool \<Rightarrow> admission_fields \<Rightarrow> resource_ref option \<Rightarrow> bool" where
  "admission_values_ok AgentPool (Some policy, Some sl, Some al, Some m) res \<longleftrightarrow>
     is_sha256_text policy \<and> 1 \<le> sl \<and> 1 \<le> al \<and> sl \<le> al"
| "admission_values_ok WorktreePool (None, None, None, None) (Some res) \<longleftrightarrow> True"
| "admission_values_ok _ _ _ \<longleftrightarrow> False"

definition lease_admission_ok :: "lease \<Rightarrow> bool" where
  "lease_admission_ok l \<longleftrightarrow>
     admission_values_ok (l_pool l)
       (l_policy_sha256 l, l_session_limit l, l_aggregate_limit l, l_mutation l)
       (l_resource_ref l)"

definition lease_ok :: "host \<Rightarrow> string \<Rightarrow> string \<Rightarrow> lease \<Rightarrow> bool" where
  "lease_ok h lease_id epoch l \<longleftrightarrow>
     l_lease_id l = lease_id \<and> text_ok max_id lease_id \<and> l_broker_epoch l = epoch
     \<and> (\<forall>r. l_resource_ref l = Some r \<longrightarrow> ref_ok r \<and> ref_pool r = l_pool l)
     \<and> (\<forall>n. l_owner_pid l = Some n \<longrightarrow> 1 \<le> n)
     \<and> lease_admission_ok l
     \<and> (l_agent_id l = None \<longrightarrow> l_claimed_at l = None)
     \<and> (l_agent_id l \<noteq> None \<longrightarrow> l_claimed_at l \<noteq> None \<and> l_resource_ref l \<noteq> None)
     \<and> text_ok max_id (l_owner_id l)
     \<and> opt_text_ok (l_owner_process_start l)
     \<and> text_ok max_id (l_session_id l)
     \<and> opt_text_ok (l_agent_id l) \<and> opt_text_ok (l_tool_use_id l)
     \<and> opt_text_ok (l_agent_type l) \<and> opt_text_ok (l_batch_id l)
     \<and> text_ok max_id (l_boot_id l)
     \<and> utc_ok h (l_acquired_at l) \<and> utc_ok h (l_renewed_at l)
     \<and> 0 \<le> l_renewed_monotonic_ns l
     \<and> opt_utc_ok h (l_claimed_at l) \<and> opt_utc_ok h (l_child_terminal_at l)
     \<and> opt_utc_ok h (l_parent_completed_at l)
     \<and> 1 \<le> l_ttl_seconds l \<and> 1 \<le> l_fencing_sequence l
     \<and> extras_ok lease_keys (l_extras l)"

definition norm_lease :: "lease \<Rightarrow> lease" where
  "norm_lease l = l\<lparr>l_extras := norm_items (l_extras l)\<rparr>"

lemma pool_from_json_written [simp]: "pool_from_json (pool_json p) = Inr p"
  by (cases p) (simp_all add: pool_from_json_def)

lemma mutation_from_json_written [simp]: "mutation_from_json (mutation_json m) = Inr m"
  by (cases m) (simp_all add: mutation_from_json_def)

lemma json_norm_pool [simp]: "json_norm (pool_json p) = pool_json p"
  by (cases p) simp_all
lemma json_norm_mutation [simp]: "json_norm (mutation_json p) = mutation_json p"
  by (cases p) simp_all
lemma mutation_json_not_null [simp]: "mutation_json m \<noteq> JNull"
  by (cases m) simp_all
  
lemma json_norm_opt_mutation [simp]:
  "json_norm (case v of None \<Rightarrow> JNull | Some m \<Rightarrow> mutation_json m)
    = (case v of None \<Rightarrow> JNull | Some m \<Rightarrow> mutation_json m)"
  by (cases v) simp_all
lemma lease_admission_written:
  assumes "lease_admission_ok l"
    and "jfield d ''policy_sha256'' = jopt (l_policy_sha256 l)"
    and "jfield d ''session_limit'' = jopt_int (l_session_limit l)"
    and "jfield d ''aggregate_limit'' = jopt_int (l_aggregate_limit l)"
    and "jfield d ''mutation'' = (case l_mutation l of None \<Rightarrow> JNull | Some m \<Rightarrow> mutation_json m)"
  shows "lease_admission_from_json (l_pool l) d (l_resource_ref l) =
    Inr (l_policy_sha256 l, l_session_limit l, l_aggregate_limit l, l_mutation l)"
  using assms unfolding lease_admission_ok_def
  by (cases "(l_pool l,
        (l_policy_sha256 l, l_session_limit l, l_aggregate_limit l, l_mutation l),
        l_resource_ref l)" rule: admission_values_ok.cases)
     (auto simp: lease_admission_from_json_def)

lemma lease_roundtrip:
  assumes ok: "lease_ok h lid epoch l"
  shows "lease_from_json h lid (JObj (lease_items l)) epoch = Inr l"
proof -
  have keys: "dkeys (lease_known l) = lease_keys" "distinct lease_keys"
    by (simp_all add: lease_known_def lease_keys_def)
  have ext: "extras_ok lease_keys (l_extras l)" using ok by (simp add: lease_ok_def)
  note written = tolerant_mapping_written [OF keys ext, folded lease_items_def]
  define d where "d = filter (\<lambda>p. fst p \<in> set lease_keys) (lease_items l)"
  have fld: "jfield d k = the (dget (lease_known l) k)" if "k \<in> set lease_keys" for k
    using written(3) that d_def by simp
  have fields:
    "jfield d ''pool'' = pool_json (l_pool l)"
    "jfield d ''owner_id'' = JStr (l_owner_id l)"
    "jfield d ''owner_pid'' = jopt_int (l_owner_pid l)"
    "jfield d ''owner_process_start'' = jopt (l_owner_process_start l)"
    "jfield d ''session_id'' = JStr (l_session_id l)"
    "jfield d ''agent_id'' = jopt (l_agent_id l)"
    "jfield d ''tool_use_id'' = jopt (l_tool_use_id l)"
    "jfield d ''agent_type'' = jopt (l_agent_type l)"
    "jfield d ''batch_id'' = jopt (l_batch_id l)"
    "jfield d ''policy_sha256'' = jopt (l_policy_sha256 l)"
    "jfield d ''session_limit'' = jopt_int (l_session_limit l)"
    "jfield d ''aggregate_limit'' = jopt_int (l_aggregate_limit l)"
    "jfield d ''mutation'' = (case l_mutation l of None \<Rightarrow> JNull | Some m \<Rightarrow> mutation_json m)"
    "jfield d ''boot_id'' = JStr (l_boot_id l)"
    "jfield d ''acquired_at'' = JStr (l_acquired_at l)"
    "jfield d ''renewed_at'' = JStr (l_renewed_at l)"
    "jfield d ''renewed_monotonic_ns'' = JInt (l_renewed_monotonic_ns l)"
    "jfield d ''claimed_at'' = jopt (l_claimed_at l)"
    "jfield d ''child_terminal_at'' = jopt (l_child_terminal_at l)"
    "jfield d ''parent_completed_at'' = jopt (l_parent_completed_at l)"
    "jfield d ''ttl_seconds'' = JInt (l_ttl_seconds l)"
    "jfield d ''fencing_sequence'' = JInt (l_fencing_sequence l)"
    by (simp_all add: fld lease_keys_def lease_known_def)
  have "jfield d ''resource_ref''
      = (case l_resource_ref l of None \<Rightarrow> JNull | Some r \<Rightarrow> resource_ref_json r)"
    by (simp add: fld lease_keys_def lease_known_def)
  then have res: "json_optional (canonical_resource_ref (l_pool l)) (jfield d ''resource_ref'')
      = Inr (l_resource_ref l)"
    using json_optional_ref [of "l_resource_ref l" "l_pool l"] ok by (auto simp: lease_ok_def)
  have adm: "lease_admission_from_json (l_pool l) d (l_resource_ref l) =
    Inr (l_policy_sha256 l, l_session_limit l, l_aggregate_limit l, l_mutation l)"
    by (rule lease_admission_written) (use ok fields in \<open>simp_all add: lease_ok_def\<close>)
  show ?thesis
    using ok unfolding lease_from_json_def
    by (auto simp: py_dict_of_def written(2) d_def[symmetric] res adm fields json_optional_jopt
        json_optional_jopt_int lease_ok_def opt_text_ok_def opt_utc_ok_def utc_ok_def)
qed

lemma pool_from_json_norm [simp]: "pool_from_json (json_norm j) = pool_from_json j"
  by (simp add: pool_from_json_def)

lemma mutation_from_json_norm [simp]: "mutation_from_json (json_norm j) = mutation_from_json j"
  by (simp add: mutation_from_json_def)

lemma lease_admission_from_json_norm:
  "wf_dict d \<Longrightarrow>
     lease_admission_from_json pl (norm_items d) res = lease_admission_from_json pl d res"
  by (cases pl) (simp_all add: lease_admission_from_json_def)

lemma lease_from_json_norm:
  assumes wf: "json_wf (JObj kvs)"
  shows "lease_from_json h lid (JObj (norm_items kvs)) epoch
    = map_sum id norm_lease (lease_from_json h lid (JObj kvs) epoch)"
proof -
  have "json_wf (JObj (filter (\<lambda>p. fst p \<in> set lease_keys) kvs))"
    using wf by (rule json_wf_filter)
  then have "json_wf (jfield (filter (\<lambda>p. fst p \<in> set lease_keys) kvs) k)" for k
    by (rule json_wf_jfield)
  moreover have "wf_dict kvs" using wf by simp
  ultimately show ?thesis
    by (simp add: lease_from_json_def py_dict_of_def tolerant_mapping_def filter_norm_known
        filter_norm_items json_optional_ref_norm lease_admission_from_json_norm map_sum_bind_res
        norm_lease_def case_prod_unfold)
qed

lemma lease_admission_sound:
  "lease_admission_from_json pl d res = Inr vals \<Longrightarrow> admission_values_ok pl vals res"
  by (auto simp: lease_admission_from_json_def split: pool.splits)

lemma lease_sound:
  assumes "lease_from_json h lid j epoch = Inr l" and "json_wf j"
  shows "lease_ok h lid epoch l"
  using assms(1) py_dict_of_json_wf [OF _ assms(2)] unfolding lease_from_json_def
  apply (clarsimp simp: lease_ok_def lease_admission_ok_def utc_ok_def extras_ok_filter)
  apply (intro conjI; (erule json_optional_sound lease_admission_sound | assumption | blast)?)
  done

lemma resource_ref_json_wf [simp]: "json_wf (resource_ref_json r)"
  by (cases r rule: resource_ref_json.cases) (simp_all add: wf_dict_def)

lemma jopt_wf [simp]: "json_wf (jopt v)" "json_wf (jopt_int n)"
  by (cases v; simp) (cases n; simp)

lemma enum_json_wf [simp]: "json_wf (pool_json p)" "json_wf (mutation_json m)"
  by (cases p; simp) (cases m; simp)

lemma written_json_wf:
  assumes "dkeys known = keys" and "distinct keys" and "extras_ok keys extras"
    and "list_all (\<lambda>(k, v). json_wf v) known"
  shows "json_wf (JObj (known @ extras))"
  using assms by (auto simp: wf_dict_def extras_ok_def)

lemma lease_items_wf:
  assumes "lease_ok h lid epoch l"
  shows "json_wf (JObj (lease_items l))"
  unfolding lease_items_def
  by (rule written_json_wf [where keys = lease_keys])
     (use assms in \<open>auto simp: lease_known_def lease_keys_def lease_ok_def split: option.splits\<close>)

text \<open>What a written lease is read back as: the same lease, its unknown fields in key order.\<close>

lemma lease_read_back:
  assumes "lease_ok h lid epoch l"
  shows "lease_from_json h lid (json_norm (JObj (lease_items l))) epoch = Inr (norm_lease l)"
  using lease_from_json_norm [OF lease_items_wf [OF assms]] lease_roundtrip [OF assms] by simp

lemma extras_ok_norm: "extras_ok keys extras \<Longrightarrow> extras_ok keys (norm_items extras)"
  by (auto simp: extras_ok_def json_norm_wf_items)

lemma norm_lease_ok: "lease_ok h lid epoch l \<Longrightarrow> lease_ok h lid epoch (norm_lease l)"
  by (simp add: lease_ok_def norm_lease_def lease_admission_ok_def extras_ok_norm)

end
