(* ===== verification/Lease_Close.thy ===== *)
theory Lease_Close
  imports Lease_Records
begin

text \<open>
  The canonical settlement close (\<open>settlement_close.v1\<close>): the receipt that ends a fenced
  resource head.  Two digests cover its content, so a record that was altered after it was written
  is refused when it is read.  The form without the binding fields is the older record, still
  accepted when a fence is read.
\<close>

section \<open>The record\<close>

record close_binding =
  cb_settlement_id :: string
  cb_session_id :: string
  cb_policy_sha256 :: string
  cb_write_intent_sha256 :: string
  cb_settlement_sha256 :: string

record settlement_close =
  sc_resource_ref :: resource_ref
  sc_token :: fencing_token
  sc_lease_id :: string
  sc_producer :: string
  sc_run_id :: string
  sc_evidence_refs :: "string list"
  sc_expected_output_sha256 :: string
  sc_binding :: "close_binding option"
  sc_receipt_sha256 :: string
  sc_sha256 :: string

definition legacy_settlement_close_keys :: "string list" where
  "legacy_settlement_close_keys =
     [''schema'', ''resource_ref'', ''token'', ''lease_id'', ''generation'', ''phase'',
      ''producer'', ''run_id'', ''terminal'', ''evidence_refs'', ''expected_output_sha256'',
      ''receipt_sha256'', ''sha256'']"

definition close_binding_keys :: "string list" where
  "close_binding_keys =
     [''settlement_id'', ''session_id'', ''policy_sha256'', ''protected_write_intent_sha256'',
      ''settlement_sha256'']"

definition settlement_close_keys :: "string list" where
  "settlement_close_keys = legacy_settlement_close_keys @ close_binding_keys"

definition binding_items :: "close_binding \<Rightarrow> json dict" where
  "binding_items b =
     [(''settlement_id'', JStr (cb_settlement_id b)), (''session_id'', JStr (cb_session_id b)),
      (''policy_sha256'', JStr (cb_policy_sha256 b)),
      (''protected_write_intent_sha256'', JStr (cb_write_intent_sha256 b)),
      (''settlement_sha256'', JStr (cb_settlement_sha256 b))]"

definition close_items :: "settlement_close \<Rightarrow> json dict" where
  "close_items c =
     [(''schema'', JStr ''settlement_close.v1''),
      (''resource_ref'', resource_ref_json (sc_resource_ref c)),
      (''token'', token_to_json (sc_token c)), (''lease_id'', JStr (sc_lease_id c)),
      (''generation'', JStr (token_generation (sc_token c))), (''phase'', JStr ''closed''),
      (''producer'', JStr (sc_producer c)), (''run_id'', JStr (sc_run_id c)),
      (''terminal'', JBool True), (''evidence_refs'', JArr (map JStr (sc_evidence_refs c))),
      (''expected_output_sha256'', JStr (sc_expected_output_sha256 c)),
      (''receipt_sha256'', JStr (sc_receipt_sha256 c)), (''sha256'', JStr (sc_sha256 c))]
     @ (case sc_binding c of None \<Rightarrow> [] | Some b \<Rightarrow> binding_items b)"

definition close_receipt_digest :: "host \<Rightarrow> settlement_close \<Rightarrow> string" where
  "close_receipt_digest h c = record_sha256 h (close_items c) [''receipt_sha256'', ''sha256'']"

definition close_digest :: "host \<Rightarrow> settlement_close \<Rightarrow> string" where
  "close_digest h c = record_sha256 h (close_items c) [''sha256'']"

section \<open>Reading\<close>

definition producers :: "string list" where
  "producers = [''agy'', ''saga'', ''team-execution'']"

text \<open>Membership in a set of strings: an unhashable value raises a built-in exception.\<close>

definition json_choice :: "string list \<Rightarrow> json \<Rightarrow> broker_error + string" where
  "json_choice choices j =
     (case j of
        JStr s \<Rightarrow> if s \<in> set choices then Inr s else Inl RegistryCorruptError
      | JArr _ \<Rightarrow> Inl PyTypeError
      | JObj _ \<Rightarrow> Inl PyTypeError
      | _ \<Rightarrow> Inl RegistryCorruptError)"

text \<open>
  The values for which \<open>refs != sorted(refs)\<close> and \<open>set(refs)\<close> do not raise: strings and numbers
  compare among themselves, \<open>None\<close> only stands alone, and lists and dictionaries do not hash.  (Lists
  are compared with each other before they are hashed; an unsorted one is reported as unsorted by the
  code and as a \<open>TypeError\<close> here.)
\<close>

definition orderable :: "json list \<Rightarrow> bool" where
  "orderable xs \<longleftrightarrow>
     list_all (\<lambda>x. case x of JStr _ \<Rightarrow> True | _ \<Rightarrow> False) xs
     \<or> list_all (\<lambda>x. case x of JBool _ \<Rightarrow> True | JInt _ \<Rightarrow> True | JFloat _ \<Rightarrow> True | _ \<Rightarrow> False) xs
     \<or> xs = [JNull]"

definition json_evidence_refs :: "json \<Rightarrow> broker_error + string list" where
  "json_evidence_refs j =
     (case j of
        JArr xs \<Rightarrow>
          bind_res (guard_res (length xs \<le> 256) RegistryCorruptError) (\<lambda>_.
          bind_res (guard_res (orderable xs) PyTypeError) (\<lambda>_.
          bind_res (map_res json_text xs) (\<lambda>refs.
          bind_res (guard_res (sorted refs \<and> distinct refs) RegistryCorruptError) (\<lambda>_.
          map_res (bounded max_id) refs))))
      | _ \<Rightarrow> Inl RegistryCorruptError)"

definition check_close_digests :: "host \<Rightarrow> settlement_close \<Rightarrow> broker_error + settlement_close" where
  "check_close_digests h c =
     (if sc_receipt_sha256 c \<noteq> close_receipt_digest h c then Inl RegistryCorruptError
      else if sc_sha256 c \<noteq> close_digest h c then Inl RegistryCorruptError
      else Inr c)"

definition validate_settlement_close :: "host \<Rightarrow> json dict \<Rightarrow> broker_error + settlement_close" where
  "validate_settlement_close h value =
     bind_res (closed_mapping value settlement_close_keys) (\<lambda>d.
     bind_res (guard_res (jfield d ''schema'' = JStr ''settlement_close.v1'') RegistryCorruptError) (\<lambda>_.
     bind_res (canonical_resource_ref AgentPool (jfield d ''resource_ref'')) (\<lambda>resource.
     bind_res (token_from_json (jfield d ''token'')) (\<lambda>token.
     bind_res (json_uuid (jfield d ''lease_id'')) (\<lambda>lease_id.
     bind_res (json_uuid (jfield d ''settlement_id'')) (\<lambda>settlement_id.
     bind_res (json_bounded 128 (jfield d ''session_id'')) (\<lambda>session_id.
     bind_res (json_sha256 (jfield d ''policy_sha256'')) (\<lambda>policy.
     bind_res (json_bounded max_id (jfield d ''generation'')) (\<lambda>generation.
     bind_res (guard_res (generation = token_generation token) RegistryCorruptError) (\<lambda>_.
     bind_res (guard_res (jfield d ''phase'' = JStr ''closed'' \<and> jfield d ''terminal'' = JBool True)
       RegistryCorruptError) (\<lambda>_.
     bind_res (json_choice producers (jfield d ''producer'')) (\<lambda>producer.
     bind_res (json_bounded 128 (jfield d ''run_id'')) (\<lambda>run_id.
     bind_res (json_evidence_refs (jfield d ''evidence_refs'')) (\<lambda>refs.
     bind_res (json_sha256 (jfield d ''expected_output_sha256'')) (\<lambda>expected.
     bind_res (json_sha256 (jfield d ''protected_write_intent_sha256'')) (\<lambda>intent.
     bind_res (json_sha256 (jfield d ''settlement_sha256'')) (\<lambda>settlement_digest.
     bind_res (json_sha256 (jfield d ''receipt_sha256'')) (\<lambda>receipt.
     bind_res (json_sha256 (jfield d ''sha256'')) (\<lambda>digest.
     check_close_digests h
       \<lparr>sc_resource_ref = resource, sc_token = token, sc_lease_id = lease_id,
        sc_producer = producer, sc_run_id = run_id, sc_evidence_refs = refs,
        sc_expected_output_sha256 = expected,
        sc_binding = Some \<lparr>cb_settlement_id = settlement_id, cb_session_id = session_id,
          cb_policy_sha256 = policy, cb_write_intent_sha256 = intent,
          cb_settlement_sha256 = settlement_digest\<rparr>,
        sc_receipt_sha256 = receipt, sc_sha256 = digest\<rparr>)))))))))))))))))))"

definition validate_legacy_settlement_close ::
    "host \<Rightarrow> json dict \<Rightarrow> broker_error + settlement_close" where
  "validate_legacy_settlement_close h value =
     bind_res (closed_mapping value legacy_settlement_close_keys) (\<lambda>d.
     bind_res (guard_res (jfield d ''schema'' = JStr ''settlement_close.v1'') RegistryCorruptError) (\<lambda>_.
     bind_res (canonical_resource_ref AgentPool (jfield d ''resource_ref'')) (\<lambda>resource.
     bind_res (token_from_json (jfield d ''token'')) (\<lambda>token.
     bind_res (json_uuid (jfield d ''lease_id'')) (\<lambda>lease_id.
     bind_res (json_bounded max_id (jfield d ''generation'')) (\<lambda>generation.
     bind_res (guard_res (generation = token_generation token) RegistryCorruptError) (\<lambda>_.
     bind_res (guard_res (jfield d ''phase'' = JStr ''closed'' \<and> jfield d ''terminal'' = JBool True)
       RegistryCorruptError) (\<lambda>_.
     bind_res (json_choice producers (jfield d ''producer'')) (\<lambda>producer.
     bind_res (json_bounded 128 (jfield d ''run_id'')) (\<lambda>run_id.
     bind_res (json_evidence_refs (jfield d ''evidence_refs'')) (\<lambda>refs.
     bind_res (json_sha256 (jfield d ''expected_output_sha256'')) (\<lambda>expected.
     bind_res (json_sha256 (jfield d ''receipt_sha256'')) (\<lambda>receipt.
     bind_res (json_sha256 (jfield d ''sha256'')) (\<lambda>digest.
     check_close_digests h
       \<lparr>sc_resource_ref = resource, sc_token = token, sc_lease_id = lease_id,
        sc_producer = producer, sc_run_id = run_id, sc_evidence_refs = refs,
        sc_expected_output_sha256 = expected, sc_binding = None,
        sc_receipt_sha256 = receipt, sc_sha256 = digest\<rparr>))))))))))))))"

section \<open>Building\<close>

definition build_settlement_close ::
    "host \<Rightarrow> resource_ref \<Rightarrow> fencing_token \<Rightarrow> string \<Rightarrow> string \<Rightarrow> string \<Rightarrow> string list \<Rightarrow> string
       \<Rightarrow> string \<Rightarrow> string \<Rightarrow> string \<Rightarrow> string \<Rightarrow> string \<Rightarrow> broker_error + settlement_close" where
  "build_settlement_close h ref token lease_id producer run_id evidence expected settlement_id
       session_id policy intent settlement_digest =
     bind_res (canonical_resource_ref AgentPool (resource_ref_json ref)) (\<lambda>resource.
     bind_res (uuid_text lease_id) (\<lambda>lid.
     bind_res (uuid_text settlement_id) (\<lambda>sid.
     bind_res (bounded 128 session_id) (\<lambda>session.
     bind_res (sha256_text policy) (\<lambda>pol.
     bind_res (bounded 128 run_id) (\<lambda>run.
     bind_res (map_res (bounded max_id) evidence) (\<lambda>refs.
     bind_res (sha256_text expected) (\<lambda>out.
     bind_res (sha256_text intent) (\<lambda>wi.
     bind_res (sha256_text settlement_digest) (\<lambda>sd.
     let payload = \<lparr>sc_resource_ref = resource, sc_token = token, sc_lease_id = lid,
           sc_producer = producer, sc_run_id = run, sc_evidence_refs = sort (remdups refs),
           sc_expected_output_sha256 = out,
           sc_binding = Some \<lparr>cb_settlement_id = sid, cb_session_id = session,
             cb_policy_sha256 = pol, cb_write_intent_sha256 = wi, cb_settlement_sha256 = sd\<rparr>,
           sc_receipt_sha256 = [], sc_sha256 = []\<rparr>;
         with_receipt = payload\<lparr>sc_receipt_sha256 := close_receipt_digest h payload\<rparr>;
         close = with_receipt\<lparr>sc_sha256 := close_digest h with_receipt\<rparr>
     in validate_settlement_close h (close_items close)))))))))))"

section \<open>Well-formed closes\<close>

definition binding_ok :: "close_binding \<Rightarrow> bool" where
  "binding_ok b \<longleftrightarrow>
     is_uuid_text (cb_settlement_id b) \<and> text_ok 128 (cb_session_id b)
     \<and> is_sha256_text (cb_policy_sha256 b) \<and> is_sha256_text (cb_write_intent_sha256 b)
     \<and> is_sha256_text (cb_settlement_sha256 b)"

definition close_fields_ok :: "settlement_close \<Rightarrow> bool" where
  "close_fields_ok c \<longleftrightarrow>
     ref_ok (sc_resource_ref c) \<and> ref_pool (sc_resource_ref c) = AgentPool
     \<and> token_ok (sc_token c) \<and> text_ok max_id (token_generation (sc_token c))
     \<and> is_uuid_text (sc_lease_id c) \<and> sc_producer c \<in> set producers
     \<and> text_ok 128 (sc_run_id c) \<and> length (sc_evidence_refs c) \<le> 256
     \<and> sorted (sc_evidence_refs c) \<and> distinct (sc_evidence_refs c)
     \<and> (\<forall>r \<in> set (sc_evidence_refs c). text_ok max_id r)
     \<and> is_sha256_text (sc_expected_output_sha256 c)
     \<and> (\<forall>b. sc_binding c = Some b \<longrightarrow> binding_ok b)
     \<and> is_sha256_text (sc_receipt_sha256 c) \<and> is_sha256_text (sc_sha256 c)"

definition close_ok :: "host \<Rightarrow> settlement_close \<Rightarrow> bool" where
  "close_ok h c \<longleftrightarrow>
     close_fields_ok c
     \<and> sc_receipt_sha256 c = close_receipt_digest h c \<and> sc_sha256 c = close_digest h c"

section \<open>Reading back a close\<close>

lemma json_choice_eq_Inr [simp]:
  "json_choice cs j = Inr s \<longleftrightarrow> j = JStr s \<and> s \<in> set cs"
  by (auto simp: json_choice_def split: json.splits if_splits)

lemma json_choice_norm [simp]: "json_choice cs (json_norm j) = json_choice cs j"
  by (cases j) (simp_all add: json_choice_def)

lemma map_res_json_text_eq_Inr [simp]:
  "map_res json_text xs = Inr ss \<longleftrightarrow> xs = map JStr ss"
  by (induction xs arbitrary: ss) auto

lemma map_res_bounded_eq_Inr [simp]:
  "map_res (bounded m) xs = Inr ys \<longleftrightarrow> ys = xs \<and> (\<forall>x \<in> set xs. text_ok m x)"
  by (induction xs arbitrary: ys) auto

lemma orderable_texts [simp]: "orderable (map JStr refs)"
  by (simp add: orderable_def list_all_iff)

lemma orderable_norm [simp]: "orderable (map json_norm xs) = orderable xs"
proof -
  have "(case json_norm x of JStr _ \<Rightarrow> True | _ \<Rightarrow> False) = (case x of JStr _ \<Rightarrow> True | _ \<Rightarrow> False)"
    "(case json_norm x of JBool _ \<Rightarrow> True | JInt _ \<Rightarrow> True | JFloat _ \<Rightarrow> True | _ \<Rightarrow> False)
      = (case x of JBool _ \<Rightarrow> True | JInt _ \<Rightarrow> True | JFloat _ \<Rightarrow> True | _ \<Rightarrow> False)"
    "json_norm x = JNull \<longleftrightarrow> x = JNull" for x
    by (cases x; simp)+
  then show ?thesis by (auto simp: orderable_def list_all_iff map_eq_Cons_conv)
qed

lemma json_evidence_refs_eq_Inr [simp]:
  "json_evidence_refs j = Inr refs \<longleftrightarrow>
     j = JArr (map JStr refs) \<and> length refs \<le> 256 \<and> sorted refs \<and> distinct refs
     \<and> (\<forall>r \<in> set refs. text_ok max_id r)"
  by (cases j) (auto simp: json_evidence_refs_def)

lemma map_res_json_text_norm [simp]: "map_res json_text (map json_norm xs) = map_res json_text xs"
  by (induction xs) simp_all

lemma json_evidence_refs_norm [simp]: "json_evidence_refs (json_norm j) = json_evidence_refs j"
  by (cases j) (simp_all add: json_evidence_refs_def)

lemma token_from_json_eq_Inr:
  "token_from_json j = Inr t \<Longrightarrow> token_ok t"
  by (auto simp: token_from_json_def token_ok_def split: json.splits if_splits)

lemma token_roundtrip [simp]: "token_ok t \<Longrightarrow> token_from_json (token_to_json t) = Inr t"
  by (cases t)
     (auto simp: token_from_json_def token_to_json_def token_ok_def same_keys_def token_keys_def
       jfield_def)

lemma token_from_json_norm: "json_wf j \<Longrightarrow> token_from_json (json_norm j) = token_from_json j"
  by (cases j) (auto simp: token_from_json_def same_keys_def)

lemma check_close_digests_eq_Inr [simp]:
  "check_close_digests h c = Inr c' \<longleftrightarrow>
     c' = c \<and> sc_receipt_sha256 c = close_receipt_digest h c \<and> sc_sha256 c = close_digest h c"
  by (auto simp: check_close_digests_def)

lemma json_norm_eq_JBool [simp]: "json_norm j = JBool b \<longleftrightarrow> j = JBool b"
  by (cases j) simp_all

lemma closed_mapping_norm:
  "closed_mapping (norm_items kvs) keys = map_sum id norm_items (closed_mapping kvs keys)"
  by (simp add: closed_mapping_def same_keys_def)

lemma validate_settlement_close_norm:
  assumes "json_wf (JObj kvs)"
  shows "validate_settlement_close h (norm_items kvs) = validate_settlement_close h kvs"
proof -
  have "json_wf (jfield kvs k)" for k using assms by (rule json_wf_jfield)
  moreover have "wf_dict kvs" using assms by simp
  ultimately show ?thesis
    by (simp add: validate_settlement_close_def closed_mapping_def same_keys_def
        canonical_resource_ref_norm token_from_json_norm)
qed

lemma validate_legacy_settlement_close_norm:
  assumes "json_wf (JObj kvs)"
  shows "validate_legacy_settlement_close h (norm_items kvs) = validate_legacy_settlement_close h kvs"
proof -
  have "json_wf (jfield kvs k)" for k using assms by (rule json_wf_jfield)
  moreover have "wf_dict kvs" using assms by simp
  ultimately show ?thesis
    by (simp add: validate_legacy_settlement_close_def closed_mapping_def same_keys_def
        canonical_resource_ref_norm token_from_json_norm)
qed

lemma json_evidence_refs_written [simp]:
  "length refs \<le> 256 \<Longrightarrow> sorted refs \<Longrightarrow> distinct refs \<Longrightarrow> \<forall>r \<in> set refs. text_ok max_id r \<Longrightarrow>
     json_evidence_refs (JArr (map JStr refs)) = Inr refs"
  by simp

lemma close_item_fields:
  "jfield (close_items c) ''schema'' = JStr ''settlement_close.v1''"
  "jfield (close_items c) ''resource_ref'' = resource_ref_json (sc_resource_ref c)"
  "jfield (close_items c) ''token'' = token_to_json (sc_token c)"
  "jfield (close_items c) ''lease_id'' = JStr (sc_lease_id c)"
  "jfield (close_items c) ''generation'' = JStr (token_generation (sc_token c))"
  "jfield (close_items c) ''phase'' = JStr ''closed''"
  "jfield (close_items c) ''producer'' = JStr (sc_producer c)"
  "jfield (close_items c) ''run_id'' = JStr (sc_run_id c)"
  "jfield (close_items c) ''terminal'' = JBool True"
  "jfield (close_items c) ''evidence_refs'' = JArr (map JStr (sc_evidence_refs c))"
  "jfield (close_items c) ''expected_output_sha256'' = JStr (sc_expected_output_sha256 c)"
  "jfield (close_items c) ''receipt_sha256'' = JStr (sc_receipt_sha256 c)"
  "jfield (close_items c) ''sha256'' = JStr (sc_sha256 c)"
  by (simp_all add: jfield_def close_items_def)

lemma close_binding_fields:
  assumes "sc_binding c = Some b"
  shows "jfield (close_items c) ''settlement_id'' = JStr (cb_settlement_id b)"
    "jfield (close_items c) ''session_id'' = JStr (cb_session_id b)"
    "jfield (close_items c) ''policy_sha256'' = JStr (cb_policy_sha256 b)"
    "jfield (close_items c) ''protected_write_intent_sha256'' = JStr (cb_write_intent_sha256 b)"
    "jfield (close_items c) ''settlement_sha256'' = JStr (cb_settlement_sha256 b)"
  using assms by (simp_all add: jfield_def close_items_def binding_items_def)

lemma close_keys:
  "sc_binding c = None \<Longrightarrow> same_keys (close_items c) legacy_settlement_close_keys"
  "sc_binding c = Some b \<Longrightarrow> same_keys (close_items c) settlement_close_keys"
  by (auto simp: same_keys_def close_items_def binding_items_def settlement_close_keys_def
      legacy_settlement_close_keys_def close_binding_keys_def)

lemma close_surjective:
  "sc_binding c = v \<Longrightarrow>
     \<lparr>sc_resource_ref = sc_resource_ref c, sc_token = sc_token c, sc_lease_id = sc_lease_id c,
      sc_producer = sc_producer c, sc_run_id = sc_run_id c,
      sc_evidence_refs = sc_evidence_refs c,
      sc_expected_output_sha256 = sc_expected_output_sha256 c, sc_binding = v,
      sc_receipt_sha256 = sc_receipt_sha256 c, sc_sha256 = sc_sha256 c\<rparr> = c"
  by (cases c) simp

lemma close_ref_read:
  "close_fields_ok c \<Longrightarrow> canonical_resource_ref AgentPool (resource_ref_json (sc_resource_ref c))
     = Inr (sc_resource_ref c)"
  using canonical_resource_ref_json [of "sc_resource_ref c"] by (simp add: close_fields_ok_def)

lemma binding_surjective:
  "\<lparr>cb_settlement_id = cb_settlement_id b, cb_session_id = cb_session_id b,
    cb_policy_sha256 = cb_policy_sha256 b, cb_write_intent_sha256 = cb_write_intent_sha256 b,
    cb_settlement_sha256 = cb_settlement_sha256 b\<rparr> = b"
  by (cases b) simp

lemma validate_close_roundtrip:
  assumes ok: "close_ok h c" and b: "sc_binding c = Some b"
  shows "validate_settlement_close h (close_items c) = Inr c"
proof -
  have f: "close_fields_ok c"
    and d: "close_receipt_digest h c = sc_receipt_sha256 c" "close_digest h c = sc_sha256 c"
    using ok by (simp_all add: close_ok_def)
  show ?thesis
    using f d close_keys(2) [OF b] close_ref_read [OF f] b
    by (simp add: validate_settlement_close_def closed_mapping_def close_item_fields
        close_binding_fields [OF b] close_fields_ok_def binding_ok_def binding_surjective
        close_surjective [OF b] del: json_evidence_refs_eq_Inr)
qed

lemma validate_legacy_close_roundtrip:
  assumes ok: "close_ok h c" and b: "sc_binding c = None"
  shows "validate_legacy_settlement_close h (close_items c) = Inr c"
proof -
  have f: "close_fields_ok c"
    and d: "close_receipt_digest h c = sc_receipt_sha256 c" "close_digest h c = sc_sha256 c"
    using ok by (simp_all add: close_ok_def)
  show ?thesis
    using f d close_keys(1) [OF b] close_ref_read [OF f] b
    by (simp add: validate_legacy_settlement_close_def closed_mapping_def close_item_fields
        close_fields_ok_def close_surjective [OF b] del: json_evidence_refs_eq_Inr)
qed

lemma validate_close_sound:
  "validate_settlement_close h d = Inr c \<Longrightarrow> close_ok h c \<and> sc_binding c \<noteq> None"
  by (clarsimp simp: validate_settlement_close_def close_ok_def close_fields_ok_def binding_ok_def
      dest!: token_from_json_eq_Inr canonical_resource_ref_sound)

lemma validate_legacy_close_sound:
  "validate_legacy_settlement_close h d = Inr c \<Longrightarrow> close_ok h c \<and> sc_binding c = None"
  by (clarsimp simp: validate_legacy_settlement_close_def close_ok_def close_fields_ok_def
      dest!: token_from_json_eq_Inr canonical_resource_ref_sound)

end
