(* ===== verification/Lease_Rows.thy ===== *)
theory Lease_Rows
  imports Lease_Close
begin

text \<open>
  The other rows of the registry: prepared settlements (\<open>SettlementRecord\<close>), fence heads
  (\<open>ResourceFence\<close>), session admission pins (\<open>SessionAdmission\<close>) and owner-admission
  closes (\<open>OwnerAdmissionClose\<close>), each with the reading of its current and its older shape.
\<close>

section \<open>Older shapes\<close>

text \<open>A row that has exactly the keys of an older shape gets the fields added since.\<close>

definition upgrade_shape :: "string list \<Rightarrow> json dict \<Rightarrow> json dict \<Rightarrow> json dict" where
  "upgrade_shape old added raw = (if same_keys raw old then raw @ added else raw)"

section \<open>Prepared settlements\<close>

record settlement =
  s_settlement_id :: string
  s_phase :: settlement_phase
  s_lease_id :: string
  s_owner_id :: string
  s_owner_pid :: "int option"
  s_owner_process_start :: "string option"
  s_session_id :: string
  s_policy_sha256 :: string
  s_resource_ref :: resource_ref
  s_token :: fencing_token
  s_producer :: string
  s_run_id :: string
  s_expected_output_sha256 :: string
  s_write_intent_sha256 :: string
  s_recovery_capability_sha256 :: "string option"
  s_prepared_at :: string
  s_updated_at :: string
  s_extras :: "json dict"

definition settlement_keys :: "string list" where
  "settlement_keys =
     [''settlement_id'', ''phase'', ''lease_id'', ''owner_id'', ''owner_pid'',
      ''owner_process_start'', ''session_id'', ''policy_sha256'', ''resource_ref'', ''token'',
      ''producer'', ''run_id'', ''expected_output_sha256'', ''protected_write_intent_sha256'',
      ''recovery_capability_sha256'', ''prepared_at'', ''updated_at'']"

definition settlement_old_keys :: "string list" where
  "settlement_old_keys = filter (\<lambda>k. k \<noteq> ''recovery_capability_sha256'') settlement_keys"

fun phase_text :: "settlement_phase \<Rightarrow> string" where
  "phase_text Prepared = ''prepared''"
| "phase_text Committing = ''committing''"
| "phase_text Ambiguous = ''ambiguous''"

definition phase_from_json :: "json \<Rightarrow> broker_error + settlement_phase" where
  "phase_from_json j =
     bind_res (json_choice [''prepared'', ''committing'', ''ambiguous''] j) (\<lambda>s.
       Inr (if s = ''prepared'' then Prepared
            else if s = ''committing'' then Committing else Ambiguous))"

definition settlement_from_json :: "host \<Rightarrow> string \<Rightarrow> json \<Rightarrow> broker_error + settlement" where
  "settlement_from_json h digest j =
     bind_res (sha256_text digest) (\<lambda>_.
     bind_res (py_dict_of j) (\<lambda>data.
     bind_res (tolerant_mapping
         (upgrade_shape settlement_old_keys [(''recovery_capability_sha256'', JNull)] data)
         settlement_keys) (\<lambda>(d, extras).
     bind_res (canonical_resource_ref AgentPool (jfield d ''resource_ref'')) (\<lambda>resource.
     bind_res (guard_res (resource_sha256 h resource = digest) RegistryCorruptError) (\<lambda>_.
     bind_res (token_from_json (jfield d ''token'')) (\<lambda>token.
     bind_res (phase_from_json (jfield d ''phase'')) (\<lambda>phase.
     bind_res (json_optional (json_int positive) (jfield d ''owner_pid'')) (\<lambda>pid.
     bind_res (json_choice producers (jfield d ''producer'')) (\<lambda>producer.
     bind_res (json_uuid (jfield d ''settlement_id'')) (\<lambda>sid.
     bind_res (json_uuid (jfield d ''lease_id'')) (\<lambda>lid.
     bind_res (json_bounded 128 (jfield d ''owner_id'')) (\<lambda>owner.
     bind_res (json_optional (json_bounded max_id) (jfield d ''owner_process_start'')) (\<lambda>start.
     bind_res (json_bounded 128 (jfield d ''session_id'')) (\<lambda>session.
     bind_res (json_sha256 (jfield d ''policy_sha256'')) (\<lambda>policy.
     bind_res (json_bounded 128 (jfield d ''run_id'')) (\<lambda>run.
     bind_res (json_sha256 (jfield d ''expected_output_sha256'')) (\<lambda>out.
     bind_res (json_sha256 (jfield d ''protected_write_intent_sha256'')) (\<lambda>intent.
     bind_res (json_optional json_sha256 (jfield d ''recovery_capability_sha256'')) (\<lambda>cap.
     bind_res (parse_utc h (jfield d ''prepared_at'')) (\<lambda>prepared.
     bind_res (parse_utc h (jfield d ''updated_at'')) (\<lambda>updated.
     Inr \<lparr>s_settlement_id = sid, s_phase = phase, s_lease_id = lid, s_owner_id = owner,
          s_owner_pid = pid, s_owner_process_start = start, s_session_id = session,
          s_policy_sha256 = policy, s_resource_ref = resource, s_token = token,
          s_producer = producer, s_run_id = run, s_expected_output_sha256 = out,
          s_write_intent_sha256 = intent, s_recovery_capability_sha256 = cap,
          s_prepared_at = prepared, s_updated_at = updated,
          s_extras = extras\<rparr>)))))))))))))))))))))"

definition settlement_known :: "settlement \<Rightarrow> json dict" where
  "settlement_known s =
     [(''settlement_id'', JStr (s_settlement_id s)), (''phase'', JStr (phase_text (s_phase s))),
      (''lease_id'', JStr (s_lease_id s)), (''owner_id'', JStr (s_owner_id s)),
      (''owner_pid'', jopt_int (s_owner_pid s)),
      (''owner_process_start'', jopt (s_owner_process_start s)),
      (''session_id'', JStr (s_session_id s)), (''policy_sha256'', JStr (s_policy_sha256 s)),
      (''resource_ref'', resource_ref_json (s_resource_ref s)),
      (''token'', token_to_json (s_token s)), (''producer'', JStr (s_producer s)),
      (''run_id'', JStr (s_run_id s)),
      (''expected_output_sha256'', JStr (s_expected_output_sha256 s)),
      (''protected_write_intent_sha256'', JStr (s_write_intent_sha256 s)),
      (''recovery_capability_sha256'', jopt (s_recovery_capability_sha256 s)),
      (''prepared_at'', JStr (s_prepared_at s)), (''updated_at'', JStr (s_updated_at s))]"

definition settlement_items :: "settlement \<Rightarrow> json dict" where
  "settlement_items s = settlement_known s @ s_extras s"

text \<open>\<open>settlement_sha256\<close>: the digest of the settlement as it was prepared.\<close>

definition settlement_sha256 :: "host \<Rightarrow> settlement \<Rightarrow> string" where
  "settlement_sha256 h s =
     record_sha256 h
       (dset ''updated_at'' (JStr (s_prepared_at s))
         (dset ''phase'' (JStr ''prepared'') (settlement_items s))) []"

definition settlement_ok :: "host \<Rightarrow> string \<Rightarrow> settlement \<Rightarrow> bool" where
  "settlement_ok h digest s \<longleftrightarrow>
     is_sha256_text digest \<and> resource_sha256 h (s_resource_ref s) = digest
     \<and> ref_ok (s_resource_ref s) \<and> ref_pool (s_resource_ref s) = AgentPool
     \<and> token_ok (s_token s) \<and> (\<forall>n. s_owner_pid s = Some n \<longrightarrow> 1 \<le> n)
     \<and> s_producer s \<in> set producers
     \<and> is_uuid_text (s_settlement_id s) \<and> is_uuid_text (s_lease_id s)
     \<and> text_ok 128 (s_owner_id s) \<and> opt_text_ok (s_owner_process_start s)
     \<and> text_ok 128 (s_session_id s) \<and> is_sha256_text (s_policy_sha256 s)
     \<and> text_ok 128 (s_run_id s) \<and> is_sha256_text (s_expected_output_sha256 s)
     \<and> is_sha256_text (s_write_intent_sha256 s)
     \<and> (\<forall>c. s_recovery_capability_sha256 s = Some c \<longrightarrow> is_sha256_text c)
     \<and> utc_ok h (s_prepared_at s) \<and> utc_ok h (s_updated_at s)
     \<and> extras_ok settlement_keys (s_extras s)"

definition norm_settlement :: "settlement \<Rightarrow> settlement" where
  "norm_settlement s = s\<lparr>s_extras := norm_items (s_extras s)\<rparr>"

section \<open>Fence heads\<close>

record fence =
  f_resource_ref :: resource_ref
  f_broker_epoch :: string
  f_fencing_sequence :: int
  f_lease_id :: string
  f_close_receipt :: "settlement_close option"
  f_extras :: "json dict"

definition fence_keys :: "string list" where
  "fence_keys =
     [''resource_ref'', ''broker_epoch'', ''fencing_sequence'', ''lease_id'', ''close_receipt'']"

definition fence_old_keys :: "string list" where
  "fence_old_keys = [''resource_ref'', ''broker_epoch'', ''fencing_sequence'', ''lease_id'']"

definition shape_pool :: "json dict \<Rightarrow> pool" where
  "shape_pool raw = (if same_keys raw worktree_resource_keys then WorktreePool else AgentPool)"

definition fence_resource_from_json :: "json \<Rightarrow> broker_error + resource_ref" where
  "fence_resource_from_json j =
     (case j of
        JObj raw \<Rightarrow> canonical_resource_ref (shape_pool raw) j
      | _ \<Rightarrow> Inl RegistryCorruptError)"

definition close_receipt_from_json :: "host \<Rightarrow> json \<Rightarrow> broker_error + settlement_close" where
  "close_receipt_from_json h j =
     (case j of
        JObj raw \<Rightarrow>
          if same_keys raw legacy_settlement_close_keys
          then validate_legacy_settlement_close h raw
          else validate_settlement_close h raw
      | _ \<Rightarrow> Inl RegistryCorruptError)"

definition fence_from_json :: "host \<Rightarrow> string \<Rightarrow> json \<Rightarrow> broker_error + fence" where
  "fence_from_json h digest j =
     bind_res (sha256_text digest) (\<lambda>_.
     bind_res (py_dict_of j) (\<lambda>data.
     bind_res (tolerant_mapping
         (upgrade_shape fence_old_keys [(''close_receipt'', JNull)] data) fence_keys)
       (\<lambda>(d, extras).
     bind_res (fence_resource_from_json (jfield d ''resource_ref'')) (\<lambda>resource.
     bind_res (guard_res (resource_sha256 h resource = digest) RegistryCorruptError) (\<lambda>_.
     bind_res (json_optional (close_receipt_from_json h) (jfield d ''close_receipt'')) (\<lambda>close.
     bind_res (guard_res
         (\<forall>c \<in> set_option close.
            sc_resource_ref c = resource
            \<and> JStr (tok_epoch (sc_token c)) = jfield d ''broker_epoch''
            \<and> JInt (tok_seq (sc_token c)) = jfield d ''fencing_sequence''
            \<and> JStr (sc_lease_id c) = jfield d ''lease_id'') RegistryCorruptError) (\<lambda>_.
     bind_res (json_uuid (jfield d ''broker_epoch'')) (\<lambda>epoch.
     bind_res (json_int positive (jfield d ''fencing_sequence'')) (\<lambda>seq.
     bind_res (json_bounded max_id (jfield d ''lease_id'')) (\<lambda>lid.
     Inr \<lparr>f_resource_ref = resource, f_broker_epoch = epoch, f_fencing_sequence = seq,
          f_lease_id = lid, f_close_receipt = close, f_extras = extras\<rparr>))))))))))"

definition fence_known :: "fence \<Rightarrow> json dict" where
  "fence_known f =
     [(''resource_ref'', resource_ref_json (f_resource_ref f)),
      (''broker_epoch'', JStr (f_broker_epoch f)),
      (''fencing_sequence'', JInt (f_fencing_sequence f)), (''lease_id'', JStr (f_lease_id f)),
      (''close_receipt'',
        case f_close_receipt f of None \<Rightarrow> JNull | Some c \<Rightarrow> JObj (close_items c))]"

definition fence_items :: "fence \<Rightarrow> json dict" where
  "fence_items f = fence_known f @ f_extras f"

definition f_token :: "fence \<Rightarrow> fencing_token" where
  "f_token f = FencingToken (f_broker_epoch f) (f_fencing_sequence f)"

text \<open>A close receipt names the resource, the token and the lease of its fence.\<close>

definition close_binds :: "fence \<Rightarrow> settlement_close \<Rightarrow> bool" where
  "close_binds f c \<longleftrightarrow>
     sc_resource_ref c = f_resource_ref f \<and> sc_token c = f_token f \<and> sc_lease_id c = f_lease_id f"

definition fence_ok :: "host \<Rightarrow> string \<Rightarrow> fence \<Rightarrow> bool" where
  "fence_ok h digest f \<longleftrightarrow>
     is_sha256_text digest \<and> resource_sha256 h (f_resource_ref f) = digest
     \<and> ref_ok (f_resource_ref f)
     \<and> (\<forall>c. f_close_receipt f = Some c \<longrightarrow> close_ok h c \<and> close_binds f c)
     \<and> is_uuid_text (f_broker_epoch f) \<and> 1 \<le> f_fencing_sequence f \<and> text_ok max_id (f_lease_id f)
     \<and> extras_ok fence_keys (f_extras f)"

definition norm_fence :: "fence \<Rightarrow> fence" where
  "norm_fence f = f\<lparr>f_extras := norm_items (f_extras f)\<rparr>"

section \<open>Session admission pins\<close>

record session_admission =
  a_policy_sha256 :: string
  a_session_limit :: int
  a_aggregate_limit :: int
  a_mutation :: mutation_mode
  a_configured_monotonic_ns :: int
  a_boot_id :: string
  a_ttl_seconds :: int
  a_extras :: "json dict"

definition admission_keys :: "string list" where
  "admission_keys =
     [''policy_sha256'', ''session_limit'', ''aggregate_limit'', ''mutation'',
      ''configured_monotonic_ns'', ''boot_id'', ''ttl_seconds'']"

definition admission_old_keys :: "string list" where
  "admission_old_keys = [''policy_sha256'', ''session_limit'', ''aggregate_limit'', ''mutation'']"

definition admission_from_json :: "json \<Rightarrow> broker_error + session_admission" where
  "admission_from_json j =
     bind_res (py_dict_of j) (\<lambda>data.
     bind_res (tolerant_mapping
         (upgrade_shape admission_old_keys
           [(''configured_monotonic_ns'', JInt 0),
            (''boot_id'', JStr ''legacy-session-admission''), (''ttl_seconds'', JInt 1)] data)
         admission_keys) (\<lambda>(d, extras).
     bind_res (json_int positive (jfield d ''session_limit'')) (\<lambda>sl.
     bind_res (json_int positive (jfield d ''aggregate_limit'')) (\<lambda>al.
     bind_res (guard_res (sl \<le> al) RegistryCorruptError) (\<lambda>_.
     bind_res (mutation_from_json (jfield d ''mutation'')) (\<lambda>m.
     bind_res (json_sha256 (jfield d ''policy_sha256'')) (\<lambda>policy.
     bind_res (json_int nonnegative (jfield d ''configured_monotonic_ns'')) (\<lambda>mono.
     bind_res (json_bounded max_id (jfield d ''boot_id'')) (\<lambda>boot.
     bind_res (json_int positive (jfield d ''ttl_seconds'')) (\<lambda>ttl.
     Inr \<lparr>a_policy_sha256 = policy, a_session_limit = sl, a_aggregate_limit = al,
          a_mutation = m, a_configured_monotonic_ns = mono, a_boot_id = boot,
          a_ttl_seconds = ttl, a_extras = extras\<rparr>))))))))))"

definition admission_known :: "session_admission \<Rightarrow> json dict" where
  "admission_known a =
     [(''policy_sha256'', JStr (a_policy_sha256 a)), (''session_limit'', JInt (a_session_limit a)),
      (''aggregate_limit'', JInt (a_aggregate_limit a)),
      (''mutation'', mutation_json (a_mutation a)),
      (''configured_monotonic_ns'', JInt (a_configured_monotonic_ns a)),
      (''boot_id'', JStr (a_boot_id a)), (''ttl_seconds'', JInt (a_ttl_seconds a))]"

definition admission_items :: "session_admission \<Rightarrow> json dict" where
  "admission_items a = admission_known a @ a_extras a"

definition admission_contract ::
    "session_admission \<Rightarrow> string \<times> int \<times> int \<times> mutation_mode" where
  "admission_contract a =
     (a_policy_sha256 a, a_session_limit a, a_aggregate_limit a, a_mutation a)"

definition admission_ok :: "session_admission \<Rightarrow> bool" where
  "admission_ok a \<longleftrightarrow>
     is_sha256_text (a_policy_sha256 a) \<and> 1 \<le> a_session_limit a \<and> 1 \<le> a_aggregate_limit a
     \<and> a_session_limit a \<le> a_aggregate_limit a \<and> 0 \<le> a_configured_monotonic_ns a
     \<and> text_ok max_id (a_boot_id a) \<and> 1 \<le> a_ttl_seconds a
     \<and> extras_ok admission_keys (a_extras a)"

definition norm_admission :: "session_admission \<Rightarrow> session_admission" where
  "norm_admission a = a\<lparr>a_extras := norm_items (a_extras a)\<rparr>"

section \<open>Owner-admission closes\<close>

record owner_close =
  o_closed_at :: string
  o_boot_id :: string
  o_close_generation :: int
  o_extras :: "json dict"

definition owner_close_keys :: "string list" where
  "owner_close_keys = [''closed_at'', ''boot_id'', ''close_generation'']"

definition owner_close_from_json :: "host \<Rightarrow> json \<Rightarrow> broker_error + owner_close" where
  "owner_close_from_json h j =
     bind_res (py_dict_of j) (\<lambda>data.
     bind_res (tolerant_mapping data owner_close_keys) (\<lambda>(d, extras).
     bind_res (parse_utc h (jfield d ''closed_at'')) (\<lambda>closed.
     bind_res (json_bounded max_id (jfield d ''boot_id'')) (\<lambda>boot.
     bind_res (json_int positive (jfield d ''close_generation'')) (\<lambda>generation.
     Inr \<lparr>o_closed_at = closed, o_boot_id = boot, o_close_generation = generation,
          o_extras = extras\<rparr>)))))"

definition owner_close_known :: "owner_close \<Rightarrow> json dict" where
  "owner_close_known oc =
     [(''closed_at'', JStr (o_closed_at oc)), (''boot_id'', JStr (o_boot_id oc)),
      (''close_generation'', JInt (o_close_generation oc))]"

definition owner_close_items :: "owner_close \<Rightarrow> json dict" where
  "owner_close_items oc = owner_close_known oc @ o_extras oc"

definition owner_close_ok :: "host \<Rightarrow> owner_close \<Rightarrow> bool" where
  "owner_close_ok h oc \<longleftrightarrow>
     utc_ok h (o_closed_at oc) \<and> text_ok max_id (o_boot_id oc) \<and> 1 \<le> o_close_generation oc
     \<and> extras_ok owner_close_keys (o_extras oc)"

definition norm_owner_close :: "owner_close \<Rightarrow> owner_close" where
  "norm_owner_close oc = oc\<lparr>o_extras := norm_items (o_extras oc)\<rparr>"

section \<open>Reading back the rows\<close>

lemma upgrade_shape_id [simp]: "\<not> same_keys raw old \<Longrightarrow> upgrade_shape old added raw = raw"
  by (simp add: upgrade_shape_def)

lemma same_keys_norm [simp]: "same_keys (norm_items kvs) keys = same_keys kvs keys"
  by (simp add: same_keys_def)

text \<open>A row that has a field its older shape lacks is not of the older shape.\<close>

lemma not_old_shape:
  "k \<in> set (dkeys known) \<Longrightarrow> k \<notin> set old \<Longrightarrow> \<not> same_keys (known @ extras) old"
  by (auto simp: same_keys_def)

lemma phase_from_json_written [simp]: "phase_from_json (JStr (phase_text p)) = Inr p"
  by (cases p) (simp_all add: phase_from_json_def json_choice_def)

lemma phase_from_json_norm [simp]: "phase_from_json (json_norm j) = phase_from_json j"
  by (simp add: phase_from_json_def)

lemma token_to_json_wf [simp]: "json_wf (token_to_json t)"
  by (simp add: token_to_json_def wf_dict_def)

lemma agent_ref_read:
  "ref_ok r \<Longrightarrow> ref_pool r = AgentPool \<Longrightarrow> canonical_resource_ref AgentPool (resource_ref_json r) = Inr r"
  using canonical_resource_ref_json [of r] by simp

lemma settlement_known_keys: "dkeys (settlement_known s) = settlement_keys" "distinct settlement_keys"
  by (simp_all add: settlement_known_def settlement_keys_def)

lemma settlement_not_old: "\<not> same_keys (settlement_items s) settlement_old_keys"
  unfolding settlement_items_def
  by (rule not_old_shape [of "''recovery_capability_sha256''"])
     (simp_all add: settlement_known_def settlement_old_keys_def)

lemma settlement_roundtrip:
  assumes ok: "settlement_ok h digest s"
  shows "settlement_from_json h digest (JObj (settlement_items s)) = Inr s"
proof -
  have ext: "extras_ok settlement_keys (s_extras s)" using ok by (simp add: settlement_ok_def)
  note written = tolerant_mapping_written [OF settlement_known_keys(1) [of s] settlement_known_keys(2) ext, folded settlement_items_def]
  define d where "d = filter (\<lambda>p. fst p \<in> set settlement_keys) (settlement_items s)"
  have fld: "jfield d k = the (dget (settlement_known s) k)" if "k \<in> set settlement_keys" for k
    using written(3) that d_def by simp
  have fields:
    "jfield d ''settlement_id'' = JStr (s_settlement_id s)"
    "jfield d ''phase'' = JStr (phase_text (s_phase s))"
    "jfield d ''lease_id'' = JStr (s_lease_id s)"
    "jfield d ''owner_id'' = JStr (s_owner_id s)"
    "jfield d ''owner_pid'' = jopt_int (s_owner_pid s)"
    "jfield d ''owner_process_start'' = jopt (s_owner_process_start s)"
    "jfield d ''session_id'' = JStr (s_session_id s)"
    "jfield d ''policy_sha256'' = JStr (s_policy_sha256 s)"
    "jfield d ''resource_ref'' = resource_ref_json (s_resource_ref s)"
    "jfield d ''token'' = token_to_json (s_token s)"
    "jfield d ''producer'' = JStr (s_producer s)"
    "jfield d ''run_id'' = JStr (s_run_id s)"
    "jfield d ''expected_output_sha256'' = JStr (s_expected_output_sha256 s)"
    "jfield d ''protected_write_intent_sha256'' = JStr (s_write_intent_sha256 s)"
    "jfield d ''recovery_capability_sha256'' = jopt (s_recovery_capability_sha256 s)"
    "jfield d ''prepared_at'' = JStr (s_prepared_at s)"
    "jfield d ''updated_at'' = JStr (s_updated_at s)"
    by (simp_all add: fld settlement_keys_def settlement_known_def)
  show ?thesis
    using ok unfolding settlement_from_json_def
    by (auto simp: py_dict_of_def written(2) d_def[symmetric] fields json_optional_jopt
        json_optional_jopt_int settlement_ok_def opt_text_ok_def utc_ok_def settlement_not_old
        agent_ref_read)
qed

lemma settlement_from_json_norm:
  assumes wf: "json_wf (JObj kvs)" and cur: "\<not> same_keys kvs settlement_old_keys"
  shows "settlement_from_json h digest (JObj (norm_items kvs))
    = map_sum id norm_settlement (settlement_from_json h digest (JObj kvs))"
proof -
  have "json_wf (JObj (filter (\<lambda>p. fst p \<in> set settlement_keys) kvs))"
    using wf by (rule json_wf_filter)
  then have "json_wf (jfield (filter (\<lambda>p. fst p \<in> set settlement_keys) kvs) k)" for k
    by (rule json_wf_jfield)
  moreover have "wf_dict kvs" using wf by simp
  ultimately show ?thesis
    using cur
    by (simp add: settlement_from_json_def py_dict_of_def tolerant_mapping_def filter_norm_known
        filter_norm_items canonical_resource_ref_norm token_from_json_norm map_sum_bind_res
        norm_settlement_def case_prod_unfold)
qed

lemma settlement_items_wf: "settlement_ok h digest s \<Longrightarrow> json_wf (JObj (settlement_items s))"
  unfolding settlement_items_def
  by (rule written_json_wf [OF settlement_known_keys])
     (auto simp: settlement_known_def settlement_ok_def)

lemma settlement_read_back:
  assumes "settlement_ok h digest s"
  shows "settlement_from_json h digest (json_norm (JObj (settlement_items s)))
    = Inr (norm_settlement s)"
  using settlement_from_json_norm [OF settlement_items_wf [OF assms] settlement_not_old]
    settlement_roundtrip [OF assms] by simp

lemma norm_settlement_ok: "settlement_ok h digest s \<Longrightarrow> settlement_ok h digest (norm_settlement s)"
  by (simp add: settlement_ok_def norm_settlement_def extras_ok_norm)

lemma upgrade_shape_wf:
  assumes "json_wf (JObj raw)" and "json_wf (JObj added)" and "set (dkeys added) \<inter> set old = {}"
  shows "json_wf (JObj (upgrade_shape old added raw))"
  using assms by (auto simp: upgrade_shape_def same_keys_def wf_dict_def)

lemma upgrade_extras_ok:
  assumes "json_wf j" and "json_wf (JObj added)" and "set (dkeys added) \<inter> set old = {}"
    and "py_dict_of j = Inr d"
  shows "extras_ok keys (filter (\<lambda>p. fst p \<notin> set keys) (upgrade_shape old added d))"
  by (rule extras_ok_filter [OF upgrade_shape_wf [OF py_dict_of_json_wf [OF assms(4,1)] assms(2,3)]])

lemma json_optional_sha256:
  "json_optional json_sha256 j = Inr v \<Longrightarrow> \<forall>c. v = Some c \<longrightarrow> is_sha256_text c"
  by (auto simp: json_optional_eq_Inr)

lemma settlement_sound:
  assumes "settlement_from_json h digest j = Inr s" and wf: "json_wf j"
  shows "settlement_ok h digest s"
proof -
  have ext: "extras_ok settlement_keys (filter (\<lambda>p. fst p \<notin> set settlement_keys)
      (upgrade_shape settlement_old_keys [(''recovery_capability_sha256'', JNull)] d))"
    if "py_dict_of j = Inr d" for d
    by (rule upgrade_extras_ok [OF wf _ _ that]) (auto simp: wf_dict_def settlement_old_keys_def)
  show ?thesis
    using assms(1) unfolding settlement_from_json_def
    apply (clarsimp simp: settlement_ok_def utc_ok_def dest!: canonical_resource_ref_sound)
    apply (intro conjI; (erule json_optional_sound json_optional_sha256 token_from_json_eq_Inr ext
          | assumption | blast)?)
    done
qed

text \<open>Fence heads.\<close>

lemma fence_known_keys: "dkeys (fence_known f) = fence_keys" "distinct fence_keys"
  by (simp_all add: fence_known_def fence_keys_def)

lemma fence_not_old: "\<not> same_keys (fence_items f) fence_old_keys"
  unfolding fence_items_def
  by (rule not_old_shape [of "''close_receipt''"]) (simp_all add: fence_known_def fence_old_keys_def)

lemma not_same_keys:
  "k \<in> set (dkeys kvs) \<Longrightarrow> k \<notin> set keys \<Longrightarrow> \<not> same_keys kvs keys"
  "k \<in> set keys \<Longrightarrow> k \<notin> set (dkeys kvs) \<Longrightarrow> \<not> same_keys kvs keys"
  by (auto simp: same_keys_def)

lemma agent_shape:
  "''logical_unit_id'' \<in> set (dkeys d) \<Longrightarrow> shape_pool d = AgentPool"
  using not_same_keys(1) [of "''logical_unit_id''" d worktree_resource_keys]
  by (simp add: shape_pool_def worktree_resource_keys_def)

lemma shape_pool_ref: "resource_ref_json r = JObj d \<Longrightarrow> shape_pool d = ref_pool r"
proof (cases r rule: resource_ref_json.cases)
  case (3 a b c)
  moreover assume "resource_ref_json r = JObj d"
  ultimately show ?thesis
    by (auto simp: shape_pool_def ref_pool_def same_keys_def worktree_resource_keys_def)
qed (auto simp: ref_pool_def intro!: agent_shape)

lemma fence_resource_read:
  assumes "ref_ok r"
  shows "fence_resource_from_json (resource_ref_json r) = Inr r"
proof -
  obtain d where d: "resource_ref_json r = JObj d"
    by (cases r rule: resource_ref_json.cases) auto
  then show ?thesis
    using canonical_resource_ref_json [OF assms] shape_pool_ref [OF d]
    by (simp add: fence_resource_from_json_def)
qed

lemma fence_resource_norm:
  "json_wf j \<Longrightarrow> fence_resource_from_json (json_norm j) = fence_resource_from_json j"
  using canonical_resource_ref_norm [of j "shape_pool (case j of JObj d \<Rightarrow> d | _ \<Rightarrow> [])"]
  by (cases j) (simp_all add: fence_resource_from_json_def shape_pool_def)

lemma fence_resource_sound: "fence_resource_from_json j = Inr r \<Longrightarrow> ref_ok r"
  by (auto simp: fence_resource_from_json_def dest: canonical_resource_ref_sound split: json.splits)

lemma close_not_old:
  "sc_binding c = Some b \<Longrightarrow> \<not> same_keys (close_items c) legacy_settlement_close_keys"
  by (rule not_same_keys(1) [of "''settlement_id''"])
     (simp_all add: close_items_def binding_items_def legacy_settlement_close_keys_def)

lemma close_receipt_read:
  "close_ok h c \<Longrightarrow> close_receipt_from_json h (JObj (close_items c)) = Inr c"
  by (cases "sc_binding c")
     (simp_all add: close_receipt_from_json_def close_keys(1) close_not_old
       validate_legacy_close_roundtrip validate_close_roundtrip)

lemma close_receipt_norm:
  "json_wf j \<Longrightarrow> close_receipt_from_json h (json_norm j) = close_receipt_from_json h j"
  by (cases j)
     (simp_all add: close_receipt_from_json_def validate_settlement_close_norm
       validate_legacy_settlement_close_norm)

lemma close_receipt_sound: "close_receipt_from_json h j = Inr c \<Longrightarrow> close_ok h c"
  by (auto simp: close_receipt_from_json_def dest: validate_close_sound validate_legacy_close_sound
      split: json.splits if_splits)

lemma close_items_wf [simp]: "json_wf (JObj (close_items c))"
  by (cases "sc_binding c")
     (auto simp: close_items_def binding_items_def wf_dict_def list_all_iff)

lemma json_optional_close_read:
  "(\<And>c. v = Some c \<Longrightarrow> close_ok h c) \<Longrightarrow>
     json_optional (close_receipt_from_json h)
       (case v of None \<Rightarrow> JNull | Some c \<Rightarrow> JObj (close_items c)) = Inr v"
  by (cases v) (simp_all add: json_optional_def close_receipt_read)

lemma fence_roundtrip:
  assumes ok: "fence_ok h digest f"
  shows "fence_from_json h digest (JObj (fence_items f)) = Inr f"
proof -
  have ext: "extras_ok fence_keys (f_extras f)" using ok by (simp add: fence_ok_def)
  note written = tolerant_mapping_written [OF fence_known_keys(1) [of f] fence_known_keys(2) ext,
      folded fence_items_def]
  define d where "d = filter (\<lambda>p. fst p \<in> set fence_keys) (fence_items f)"
  have fld: "jfield d k = the (dget (fence_known f) k)" if "k \<in> set fence_keys" for k
    using written(3) that d_def by simp
  have fields:
    "jfield d ''resource_ref'' = resource_ref_json (f_resource_ref f)"
    "jfield d ''broker_epoch'' = JStr (f_broker_epoch f)"
    "jfield d ''fencing_sequence'' = JInt (f_fencing_sequence f)"
    "jfield d ''lease_id'' = JStr (f_lease_id f)"
    by (simp_all add: fld fence_keys_def fence_known_def)
  have "jfield d ''close_receipt'' =
      (case f_close_receipt f of None \<Rightarrow> JNull | Some c \<Rightarrow> JObj (close_items c))"
    by (simp add: fld fence_keys_def fence_known_def)
  then have close: "json_optional (close_receipt_from_json h) (jfield d ''close_receipt'')
      = Inr (f_close_receipt f)"
    using json_optional_close_read [of "f_close_receipt f" h] ok by (simp add: fence_ok_def)
  show ?thesis
    using ok unfolding fence_from_json_def
    by (auto simp: py_dict_of_def written(2) d_def[symmetric] fields close fence_ok_def
        fence_not_old fence_resource_read close_binds_def f_token_def)
qed

lemma JStr_eq_norm [simp]: "JStr s = json_norm j \<longleftrightarrow> JStr s = j" "JInt n = json_norm j \<longleftrightarrow> JInt n = j"
  by (cases j; simp)+

lemma fence_from_json_norm:
  assumes wf: "json_wf (JObj kvs)" and cur: "\<not> same_keys kvs fence_old_keys"
  shows "fence_from_json h digest (JObj (norm_items kvs))
    = map_sum id norm_fence (fence_from_json h digest (JObj kvs))"
proof -
  have "json_wf (JObj (filter (\<lambda>p. fst p \<in> set fence_keys) kvs))"
    using wf by (rule json_wf_filter)
  then have "json_wf (jfield (filter (\<lambda>p. fst p \<in> set fence_keys) kvs) k)" for k
    by (rule json_wf_jfield)
  moreover have "wf_dict kvs" using wf by simp
  ultimately show ?thesis
    using cur
    by (simp add: fence_from_json_def py_dict_of_def tolerant_mapping_def filter_norm_known
        filter_norm_items fence_resource_norm json_optional_norm_wf close_receipt_norm
        map_sum_bind_res norm_fence_def case_prod_unfold)
qed

lemma fence_items_wf: "fence_ok h digest f \<Longrightarrow> json_wf (JObj (fence_items f))"
  unfolding fence_items_def
  by (rule written_json_wf [OF fence_known_keys])
     (auto simp: fence_known_def fence_ok_def simp del: json_wf.simps(2) split: option.splits)

lemma fence_read_back:
  assumes "fence_ok h digest f"
  shows "fence_from_json h digest (json_norm (JObj (fence_items f))) = Inr (norm_fence f)"
  using fence_from_json_norm [OF fence_items_wf [OF assms] fence_not_old]
    fence_roundtrip [OF assms] by simp

lemma norm_fence_ok: "fence_ok h digest f \<Longrightarrow> fence_ok h digest (norm_fence f)"
  by (simp add: fence_ok_def norm_fence_def extras_ok_norm close_binds_def f_token_def)

lemma json_optional_close_sound:
  "json_optional (close_receipt_from_json h) j = Inr v \<Longrightarrow> v = Some c \<Longrightarrow> close_ok h c"
  by (auto simp: json_optional_eq_Inr dest: close_receipt_sound)

lemma fence_sound:
  assumes "fence_from_json h digest j = Inr f" and wf: "json_wf j"
  shows "fence_ok h digest f"
proof -
  have ext: "extras_ok fence_keys (filter (\<lambda>p. fst p \<notin> set fence_keys)
      (upgrade_shape fence_old_keys [(''close_receipt'', JNull)] d))"
    if "py_dict_of j = Inr d" for d
    by (rule upgrade_extras_ok [OF wf _ _ that]) (auto simp: wf_dict_def fence_old_keys_def)
  show ?thesis
    using assms(1) unfolding fence_from_json_def
    by (auto simp: fence_ok_def close_binds_def f_token_def fencing_token.expand dest!: ext
        dest: fence_resource_sound json_optional_close_sound)
qed

text \<open>Session admissions.\<close>

lemma admission_known_keys: "dkeys (admission_known a) = admission_keys" "distinct admission_keys"
  by (simp_all add: admission_known_def admission_keys_def)

lemma admission_not_old: "\<not> same_keys (admission_items a) admission_old_keys"
  unfolding admission_items_def
  by (rule not_old_shape [of "''boot_id''"]) (simp_all add: admission_known_def admission_old_keys_def)

lemma admission_roundtrip:
  assumes ok: "admission_ok a"
  shows "admission_from_json (JObj (admission_items a)) = Inr a"
proof -
  have ext: "extras_ok admission_keys (a_extras a)" using ok by (simp add: admission_ok_def)
  note written = tolerant_mapping_written [OF admission_known_keys(1) [of a]
      admission_known_keys(2) ext, folded admission_items_def]
  define d where "d = filter (\<lambda>p. fst p \<in> set admission_keys) (admission_items a)"
  have fld: "jfield d k = the (dget (admission_known a) k)" if "k \<in> set admission_keys" for k
    using written(3) that d_def by simp
  have fields:
    "jfield d ''policy_sha256'' = JStr (a_policy_sha256 a)"
    "jfield d ''session_limit'' = JInt (a_session_limit a)"
    "jfield d ''aggregate_limit'' = JInt (a_aggregate_limit a)"
    "jfield d ''mutation'' = mutation_json (a_mutation a)"
    "jfield d ''configured_monotonic_ns'' = JInt (a_configured_monotonic_ns a)"
    "jfield d ''boot_id'' = JStr (a_boot_id a)"
    "jfield d ''ttl_seconds'' = JInt (a_ttl_seconds a)"
    by (simp_all add: fld admission_keys_def admission_known_def)
  show ?thesis
    using ok unfolding admission_from_json_def
    by (auto simp: py_dict_of_def written(2) d_def[symmetric] fields admission_ok_def
        admission_not_old)
qed

lemma admission_from_json_norm:
  assumes wf: "json_wf (JObj kvs)" and cur: "\<not> same_keys kvs admission_old_keys"
  shows "admission_from_json (JObj (norm_items kvs))
    = map_sum id norm_admission (admission_from_json (JObj kvs))"
  using assms
  by (simp add: admission_from_json_def py_dict_of_def tolerant_mapping_def filter_norm_known
      filter_norm_items map_sum_bind_res norm_admission_def case_prod_unfold)

lemma admission_items_wf: "admission_ok a \<Longrightarrow> json_wf (JObj (admission_items a))"
  unfolding admission_items_def
  by (rule written_json_wf [OF admission_known_keys]) (auto simp: admission_known_def admission_ok_def)

lemma admission_read_back:
  assumes "admission_ok a"
  shows "admission_from_json (json_norm (JObj (admission_items a))) = Inr (norm_admission a)"
  using admission_from_json_norm [OF admission_items_wf [OF assms] admission_not_old]
    admission_roundtrip [OF assms] by simp

lemma norm_admission_ok: "admission_ok a \<Longrightarrow> admission_ok (norm_admission a)"
  by (simp add: admission_ok_def norm_admission_def extras_ok_norm)

lemma admission_sound:
  assumes "admission_from_json j = Inr a" and wf: "json_wf j"
  shows "admission_ok a"
proof -
  have ext: "extras_ok admission_keys (filter (\<lambda>p. fst p \<notin> set admission_keys)
      (upgrade_shape admission_old_keys [(''configured_monotonic_ns'', JInt 0),
        (''boot_id'', JStr ''legacy-session-admission''), (''ttl_seconds'', JInt 1)] d))"
    if "py_dict_of j = Inr d" for d
    by (rule upgrade_extras_ok [OF wf _ _ that]) (auto simp: wf_dict_def admission_old_keys_def)
  show ?thesis
    using assms(1) unfolding admission_from_json_def
    by (auto simp: admission_ok_def dest!: ext)
qed

text \<open>Owner-admission closes.\<close>

lemma owner_close_known_keys:
  "dkeys (owner_close_known oc) = owner_close_keys" "distinct owner_close_keys"
  by (simp_all add: owner_close_known_def owner_close_keys_def)

lemma owner_close_roundtrip:
  assumes ok: "owner_close_ok h oc"
  shows "owner_close_from_json h (JObj (owner_close_items oc)) = Inr oc"
proof -
  have ext: "extras_ok owner_close_keys (o_extras oc)" using ok by (simp add: owner_close_ok_def)
  note written = tolerant_mapping_written [OF owner_close_known_keys(1) [of oc]
      owner_close_known_keys(2) ext, folded owner_close_items_def]
  define d where "d = filter (\<lambda>p. fst p \<in> set owner_close_keys) (owner_close_items oc)"
  have fld: "jfield d k = the (dget (owner_close_known oc) k)" if "k \<in> set owner_close_keys" for k
    using written(3) that d_def by simp
  have fields:
    "jfield d ''closed_at'' = JStr (o_closed_at oc)"
    "jfield d ''boot_id'' = JStr (o_boot_id oc)"
    "jfield d ''close_generation'' = JInt (o_close_generation oc)"
    by (simp_all add: fld owner_close_keys_def owner_close_known_def)
  show ?thesis
    using ok unfolding owner_close_from_json_def
    by (auto simp: py_dict_of_def written(2) d_def[symmetric] fields owner_close_ok_def utc_ok_def)
qed

lemma owner_close_from_json_norm:
  assumes wf: "json_wf (JObj kvs)"
  shows "owner_close_from_json h (JObj (norm_items kvs))
    = map_sum id norm_owner_close (owner_close_from_json h (JObj kvs))"
  using assms
  by (simp add: owner_close_from_json_def py_dict_of_def tolerant_mapping_def filter_norm_known
      filter_norm_items map_sum_bind_res norm_owner_close_def case_prod_unfold)

lemma owner_close_items_wf: "owner_close_ok h oc \<Longrightarrow> json_wf (JObj (owner_close_items oc))"
  unfolding owner_close_items_def
  by (rule written_json_wf [OF owner_close_known_keys])
     (auto simp: owner_close_known_def owner_close_ok_def)

lemma owner_close_read_back:
  assumes "owner_close_ok h oc"
  shows "owner_close_from_json h (json_norm (JObj (owner_close_items oc)))
    = Inr (norm_owner_close oc)"
  using owner_close_from_json_norm [OF owner_close_items_wf [OF assms]]
    owner_close_roundtrip [OF assms] by simp

lemma norm_owner_close_ok: "owner_close_ok h oc \<Longrightarrow> owner_close_ok h (norm_owner_close oc)"
  by (simp add: owner_close_ok_def norm_owner_close_def extras_ok_norm)

lemma owner_close_sound:
  assumes "owner_close_from_json h j = Inr oc" and wf: "json_wf j"
  shows "owner_close_ok h oc"
  using assms(1) py_dict_of_json_wf [OF _ wf] unfolding owner_close_from_json_def
  by (auto simp: owner_close_ok_def utc_ok_def intro!: extras_ok_filter)

end
