(* ===== verification/Lease_Registry.thy ===== *)
theory Lease_Registry
  imports Lease_Rows
begin

text \<open>
  The registry document (\<open>Registry\<close>): its five tables, the migrations of its older shapes, the
  checks \<open>from_dict\<close> makes across the tables, \<open>to_dict\<close>, and the inventory and removal of
  preserved unknown fields.  A registry that satisfies \<open>registry_ok\<close> is written and read back as
  itself, with its tables in key order.
\<close>

section \<open>The document\<close>

record registry =
  r_broker_epoch :: string
  r_recovery_capability :: "string option"
  r_next_sequence :: int
  r_fences :: "fence dict"
  r_leases :: "lease dict"
  r_admissions :: "session_admission dict"
  r_settlements :: "settlement dict"
  r_closed_owners :: "owner_close dict"
  r_extras :: "json dict"

definition registry_schema :: string where
  "registry_schema = ''fleet_lease_registry.v1''"

definition top_keys :: "string list" where
  "top_keys =
     [''schema'', ''broker_epoch'', ''recovery_capability_sha256'', ''next_fencing_sequence'',
      ''resource_fences'', ''leases'', ''session_admissions'', ''settlements'',
      ''closed_owner_admissions'']"

definition fresh_registry :: "string \<Rightarrow> registry" where
  "fresh_registry epoch =
     \<lparr>r_broker_epoch = epoch, r_recovery_capability = None, r_next_sequence = 1, r_fences = [],
      r_leases = [], r_admissions = [], r_settlements = [], r_closed_owners = [], r_extras = []\<rparr>"

section \<open>Older documents\<close>

definition keys_within :: "json dict \<Rightarrow> string list \<Rightarrow> bool" where
  "keys_within raw keys \<longleftrightarrow> list_all (\<lambda>k. k \<in> set keys) (dkeys raw)"

definition keys_without :: "string list \<Rightarrow> string list \<Rightarrow> string list" where
  "keys_without ks keys = filter (\<lambda>k. k \<notin> set ks) keys"

definition add_closed_owners :: "json dict \<Rightarrow> json dict" where
  "add_closed_owners raw =
     (if dget raw ''closed_owner_admissions'' = None
         \<and> keys_within raw (keys_without [''closed_owner_admissions''] top_keys)
      then raw @ [(''closed_owner_admissions'', JObj [])] else raw)"

definition add_recovery_capability :: "json dict \<Rightarrow> json dict" where
  "add_recovery_capability raw =
     (if dget raw ''recovery_capability_sha256'' = None
         \<and> keys_within raw (keys_without [''recovery_capability_sha256''] top_keys)
      then raw @ [(''recovery_capability_sha256'', JNull)] else raw)"

definition add_missing_tables :: "json dict \<Rightarrow> json dict" where
  "add_missing_tables raw =
     (if same_keys raw (keys_without [''session_admissions'', ''settlements''] top_keys)
         \<and> dget raw ''schema'' = Some (JStr registry_schema)
      then raw @ [(''session_admissions'', JObj []), (''settlements'', JObj [])]
      else if same_keys raw (keys_without [''settlements''] top_keys)
         \<and> dget raw ''schema'' = Some (JStr registry_schema)
      then raw @ [(''settlements'', JObj [])]
      else if same_keys raw (keys_without [''session_admissions''] top_keys)
         \<and> dget raw ''schema'' = Some (JStr registry_schema)
      then raw @ [(''session_admissions'', JObj [])]
      else raw)"

definition migrate_registry :: "json dict \<Rightarrow> json dict" where
  "migrate_registry raw = add_missing_tables (add_recovery_capability (add_closed_owners raw))"

section \<open>Reading\<close>

definition json_object :: "json \<Rightarrow> broker_error + json dict" where
  "json_object j = (case j of JObj kvs \<Rightarrow> Inr kvs | _ \<Rightarrow> Inl RegistryCorruptError)"

definition read_rows ::
    "(string \<Rightarrow> json \<Rightarrow> broker_error + 'a) \<Rightarrow> json dict \<Rightarrow> broker_error + 'a dict" where
  "read_rows f kvs = map_res (\<lambda>(k, j). bind_res (f k j) (\<lambda>v. Inr (k, v))) kvs"

text \<open>Every sequence number the registry has handed out.\<close>

definition issued_sequences :: "registry \<Rightarrow> int list" where
  "issued_sequences r =
     map l_fencing_sequence (dvalues (r_leases r))
     @ map f_fencing_sequence (dvalues (r_fences r))
     @ map o_close_generation (dvalues (r_closed_owners r))"

text \<open>A prepared settlement is bound to the open head of its resource and the lease it names.\<close>

definition settlement_bound :: "registry \<Rightarrow> string \<Rightarrow> settlement \<Rightarrow> bool" where
  "settlement_bound r digest s \<longleftrightarrow>
     (case (dget (r_fences r) digest, dget (r_leases r) (s_lease_id s)) of
        (Some f, Some l) \<Rightarrow>
          f_close_receipt f = None \<and> f_lease_id f = s_lease_id s
          \<and> l_resource_ref l = Some (s_resource_ref s) \<and> l_token l = s_token s
          \<and> f_token f = s_token s
      | _ \<Rightarrow> False)"

definition document_extras_bytes :: "registry \<Rightarrow> nat" where
  "document_extras_bytes r =
     extras_serialized_size (r_extras r)
     + sum_list (map (\<lambda>f. extras_serialized_size (f_extras f)) (dvalues (r_fences r)))
     + sum_list (map (\<lambda>l. extras_serialized_size (l_extras l)) (dvalues (r_leases r)))
     + sum_list (map (\<lambda>a. extras_serialized_size (a_extras a)) (dvalues (r_admissions r)))
     + sum_list (map (\<lambda>s. extras_serialized_size (s_extras s)) (dvalues (r_settlements r)))
     + sum_list (map (\<lambda>c. extras_serialized_size (o_extras c)) (dvalues (r_closed_owners r)))"

definition registry_consistent :: "registry \<Rightarrow> bool" where
  "registry_consistent r \<longleftrightarrow>
     list_all (\<lambda>f. f_broker_epoch f = r_broker_epoch r) (dvalues (r_fences r))
     \<and> list_all (\<lambda>n. n < r_next_sequence r) (issued_sequences r)
     \<and> list_all (\<lambda>(digest, s). settlement_bound r digest s) (r_settlements r)
     \<and> document_extras_bytes r \<le> max_extras_bytes"

definition registry_from_json :: "host \<Rightarrow> json dict \<Rightarrow> broker_error + registry" where
  "registry_from_json h data =
     bind_res (tolerant_mapping (migrate_registry data) top_keys) (\<lambda>(d, extras).
     bind_res (guard_res (jfield d ''schema'' = JStr registry_schema) RegistryCorruptError) (\<lambda>_.
     bind_res (json_uuid (jfield d ''broker_epoch'')) (\<lambda>epoch.
     bind_res (json_optional json_sha256 (jfield d ''recovery_capability_sha256'')) (\<lambda>cap.
     bind_res (json_int positive (jfield d ''next_fencing_sequence'')) (\<lambda>next.
     bind_res (json_object (jfield d ''resource_fences'')) (\<lambda>fences_raw.
     bind_res (json_object (jfield d ''leases'')) (\<lambda>leases_raw.
     bind_res (json_object (jfield d ''session_admissions'')) (\<lambda>admissions_raw.
     bind_res (json_object (jfield d ''settlements'')) (\<lambda>settlements_raw.
     bind_res (json_object (jfield d ''closed_owner_admissions'')) (\<lambda>owners_raw.
     bind_res (guard_res (length admissions_raw \<le> max_session_admissions) RegistryCorruptError) (\<lambda>_.
     bind_res (guard_res (length settlements_raw \<le> max_settlements) RegistryCorruptError) (\<lambda>_.
     bind_res (guard_res (length owners_raw \<le> max_closed_owner_admissions) RegistryCorruptError) (\<lambda>_.
     bind_res (read_rows (fence_from_json h) fences_raw) (\<lambda>fences.
     bind_res (read_rows (\<lambda>k j. lease_from_json h k j epoch) leases_raw) (\<lambda>leases.
     bind_res (read_rows (\<lambda>k j. bind_res (bounded max_id k) (\<lambda>_. admission_from_json j))
       admissions_raw) (\<lambda>admissions.
     bind_res (read_rows (settlement_from_json h) settlements_raw) (\<lambda>settlements.
     bind_res (read_rows (\<lambda>k j. bind_res (bounded max_id k) (\<lambda>_. owner_close_from_json h j))
       owners_raw) (\<lambda>owners.
     let r = \<lparr>r_broker_epoch = epoch, r_recovery_capability = cap, r_next_sequence = next,
              r_fences = fences, r_leases = leases, r_admissions = admissions,
              r_settlements = settlements, r_closed_owners = owners, r_extras = extras\<rparr>
     in bind_res (guard_res (registry_consistent r) RegistryCorruptError) (\<lambda>_.
        Inr r)))))))))))))))))))"

section \<open>Writing\<close>

definition write_rows :: "('a \<Rightarrow> json dict) \<Rightarrow> 'a dict \<Rightarrow> json" where
  "write_rows f d = JObj (map (\<lambda>(k, v). (k, JObj (f v))) (dsort d))"

definition registry_known :: "registry \<Rightarrow> json dict" where
  "registry_known r =
     [(''schema'', JStr registry_schema), (''broker_epoch'', JStr (r_broker_epoch r)),
      (''recovery_capability_sha256'', jopt (r_recovery_capability r)),
      (''next_fencing_sequence'', JInt (r_next_sequence r)),
      (''resource_fences'', write_rows fence_items (r_fences r)),
      (''leases'', write_rows lease_items (r_leases r)),
      (''session_admissions'', write_rows admission_items (r_admissions r)),
      (''settlements'', write_rows settlement_items (r_settlements r)),
      (''closed_owner_admissions'', write_rows owner_close_items (r_closed_owners r))]"

definition registry_to_json :: "registry \<Rightarrow> json dict" where
  "registry_to_json r = registry_known r @ r_extras r"

definition issue_sequence :: "registry \<Rightarrow> int \<times> registry" where
  "issue_sequence r = (r_next_sequence r, r\<lparr>r_next_sequence := r_next_sequence r + 1\<rparr>)"

section \<open>Unknown fields\<close>

definition sorted_keys :: "json dict \<Rightarrow> string list" where
  "sorted_keys extras = sort (dkeys extras)"

definition inventory_entry :: "string \<Rightarrow> json dict \<Rightarrow> (string \<times> string list) list" where
  "inventory_entry path extras = (if extras = [] then [] else [(path, sorted_keys extras)])"

definition inventory_rows ::
    "string \<Rightarrow> ('a \<Rightarrow> json dict) \<Rightarrow> 'a dict \<Rightarrow> (string \<times> string list) list" where
  "inventory_rows prefix extras d =
     concat (map (\<lambda>(k, v). inventory_entry (prefix @ k) (extras v)) (dsort d))"

definition extras_inventory :: "registry \<Rightarrow> (string \<times> string list) list" where
  "extras_inventory r =
     inventory_entry ''$'' (r_extras r)
     @ inventory_rows ''$.resource_fences.'' f_extras (r_fences r)
     @ inventory_rows ''$.leases.'' l_extras (r_leases r)
     @ inventory_rows ''$.session_admissions.'' a_extras (r_admissions r)
     @ inventory_rows ''$.settlements.'' s_extras (r_settlements r)
     @ inventory_rows ''$.closed_owner_admissions.'' o_extras (r_closed_owners r)"

definition map_rows :: "('a \<Rightarrow> 'b) \<Rightarrow> 'a dict \<Rightarrow> 'b dict" where
  "map_rows f d = map (\<lambda>(k, v). (k, f v)) d"

definition strip_extras :: "registry \<Rightarrow> registry" where
  "strip_extras r =
     r\<lparr>r_fences := map_rows (f_extras_update (\<lambda>_. [])) (r_fences r),
       r_leases := map_rows (l_extras_update (\<lambda>_. [])) (r_leases r),
       r_admissions := map_rows (a_extras_update (\<lambda>_. [])) (r_admissions r),
       r_settlements := map_rows (s_extras_update (\<lambda>_. [])) (r_settlements r),
       r_closed_owners := map_rows (o_extras_update (\<lambda>_. [])) (r_closed_owners r),
       r_extras := []\<rparr>"

section \<open>Well-formed registries\<close>

definition rows_ok :: "(string \<Rightarrow> 'a \<Rightarrow> bool) \<Rightarrow> 'a dict \<Rightarrow> bool" where
  "rows_ok ok d \<longleftrightarrow> wf_dict d \<and> list_all (\<lambda>(k, v). ok k v) d"

definition registry_ok :: "host \<Rightarrow> registry \<Rightarrow> bool" where
  "registry_ok h r \<longleftrightarrow>
     is_uuid_text (r_broker_epoch r)
     \<and> (\<forall>c. r_recovery_capability r = Some c \<longrightarrow> is_sha256_text c)
     \<and> 1 \<le> r_next_sequence r
     \<and> rows_ok (fence_ok h) (r_fences r)
     \<and> rows_ok (\<lambda>k. lease_ok h k (r_broker_epoch r)) (r_leases r)
     \<and> rows_ok (\<lambda>k a. text_ok max_id k \<and> admission_ok a) (r_admissions r)
     \<and> rows_ok (settlement_ok h) (r_settlements r)
     \<and> rows_ok (\<lambda>k c. text_ok max_id k \<and> owner_close_ok h c) (r_closed_owners r)
     \<and> length (r_admissions r) \<le> max_session_admissions
     \<and> length (r_settlements r) \<le> max_settlements
     \<and> length (r_closed_owners r) \<le> max_closed_owner_admissions
     \<and> extras_ok top_keys (r_extras r)
     \<and> registry_consistent r"

definition norm_rows :: "('a \<Rightarrow> 'a) \<Rightarrow> 'a dict \<Rightarrow> 'a dict" where
  "norm_rows f d = map_rows f (dsort d)"

definition norm_registry :: "registry \<Rightarrow> registry" where
  "norm_registry r =
     r\<lparr>r_fences := norm_rows norm_fence (r_fences r),
       r_leases := norm_rows norm_lease (r_leases r),
       r_admissions := norm_rows norm_admission (r_admissions r),
       r_settlements := norm_rows norm_settlement (r_settlements r),
       r_closed_owners := norm_rows norm_owner_close (r_closed_owners r),
       r_extras := norm_items (r_extras r)\<rparr>"

section \<open>Reading back a registry\<close>

lemma norm_items_eq_Nil [simp]: "norm_items e = [] \<longleftrightarrow> e = []"
  by (auto simp: norm_items_def simp flip: length_0_conv)

lemma extras_size_norm:
  "json_wf (JObj e) \<Longrightarrow> extras_serialized_size (norm_items e) = extras_serialized_size e"
  using canonical_json_norm [of "JObj e"] by (simp add: extras_serialized_size_def)

lemma dget_map_rows [simp]: "dget (map_rows f d) k = map_option f (dget d k)"
  by (simp add: map_rows_def dget_norm_map)

lemma wf_map_rows [simp]: "wf_dict (map_rows f d) = wf_dict d"
  by (simp add: map_rows_def)

lemma set_map_rows: "set (map_rows f d) = (\<lambda>(k, v). (k, f v)) ` set d"
  by (simp add: map_rows_def)

lemma norm_rows_simps [simp]:
  "wf_dict d \<Longrightarrow> dget (norm_rows f d) k = map_option f (dget d k)"
  "wf_dict (norm_rows f d) = wf_dict d"
  "length (norm_rows f d) = length d"
  by (simp_all add: norm_rows_def) (simp add: map_rows_def)

lemma set_norm_rows: "set (norm_rows f d) = (\<lambda>(k, v). (k, f v)) ` set d"
  by (simp add: norm_rows_def set_map_rows)

lemma set_dvalues_norm_rows: "set (dvalues (norm_rows f d)) = f ` set (dvalues d)"
  by (force simp: set_norm_rows image_image)

lemma sum_norm_rows:
  fixes g :: "'a \<Rightarrow> nat"
  assumes "\<And>v. v \<in> set (dvalues d) \<Longrightarrow> g (f v) = g v"
  shows "sum_list (map g (dvalues (norm_rows f d))) = sum_list (map g (dvalues d))"
proof -
  have "sum_list (map g (dvalues (norm_rows f d))) = sum_list (map (\<lambda>(k, v). g (f v)) (dsort d))"
    by (simp add: norm_rows_def map_rows_def comp_def case_prod_unfold)
  also have "\<dots> = sum_list (map (\<lambda>(k, v). g v) (dsort d))"
    using assms by (intro arg_cong [where f = sum_list]) force
  also have "\<dots> = sum_mset (image_mset (\<lambda>(k, v). g v) (mset (dsort d)))"
    by (simp only: sum_mset_sum_list [symmetric] mset_map)
  also have "\<dots> = sum_list (map (\<lambda>(k, v). g v) d)"
    by (simp only: mset_dsort sum_mset_sum_list [symmetric] mset_map)
  finally show ?thesis by (simp add: comp_def case_prod_unfold)
qed

lemma dsort_sorted: "sorted (dkeys d) \<Longrightarrow> dsort d = d"
  by (simp add: dsort_def sort_key_id_if_sorted)

lemma write_rows_norm:
  "json_norm (write_rows f d) = JObj (map (\<lambda>(k, v). (k, json_norm (JObj (f v)))) (dsort d))"
proof -
  have "sorted (dkeys (dsort d))" by (simp add: dsort_def)
  then show ?thesis
    by (simp add: write_rows_def norm_items_def comp_def case_prod_unfold dsort_sorted)
qed

lemma read_rows_written:
  assumes "rows_ok ok d"
    and "\<And>k v. ok k v \<Longrightarrow> f k (json_norm (JObj (items v))) = Inr (norm v)"
  shows "read_rows f (map (\<lambda>(k, v). (k, json_norm (JObj (items v)))) (dsort d))
    = Inr (norm_rows norm d)"
proof -
  have "map_res (\<lambda>(k, j). bind_res (f k j) (\<lambda>v. Inr (k, v)))
      (map (\<lambda>(k, v). (k, json_norm (JObj (items v)))) xs) = Inr (map_rows norm xs)"
    if "\<forall>(k, v) \<in> set xs. ok k v" for xs
    using that assms(2) by (induction xs) (auto simp: map_rows_def)
  moreover have "\<forall>(k, v) \<in> set (dsort d). ok k v"
    using assms(1) by (auto simp: rows_ok_def list_all_iff)
  ultimately show ?thesis by (simp add: read_rows_def norm_rows_def)
qed

lemma rows_ok_lookup: "rows_ok ok d \<Longrightarrow> dget d k = Some v \<Longrightarrow> ok k v"
  by (auto simp: rows_ok_def list_all_iff dest: map_of_SomeD)

lemma rows_ok_values: "rows_ok ok d \<Longrightarrow> v \<in> set (dvalues d) \<Longrightarrow> \<exists>k. ok k v"
  by (force simp: rows_ok_def list_all_iff)

lemma rows_ok_norm:
  assumes "rows_ok ok d" and "\<And>k v. ok k v \<Longrightarrow> ok k (norm v)"
  shows "rows_ok ok (norm_rows norm d)"
  using assms by (auto simp: rows_ok_def list_all_iff set_norm_rows)

lemma norm_row_fields [simp]:
  "f_broker_epoch (norm_fence f) = f_broker_epoch f"
  "f_fencing_sequence (norm_fence f) = f_fencing_sequence f"
  "f_lease_id (norm_fence f) = f_lease_id f"
  "f_close_receipt (norm_fence f) = f_close_receipt f"
  "f_resource_ref (norm_fence f) = f_resource_ref f"
  "f_token (norm_fence f) = f_token f"
  "l_fencing_sequence (norm_lease l) = l_fencing_sequence l"
  "l_resource_ref (norm_lease l) = l_resource_ref l"
  "l_token (norm_lease l) = l_token l"
  "l_lease_id (norm_lease l) = l_lease_id l"
  "s_lease_id (norm_settlement s) = s_lease_id s"
  "s_resource_ref (norm_settlement s) = s_resource_ref s"
  "s_token (norm_settlement s) = s_token s"
  "o_close_generation (norm_owner_close oc) = o_close_generation oc"
  by (simp_all add: norm_fence_def norm_lease_def norm_settlement_def norm_owner_close_def
      f_token_def l_token_def)

lemma norm_registry_fields [simp]:
  "r_broker_epoch (norm_registry r) = r_broker_epoch r"
  "r_recovery_capability (norm_registry r) = r_recovery_capability r"
  "r_next_sequence (norm_registry r) = r_next_sequence r"
  "r_fences (norm_registry r) = norm_rows norm_fence (r_fences r)"
  "r_leases (norm_registry r) = norm_rows norm_lease (r_leases r)"
  "r_admissions (norm_registry r) = norm_rows norm_admission (r_admissions r)"
  "r_settlements (norm_registry r) = norm_rows norm_settlement (r_settlements r)"
  "r_closed_owners (norm_registry r) = norm_rows norm_owner_close (r_closed_owners r)"
  "r_extras (norm_registry r) = norm_items (r_extras r)"
  by (simp_all add: norm_registry_def)

lemma issued_sequences_norm [simp]: "set (issued_sequences (norm_registry r)) = set (issued_sequences r)"
  by (force simp: issued_sequences_def set_norm_rows image_Un image_image)

lemma settlement_bound_norm:
  assumes "wf_dict (r_fences r)" and "wf_dict (r_leases r)"
  shows "settlement_bound (norm_registry r) k (norm_settlement s) = settlement_bound r k s"
  using assms by (auto simp: settlement_bound_def split: option.splits)

lemma document_extras_norm:
  assumes "registry_ok h r"
  shows "document_extras_bytes (norm_registry r) = document_extras_bytes r"
proof -
  have ext: "extras_serialized_size (norm_items e) = extras_serialized_size e"
    if "extras_ok ks e" for ks e
    using that by (intro extras_size_norm) (simp add: extras_ok_def)
  have rows:
    "rows_ok (fence_ok h) (r_fences r)"
    "rows_ok (\<lambda>k. lease_ok h k (r_broker_epoch r)) (r_leases r)"
    "rows_ok (\<lambda>k a. text_ok max_id k \<and> admission_ok a) (r_admissions r)"
    "rows_ok (settlement_ok h) (r_settlements r)"
    "rows_ok (\<lambda>k c. text_ok max_id k \<and> owner_close_ok h c) (r_closed_owners r)"
    using assms by (simp_all add: registry_ok_def)
  have "extras_serialized_size (f_extras (norm_fence f)) = extras_serialized_size (f_extras f)"
    if "f \<in> set (dvalues (r_fences r))" for f
    using rows_ok_values [OF rows(1) that] by (auto simp: fence_ok_def norm_fence_def ext)
  moreover have "extras_serialized_size (l_extras (norm_lease l)) = extras_serialized_size (l_extras l)"
    if "l \<in> set (dvalues (r_leases r))" for l
    using rows_ok_values [OF rows(2) that] by (auto simp: lease_ok_def norm_lease_def ext)
  moreover have "extras_serialized_size (a_extras (norm_admission a)) = extras_serialized_size (a_extras a)"
    if "a \<in> set (dvalues (r_admissions r))" for a
    using rows_ok_values [OF rows(3) that] by (auto simp: admission_ok_def norm_admission_def ext)
  moreover have "extras_serialized_size (s_extras (norm_settlement s)) = extras_serialized_size (s_extras s)"
    if "s \<in> set (dvalues (r_settlements r))" for s
    using rows_ok_values [OF rows(4) that] by (auto simp: settlement_ok_def norm_settlement_def ext)
  moreover have "extras_serialized_size (o_extras (norm_owner_close c)) = extras_serialized_size (o_extras c)"
    if "c \<in> set (dvalues (r_closed_owners r))" for c
    using rows_ok_values [OF rows(5) that] by (auto simp: owner_close_ok_def norm_owner_close_def ext)
  moreover have "extras_serialized_size (norm_items (r_extras r)) = extras_serialized_size (r_extras r)"
    using assms by (auto simp: registry_ok_def ext)
  ultimately show ?thesis by (simp only: document_extras_bytes_def sum_norm_rows norm_registry_fields)
qed

lemma registry_consistent_norm:
  assumes "registry_ok h r"
  shows "registry_consistent (norm_registry r)"
proof -
  have con: "registry_consistent r" and wf: "wf_dict (r_fences r)" "wf_dict (r_leases r)"
    using assms by (auto simp: registry_ok_def rows_ok_def)
  have "list_all (\<lambda>f. f_broker_epoch f = r_broker_epoch r) (dvalues (norm_rows norm_fence (r_fences r)))"
    using con by (auto simp: list_all_iff registry_consistent_def set_norm_rows)
  moreover have "list_all (\<lambda>n. n < r_next_sequence r) (issued_sequences (norm_registry r))"
    using con by (auto simp: list_all_iff registry_consistent_def)
  moreover have "list_all (\<lambda>(digest, s). settlement_bound (norm_registry r) digest s)
      (norm_rows norm_settlement (r_settlements r))"
    using con by (auto simp: list_all_iff registry_consistent_def set_norm_rows settlement_bound_norm wf)
  ultimately show ?thesis
    using con by (simp add: registry_consistent_def document_extras_norm [OF assms])
qed

lemma norm_registry_ok:
  assumes "registry_ok h r"
  shows "registry_ok h (norm_registry r)"
proof -
  have "rows_ok (\<lambda>k a. text_ok max_id k \<and> admission_ok a) (norm_rows norm_admission (r_admissions r))"
    by (rule rows_ok_norm) (use assms in \<open>simp_all add: registry_ok_def norm_admission_ok\<close>)
  moreover have "rows_ok (\<lambda>k c. text_ok max_id k \<and> owner_close_ok h c)
      (norm_rows norm_owner_close (r_closed_owners r))"
    by (rule rows_ok_norm) (use assms in \<open>simp_all add: registry_ok_def norm_owner_close_ok\<close>)
  ultimately show ?thesis
    using assms registry_consistent_norm [OF assms]
    by (simp add: registry_ok_def rows_ok_norm norm_fence_ok norm_lease_ok norm_settlement_ok
        extras_ok_norm)
qed

lemma registry_known_keys: "dkeys (registry_known r) = top_keys" "distinct top_keys"
  by (simp_all add: registry_known_def top_keys_def)

lemma migrate_current:
  assumes "set top_keys \<subseteq> set (dkeys raw)"
  shows "migrate_registry raw = raw"
proof -
  have in_raw: "k \<in> set top_keys \<Longrightarrow> dget raw k \<noteq> None" for k
    using assms dkeys_lookup [of k raw] by auto
  have full: "\<not> same_keys raw (keys_without (k # ks) top_keys)" if "k \<in> set top_keys" for k ks
    by (rule not_same_keys(1) [of k]) (use assms that in \<open>auto simp: keys_without_def\<close>)
  have "''session_admissions'' \<in> set top_keys" "''settlements'' \<in> set top_keys"
    by (simp_all add: top_keys_def)
  then have "add_missing_tables raw = raw"
    using full [of "''session_admissions''"] full [of "''settlements''"]
    by (simp add: add_missing_tables_def)
  moreover have "add_recovery_capability raw = raw" "add_closed_owners raw = raw"
    using in_raw [of "''recovery_capability_sha256''"] in_raw [of "''closed_owner_admissions''"]
    by (simp_all add: add_recovery_capability_def add_closed_owners_def top_keys_def)
  ultimately show ?thesis by (simp add: migrate_registry_def)
qed

text \<open>The rows of each table read back.\<close>

lemma registry_rows_read:
  assumes ok: "registry_ok h r"
  shows
    "read_rows (fence_from_json h) (map (\<lambda>(k, v). (k, json_norm (JObj (fence_items v))))
      (dsort (r_fences r))) = Inr (norm_rows norm_fence (r_fences r))"
    "read_rows (\<lambda>k j. lease_from_json h k j (r_broker_epoch r))
      (map (\<lambda>(k, v). (k, json_norm (JObj (lease_items v)))) (dsort (r_leases r)))
      = Inr (norm_rows norm_lease (r_leases r))"
    "read_rows (\<lambda>k j. bind_res (bounded max_id k) (\<lambda>_. admission_from_json j))
      (map (\<lambda>(k, v). (k, json_norm (JObj (admission_items v)))) (dsort (r_admissions r)))
      = Inr (norm_rows norm_admission (r_admissions r))"
    "read_rows (settlement_from_json h) (map (\<lambda>(k, v). (k, json_norm (JObj (settlement_items v))))
      (dsort (r_settlements r))) = Inr (norm_rows norm_settlement (r_settlements r))"
    "read_rows (\<lambda>k j. bind_res (bounded max_id k) (\<lambda>_. owner_close_from_json h j))
      (map (\<lambda>(k, v). (k, json_norm (JObj (owner_close_items v)))) (dsort (r_closed_owners r)))
      = Inr (norm_rows norm_owner_close (r_closed_owners r))"
proof -
  have rows:
    "rows_ok (fence_ok h) (r_fences r)"
    "rows_ok (\<lambda>k. lease_ok h k (r_broker_epoch r)) (r_leases r)"
    "rows_ok (\<lambda>k a. text_ok max_id k \<and> admission_ok a) (r_admissions r)"
    "rows_ok (settlement_ok h) (r_settlements r)"
    "rows_ok (\<lambda>k c. text_ok max_id k \<and> owner_close_ok h c) (r_closed_owners r)"
    using ok by (simp_all add: registry_ok_def)
  show
    "read_rows (fence_from_json h) (map (\<lambda>(k, v). (k, json_norm (JObj (fence_items v))))
      (dsort (r_fences r))) = Inr (norm_rows norm_fence (r_fences r))"
    "read_rows (\<lambda>k j. lease_from_json h k j (r_broker_epoch r))
      (map (\<lambda>(k, v). (k, json_norm (JObj (lease_items v)))) (dsort (r_leases r)))
      = Inr (norm_rows norm_lease (r_leases r))"
    "read_rows (\<lambda>k j. bind_res (bounded max_id k) (\<lambda>_. admission_from_json j))
      (map (\<lambda>(k, v). (k, json_norm (JObj (admission_items v)))) (dsort (r_admissions r)))
      = Inr (norm_rows norm_admission (r_admissions r))"
    "read_rows (settlement_from_json h) (map (\<lambda>(k, v). (k, json_norm (JObj (settlement_items v))))
      (dsort (r_settlements r))) = Inr (norm_rows norm_settlement (r_settlements r))"
    "read_rows (\<lambda>k j. bind_res (bounded max_id k) (\<lambda>_. owner_close_from_json h j))
      (map (\<lambda>(k, v). (k, json_norm (JObj (owner_close_items v)))) (dsort (r_closed_owners r)))
      = Inr (norm_rows norm_owner_close (r_closed_owners r))"
    by (rule read_rows_written [OF rows(1)], erule fence_read_back)
      (rule read_rows_written [OF rows(2)], erule lease_read_back,
       rule read_rows_written [OF rows(3)], simp add: admission_read_back del: json_norm_obj,
       rule read_rows_written [OF rows(4)], erule settlement_read_back,
       rule read_rows_written [OF rows(5)], simp add: owner_close_read_back del: json_norm_obj)
qed

theorem registry_read_back:
  assumes ok: "registry_ok h r"
  shows "registry_from_json h (norm_items (registry_to_json r)) = Inr (norm_registry r)"
proof -
  have ext: "extras_ok top_keys (r_extras r)" using ok by (simp add: registry_ok_def)
  note written = tolerant_mapping_written [OF registry_known_keys(1) [of r]
      registry_known_keys(2) ext, folded registry_to_json_def]
  define d where "d = norm_items (filter (\<lambda>p. fst p \<in> set top_keys) (registry_to_json r))"
  have "wf_dict (filter (\<lambda>p. fst p \<in> set top_keys) (registry_to_json r))"
    using written(1) by simp
  then have fld: "jfield d k = json_norm (the (dget (registry_known r) k))" if "k \<in> set top_keys" for k
    using written(3) that d_def by simp
  have fields:
    "jfield d ''schema'' = JStr registry_schema"
    "jfield d ''broker_epoch'' = JStr (r_broker_epoch r)"
    "jfield d ''recovery_capability_sha256'' = jopt (r_recovery_capability r)"
    "jfield d ''next_fencing_sequence'' = JInt (r_next_sequence r)"
    "jfield d ''resource_fences'' = json_norm (write_rows fence_items (r_fences r))"
    "jfield d ''leases'' = json_norm (write_rows lease_items (r_leases r))"
    "jfield d ''session_admissions'' = json_norm (write_rows admission_items (r_admissions r))"
    "jfield d ''settlements'' = json_norm (write_rows settlement_items (r_settlements r))"
    "jfield d ''closed_owner_admissions'' = json_norm (write_rows owner_close_items (r_closed_owners r))"
    by (simp_all add: fld top_keys_def registry_known_def)
  have mig: "migrate_registry (norm_items (registry_to_json r)) = norm_items (registry_to_json r)"
    by (rule migrate_current, unfold registry_known_keys(1) [of r, symmetric])
       (auto simp: registry_to_json_def)
  have tol: "tolerant_mapping (norm_items (registry_to_json r)) top_keys
      = Inr (d, norm_items (r_extras r))"
    by (simp add: tolerant_mapping_norm written(2) d_def)
  note reads = registry_rows_read [OF ok]
  have "registry_consistent (norm_registry r)" by (rule registry_consistent_norm [OF ok])
  moreover have "norm_registry r =
      \<lparr>r_broker_epoch = r_broker_epoch r, r_recovery_capability = r_recovery_capability r,
       r_next_sequence = r_next_sequence r, r_fences = norm_rows norm_fence (r_fences r),
       r_leases = norm_rows norm_lease (r_leases r),
       r_admissions = norm_rows norm_admission (r_admissions r),
       r_settlements = norm_rows norm_settlement (r_settlements r),
       r_closed_owners = norm_rows norm_owner_close (r_closed_owners r),
       r_extras = norm_items (r_extras r)\<rparr>" (is "_ = ?n")
    by (cases r) (simp add: norm_registry_def)
  ultimately have con': "registry_consistent ?n" and n: "norm_registry r = ?n" by simp_all
  show ?thesis
    using ok con' unfolding registry_from_json_def n
    by (simp add: mig tol fields write_rows_norm json_object_def reads json_optional_jopt Let_def
        registry_ok_def del: json_norm_obj)
qed

lemma read_rows_sound:
  assumes "read_rows f kvs = Inr d" and "wf_dict kvs"
    and "\<And>k j v. (k, j) \<in> set kvs \<Longrightarrow> f k j = Inr v \<Longrightarrow> ok k v"
  shows "rows_ok ok d \<and> dkeys d = dkeys kvs"
proof -
  have "dkeys d = dkeys kvs \<and> list_all (\<lambda>(k, v). ok k v) d"
    using assms(1,3)
  proof (induction kvs arbitrary: d)
    case (Cons kj kvs)
    then obtain k j v d' where "kj = (k, j)" "f k j = Inr v" "d = (k, v) # d'"
      "read_rows f kvs = Inr d'"
      by (cases kj) (auto simp: read_rows_def)
    with Cons.IH [of d'] Cons.prems(2) show ?case by auto
  qed (simp add: read_rows_def)
  then show ?thesis using assms(2) by (simp add: rows_ok_def wf_dict_def)
qed

lemma json_object_eq_Inr [simp]: "json_object j = Inr d \<longleftrightarrow> j = JObj d"
  by (cases j) (auto simp: json_object_def)

lemma migrate_registry_wf:
  assumes "json_wf (JObj raw)"
  shows "json_wf (JObj (migrate_registry raw))"
proof -
  have append: "json_wf (JObj (d @ e))"
    if "json_wf (JObj d)" "json_wf (JObj e)" "set (dkeys d) \<inter> set (dkeys e) = {}" for d e
    using that by (auto simp: wf_dict_def)
  have "json_wf (JObj (add_closed_owners raw))"
    using assms by (auto simp: add_closed_owners_def wf_dict_def map_of_eq_None_iff)
  then have "json_wf (JObj (add_recovery_capability (add_closed_owners raw)))"
    by (auto simp: add_recovery_capability_def wf_dict_def map_of_eq_None_iff)
  moreover have "json_wf (JObj (add_missing_tables d))" if "json_wf (JObj d)" for d
    using that by (auto simp: add_missing_tables_def wf_dict_def same_keys_def keys_without_def)
  ultimately show ?thesis by (simp add: migrate_registry_def)
qed

theorem registry_sound:
  assumes read: "registry_from_json h data = Inr r" and wf: "json_wf (JObj data)"
  shows "registry_ok h r"
proof -
  define m where "m = migrate_registry data"
  have m: "json_wf (JObj m)" using migrate_registry_wf [OF wf] by (simp add: m_def)
  define d where "d = filter (\<lambda>p. fst p \<in> set top_keys) m"
  have tab: "wf_dict t \<and> (\<forall>(k, v) \<in> set t. json_wf v)" if "jfield d k = JObj t" for k t
    using json_wf_jfield [OF json_wf_filter [OF m], of "\<lambda>p. fst p \<in> set top_keys" k] that
    by (auto simp: d_def list_all_iff)
  from read obtain epoch cap nxt fr lr ar sr owr fs ls as ss os where
    base: "is_uuid_text epoch" "json_optional json_sha256 (jfield d ''recovery_capability_sha256'') = Inr cap"
      "1 \<le> nxt"
    and raws: "jfield d ''resource_fences'' = JObj fr" "jfield d ''leases'' = JObj lr"
      "jfield d ''session_admissions'' = JObj ar" "jfield d ''settlements'' = JObj sr"
      "jfield d ''closed_owner_admissions'' = JObj owr"
    and caps: "length ar \<le> max_session_admissions" "length sr \<le> max_settlements"
      "length owr \<le> max_closed_owner_admissions"
    and rows: "read_rows (fence_from_json h) fr = Inr fs"
      "read_rows (\<lambda>k j. lease_from_json h k j epoch) lr = Inr ls"
      "read_rows (\<lambda>k j. bind_res (bounded max_id k) (\<lambda>_. admission_from_json j)) ar = Inr as"
      "read_rows (settlement_from_json h) sr = Inr ss"
      "read_rows (\<lambda>k j. bind_res (bounded max_id k) (\<lambda>_. owner_close_from_json h j)) owr = Inr os"
    and r: "r = \<lparr>r_broker_epoch = epoch, r_recovery_capability = cap, r_next_sequence = nxt,
              r_fences = fs, r_leases = ls, r_admissions = as, r_settlements = ss,
              r_closed_owners = os, r_extras = filter (\<lambda>p. fst p \<notin> set top_keys) m\<rparr>"
    and con: "registry_consistent r"
    unfolding registry_from_json_def m_def [symmetric] d_def
    by (auto simp: Let_def)
  have "rows_ok (fence_ok h) fs"
    using read_rows_sound [OF rows(1), of "fence_ok h"] tab [OF raws(1)] by (auto dest: fence_sound)
  moreover have "rows_ok (\<lambda>k. lease_ok h k epoch) ls"
    using read_rows_sound [OF rows(2), of "\<lambda>k. lease_ok h k epoch"] tab [OF raws(2)]
    by (auto dest: lease_sound)
  moreover have "rows_ok (\<lambda>k a. text_ok max_id k \<and> admission_ok a) as \<and> dkeys as = dkeys ar"
    by (rule read_rows_sound [OF rows(3)]) (use tab [OF raws(3)] in \<open>auto dest: admission_sound\<close>)
  moreover have "rows_ok (settlement_ok h) ss \<and> dkeys ss = dkeys sr"
    by (rule read_rows_sound [OF rows(4)]) (use tab [OF raws(4)] in \<open>auto dest: settlement_sound\<close>)
  moreover have "rows_ok (\<lambda>k c. text_ok max_id k \<and> owner_close_ok h c) os \<and> dkeys os = dkeys owr"
    by (rule read_rows_sound [OF rows(5)]) (use tab [OF raws(5)] in \<open>auto dest: owner_close_sound\<close>)
  moreover have "extras_ok top_keys (filter (\<lambda>p. fst p \<notin> set top_keys) m)"
    by (rule extras_ok_filter [OF m])
  moreover have "dkeys a = dkeys b \<Longrightarrow> length a = length b" for a :: "'x dict" and b :: "'y dict"
    by (metis length_map)
  ultimately show ?thesis
    using base caps con json_optional_sha256 [OF base(2)] unfolding registry_ok_def r
    by (metis length_map registry.select_convs)
qed

text \<open>Removing the unknown fields: nothing else changes and nothing is left to report.\<close>

lemma extras_ok_Nil [simp]: "extras_ok keys []"
  by (simp add: extras_ok_def)

lemma rows_ok_map:
  "rows_ok ok d \<Longrightarrow> (\<And>k v. ok k v \<Longrightarrow> ok k (f v)) \<Longrightarrow> rows_ok ok (map_rows f d)"
  by (auto simp: rows_ok_def list_all_iff set_map_rows)

lemma extras_size_zero: "extras_serialized_size e = 0 \<longleftrightarrow> e = []"
  by (simp add: extras_serialized_size_def)

lemma inventory_entry_Nil: "inventory_entry p e = [] \<longleftrightarrow> e = []"
  by (simp add: inventory_entry_def)

lemma inventory_rows_Nil: "inventory_rows p ex d = [] \<longleftrightarrow> (\<forall>v \<in> set (dvalues d). ex v = [])"
  by (force simp: inventory_rows_def inventory_entry_Nil)

text \<open>The inventory is empty exactly when the document carries no unknown bytes.\<close>

theorem extras_inventory_complete: "extras_inventory r = [] \<longleftrightarrow> document_extras_bytes r = 0"
  by (auto simp: extras_inventory_def document_extras_bytes_def inventory_entry_Nil
      inventory_rows_Nil extras_size_zero)

lemma strip_extras_size: "document_extras_bytes (strip_extras r) = 0"
  by (auto simp: document_extras_bytes_def strip_extras_def map_rows_def extras_size_zero)

lemma strip_extras_sequences [simp]: "issued_sequences (strip_extras r) = issued_sequences r"
  by (simp add: issued_sequences_def strip_extras_def map_rows_def comp_def case_prod_unfold)

lemma strip_extras_bound:
  "settlement_bound (strip_extras r) k (s_extras_update (\<lambda>_. []) s) = settlement_bound r k s"
  by (auto simp: settlement_bound_def strip_extras_def f_token_def l_token_def split: option.splits)

lemma strip_extras_ok:
  assumes "registry_ok h r"
  shows "registry_ok h (strip_extras r)"
proof -
  have rows: "rows_ok (fence_ok h) (r_fences r)"
    "rows_ok (\<lambda>k. lease_ok h k (r_broker_epoch r)) (r_leases r)"
    "rows_ok (\<lambda>k a. text_ok max_id k \<and> admission_ok a) (r_admissions r)"
    "rows_ok (settlement_ok h) (r_settlements r)"
    "rows_ok (\<lambda>k c. text_ok max_id k \<and> owner_close_ok h c) (r_closed_owners r)"
    and con: "registry_consistent r"
    using assms by (simp_all add: registry_ok_def)
  have "rows_ok (fence_ok h) (map_rows (f_extras_update (\<lambda>_. [])) (r_fences r))"
    by (rule rows_ok_map [OF rows(1)]) (simp add: fence_ok_def close_binds_def f_token_def)
  moreover have "rows_ok (\<lambda>k. lease_ok h k (r_broker_epoch r)) (map_rows (l_extras_update (\<lambda>_. [])) (r_leases r))"
    by (rule rows_ok_map [OF rows(2)]) (simp add: lease_ok_def lease_admission_ok_def)
  moreover have "rows_ok (\<lambda>k a. text_ok max_id k \<and> admission_ok a)
      (map_rows (a_extras_update (\<lambda>_. [])) (r_admissions r))"
    by (rule rows_ok_map [OF rows(3)]) (simp add: admission_ok_def)
  moreover have "rows_ok (settlement_ok h) (map_rows (s_extras_update (\<lambda>_. [])) (r_settlements r))"
    by (rule rows_ok_map [OF rows(4)]) (simp add: settlement_ok_def)
  moreover have "rows_ok (\<lambda>k c. text_ok max_id k \<and> owner_close_ok h c)
      (map_rows (o_extras_update (\<lambda>_. [])) (r_closed_owners r))"
    by (rule rows_ok_map [OF rows(5)]) (simp add: owner_close_ok_def)
  moreover have "registry_consistent (strip_extras r)"
  proof -
    have "list_all (\<lambda>(digest, s). settlement_bound (strip_extras r) digest s)
        (r_settlements (strip_extras r))"
      using con strip_extras_bound [of r]
      by (auto simp: registry_consistent_def strip_extras_def list_all_iff set_map_rows)
    moreover have "list_all (\<lambda>f. f_broker_epoch f = r_broker_epoch r) (dvalues (r_fences (strip_extras r)))"
      using con by (auto simp: registry_consistent_def strip_extras_def list_all_iff set_map_rows)
    moreover have "r_broker_epoch (strip_extras r) = r_broker_epoch r"
      "r_next_sequence (strip_extras r) = r_next_sequence r"
      by (simp_all add: strip_extras_def)
    ultimately show ?thesis
      using con by (simp add: registry_consistent_def strip_extras_size)
  qed
  moreover have "length (map_rows f d) = length d" for f :: "'x \<Rightarrow> 'y" and d
    by (simp add: map_rows_def)
  ultimately show ?thesis
    using assms by (simp add: registry_ok_def strip_extras_def map_rows_def)
qed

end
