(* ===== verification/Lease_Validation.thy ===== *)
theory Lease_Validation
  imports Lease_Registry
begin

text \<open>
  Validation before writing: a row, and a whole registry, whose document the reader accepts is
  well formed and is what the reader returns.  Every write of the broker makes this check, so
  whatever is persisted satisfies \<open>registry_ok\<close>.
\<close>

section \<open>Rows that pass their own validation\<close>

text \<open>
  The converse of the round trips: when the reader accepts the document of a row, it returns that
  row, so validating before writing establishes the row's well-formedness.
\<close>

lemma json_optional_bounded_iff:
  "json_optional (json_bounded m) (jopt x) = Inr v \<longleftrightarrow> v = x \<and> (\<forall>s. x = Some s \<longrightarrow> text_ok m s)"
  by (cases x) (auto simp: json_optional_def)

lemma json_optional_utc_iff:
  "json_optional (parse_utc h) (jopt x) = Inr v \<longleftrightarrow> v = x \<and> opt_utc_ok h x"
  by (cases x) (auto simp: json_optional_def opt_utc_ok_def utc_ok_def)

lemma json_optional_sha256_iff:
  "json_optional json_sha256 (jopt x) = Inr v \<longleftrightarrow> v = x \<and> (\<forall>s. x = Some s \<longrightarrow> is_sha256_text s)"
  by (cases x) (auto simp: json_optional_def)

lemma json_optional_positive_iff:
  "json_optional (json_int positive) (jopt_int x) = Inr v \<longleftrightarrow> v = x \<and> (\<forall>n. x = Some n \<longrightarrow> 1 \<le> n)"
  by (cases x) (auto simp: json_optional_def)

lemma canonical_resource_ref_written:
  "canonical_resource_ref pl (resource_ref_json r) = Inr r' \<Longrightarrow> r' = r"
  by (cases r rule: resource_ref_json.cases; cases pl)
     (auto simp: canonical_resource_ref_def closed_mapping_def same_keys_def jfield_def
       worktree_resource_keys_def split: if_splits)

lemma json_optional_ref_written:
  "json_optional (canonical_resource_ref pl)
     (case x of None \<Rightarrow> JNull | Some r \<Rightarrow> resource_ref_json r) = Inr v \<Longrightarrow> v = x"
  by (cases x) (auto simp: json_optional_def dest: canonical_resource_ref_written)

lemma mutation_from_json_null: "mutation_from_json JNull = Inl RegistryCorruptError"
  by (simp add: mutation_from_json_def)

lemma map_JStr_eq [simp]: "map JStr xs = map JStr ys \<longleftrightarrow> xs = ys"
  by (rule inj_map_eq_map) (simp add: inj_def)

lemmas json_optional_iffs = json_optional_bounded_iff json_optional_utc_iff json_optional_sha256_iff
  json_optional_positive_iff

text \<open>What \<open>from_dict\<close> finds in a document written by \<open>to_dict\<close>.\<close>

definition known_fields :: "json dict \<Rightarrow> string list \<Rightarrow> json dict" where
  "known_fields doc keys = filter (\<lambda>p. fst p \<in> set keys) doc"

lemma written_fields:
  assumes "dkeys known = keys" and "distinct keys" and "extras_ok keys extras"
  shows "tolerant_mapping (known @ extras) keys = Inr (known_fields (known @ extras) keys, extras)"
    and "k \<in> set keys \<Longrightarrow> jfield (known_fields (known @ extras) keys) k = the (dget known k)"
  using tolerant_mapping_written(2,3) [OF assms] by (simp_all add: known_fields_def)

lemma lease_validated:
  assumes read: "lease_from_json h lid (JObj (lease_items l)) epoch = Inr l'"
    and ext: "extras_ok lease_keys (l_extras l)"
    and key: "l_lease_id l = lid" "l_broker_epoch l = epoch"
  shows "l' = l \<and> lease_ok h lid epoch l"
proof -
  have keys: "dkeys (lease_known l) = lease_keys" "distinct lease_keys"
    by (simp_all add: lease_known_def lease_keys_def)
  note written = written_fields [OF keys ext, folded lease_items_def]
  define d where "d = known_fields (lease_items l) lease_keys"
  have fld: "jfield d k = the (dget (lease_known l) k)" if "k \<in> set lease_keys" for k
    using written(2) that d_def by simp
  have fields:
    "jfield d ''pool'' = pool_json (l_pool l)"
    "jfield d ''owner_id'' = JStr (l_owner_id l)"
    "jfield d ''owner_pid'' = jopt_int (l_owner_pid l)"
    "jfield d ''owner_process_start'' = jopt (l_owner_process_start l)"
    "jfield d ''session_id'' = JStr (l_session_id l)"
    "jfield d ''agent_id'' = jopt (l_agent_id l)"
    "jfield d ''tool_use_id'' = jopt (l_tool_use_id l)"
    "jfield d ''agent_type'' = jopt (l_agent_type l)"
    "jfield d ''batch_id'' = jopt (l_batch_id l)"
    "jfield d ''resource_ref'' = (case l_resource_ref l of None \<Rightarrow> JNull | Some r \<Rightarrow> resource_ref_json r)"
    "jfield d ''policy_sha256'' = jopt (l_policy_sha256 l)"
    "jfield d ''session_limit'' = jopt_int (l_session_limit l)"
    "jfield d ''aggregate_limit'' = jopt_int (l_aggregate_limit l)"
    "jfield d ''mutation'' = (case l_mutation l of None \<Rightarrow> JNull | Some m \<Rightarrow> mutation_json m)"
    "jfield d ''boot_id'' = JStr (l_boot_id l)"
    "jfield d ''acquired_at'' = JStr (l_acquired_at l)"
    "jfield d ''renewed_at'' = JStr (l_renewed_at l)"
    "jfield d ''renewed_monotonic_ns'' = JInt (l_renewed_monotonic_ns l)"
    "jfield d ''claimed_at'' = jopt (l_claimed_at l)"
    "jfield d ''child_terminal_at'' = jopt (l_child_terminal_at l)"
    "jfield d ''parent_completed_at'' = jopt (l_parent_completed_at l)"
    "jfield d ''ttl_seconds'' = JInt (l_ttl_seconds l)"
    "jfield d ''fencing_sequence'' = JInt (l_fencing_sequence l)"
    by (simp_all add: fld lease_keys_def lease_known_def)
  have adm: "vals = (l_policy_sha256 l, l_session_limit l, l_aggregate_limit l, l_mutation l)"
    if "lease_admission_from_json (l_pool l) d res = Inr vals" for res vals
    using that fields(11-14)
    by (auto simp: lease_admission_from_json_def mutation_from_json_null split: pool.splits option.splits)
  have l: "l' = l"
    using read key unfolding lease_from_json_def
    by (clarsimp simp: py_dict_of_def written(1) d_def[symmetric] fields json_optional_iffs
        dest!: adm json_optional_ref_written)
  have "lease_ok h lid epoch l'"
  proof (rule lease_sound [OF read])
    show "json_wf (JObj (lease_items l))"
      unfolding lease_items_def
      by (rule written_json_wf [OF keys ext]) (auto simp: lease_known_def split: option.splits)
  qed
  with l show ?thesis by simp
qed

lemma settlement_validated:
  assumes read: "settlement_from_json h digest (JObj (settlement_items s)) = Inr s'"
    and ext: "extras_ok settlement_keys (s_extras s)"
  shows "s' = s \<and> settlement_ok h digest s"
proof -
  note keys = settlement_known_keys(1) [of s] settlement_known_keys(2)
  note written = written_fields [OF keys ext, folded settlement_items_def]
  define d where "d = known_fields (settlement_items s) settlement_keys"
  have fld: "jfield d k = the (dget (settlement_known s) k)" if "k \<in> set settlement_keys" for k
    using written(2) that d_def by simp
  have fields:
    "jfield d ''settlement_id'' = JStr (s_settlement_id s)"
    "jfield d ''phase'' = JStr (phase_text (s_phase s))"
    "jfield d ''lease_id'' = JStr (s_lease_id s)"
    "jfield d ''owner_id'' = JStr (s_owner_id s)"
    "jfield d ''owner_pid'' = jopt_int (s_owner_pid s)"
    "jfield d ''owner_process_start'' = jopt (s_owner_process_start s)"
    "jfield d ''session_id'' = JStr (s_session_id s)"
    "jfield d ''policy_sha256'' = JStr (s_policy_sha256 s)"
    "jfield d ''resource_ref'' = resource_ref_json (s_resource_ref s)"
    "jfield d ''token'' = token_to_json (s_token s)"
    "jfield d ''producer'' = JStr (s_producer s)"
    "jfield d ''run_id'' = JStr (s_run_id s)"
    "jfield d ''expected_output_sha256'' = JStr (s_expected_output_sha256 s)"
    "jfield d ''protected_write_intent_sha256'' = JStr (s_write_intent_sha256 s)"
    "jfield d ''recovery_capability_sha256'' = jopt (s_recovery_capability_sha256 s)"
    "jfield d ''prepared_at'' = JStr (s_prepared_at s)"
    "jfield d ''updated_at'' = JStr (s_updated_at s)"
    by (simp_all add: fld settlement_keys_def settlement_known_def)
  have tok: "t = s_token s" if "token_from_json (token_to_json (s_token s)) = Inr t" for t
    using that
    by (cases "s_token s") (auto simp: token_from_json_def token_to_json_def jfield_def split: if_splits)
  have s: "s' = s"
    using read unfolding settlement_from_json_def
    by (clarsimp simp: py_dict_of_def written(1) d_def[symmetric] fields json_optional_iffs
        settlement_not_old dest!: tok canonical_resource_ref_written)
  have "settlement_ok h digest s'"
  proof (rule settlement_sound [OF read])
    show "json_wf (JObj (settlement_items s))"
      unfolding settlement_items_def
      by (rule written_json_wf [OF keys ext]) (auto simp: settlement_known_def)
  qed
  with s show ?thesis by simp
qed

lemma close_receipt_written:
  "close_receipt_from_json h (JObj (close_items c)) = Inr c' \<Longrightarrow> c' = c"
proof -
  have tok: "t = sc_token c" if "token_from_json (token_to_json (sc_token c)) = Inr t" for t
    using that
    by (cases "sc_token c") (auto simp: token_from_json_def token_to_json_def jfield_def split: if_splits)
  assume read: "close_receipt_from_json h (JObj (close_items c)) = Inr c'"
  show "c' = c"
  proof (cases "sc_binding c")
    case None
    with read show ?thesis
      by (auto simp: close_receipt_from_json_def close_keys(1) validate_legacy_settlement_close_def
          closed_mapping_def close_item_fields close_surjective
          dest!: tok canonical_resource_ref_written)
  next
    case (Some b)
    with read show ?thesis
      by (auto simp: close_receipt_from_json_def close_not_old validate_settlement_close_def
          closed_mapping_def close_item_fields close_binding_fields [OF Some] binding_surjective
          close_surjective dest!: tok canonical_resource_ref_written split: if_splits)
  qed
qed

lemma fence_validated:
  assumes read: "fence_from_json h digest (JObj (fence_items f)) = Inr f'"
    and ext: "extras_ok fence_keys (f_extras f)"
  shows "f' = f \<and> fence_ok h digest f"
proof -
  note keys = fence_known_keys(1) [of f] fence_known_keys(2)
  note written = written_fields [OF keys ext, folded fence_items_def]
  define d where "d = known_fields (fence_items f) fence_keys"
  have fld: "jfield d k = the (dget (fence_known f) k)" if "k \<in> set fence_keys" for k
    using written(2) that d_def by simp
  have fields:
    "jfield d ''resource_ref'' = resource_ref_json (f_resource_ref f)"
    "jfield d ''broker_epoch'' = JStr (f_broker_epoch f)"
    "jfield d ''fencing_sequence'' = JInt (f_fencing_sequence f)"
    "jfield d ''lease_id'' = JStr (f_lease_id f)"
    "jfield d ''close_receipt'' =
      (case f_close_receipt f of None \<Rightarrow> JNull | Some c \<Rightarrow> JObj (close_items c))"
    by (simp_all add: fld fence_keys_def fence_known_def)
  have res: "r = f_resource_ref f"
    if "fence_resource_from_json (resource_ref_json (f_resource_ref f)) = Inr r" for r
    using that canonical_resource_ref_written
    by (auto simp: fence_resource_from_json_def split: json.splits)
  have close: "v = f_close_receipt f"
    if "json_optional (close_receipt_from_json h)
      (case f_close_receipt f of None \<Rightarrow> JNull | Some c \<Rightarrow> JObj (close_items c)) = Inr v" for v
    using that by (cases "f_close_receipt f") (auto simp: json_optional_def dest: close_receipt_written)
  have f: "f' = f"
    using read unfolding fence_from_json_def
    by (clarsimp simp: py_dict_of_def written(1) d_def[symmetric] fields fence_not_old
        dest!: res close)
  have "fence_ok h digest f'"
  proof (rule fence_sound [OF read])
    show "json_wf (JObj (fence_items f))"
      unfolding fence_items_def
      by (rule written_json_wf [OF keys ext])
         (auto simp: fence_known_def simp del: json_wf.simps(2) split: option.splits)
  qed
  with f show ?thesis by simp
qed

lemma admission_validated:
  assumes read: "admission_from_json (JObj (admission_items a)) = Inr a'"
    and ext: "extras_ok admission_keys (a_extras a)"
  shows "a' = a \<and> admission_ok a"
proof -
  note keys = admission_known_keys(1) [of a] admission_known_keys(2)
  note written = written_fields [OF keys ext, folded admission_items_def]
  define d where "d = known_fields (admission_items a) admission_keys"
  have fld: "jfield d k = the (dget (admission_known a) k)" if "k \<in> set admission_keys" for k
    using written(2) that d_def by simp
  have fields:
    "jfield d ''policy_sha256'' = JStr (a_policy_sha256 a)"
    "jfield d ''session_limit'' = JInt (a_session_limit a)"
    "jfield d ''aggregate_limit'' = JInt (a_aggregate_limit a)"
    "jfield d ''mutation'' = mutation_json (a_mutation a)"
    "jfield d ''configured_monotonic_ns'' = JInt (a_configured_monotonic_ns a)"
    "jfield d ''boot_id'' = JStr (a_boot_id a)"
    "jfield d ''ttl_seconds'' = JInt (a_ttl_seconds a)"
    by (simp_all add: fld admission_keys_def admission_known_def)
  have a: "a' = a"
    using read unfolding admission_from_json_def
    by (auto simp: py_dict_of_def written(1) d_def[symmetric] fields admission_not_old
        intro!: session_admission.equality)
  have "admission_ok a'"
  proof (rule admission_sound [OF read])
    show "json_wf (JObj (admission_items a))"
      unfolding admission_items_def
      by (rule written_json_wf [OF keys ext]) (auto simp: admission_known_def)
  qed
  with a show ?thesis by simp
qed

lemma owner_close_validated:
  assumes read: "owner_close_from_json h (JObj (owner_close_items c)) = Inr c'"
    and ext: "extras_ok owner_close_keys (o_extras c)"
  shows "c' = c \<and> owner_close_ok h c"
proof -
  note keys = owner_close_known_keys(1) [of c] owner_close_known_keys(2)
  note written = written_fields [OF keys ext, folded owner_close_items_def]
  define d where "d = known_fields (owner_close_items c) owner_close_keys"
  have fld: "jfield d k = the (dget (owner_close_known c) k)" if "k \<in> set owner_close_keys" for k
    using written(2) that d_def by simp
  have fields:
    "jfield d ''closed_at'' = JStr (o_closed_at c)"
    "jfield d ''boot_id'' = JStr (o_boot_id c)"
    "jfield d ''close_generation'' = JInt (o_close_generation c)"
    by (simp_all add: fld owner_close_keys_def owner_close_known_def)
  have c: "c' = c"
    using read unfolding owner_close_from_json_def
    by (auto simp: py_dict_of_def written(1) d_def[symmetric] fields intro!: owner_close.equality)
  have "owner_close_ok h c'"
  proof (rule owner_close_sound [OF read])
    show "json_wf (JObj (owner_close_items c))"
      unfolding owner_close_items_def
      by (rule written_json_wf [OF keys ext]) (auto simp: owner_close_known_def)
  qed
  with c show ?thesis by simp
qed

section \<open>A registry that passes its own validation\<close>

text \<open>What every operation keeps of a registry in memory, whatever values it was given.\<close>

definition registry_shape :: "registry \<Rightarrow> bool" where
  "registry_shape r \<longleftrightarrow>
     rows_ok (\<lambda>k f. extras_ok fence_keys (f_extras f)) (r_fences r)
     \<and> rows_ok (\<lambda>k l. l_lease_id l = k \<and> l_broker_epoch l = r_broker_epoch r
          \<and> extras_ok lease_keys (l_extras l)) (r_leases r)
     \<and> rows_ok (\<lambda>k a. extras_ok admission_keys (a_extras a)) (r_admissions r)
     \<and> rows_ok (\<lambda>k s. extras_ok settlement_keys (s_extras s)) (r_settlements r)
     \<and> rows_ok (\<lambda>k c. extras_ok owner_close_keys (o_extras c)) (r_closed_owners r)
     \<and> extras_ok top_keys (r_extras r)"

definition sort_registry :: "registry \<Rightarrow> registry" where
  "sort_registry r =
     r\<lparr>r_fences := dsort (r_fences r), r_leases := dsort (r_leases r),
       r_admissions := dsort (r_admissions r), r_settlements := dsort (r_settlements r),
       r_closed_owners := dsort (r_closed_owners r)\<rparr>"

lemma rows_ok_mono: "rows_ok ok d \<Longrightarrow> (\<And>k v. ok k v \<Longrightarrow> ok' k v) \<Longrightarrow> rows_ok ok' d"
  by (auto simp: rows_ok_def list_all_iff)

lemma registry_ok_shape: "registry_ok h r \<Longrightarrow> registry_shape r"
  unfolding registry_ok_def registry_shape_def
  by (auto elim!: rows_ok_mono
      simp: fence_ok_def lease_ok_def admission_ok_def settlement_ok_def owner_close_ok_def)

lemma rows_ok_dsort [simp]: "rows_ok ok (dsort d) = rows_ok ok d"
  by (auto simp: rows_ok_def list_all_iff)

lemma sum_dsort: "sum_list (map g (dvalues (dsort d))) = sum_list (map g (dvalues d))"
  for g :: "'a \<Rightarrow> nat"
  using sum_norm_rows [of d g "\<lambda>v. v"] by (simp add: norm_rows_def map_rows_def)

lemma sort_registry_fields [simp]:
  "r_broker_epoch (sort_registry r) = r_broker_epoch r"
  "r_recovery_capability (sort_registry r) = r_recovery_capability r"
  "r_next_sequence (sort_registry r) = r_next_sequence r"
  "r_fences (sort_registry r) = dsort (r_fences r)"
  "r_leases (sort_registry r) = dsort (r_leases r)"
  "r_admissions (sort_registry r) = dsort (r_admissions r)"
  "r_settlements (sort_registry r) = dsort (r_settlements r)"
  "r_closed_owners (sort_registry r) = dsort (r_closed_owners r)"
  "r_extras (sort_registry r) = r_extras r"
  by (simp_all add: sort_registry_def)

lemma registry_consistent_sort:
  assumes "wf_dict (r_fences r)" and "wf_dict (r_leases r)"
  shows "registry_consistent (sort_registry r) = registry_consistent r"
proof -
  have "settlement_bound (sort_registry r) k s = settlement_bound r k s" for k s
    using assms by (simp add: settlement_bound_def)
  moreover have "document_extras_bytes (sort_registry r) = document_extras_bytes r"
    by (simp only: document_extras_bytes_def sum_dsort sort_registry_fields)
  moreover have "set (issued_sequences (sort_registry r)) = set (issued_sequences r)"
    by (simp add: issued_sequences_def)
  ultimately show ?thesis
    by (simp add: registry_consistent_def list_all_iff)
qed

lemma read_rows_validated:
  assumes "read_rows f (map (\<lambda>(k, v). (k, JObj (items v))) xs) = Inr d'"
    and "\<And>k v v'. (k, v) \<in> set xs \<Longrightarrow> f k (JObj (items v)) = Inr v' \<Longrightarrow> v' = v \<and> ok k v"
  shows "d' = xs \<and> list_all (\<lambda>(k, v). ok k v) xs"
  using assms
proof (induction xs arbitrary: d')
  case (Cons kv xs)
  obtain k v where kv: "kv = (k, v)" by (cases kv)
  with Cons.prems(1) obtain v' d'' where "f k (JObj (items v)) = Inr v'"
      "read_rows f (map (\<lambda>(k, v). (k, JObj (items v))) xs) = Inr d''" "d' = (k, v') # d''"
    by (auto simp: read_rows_def)
  then show ?case using Cons.IH [of d''] Cons.prems(2) [of k v v'] Cons.prems(2) kv by auto
qed (simp add: read_rows_def)

lemma table_validated:
  assumes "read_rows f (map (\<lambda>(k, v). (k, JObj (items v))) (dsort d)) = Inr d'"
    and "rows_ok shape d"
    and "\<And>k v v'. shape k v \<Longrightarrow> f k (JObj (items v)) = Inr v' \<Longrightarrow> v' = v \<and> ok k v"
  shows "d' = dsort d \<and> rows_ok ok d"
  using read_rows_validated [OF assms(1), of ok] assms(2,3)
  by (fastforce simp: rows_ok_def list_all_iff)

lemma table_written:
  assumes "rows_ok ok d" and "\<And>k v. ok k v \<Longrightarrow> f k (JObj (items v)) = Inr v"
  shows "read_rows f (map (\<lambda>(k, v). (k, JObj (items v))) (dsort d)) = Inr (dsort d)"
proof -
  have "read_rows f (map (\<lambda>(k, v). (k, JObj (items v))) xs) = Inr xs"
    if "\<forall>(k, v) \<in> set xs. ok k v" for xs
    using that assms(2) by (induction xs) (auto simp: read_rows_def)
  then show ?thesis using assms(1) by (auto simp: rows_ok_def list_all_iff)
qed

lemma registry_document_fields:
  assumes ext: "extras_ok top_keys (r_extras r)"
  defines "d \<equiv> known_fields (registry_to_json r) top_keys"
  shows "tolerant_mapping (migrate_registry (registry_to_json r)) top_keys = Inr (d, r_extras r)"
    and "jfield d ''schema'' = JStr registry_schema"
    and "jfield d ''broker_epoch'' = JStr (r_broker_epoch r)"
    and "jfield d ''recovery_capability_sha256'' = jopt (r_recovery_capability r)"
    and "jfield d ''next_fencing_sequence'' = JInt (r_next_sequence r)"
    and "jfield d ''resource_fences'' = write_rows fence_items (r_fences r)"
    and "jfield d ''leases'' = write_rows lease_items (r_leases r)"
    and "jfield d ''session_admissions'' = write_rows admission_items (r_admissions r)"
    and "jfield d ''settlements'' = write_rows settlement_items (r_settlements r)"
    and "jfield d ''closed_owner_admissions'' = write_rows owner_close_items (r_closed_owners r)"
proof -
  note written = written_fields [OF registry_known_keys(1) [of r] registry_known_keys(2) ext,
      folded registry_to_json_def]
  have "migrate_registry (registry_to_json r) = registry_to_json r"
    by (rule migrate_current, unfold registry_known_keys(1) [of r, symmetric])
       (auto simp: registry_to_json_def)
  then show "tolerant_mapping (migrate_registry (registry_to_json r)) top_keys = Inr (d, r_extras r)"
    using written(1) by (simp add: d_def)
  have fld: "jfield d k = the (dget (registry_known r) k)" if "k \<in> set top_keys" for k
    using written(2) that d_def by simp
  show "jfield d ''schema'' = JStr registry_schema"
    "jfield d ''broker_epoch'' = JStr (r_broker_epoch r)"
    "jfield d ''recovery_capability_sha256'' = jopt (r_recovery_capability r)"
    "jfield d ''next_fencing_sequence'' = JInt (r_next_sequence r)"
    "jfield d ''resource_fences'' = write_rows fence_items (r_fences r)"
    "jfield d ''leases'' = write_rows lease_items (r_leases r)"
    "jfield d ''session_admissions'' = write_rows admission_items (r_admissions r)"
    "jfield d ''settlements'' = write_rows settlement_items (r_settlements r)"
    "jfield d ''closed_owner_admissions'' = write_rows owner_close_items (r_closed_owners r)"
    by (simp_all add: fld top_keys_def registry_known_def)
qed

lemma sort_registry_eq:
  "sort_registry r =
     \<lparr>r_broker_epoch = r_broker_epoch r, r_recovery_capability = r_recovery_capability r,
      r_next_sequence = r_next_sequence r, r_fences = dsort (r_fences r),
      r_leases = dsort (r_leases r), r_admissions = dsort (r_admissions r),
      r_settlements = dsort (r_settlements r), r_closed_owners = dsort (r_closed_owners r),
      r_extras = r_extras r\<rparr>"
  by (cases r) (simp add: sort_registry_def)

theorem registry_written:
  assumes ok: "registry_ok h r"
  shows "registry_from_json h (registry_to_json r) = Inr (sort_registry r)"
proof -
  have ext: "extras_ok top_keys (r_extras r)" using ok by (simp add: registry_ok_def)
  have rows:
    "rows_ok (fence_ok h) (r_fences r)"
    "rows_ok (\<lambda>k. lease_ok h k (r_broker_epoch r)) (r_leases r)"
    "rows_ok (\<lambda>k a. text_ok max_id k \<and> admission_ok a) (r_admissions r)"
    "rows_ok (settlement_ok h) (r_settlements r)"
    "rows_ok (\<lambda>k c. text_ok max_id k \<and> owner_close_ok h c) (r_closed_owners r)"
    using ok by (simp_all add: registry_ok_def)
  have reads:
    "read_rows (fence_from_json h) (map (\<lambda>(k, v). (k, JObj (fence_items v)))
      (dsort (r_fences r))) = Inr (dsort (r_fences r))"
    "read_rows (\<lambda>k j. lease_from_json h k j (r_broker_epoch r))
      (map (\<lambda>(k, v). (k, JObj (lease_items v))) (dsort (r_leases r))) = Inr (dsort (r_leases r))"
    "read_rows (\<lambda>k j. bind_res (bounded max_id k) (\<lambda>_. admission_from_json j))
      (map (\<lambda>(k, v). (k, JObj (admission_items v))) (dsort (r_admissions r)))
      = Inr (dsort (r_admissions r))"
    "read_rows (settlement_from_json h) (map (\<lambda>(k, v). (k, JObj (settlement_items v)))
      (dsort (r_settlements r))) = Inr (dsort (r_settlements r))"
    "read_rows (\<lambda>k j. bind_res (bounded max_id k) (\<lambda>_. owner_close_from_json h j))
      (map (\<lambda>(k, v). (k, JObj (owner_close_items v))) (dsort (r_closed_owners r)))
      = Inr (dsort (r_closed_owners r))"
    by (rule table_written [OF rows(1)], erule fence_roundtrip)
      (rule table_written [OF rows(2)], erule lease_roundtrip,
       rule table_written [OF rows(3)], simp add: admission_roundtrip,
       rule table_written [OF rows(4)], erule settlement_roundtrip,
       rule table_written [OF rows(5)], simp add: owner_close_roundtrip)
  have "registry_consistent (sort_registry r)"
    using ok by (simp add: registry_consistent_sort registry_ok_def rows_ok_def)
  then show ?thesis
    using ok unfolding registry_from_json_def sort_registry_eq
    by (simp add: registry_document_fields [OF ext] write_rows_def json_object_def reads
        json_optional_jopt Let_def registry_ok_def)
qed

theorem registry_validated:
  assumes read: "registry_from_json h (registry_to_json r) = Inr r'" and shape: "registry_shape r"
  shows "r' = sort_registry r \<and> registry_ok h r"
proof -
  have ext: "extras_ok top_keys (r_extras r)" using shape by (simp add: registry_shape_def)
  define d where "d = known_fields (registry_to_json r) top_keys"
  note fields = registry_document_fields [OF ext, folded d_def]
  from read obtain fs ls as ss os where
    base: "is_uuid_text (r_broker_epoch r)"
      "\<forall>s. r_recovery_capability r = Some s \<longrightarrow> is_sha256_text s" "1 \<le> r_next_sequence r"
    and caps: "length (r_admissions r) \<le> max_session_admissions"
      "length (r_settlements r) \<le> max_settlements"
      "length (r_closed_owners r) \<le> max_closed_owner_admissions"
    and rows: "read_rows (fence_from_json h)
        (map (\<lambda>(k, v). (k, JObj (fence_items v))) (dsort (r_fences r))) = Inr fs"
      "read_rows (\<lambda>k j. lease_from_json h k j (r_broker_epoch r))
        (map (\<lambda>(k, v). (k, JObj (lease_items v))) (dsort (r_leases r))) = Inr ls"
      "read_rows (\<lambda>k j. bind_res (bounded max_id k) (\<lambda>_. admission_from_json j))
        (map (\<lambda>(k, v). (k, JObj (admission_items v))) (dsort (r_admissions r))) = Inr as"
      "read_rows (settlement_from_json h)
        (map (\<lambda>(k, v). (k, JObj (settlement_items v))) (dsort (r_settlements r))) = Inr ss"
      "read_rows (\<lambda>k j. bind_res (bounded max_id k) (\<lambda>_. owner_close_from_json h j))
        (map (\<lambda>(k, v). (k, JObj (owner_close_items v))) (dsort (r_closed_owners r))) = Inr os"
    and r': "r' = \<lparr>r_broker_epoch = r_broker_epoch r, r_recovery_capability = r_recovery_capability r,
              r_next_sequence = r_next_sequence r, r_fences = fs, r_leases = ls,
              r_admissions = as, r_settlements = ss, r_closed_owners = os, r_extras = r_extras r\<rparr>"
    and con: "registry_consistent r'"
    unfolding registry_from_json_def
    by (auto simp: fields write_rows_def json_optional_iffs Let_def)
  have tabs:
    "rows_ok (\<lambda>k f. extras_ok fence_keys (f_extras f)) (r_fences r)"
    "rows_ok (\<lambda>k l. l_lease_id l = k \<and> l_broker_epoch l = r_broker_epoch r
      \<and> extras_ok lease_keys (l_extras l)) (r_leases r)"
    "rows_ok (\<lambda>k a. extras_ok admission_keys (a_extras a)) (r_admissions r)"
    "rows_ok (\<lambda>k s. extras_ok settlement_keys (s_extras s)) (r_settlements r)"
    "rows_ok (\<lambda>k c. extras_ok owner_close_keys (o_extras c)) (r_closed_owners r)"
    using shape by (simp_all add: registry_shape_def)
  have "fs = dsort (r_fences r) \<and> rows_ok (fence_ok h) (r_fences r)"
    by (rule table_validated [OF rows(1) tabs(1)]) (erule (1) fence_validated)
  moreover have "ls = dsort (r_leases r) \<and> rows_ok (\<lambda>k. lease_ok h k (r_broker_epoch r)) (r_leases r)"
    by (rule table_validated [OF rows(2) tabs(2)]) (blast dest: lease_validated)
  moreover have "as = dsort (r_admissions r)
      \<and> rows_ok (\<lambda>k a. text_ok max_id k \<and> admission_ok a) (r_admissions r)"
    by (rule table_validated [OF rows(3) tabs(3)]) (auto dest: admission_validated)
  moreover have "ss = dsort (r_settlements r) \<and> rows_ok (settlement_ok h) (r_settlements r)"
    by (rule table_validated [OF rows(4) tabs(4)]) (erule (1) settlement_validated)
  moreover have "os = dsort (r_closed_owners r)
      \<and> rows_ok (\<lambda>k c. text_ok max_id k \<and> owner_close_ok h c) (r_closed_owners r)"
    by (rule table_validated [OF rows(5) tabs(5)]) (auto dest: owner_close_validated)
  ultimately have rows: "r' = sort_registry r" "rows_ok (fence_ok h) (r_fences r)"
      "rows_ok (\<lambda>k. lease_ok h k (r_broker_epoch r)) (r_leases r)"
      "rows_ok (\<lambda>k a. text_ok max_id k \<and> admission_ok a) (r_admissions r)"
      "rows_ok (settlement_ok h) (r_settlements r)"
      "rows_ok (\<lambda>k c. text_ok max_id k \<and> owner_close_ok h c) (r_closed_owners r)"
    unfolding r' sort_registry_eq by simp_all
  moreover from con rows have "registry_consistent r"
    by (simp add: registry_consistent_sort rows_ok_def)
  ultimately show ?thesis
    using base caps ext by (simp add: registry_ok_def)
qed

end
