(* ===== verification/Lease_Store.thy ===== *)
theory Lease_Store
  imports Lease_Validation
begin

text \<open>
  The persisted authority: \<open>registry.json\<close> and the archive of closed fences, with
  \<open>_read_registry\<close>, \<open>_write_registry\<close>, \<open>_compact_closed_fences\<close> and the archive
  reads and writes.  Node validation, file locking and \<open>fsync\<close> are the operating system's; a
  write ends in one of the ways of \<open>write_fate\<close>, which is what the broker's failure handling
  distinguishes.  Every operation of the broker runs under one lock, so it is one function from an
  authority to a result and an authority.
\<close>

section \<open>Providers\<close>

text \<open>
  How the writes of one call of \<open>_write_registry\<close> end: all of them durable; an \<open>OSError\<close> before or
  after \<open>registry.json\<close> is replaced; or an \<open>OSError\<close> while the k-th closed head is archived, before
  or after its sidecar is replaced.  With fewer heads to archive the last one does not occur.
\<close>

datatype write_fate =
    Persisted
  | NotReplaced
  | ReplacedThenFailed
  | SidecarFailed nat bool

fun next_sidecar :: "write_fate \<Rightarrow> write_fate" where
  "next_sidecar (SidecarFailed (Suc k) replaced) = SidecarFailed k replaced"
| "next_sidecar fate = fate"

record clock =
  c_aware :: bool
  c_now_text :: string
  c_monotonic :: int

text \<open>
  The injectable sources of \<open>Providers\<close> as one operation sees them: the k-th clock reading, the
  boot identity, the identifiers drawn (the first for a fresh epoch), process liveness, the text
  of an instant some nanoseconds after a given one, and the fate of the k-th registry write.
\<close>

record providers =
  p_clock :: "nat \<Rightarrow> clock"
  p_boot_id :: string
  p_uuid :: "nat \<Rightarrow> string"
  p_process_exists :: "int \<Rightarrow> bool"
  p_process_identity :: "int \<Rightarrow> string option"
  p_expiry_text :: "string \<Rightarrow> int \<Rightarrow> string"
  p_write_fate :: "nat \<Rightarrow> write_fate"

record instant =
  i_text :: string
  i_monotonic :: int
  i_boot_id :: string

definition now :: "providers \<Rightarrow> nat \<Rightarrow> broker_error + instant" where
  "now p k =
     (if \<not> c_aware (p_clock p k) then Inl LeaseBrokerError
      else if c_monotonic (p_clock p k) < 0 then Inl LeaseBrokerError
      else bind_res (bounded max_id (p_boot_id p)) (\<lambda>boot.
        Inr \<lparr>i_text = c_now_text (p_clock p k), i_monotonic = c_monotonic (p_clock p k),
             i_boot_id = boot\<rparr>))"

section \<open>The authority\<close>

record authority =
  au_document :: "json dict option"
  au_archive :: "json dict"

definition empty_authority :: authority where
  "empty_authority = \<lparr>au_document = None, au_archive = []\<rparr>"

text \<open>\<open>_read_registry(create=False)\<close>\<close>

definition read_registry :: "host \<Rightarrow> authority \<Rightarrow> broker_error + registry option" where
  "read_registry h au =
     (case au_document au of
        None \<Rightarrow> Inr None
      | Some d \<Rightarrow> bind_res (registry_from_json h d) (\<lambda>r. Inr (Some r)))"

text \<open>\<open>_read_registry(create=True)\<close>\<close>

definition load_registry :: "host \<Rightarrow> providers \<Rightarrow> authority \<Rightarrow> broker_error + registry" where
  "load_registry h p au =
     bind_res (read_registry h au) (\<lambda>v.
       Inr (case v of None \<Rightarrow> fresh_registry (p_uuid p 0) | Some r \<Rightarrow> r))"

subsection \<open>Archived fences\<close>

definition max_archived_fence_bytes :: nat where
  "max_archived_fence_bytes = 4 * max_extras_bytes"

definition validated_archived_fence :: "host \<Rightarrow> string \<Rightarrow> json \<Rightarrow> broker_error + fence" where
  "validated_archived_fence h digest payload =
     bind_res (fence_from_json h digest payload) (\<lambda>f.
     bind_res (guard_res (extras_serialized_size (f_extras f) \<le> max_extras_bytes) RegistryCorruptError)
       (\<lambda>_. Inr f))"

definition archived_payload :: "json \<Rightarrow> broker_error + json" where
  "archived_payload j =
     (if max_archived_fence_bytes < length (pretty_json 0 j) + 1 then Inl RegistryCorruptError
      else (case j of JObj _ \<Rightarrow> Inr j | _ \<Rightarrow> Inl RegistryCorruptError))"

definition read_archived_fence :: "host \<Rightarrow> authority \<Rightarrow> string \<Rightarrow> broker_error + fence option" where
  "read_archived_fence h au digest =
     bind_res (sha256_text digest) (\<lambda>_.
     case dget (au_archive au) digest of
       None \<Rightarrow> Inr None
     | Some j \<Rightarrow>
         bind_res (archived_payload j) (\<lambda>payload.
         bind_res (validated_archived_fence h digest payload) (\<lambda>f. Inr (Some f))))"

definition archive_closed_fence ::
    "host \<Rightarrow> write_fate \<Rightarrow> string \<Rightarrow> fence \<Rightarrow> authority \<Rightarrow> (broker_error + unit) \<times> authority" where
  "archive_closed_fence h fate digest f au =
     (if resource_sha256 h (f_resource_ref f) \<noteq> digest then (Inl RegistryCorruptError, au)
      else
        let au' = au\<lparr>au_archive := dset digest (json_norm (JObj (fence_items f))) (au_archive au)\<rparr>
        in (case fate of
              SidecarFailed k replaced \<Rightarrow>
                if k = 0 then (Inl PyOSError, if replaced then au' else au) else (Inr (), au')
            | _ \<Rightarrow> (Inr (), au')))"

subsection \<open>Compaction\<close>

definition closed_heads :: "registry \<Rightarrow> (string \<times> fence) list" where
  "closed_heads r =
     sort_key (\<lambda>(d, f). f_fencing_sequence f)
       (filter (\<lambda>(d, f). dget (r_leases r) (f_lease_id f) = None) (r_fences r))"

definition excess_heads :: "registry \<Rightarrow> (string \<times> fence) list" where
  "excess_heads r = take (length (closed_heads r) - max_closed_fences) (closed_heads r)"

fun archive_heads ::
    "host \<Rightarrow> write_fate \<Rightarrow> (string \<times> fence) list \<Rightarrow> registry \<Rightarrow> authority
       \<Rightarrow> (broker_error + registry) \<times> authority" where
  "archive_heads h fate [] r au = (Inr r, au)"
| "archive_heads h fate ((d, f) # heads) r au =
     (case archive_closed_fence h fate d f au of
        (Inl e, au') \<Rightarrow> (Inl e, au')
      | (Inr _, au') \<Rightarrow>
          archive_heads h (next_sidecar fate) heads (r\<lparr>r_fences := ddel d (r_fences r)\<rparr>) au')"

definition compact_closed_fences ::
    "host \<Rightarrow> write_fate \<Rightarrow> registry \<Rightarrow> authority \<Rightarrow> (broker_error + registry) \<times> authority" where
  "compact_closed_fences h fate r au = archive_heads h fate (excess_heads r) r au"

subsection \<open>Writing\<close>

text \<open>The result is the registry object as compaction left it in memory.\<close>

definition write_registry ::
    "host \<Rightarrow> write_fate \<Rightarrow> registry \<Rightarrow> authority \<Rightarrow> (broker_error + registry) \<times> authority" where
  "write_registry h fate r au =
     (case registry_from_json h (registry_to_json r) of
        Inl e \<Rightarrow> (Inl e, au)
      | Inr _ \<Rightarrow>
          (case compact_closed_fences h fate r au of
             (Inl e, au1) \<Rightarrow> (Inl e, au1)
           | (Inr r1, au1) \<Rightarrow>
               (case registry_from_json h (registry_to_json r1) of
                  Inl e \<Rightarrow> (Inl e, au1)
                | Inr _ \<Rightarrow>
                    let au2 = au1\<lparr>au_document := Some (norm_items (registry_to_json r1))\<rparr> in
                    (case fate of
                       NotReplaced \<Rightarrow> (Inl PyOSError, au1)
                     | ReplacedThenFailed \<Rightarrow> (Inl PyOSError, au2)
                     | _ \<Rightarrow> (Inr r1, au2)))))"

section \<open>Transactions\<close>

text \<open>
  The body of an operation between \<open>_read_registry\<close> and \<open>_write_registry\<close>: it reads
  archived fences, may raise, and either returns without writing or hands over the registry to
  write.
\<close>

type_synonym 'a body =
  "(string \<Rightarrow> broker_error + fence option) \<Rightarrow> registry \<Rightarrow> broker_error + ('a \<times> registry option)"

definition transact ::
    "host \<Rightarrow> providers \<Rightarrow> 'a body \<Rightarrow> authority \<Rightarrow> (broker_error + 'a) \<times> authority" where
  "transact h p body au =
     (case load_registry h p au of
        Inl e \<Rightarrow> (Inl e, au)
      | Inr r \<Rightarrow>
          (case body (read_archived_fence h au) r of
             Inl e \<Rightarrow> (Inl e, au)
           | Inr (x, None) \<Rightarrow> (Inr x, au)
           | Inr (x, Some r') \<Rightarrow>
               (case write_registry h (p_write_fate p 0) r' au of
                  (Inl e, au') \<Rightarrow> (Inl e, au')
                | (Inr _, au') \<Rightarrow> (Inr x, au'))))"

text \<open>The read-only operations neither create nor lock.\<close>

definition inspect_authority ::
    "host \<Rightarrow> ((string \<Rightarrow> broker_error + fence option) \<Rightarrow> registry option \<Rightarrow> broker_error + 'a)
       \<Rightarrow> authority \<Rightarrow> broker_error + 'a" where
  "inspect_authority h query au =
     bind_res (read_registry h au) (\<lambda>v. query (read_archived_fence h au) v)"

section \<open>Well-formed authorities\<close>

definition archive_ok :: "host \<Rightarrow> json dict \<Rightarrow> bool" where
  "archive_ok h a \<longleftrightarrow> wf_dict a \<and>
     (\<forall>d j. dget a d = Some j \<longrightarrow> (\<exists>f. fence_ok h d f \<and> j = json_norm (JObj (fence_items f))
        \<and> extras_serialized_size (f_extras f) \<le> max_extras_bytes))"

definition authority_ok :: "host \<Rightarrow> authority \<Rightarrow> bool" where
  "authority_ok h au \<longleftrightarrow>
     (\<forall>d. au_document au = Some d \<longrightarrow> (\<exists>r. registry_ok h r \<and> d = norm_items (registry_to_json r)))
     \<and> archive_ok h (au_archive au)"

lemma authority_ok_empty [simp]: "authority_ok h empty_authority"
  by (simp add: authority_ok_def empty_authority_def archive_ok_def)

lemma read_registry_ok:
  assumes "authority_ok h au" and "read_registry h au = Inr (Some r)"
  shows "registry_ok h r"
proof -
  from assms(2) obtain d where d: "au_document au = Some d" "registry_from_json h d = Inr r"
    by (auto simp: read_registry_def split: option.splits)
  with assms(1) obtain r0 where "registry_ok h r0" "d = norm_items (registry_to_json r0)"
    by (auto simp: authority_ok_def)
  moreover from this d have "r = norm_registry r0" by (simp add: registry_read_back)
  ultimately show ?thesis by (simp add: norm_registry_ok)
qed

text \<open>On a well-formed authority reading never fails.\<close>

lemma read_registry_total:
  assumes "authority_ok h au"
  shows "\<exists>v. read_registry h au = Inr v"
  using assms by (fastforce simp: authority_ok_def read_registry_def registry_read_back split: option.splits)

lemma fresh_registry_ok: "is_uuid_text e \<Longrightarrow> registry_ok h (fresh_registry e)"
  by (simp add: registry_ok_def fresh_registry_def rows_ok_def extras_ok_def registry_consistent_def
      issued_sequences_def document_extras_bytes_def extras_serialized_size_def)

lemma load_registry_ok:
  assumes "authority_ok h au" and "is_uuid_text (p_uuid p 0)" and "load_registry h p au = Inr r"
  shows "registry_ok h r"
  using assms read_registry_ok [OF assms(1)]
  by (auto simp: load_registry_def fresh_registry_ok split: option.splits)

subsection \<open>Compaction keeps every head\<close>

lemma distinct_keys_subset:
  assumes "wf_dict d" and "set xs \<subseteq> set d" and "distinct xs"
  shows "wf_dict xs"
  using assms by (auto simp: wf_dict_def distinct_map inj_on_subset)

lemma excess_heads_subset:
  "set (excess_heads r) \<subseteq> {(d, f) \<in> set (r_fences r). dget (r_leases r) (f_lease_id f) = None}"
  unfolding excess_heads_def closed_heads_def by (auto dest!: in_set_takeD)

lemma wf_dict_distinct: "wf_dict d \<Longrightarrow> distinct d"
  by (simp add: wf_dict_def distinct_map)

lemma excess_heads_wf:
  assumes "wf_dict (r_fences r)"
  shows "wf_dict (excess_heads r)"
proof (rule distinct_keys_subset [OF assms])
  show "set (excess_heads r) \<subseteq> set (r_fences r)" using excess_heads_subset by blast
  show "distinct (excess_heads r)"
    using wf_dict_distinct [OF assms] by (simp add: excess_heads_def closed_heads_def)
qed

text \<open>The effect of archiving a list of heads, head by head.\<close>

lemma archived_step:
  "archive_heads h fate ((d, f) # heads) r au = (Inr r', au') \<Longrightarrow>
     archive_heads h (next_sidecar fate) heads (r\<lparr>r_fences := ddel d (r_fences r)\<rparr>)
       (au\<lparr>au_archive := dset d (json_norm (JObj (fence_items f))) (au_archive au)\<rparr>) = (Inr r', au')"
  by (auto simp: archive_closed_fence_def Let_def split: if_splits write_fate.splits)

lemma archive_heads_effect:
  assumes "archive_heads h fate heads r au = (Inr r', au')" and "wf_dict heads"
  shows "r' = r\<lparr>r_fences := r_fences r'\<rparr>"
    and "dget (r_fences r') d = (if d \<in> set (dkeys heads) then None else dget (r_fences r) d)"
    and "dget (au_archive au') d =
      (case dget heads d of Some f \<Rightarrow> Some (json_norm (JObj (fence_items f)))
       | None \<Rightarrow> dget (au_archive au) d)"
    and "au_document au' = au_document au"
  using assms
proof (induction heads arbitrary: fate r au)
  case (Cons p heads)
  obtain d0 f where p: "p = (d0, f)" by fastforce
  {
    case 1
    from Cons.IH(1) [OF archived_step [OF 1(1) [unfolded p]]] 1(2) show ?case by (simp add: wf_dict_def)
  next
    case 2
    from Cons.IH(2) [OF archived_step [OF 2(1) [unfolded p]]] 2(2) show ?case by (auto simp: wf_dict_def p)
  next
    case 3
    then have "dget heads d0 = None" by (simp add: wf_dict_def map_of_eq_None_iff p)
    with Cons.IH(3) [OF archived_step [OF 3(1) [unfolded p]]] 3(2) show ?case
      by (auto simp: wf_dict_def p split: option.splits)
  next
    case 4
    from Cons.IH(4) [OF archived_step [OF 4(1) [unfolded p]]] 4(2) show ?case by (simp add: wf_dict_def)
  }
qed simp_all

lemma archive_heads_fences:
  "archive_heads h fate heads r au = (Inr r', au') \<Longrightarrow>
     r_fences r' = filter (\<lambda>p. fst p \<notin> set (dkeys heads)) (r_fences r)"
proof (induction heads arbitrary: fate r au)
  case (Cons p heads)
  obtain d f where p: "p = (d, f)" by fastforce
  from Cons.IH [OF archived_step [OF Cons.prems [unfolded p]]] show ?case
    by (auto simp: AList.delete_eq filter_filter p intro!: filter_cong)
qed simp

lemma archive_heads_wf:
  "archive_heads h fate heads r au = (res, au') \<Longrightarrow> wf_dict (au_archive au) \<Longrightarrow> wf_dict (au_archive au')"
proof (induction h fate heads r au rule: archive_heads.induct)
  case (2 h fate d f heads r au)
  then show ?case
    by (auto simp: archive_closed_fence_def Let_def split: if_splits write_fate.splits)
qed simp

text \<open>Archiving the heads of a sound registry either ends or stops with an \<open>OSError\<close>; then a part of
  the heads is archived.\<close>

lemma archive_heads_stopped:
  assumes "archive_heads h fate heads r au = (Inl e, au')" and "wf_dict heads"
    and "\<And>d f. (d, f) \<in> set heads \<Longrightarrow> resource_sha256 h (f_resource_ref f) = d"
  shows "e = PyOSError \<and> (\<exists>k replaced. fate = SidecarFailed k replaced)
    \<and> au_document au' = au_document au
    \<and> (\<exists>D. \<forall>d. dget (au_archive au') d =
        (case dget heads d of
           Some f \<Rightarrow> if d \<in> D then Some (json_norm (JObj (fence_items f))) else dget (au_archive au) d
         | None \<Rightarrow> dget (au_archive au) d))"
  using assms
proof (induction heads arbitrary: fate r au)
  case (Cons p heads)
  obtain d0 f where p: "p = (d0, f)" by fastforce
  define au1 where "au1 = au\<lparr>au_archive := dset d0 (json_norm (JObj (fence_items f))) (au_archive au)\<rparr>"
  have match: "resource_sha256 h (f_resource_ref f) = d0" using Cons.prems(3) p by simp
  show ?case
  proof (cases "\<exists>replaced. fate = SidecarFailed 0 replaced")
    case True
    then obtain replaced where fate: "fate = SidecarFailed 0 replaced" by blast
    with Cons.prems(1) match have "e = PyOSError" and au': "au' = (if replaced then au1 else au)"
      by (auto simp: p archive_closed_fence_def au1_def Let_def)
    moreover have "\<forall>d. dget (au_archive au') d =
        (case dget (p # heads) d of
           Some g \<Rightarrow> if d \<in> (if replaced then {d0} else {}) then Some (json_norm (JObj (fence_items g)))
             else dget (au_archive au) d
         | None \<Rightarrow> dget (au_archive au) d)"
      by (auto simp: au' au1_def p split: option.split)
    ultimately show ?thesis using fate by (auto simp: au1_def)
  next
    case False
    then have "archive_closed_fence h fate d0 f au = (Inr (), au1)"
      using match by (auto simp: archive_closed_fence_def au1_def Let_def split: write_fate.split)
    with Cons.prems(1) have rest: "archive_heads h (next_sidecar fate) heads
        (r\<lparr>r_fences := ddel d0 (r_fences r)\<rparr>) au1 = (Inl e, au')" by (simp add: p)
    have wf: "wf_dict heads" and new: "dget heads d0 = None"
      using Cons.prems(2) by (simp_all add: p wf_dict_def map_of_eq_None_iff)
    from Cons.IH [OF rest wf] Cons.prems(3) obtain D where "e = PyOSError"
      and fate: "\<exists>k replaced. next_sidecar fate = SidecarFailed k replaced"
      and doc: "au_document au' = au_document au1"
      and D: "\<forall>d. dget (au_archive au') d =
        (case dget heads d of
           Some f \<Rightarrow> if d \<in> D then Some (json_norm (JObj (fence_items f))) else dget (au_archive au1) d
         | None \<Rightarrow> dget (au_archive au1) d)" by auto
    have "\<exists>k replaced. fate = SidecarFailed k replaced"
      using fate by (cases fate rule: next_sidecar.cases) auto
    moreover have "\<forall>d. dget (au_archive au') d =
        (case dget (p # heads) d of
           Some g \<Rightarrow> if d \<in> insert d0 D then Some (json_norm (JObj (fence_items g))) else dget (au_archive au) d
         | None \<Rightarrow> dget (au_archive au) d)"
      using D new by (auto simp: au1_def p split: option.splits)
    ultimately show ?thesis using \<open>e = PyOSError\<close> doc by (auto simp: au1_def)
  qed
qed simp

lemma excess_heads_lookup:
  assumes "wf_dict (r_fences r)" and "dget (excess_heads r) d = Some f"
  shows "dget (r_fences r) d = Some f" and "dget (r_leases r) (f_lease_id f) = None"
proof -
  have "(d, f) \<in> set (excess_heads r)" using assms(2) by (rule map_of_SomeD)
  then have "(d, f) \<in> set (r_fences r) \<and> dget (r_leases r) (f_lease_id f) = None"
    using excess_heads_subset by blast
  then show "dget (r_fences r) d = Some f" "dget (r_leases r) (f_lease_id f) = None"
    using assms(1) by (auto simp: dict.lookup_items)
qed

text \<open>The registry and the archive that compaction leaves.\<close>

definition compacted_registry :: "registry \<Rightarrow> registry" where
  "compacted_registry r =
     r\<lparr>r_fences := filter (\<lambda>p. fst p \<notin> set (dkeys (excess_heads r))) (r_fences r)\<rparr>"

lemma compacted_registry_fields [simp]:
  "r_broker_epoch (compacted_registry r) = r_broker_epoch r"
  "r_next_sequence (compacted_registry r) = r_next_sequence r"
  "r_leases (compacted_registry r) = r_leases r"
  "r_admissions (compacted_registry r) = r_admissions r"
  "r_settlements (compacted_registry r) = r_settlements r"
  "r_closed_owners (compacted_registry r) = r_closed_owners r"
  "r_extras (compacted_registry r) = r_extras r"
  "r_recovery_capability (compacted_registry r) = r_recovery_capability r"
  by (simp_all add: compacted_registry_def)

lemma compacted_lookup:
  assumes "wf_dict (r_fences r)"
  shows "dget (r_fences (compacted_registry r)) d =
    (if dget (excess_heads r) d = None then dget (r_fences r) d else None)"
proof -
  have "dget (filter (\<lambda>p. fst p \<notin> K) xs) d = (if d \<in> K then None else dget xs d)" for K and xs :: "fence dict"
    by (induction xs) auto
  then show ?thesis by (simp add: compacted_registry_def map_of_eq_None_iff)
qed

lemma sum_filter_le: "sum_list (map g (dvalues (filter P d))) \<le> sum_list (map g (dvalues d))"
  for g :: "'a \<Rightarrow> nat"
  by (induction d) auto

lemma compacted_registry_ok:
  assumes ok: "registry_ok h r"
  shows "registry_ok h (compacted_registry r)"
proof -
  let ?r = "compacted_registry r"
  have wf: "wf_dict (r_fences r)" and rows: "rows_ok (fence_ok h) (r_fences r)"
    and con: "registry_consistent r"
    using ok by (simp_all add: registry_ok_def rows_ok_def)
  have fences: "set (r_fences ?r) \<subseteq> set (r_fences r)"
    by (auto simp: compacted_registry_def)
  have "rows_ok (fence_ok h) (r_fences ?r)"
    using rows fences wf by (auto simp: rows_ok_def list_all_iff compacted_registry_def)
  moreover have "settlement_bound ?r k s" if bound: "settlement_bound r k s" for k s
  proof (cases "dget (excess_heads r) k")
    case (Some f)
    with bound excess_heads_lookup [OF wf Some] show ?thesis
      by (auto simp: settlement_bound_def split: option.splits)
  qed (use bound in \<open>simp add: settlement_bound_def compacted_lookup [OF wf]\<close>)
  moreover have "document_extras_bytes ?r \<le> document_extras_bytes r"
    using sum_filter_le [of "\<lambda>f. extras_serialized_size (f_extras f)" _ "r_fences r"]
    unfolding document_extras_bytes_def compacted_registry_fields
    by (simp add: compacted_registry_def)
  moreover have "set (issued_sequences ?r) \<subseteq> set (issued_sequences r)"
    using fences by (auto simp: issued_sequences_def)
  ultimately have "registry_consistent ?r"
    using con fences by (fastforce simp: registry_consistent_def list_all_iff)
  with \<open>rows_ok (fence_ok h) (r_fences ?r)\<close> show ?thesis
    using ok by (simp add: registry_ok_def)
qed

lemma compact_effect:
  assumes ok: "registry_ok h r" and run: "compact_closed_fences h fate r au = (res, au1)"
  shows "au_document au1 = au_document au"
    and "wf_dict (au_archive au) \<Longrightarrow> wf_dict (au_archive au1)"
    and "res = Inr r1 \<Longrightarrow> r1 = compacted_registry r \<and> (\<forall>d. dget (au_archive au1) d =
      (case dget (excess_heads r) d of Some f \<Rightarrow> Some (json_norm (JObj (fence_items f)))
       | None \<Rightarrow> dget (au_archive au) d))"
    and "res = Inl e \<Longrightarrow> e = PyOSError \<and> (\<exists>k replaced. fate = SidecarFailed k replaced)
      \<and> (\<exists>D. \<forall>d. dget (au_archive au1) d =
        (case dget (excess_heads r) d of
           Some f \<Rightarrow> if d \<in> D then Some (json_norm (JObj (fence_items f))) else dget (au_archive au) d
         | None \<Rightarrow> dget (au_archive au) d))"
proof -
  have wf: "wf_dict (r_fences r)" and rows: "rows_ok (fence_ok h) (r_fences r)"
    using ok by (simp_all add: registry_ok_def rows_ok_def)
  have match: "resource_sha256 h (f_resource_ref f) = d" if "(d, f) \<in> set (excess_heads r)" for d f
    using that excess_heads_subset [of r] rows
    by (auto simp: rows_ok_def list_all_iff fence_ok_def)
  note run = run [unfolded compact_closed_fences_def] and wfx = excess_heads_wf [OF wf]
  show "wf_dict (au_archive au) \<Longrightarrow> wf_dict (au_archive au1)" by (rule archive_heads_wf [OF run])
  show "au_document au1 = au_document au"
    using archive_heads_effect(4) [OF _ wfx] archive_heads_stopped [OF _ wfx match] run by (cases res) blast+
  show "r1 = compacted_registry r \<and> (\<forall>d. dget (au_archive au1) d =
      (case dget (excess_heads r) d of Some f \<Rightarrow> Some (json_norm (JObj (fence_items f)))
       | None \<Rightarrow> dget (au_archive au) d))" if "res = Inr r1"
    using archive_heads_effect(1,3) [OF _ wfx] archive_heads_fences run unfolding that compacted_registry_def
    by metis
  show "e = PyOSError \<and> (\<exists>k replaced. fate = SidecarFailed k replaced)
      \<and> (\<exists>D. \<forall>d. dget (au_archive au1) d =
        (case dget (excess_heads r) d of
           Some f \<Rightarrow> if d \<in> D then Some (json_norm (JObj (fence_items f))) else dget (au_archive au) d
         | None \<Rightarrow> dget (au_archive au) d))" if "res = Inl e"
    using archive_heads_stopped [OF _ wfx match] run unfolding that by blast
qed

end
