(* ===== verification/Lease_Admission.thy ===== *)
theory Lease_Admission
  imports Lease_Store "HOL-Library.Product_Lexorder"
begin

text \<open>
  Expiry, live leases, admission and the two ways a lease comes into being: the private methods of
  \<open>LeaseBroker\<close> every granting operation is built from, and the three operations on session
  admission pins.
\<close>

section \<open>Expiry and liveness\<close>

definition nanoseconds :: "int \<Rightarrow> int" where
  "nanoseconds s = s * 1000000000"

definition expired :: "instant \<Rightarrow> lease \<Rightarrow> bool" where
  "expired i l \<longleftrightarrow>
     (if l_boot_id l \<noteq> i_boot_id i then True
      else l_renewed_monotonic_ns l + nanoseconds (l_ttl_seconds l) \<le> i_monotonic i)"

definition expired_static :: "instant \<Rightarrow> lease \<Rightarrow> bool" where
  "expired_static i l \<longleftrightarrow>
     l_boot_id l \<noteq> i_boot_id i
     \<or> l_renewed_monotonic_ns l + nanoseconds (l_ttl_seconds l) \<le> i_monotonic i"

lemma expired_static_eq [simp]: "expired_static = expired"
  by (auto simp: expired_def expired_static_def fun_eq_iff)

definition retained_ids :: "registry \<Rightarrow> string list" where
  "retained_ids r = map s_lease_id (dvalues (r_settlements r))"

definition live :: "instant \<Rightarrow> registry \<Rightarrow> lease list" where
  "live i r =
     filter (\<lambda>l. l_lease_id l \<in> set (retained_ids r) \<or> \<not> expired i l) (dvalues (r_leases r))"

definition remaining_ns :: "instant \<Rightarrow> lease \<Rightarrow> int" where
  "remaining_ns i l =
     (if l_boot_id l \<noteq> i_boot_id i then 0
      else max 0 (l_renewed_monotonic_ns l + nanoseconds (l_ttl_seconds l) - i_monotonic i))"

definition earliest_expiry :: "providers \<Rightarrow> instant \<Rightarrow> lease list \<Rightarrow> string option" where
  "earliest_expiry p i leases =
     (if leases = [] then None
      else Some (p_expiry_text p (i_text i) (min_list (map (remaining_ns i) leases))))"

definition session_has_live_agents :: "instant \<Rightarrow> string \<Rightarrow> registry \<Rightarrow> bool" where
  "session_has_live_agents i session r =
     list_ex (\<lambda>l. l_pool l = AgentPool \<and> l_session_id l = session
                 \<and> (l_lease_id l \<in> set (retained_ids r) \<or> \<not> expired_static i l))
       (dvalues (r_leases r))"

section \<open>Admission pins\<close>

definition admission_expired :: "instant \<Rightarrow> session_admission \<Rightarrow> bool" where
  "admission_expired i a \<longleftrightarrow>
     a_boot_id a \<noteq> i_boot_id i
     \<or> a_configured_monotonic_ns a + nanoseconds (a_ttl_seconds a) \<le> i_monotonic i"

definition orphan_admissions :: "instant \<Rightarrow> registry \<Rightarrow> string list" where
  "orphan_admissions i r =
     sort (dkeys (filter (\<lambda>(session, a). admission_expired i a
       \<and> \<not> session_has_live_agents i session r) (r_admissions r)))"

definition purge_orphan_admissions :: "instant \<Rightarrow> registry \<Rightarrow> string list \<times> registry" where
  "purge_orphan_admissions i r =
     (let purged = orphan_admissions i r
      in (purged, r\<lparr>r_admissions := foldl (\<lambda>d s. ddel s d) (r_admissions r) purged\<rparr>))"

definition drop_idle_admission :: "instant \<Rightarrow> string \<Rightarrow> registry \<Rightarrow> registry" where
  "drop_idle_admission i session r =
     (if session_has_live_agents i session r then r
      else r\<lparr>r_admissions := ddel session (r_admissions r)\<rparr>)"

section \<open>Capacity\<close>

type_synonym contract_terms = "string \<times> int \<times> int \<times> mutation_mode"

definition lease_snapshot :: "lease \<Rightarrow> admission_fields" where
  "lease_snapshot l = (l_policy_sha256 l, l_session_limit l, l_aggregate_limit l, l_mutation l)"

definition live_agents :: "instant \<Rightarrow> registry \<Rightarrow> lease list" where
  "live_agents i r = filter (\<lambda>l. l_pool l = AgentPool) (live i r)"

definition live_worktrees :: "instant \<Rightarrow> registry \<Rightarrow> lease list" where
  "live_worktrees i r = filter (\<lambda>l. l_pool l = WorktreePool) (live i r)"

definition session_agents :: "instant \<Rightarrow> string \<Rightarrow> registry \<Rightarrow> lease list" where
  "session_agents i session r = filter (\<lambda>l. l_session_id l = session) (live_agents i r)"

definition effective_aggregate :: "int \<Rightarrow> lease list \<Rightarrow> int" where
  "effective_aggregate limit leases = min_list (limit # List.map_filter l_aggregate_limit leases)"

definition admit_agent ::
    "providers \<Rightarrow> instant \<Rightarrow> string \<Rightarrow> contract_terms \<Rightarrow> int \<Rightarrow> registry \<Rightarrow> broker_error + registry" where
  "admit_agent p i session snap amount r0 =
     (case snap of (policy, session_limit, aggregate_limit, mutation) \<Rightarrow>
      let r = snd (purge_orphan_admissions i r0);
          agents = live_agents i r;
          same = session_agents i session r
      in bind_res (guard_res
           (case dget (r_admissions r) session of None \<Rightarrow> True | Some a \<Rightarrow> admission_contract a = snap)
           PolicyMismatchError) (\<lambda>_.
         bind_res (guard_res
           (list_all (\<lambda>l. lease_snapshot l
               = (Some policy, Some session_limit, Some aggregate_limit, Some mutation)) same)
           PolicyMismatchError) (\<lambda>_.
         bind_res (guard_res (int (length same) + amount \<le> session_limit)
           (CapacityExhaustedError (earliest_expiry p i same))) (\<lambda>_.
         bind_res (guard_res (int (length agents) + amount \<le> effective_aggregate aggregate_limit agents)
           (CapacityExhaustedError (earliest_expiry p i agents))) (\<lambda>_.
         Inr r)))))"

text \<open>The limit is the broker handle's \<open>worktree_limit\<close>.\<close>

definition admit_worktree ::
    "providers \<Rightarrow> int \<Rightarrow> instant \<Rightarrow> int \<Rightarrow> registry \<Rightarrow> broker_error + unit" where
  "admit_worktree p limit i amount r =
     guard_res (int (length (live_worktrees i r)) + amount \<le> limit)
       (CapacityExhaustedError (earliest_expiry p i (live_worktrees i r)))"

section \<open>Fenced grants\<close>

text \<open>The keyword arguments of \<open>_new_lease\<close>.\<close>

record grant =
  g_pool :: pool
  g_owner_id :: string
  g_owner_pid :: "int option"
  g_owner_process_start :: "string option"
  g_session_id :: string
  g_agent_id :: "string option"
  g_tool_use_id :: "string option"
  g_agent_type :: "string option"
  g_batch_id :: "string option"
  g_resource_ref :: "resource_ref option"
  g_policy_sha256 :: "string option"
  g_session_limit :: "int option"
  g_aggregate_limit :: "int option"
  g_mutation :: "mutation_mode option"
  g_ttl_seconds :: int

definition leases_without_prior :: "registry \<Rightarrow> string \<Rightarrow> lease \<Rightarrow> lease dict" where
  "leases_without_prior r digest l =
     (case dget (r_fences r) digest of
        Some prior \<Rightarrow>
          if f_lease_id prior \<noteq> l_lease_id l then ddel (f_lease_id prior) (r_leases r) else r_leases r
      | None \<Rightarrow> r_leases r)"

definition fresh_head :: "registry \<Rightarrow> resource_ref \<Rightarrow> lease \<Rightarrow> fence" where
  "fresh_head r res l =
     \<lparr>f_resource_ref = res, f_broker_epoch = r_broker_epoch r,
      f_fencing_sequence = l_fencing_sequence l, f_lease_id = l_lease_id l,
      f_close_receipt = None, f_extras = []\<rparr>"

definition make_resource_current :: "host \<Rightarrow> lease \<Rightarrow> registry \<Rightarrow> broker_error + registry" where
  "make_resource_current h l r =
     (case l_resource_ref l of
        None \<Rightarrow> Inl LeaseBrokerError
      | Some res \<Rightarrow>
          let digest = resource_sha256 h res in
          if dget (r_settlements r) digest \<noteq> None then Inl LeaseOwnershipError
          else Inr (r\<lparr>r_leases := leases_without_prior r digest l,
                      r_fences := dset digest (fresh_head r res l) (r_fences r)\<rparr>))"

definition granted_lease :: "grant \<Rightarrow> instant \<Rightarrow> string \<Rightarrow> string \<Rightarrow> int \<Rightarrow> lease" where
  "granted_lease g i lease_id epoch sequence =
     \<lparr>l_lease_id = lease_id, l_pool = g_pool g, l_owner_id = g_owner_id g,
      l_owner_pid = g_owner_pid g, l_owner_process_start = g_owner_process_start g,
      l_session_id = g_session_id g, l_agent_id = g_agent_id g,
      l_tool_use_id = g_tool_use_id g, l_agent_type = g_agent_type g, l_batch_id = g_batch_id g,
      l_resource_ref = g_resource_ref g, l_policy_sha256 = g_policy_sha256 g,
      l_session_limit = g_session_limit g, l_aggregate_limit = g_aggregate_limit g,
      l_mutation = g_mutation g, l_boot_id = i_boot_id i, l_acquired_at = i_text i,
      l_renewed_at = i_text i, l_renewed_monotonic_ns = i_monotonic i,
      l_claimed_at = (if g_agent_id g \<noteq> None then Some (i_text i) else None),
      l_child_terminal_at = None, l_parent_completed_at = None,
      l_ttl_seconds = g_ttl_seconds g, l_broker_epoch = epoch,
      l_fencing_sequence = sequence, l_extras = []\<rparr>"

definition new_lease ::
    "host \<Rightarrow> string \<Rightarrow> grant \<Rightarrow> instant \<Rightarrow> registry \<Rightarrow> broker_error + (lease \<times> registry)" where
  "new_lease h lease_id g i r =
     (case issue_sequence r of (sequence, r1) \<Rightarrow>
      let l = granted_lease g i lease_id (r_broker_epoch r) sequence;
          r2 = r1\<lparr>r_leases := dset lease_id l (r_leases r1)\<rparr>
      in if g_resource_ref g = None then Inr (l, r2)
         else bind_res (make_resource_current h l r2) (\<lambda>r3. Inr (l, r3)))"

text \<open>A hot head, else an archived one.\<close>

definition resource_head ::
    "(string \<Rightarrow> broker_error + fence option) \<Rightarrow> registry \<Rightarrow> string \<Rightarrow> broker_error + fence option" where
  "resource_head archived r digest =
     (case dget (r_fences r) digest of Some f \<Rightarrow> Inr (Some f) | None \<Rightarrow> archived digest)"

datatype owner_liveness = OwnerDead | OwnerLive | OwnerUnknown

definition owner_state :: "providers \<Rightarrow> lease \<Rightarrow> broker_error + owner_liveness" where
  "owner_state p l =
     bind_res (bounded max_id (p_boot_id p)) (\<lambda>boot.
       Inr (if l_boot_id l \<noteq> boot then OwnerDead
            else (case l_owner_pid l of
               None \<Rightarrow> OwnerUnknown
             | Some pid \<Rightarrow>
                 if \<not> p_process_exists p pid then OwnerDead
                 else (case (p_process_identity p pid, l_owner_process_start l) of
                    (Some current, Some start) \<Rightarrow> if current = start then OwnerLive else OwnerDead
                  | _ \<Rightarrow> OwnerUnknown))))"

definition refuse_live_prior ::
    "providers \<Rightarrow> on_conflict \<Rightarrow> instant \<Rightarrow> fence \<Rightarrow> registry \<Rightarrow> broker_error + unit" where
  "refuse_live_prior p mode i prior r =
     (if mode = Refuse then
        (case dget (r_leases r) (f_lease_id prior) of
           None \<Rightarrow> Inr ()
         | Some pl \<Rightarrow>
             if expired i pl then Inr ()
             else bind_res (owner_state p pl) (\<lambda>state.
               guard_res (state = OwnerDead) (LeaseConflictError (l_owner_id pl))))
      else Inr ())"

definition drop_superseded_resource_lease ::
    "host \<Rightarrow> providers \<Rightarrow> on_conflict \<Rightarrow> instant \<Rightarrow> resource_ref
       \<Rightarrow> (string \<Rightarrow> broker_error + fence option) \<Rightarrow> registry \<Rightarrow> broker_error + registry" where
  "drop_superseded_resource_lease h p mode i res archived r =
     (let digest = resource_sha256 h res in
      if dget (r_settlements r) digest \<noteq> None then Inl LeaseOwnershipError
      else bind_res (resource_head archived r digest) (\<lambda>prior.
        case prior of
          None \<Rightarrow> Inr r
        | Some f \<Rightarrow>
            if f_close_receipt f \<noteq> None \<and> dget (r_leases r) (f_lease_id f) = None
            then Inl LeaseOwnershipError
            else bind_res (refuse_live_prior p mode i f r) (\<lambda>_.
              Inr (r\<lparr>r_leases := ddel (f_lease_id f) (r_leases r)\<rparr>))))"

definition require_no_retained_settlements ::
    "lease list \<Rightarrow> registry \<Rightarrow> broker_error + unit" where
  "require_no_retained_settlements leases r =
     guard_res (list_all (\<lambda>l. l_lease_id l \<notin> set (retained_ids r)) leases) LeaseOwnershipError"

definition require_owner_admission_open :: "string \<Rightarrow> registry \<Rightarrow> broker_error + unit" where
  "require_owner_admission_open owner r =
     guard_res (dget (r_closed_owners r) owner = None) OwnerAdmissionClosedError"

section \<open>Token states\<close>

definition archived_state ::
    "registry \<Rightarrow> resource_ref \<Rightarrow> fencing_token \<Rightarrow> fence option \<Rightarrow> token_state" where
  "archived_state r res tok archived =
     (case archived of
        None \<Rightarrow> Superseded
      | Some f \<Rightarrow>
          if f_resource_ref f = res \<and> tok_epoch tok = r_broker_epoch r \<and> tok = f_token f
          then (if f_close_receipt f \<noteq> None then Closed else Expired)
          else Superseded)"

definition current_state ::
    "host \<Rightarrow> instant \<Rightarrow> resource_ref \<Rightarrow> fencing_token
       \<Rightarrow> (string \<Rightarrow> broker_error + fence option) \<Rightarrow> registry
       \<Rightarrow> broker_error + (token_state \<times> lease option)" where
  "current_state h i res tok archived r =
     (let digest = resource_sha256 h res in
      case dget (r_fences r) digest of
        None \<Rightarrow> bind_res (archived digest) (\<lambda>a. Inr (archived_state r res tok a, None))
      | Some head \<Rightarrow>
          if tok_epoch tok \<noteq> r_broker_epoch r \<or> tok \<noteq> f_token head then Inr (Superseded, None)
          else (case dget (r_leases r) (f_lease_id head) of
             None \<Rightarrow> Inr (if f_close_receipt head \<noteq> None then Closed else Expired, None)
           | Some l \<Rightarrow>
               if l_resource_ref l \<noteq> Some res \<or> l_fencing_sequence l \<noteq> f_fencing_sequence head
               then Inl RegistryCorruptError
               else (case dget (r_settlements r) digest of
                  Some s \<Rightarrow>
                    if s_lease_id s \<noteq> l_lease_id l \<or> s_token s \<noteq> tok then Inl RegistryCorruptError
                    else Inr (Current, Some l)
                | None \<Rightarrow> Inr (if expired i l then Expired else Current, Some l))))"

definition require_current_parent ::
    "host \<Rightarrow> instant \<Rightarrow> string option \<Rightarrow> string \<Rightarrow> (string \<Rightarrow> broker_error + fence option)
       \<Rightarrow> registry \<Rightarrow> broker_error + unit" where
  "require_current_parent h i parent session archived r =
     (case parent of
        None \<Rightarrow> Inr ()
      | Some agent \<Rightarrow>
          (case filter (\<lambda>l. l_agent_id l = Some agent) (dvalues (r_leases r)) of
             [pl] \<Rightarrow>
               if l_session_id pl \<noteq> session then Inl LeaseOwnershipError
               else (case l_resource_ref pl of
                  None \<Rightarrow> Inl LeaseOwnershipError
                | Some res \<Rightarrow>
                    bind_res (current_state h i res (l_token pl) archived r) (\<lambda>(state, current).
                      case current of
                        None \<Rightarrow> Inl LeaseOwnershipError
                      | Some c \<Rightarrow>
                          if state \<noteq> Current \<or> l_lease_id c \<noteq> l_lease_id pl
                          then Inl LeaseOwnershipError else Inr ()))
           | _ \<Rightarrow> Inl LeaseNotFoundError))"

section \<open>Operations on admission pins\<close>

text \<open>Every locked operation checks its arguments first, then runs its body as a transaction.\<close>

definition run_op ::
    "host \<Rightarrow> providers \<Rightarrow> broker_error + 'c \<Rightarrow> ('c \<Rightarrow> 'a body) \<Rightarrow> authority
       \<Rightarrow> (broker_error + 'a) \<times> authority" where
  "run_op h p checked body au =
     (case checked of Inl e \<Rightarrow> (Inl e, au) | Inr c \<Rightarrow> transact h p (body c) au)"

definition configure_body ::
    "providers \<Rightarrow> string \<Rightarrow> contract_terms \<Rightarrow> session_admission body" where
  "configure_body p session contract archived r0 =
     bind_res (now p 0) (\<lambda>i.
     let r = snd (purge_orphan_admissions i r0);
         pin = (case contract of (policy, sl, al, m) \<Rightarrow>
           \<lparr>a_policy_sha256 = policy, a_session_limit = sl, a_aggregate_limit = al,
            a_mutation = m, a_configured_monotonic_ns = i_monotonic i, a_boot_id = i_boot_id i,
            a_ttl_seconds = default_ttl_seconds, a_extras = []\<rparr>);
         stored = Inr (pin, Some (r\<lparr>r_admissions := dset session pin (r_admissions r)\<rparr>))
     in (case dget (r_admissions r) session of
           Some existing \<Rightarrow>
             if session_has_live_agents i session r
             then (if admission_contract existing \<noteq> contract then Inl PolicyMismatchError
                   else Inr (existing, None))
             else stored
         | None \<Rightarrow>
             if max_session_admissions \<le> length (r_admissions r)
             then Inl (CapacityExhaustedError None)
             else stored))"

definition check_contract ::
    "string \<Rightarrow> int \<Rightarrow> int \<Rightarrow> mutation_mode \<Rightarrow> broker_error + contract_terms" where
  "check_contract policy session_limit aggregate_limit mutation =
     bind_res (sha256_text policy) (\<lambda>pol.
     bind_res (positive session_limit) (\<lambda>sl.
     bind_res (positive aggregate_limit) (\<lambda>al.
     bind_res (guard_res (sl \<le> al) LeaseBrokerError) (\<lambda>_.
     Inr (pol, sl, al, mutation)))))"

definition configure_session_admission ::
    "host \<Rightarrow> providers \<Rightarrow> string \<Rightarrow> string \<Rightarrow> int \<Rightarrow> int \<Rightarrow> mutation_mode \<Rightarrow> authority
       \<Rightarrow> (broker_error + session_admission) \<times> authority" where
  "configure_session_admission h p session policy session_limit aggregate_limit mutation =
     run_op h p
       (bind_res (bounded max_id session) (\<lambda>s.
        bind_res (check_contract policy session_limit aggregate_limit mutation) (\<lambda>c. Inr (s, c))))
       (\<lambda>(s, contract). configure_body p s contract)"

definition get_session_admission ::
    "host \<Rightarrow> providers \<Rightarrow> string \<Rightarrow> authority \<Rightarrow> broker_error + session_admission option" where
  "get_session_admission h p session au =
     bind_res (bounded max_id session) (\<lambda>s.
     inspect_authority h (\<lambda>archived v.
       case v of
         None \<Rightarrow> Inr None
       | Some r \<Rightarrow>
           (case dget (r_admissions r) s of
              None \<Rightarrow> Inr None
            | Some a \<Rightarrow>
                bind_res (now p 0) (\<lambda>i.
                  Inr (if admission_expired i a \<and> \<not> session_has_live_agents i s r
                       then None else Some a)))) au)"

definition clear_body :: "providers \<Rightarrow> string \<Rightarrow> bool body" where
  "clear_body p session archived r =
     bind_res (now p 0) (\<lambda>i.
     bind_res (guard_res (\<not> session_has_live_agents i session r) LeaseOwnershipError) (\<lambda>_.
     if dget (r_admissions r) session = None then Inr (False, None)
     else Inr (True, Some (r\<lparr>r_admissions := ddel session (r_admissions r)\<rparr>))))"

definition clear_session_admission ::
    "host \<Rightarrow> providers \<Rightarrow> string \<Rightarrow> authority \<Rightarrow> (broker_error + bool) \<times> authority" where
  "clear_session_admission h p session =
     run_op h p (bounded max_id session) (clear_body p)"

end
