(* ===== verification/Lease_Grants.thy ===== *)
theory Lease_Grants
  imports Lease_Admission
begin

text \<open>
  The granting operations of \<open>LeaseBroker\<close>: agent acquisition, successor acquisition, batch
  reservation, claiming, batch call preparation, and the acquisition and transfer of worktrees.
  Each checks its arguments, then runs its body under the lock.
\<close>

section \<open>Requests\<close>

record agent_request =
  q_owner_id :: string
  q_session_id :: string
  q_policy_sha256 :: string
  q_session_limit :: int
  q_aggregate_limit :: int
  q_mutation :: mutation_mode
  q_ttl_seconds :: int
  q_resource_ref :: "json option"
  q_owner_pid :: "int option"
  q_owner_process_start :: "string option"
  q_agent_id :: "string option"
  q_tool_use_id :: "string option"
  q_agent_type :: "string option"
  q_batch_id :: "string option"
  q_parent_agent_id :: "string option"
  q_on_conflict :: on_conflict

definition q_snapshot :: "agent_request \<Rightarrow> contract_terms" where
  "q_snapshot q = (q_policy_sha256 q, q_session_limit q, q_aggregate_limit q, q_mutation q)"

definition optional_positive :: "int option \<Rightarrow> broker_error + int option" where
  "optional_positive v =
     (case v of None \<Rightarrow> Inr None | Some n \<Rightarrow> bind_res (positive n) (\<lambda>m. Inr (Some m)))"

definition optional_agent_ref :: "json option \<Rightarrow> broker_error + resource_ref option" where
  "optional_agent_ref v =
     (case v of
        None \<Rightarrow> Inr None
      | Some j \<Rightarrow> bind_res (canonical_resource_ref AgentPool j) (\<lambda>r. Inr (Some r)))"

text \<open>The start identity of an owner process that was named without one is looked up.\<close>

definition owner_identity ::
    "providers \<Rightarrow> int option \<Rightarrow> string option \<Rightarrow> string option" where
  "owner_identity p pid start =
     (case (pid, start) of (Some n, None) \<Rightarrow> p_process_identity p n | _ \<Rightarrow> start)"

definition request_grant ::
    "agent_request \<Rightarrow> resource_ref option \<Rightarrow> string option \<Rightarrow> grant" where
  "request_grant q res start =
     \<lparr>g_pool = AgentPool, g_owner_id = q_owner_id q, g_owner_pid = q_owner_pid q,
      g_owner_process_start = start, g_session_id = q_session_id q,
      g_agent_id = q_agent_id q, g_tool_use_id = q_tool_use_id q,
      g_agent_type = q_agent_type q, g_batch_id = q_batch_id q, g_resource_ref = res,
      g_policy_sha256 = Some (q_policy_sha256 q), g_session_limit = Some (q_session_limit q),
      g_aggregate_limit = Some (q_aggregate_limit q), g_mutation = Some (q_mutation q),
      g_ttl_seconds = q_ttl_seconds q\<rparr>"

section \<open>Agent acquisition\<close>

definition check_agent_request ::
    "providers \<Rightarrow> agent_request \<Rightarrow> broker_error + (resource_ref option \<times> string option)" where
  "check_agent_request p q =
     bind_res (bounded max_id (q_owner_id q)) (\<lambda>_.
     bind_res (bounded max_id (q_session_id q)) (\<lambda>_.
     bind_res (check_contract (q_policy_sha256 q) (q_session_limit q) (q_aggregate_limit q)
         (q_mutation q)) (\<lambda>_.
     bind_res (positive (q_ttl_seconds q)) (\<lambda>_.
     bind_res (optional_agent_ref (q_resource_ref q)) (\<lambda>res.
     bind_res (optional_bounded max_id (q_agent_id q)) (\<lambda>agent.
     bind_res (guard_res (\<not> (agent \<noteq> None \<and> res = None)) LeaseBrokerError) (\<lambda>_.
     bind_res (optional_positive (q_owner_pid q)) (\<lambda>pid.
     bind_res (optional_bounded max_id (q_owner_process_start q)) (\<lambda>start.
     bind_res (optional_bounded max_id (q_parent_agent_id q)) (\<lambda>_.
     Inr (res, owner_identity p pid start)))))))))))"

text \<open>The live provisional leases that carry this tool call.\<close>

definition provisional_calls :: "instant \<Rightarrow> string \<Rightarrow> string \<Rightarrow> registry \<Rightarrow> lease list" where
  "provisional_calls i session tool r =
     filter (\<lambda>l. l_pool l = AgentPool \<and> l_session_id l = session \<and> l_tool_use_id l = Some tool
       \<and> l_agent_id l = None \<and> \<not> expired i l) (dvalues (r_leases r))"

text \<open>\<open>Some\<close> the lease a repeated call returns, \<open>None\<close> when there is no earlier one.\<close>

definition replay_acquire ::
    "agent_request \<Rightarrow> lease list \<Rightarrow> broker_error + lease option" where
  "replay_acquire q existing =
     (case existing of
        [] \<Rightarrow> Inr None
      | [l] \<Rightarrow>
          if l_owner_id l \<noteq> q_owner_id q then Inl LeaseOwnershipError
          else bind_res (optional_bounded max_id (q_agent_type q)) (\<lambda>kind.
            bind_res (guard_res (l_agent_type l = kind
                \<and> lease_snapshot l = (Some (q_policy_sha256 q), Some (q_session_limit q),
                     Some (q_aggregate_limit q), Some (q_mutation q))) LeaseOwnershipError) (\<lambda>_.
            Inr (Some l)))
      | _ \<Rightarrow> Inl RegistryCorruptError)"

definition drop_prior_of_request ::
    "host \<Rightarrow> providers \<Rightarrow> agent_request \<Rightarrow> instant \<Rightarrow> resource_ref option
       \<Rightarrow> (string \<Rightarrow> broker_error + fence option) \<Rightarrow> registry \<Rightarrow> broker_error + registry" where
  "drop_prior_of_request h p q i res archived r =
     (case res of
        None \<Rightarrow> Inr r
      | Some rf \<Rightarrow> drop_superseded_resource_lease h p (q_on_conflict q) i rf archived r)"

definition acquire_agent_body ::
    "host \<Rightarrow> providers \<Rightarrow> agent_request \<Rightarrow> resource_ref option \<times> string option \<Rightarrow> lease body" where
  "acquire_agent_body h p q checked archived r =
     (case checked of (res, start) \<Rightarrow>
     bind_res (require_owner_admission_open (q_owner_id q) r) (\<lambda>_.
     bind_res (now p 0) (\<lambda>i.
     bind_res (require_current_parent h i (q_parent_agent_id q) (q_session_id q) archived r) (\<lambda>_.
     bind_res (optional_bounded max_id (q_tool_use_id q)) (\<lambda>tool.
     bind_res (case tool of
         None \<Rightarrow> Inr None
       | Some t \<Rightarrow> replay_acquire q (provisional_calls i (q_session_id q) t r)) (\<lambda>replay.
     case replay of
       Some l \<Rightarrow> Inr (l, None)
     | None \<Rightarrow>
         bind_res (drop_prior_of_request h p q i res archived r) (\<lambda>r1.
         bind_res (admit_agent p i (q_session_id q) (q_snapshot q) 1 r1) (\<lambda>r2.
         bind_res (optional_bounded max_id (q_agent_type q)) (\<lambda>_.
         bind_res (optional_bounded max_id (q_batch_id q)) (\<lambda>_.
         bind_res (new_lease h (p_uuid p 1) (request_grant q res start) i r2) (\<lambda>(l, r3).
         Inr (l, Some r3))))))))))))"

definition acquire_agent ::
    "host \<Rightarrow> providers \<Rightarrow> agent_request \<Rightarrow> authority \<Rightarrow> (broker_error + lease) \<times> authority" where
  "acquire_agent h p q = run_op h p (check_agent_request p q) (acquire_agent_body h p q)"

section \<open>Successors of a closed resource\<close>

definition check_successor_request ::
    "providers \<Rightarrow> agent_request \<Rightarrow> json \<Rightarrow> string \<Rightarrow> broker_error + (resource_ref \<times> string option)" where
  "check_successor_request p q ref receipt =
     bind_res (bounded max_id (q_owner_id q)) (\<lambda>_.
     bind_res (bounded max_id (q_session_id q)) (\<lambda>_.
     bind_res (check_contract (q_policy_sha256 q) (q_session_limit q) (q_aggregate_limit q)
         (q_mutation q)) (\<lambda>_.
     bind_res (canonical_resource_ref AgentPool ref) (\<lambda>res.
     bind_res (sha256_text receipt) (\<lambda>_.
     bind_res (positive (q_ttl_seconds q)) (\<lambda>_.
     bind_res (optional_positive (q_owner_pid q)) (\<lambda>pid.
     bind_res (optional_bounded max_id (q_owner_process_start q)) (\<lambda>start.
     bind_res (optional_bounded max_id (q_agent_id q)) (\<lambda>_.
     bind_res (optional_bounded max_id (q_tool_use_id q)) (\<lambda>_.
     bind_res (optional_bounded max_id (q_agent_type q)) (\<lambda>_.
     Inr (res, owner_identity p pid start))))))))))))"

text \<open>The exact closed predecessor: the token of the head and the digest of its receipt.\<close>

definition check_predecessor ::
    "resource_ref \<Rightarrow> fencing_token \<Rightarrow> string \<Rightarrow> registry \<Rightarrow> fence option \<Rightarrow> broker_error + unit" where
  "check_predecessor res tok receipt r head =
     (case head of
        None \<Rightarrow> Inl LeaseNotFoundError
      | Some f \<Rightarrow>
          if f_resource_ref f \<noteq> res then Inl LeaseNotFoundError
          else if dget (r_leases r) (f_lease_id f) \<noteq> None then Inl LeaseOwnershipError
          else (case f_close_receipt f of
             None \<Rightarrow> Inl LeaseOwnershipError
           | Some c \<Rightarrow>
               guard_res (tok = f_token f \<and> sc_receipt_sha256 c = receipt) LeaseOwnershipError))"

definition acquire_successor_body ::
    "host \<Rightarrow> providers \<Rightarrow> agent_request \<Rightarrow> fencing_token \<Rightarrow> string
       \<Rightarrow> resource_ref \<times> string option \<Rightarrow> lease body" where
  "acquire_successor_body h p q tok receipt checked archived r =
     (case checked of (res, start) \<Rightarrow>
     bind_res (require_owner_admission_open (q_owner_id q) r) (\<lambda>_.
     bind_res (now p 0) (\<lambda>i.
     let digest = resource_sha256 h res in
     if dget (r_settlements r) digest \<noteq> None then Inl LeaseOwnershipError
     else
       bind_res (resource_head archived r digest) (\<lambda>head.
       bind_res (check_predecessor res tok receipt r head) (\<lambda>_.
       bind_res (admit_agent p i (q_session_id q) (q_snapshot q) 1 r) (\<lambda>r1.
       bind_res (new_lease h (p_uuid p 1)
           ((request_grant q (Some res) start)\<lparr>g_batch_id := None\<rparr>) i r1) (\<lambda>(l, r2).
       Inr (l, Some r2))))))))"

definition acquire_successor ::
    "host \<Rightarrow> providers \<Rightarrow> agent_request \<Rightarrow> json \<Rightarrow> fencing_token \<Rightarrow> string \<Rightarrow> authority
       \<Rightarrow> (broker_error + lease) \<times> authority" where
  "acquire_successor h p q ref tok receipt =
     run_op h p (check_successor_request p q ref receipt) (acquire_successor_body h p q tok receipt)"

section \<open>Batches\<close>

text \<open>The batch operations use the request's owner, session, policy and batch fields; the batch and
  the agent type are mandatory there.\<close>

definition check_batch_request ::
    "providers \<Rightarrow> int \<Rightarrow> string \<Rightarrow> string \<Rightarrow> agent_request \<Rightarrow> broker_error + string option" where
  "check_batch_request p amount batch kind q =
     bind_res (positive amount) (\<lambda>_.
     bind_res (bounded max_id (q_owner_id q)) (\<lambda>_.
     bind_res (bounded max_id (q_session_id q)) (\<lambda>_.
     bind_res (bounded max_id batch) (\<lambda>_.
     bind_res (bounded max_id kind) (\<lambda>_.
     bind_res (check_contract (q_policy_sha256 q) (q_session_limit q) (q_aggregate_limit q)
         (q_mutation q)) (\<lambda>_.
     bind_res (positive (q_ttl_seconds q)) (\<lambda>_.
     bind_res (optional_positive (q_owner_pid q)) (\<lambda>pid.
     bind_res (optional_bounded max_id (q_owner_process_start q)) (\<lambda>start.
     Inr (owner_identity p pid start))))))))))"

definition batch_grant :: "agent_request \<Rightarrow> string \<Rightarrow> string \<Rightarrow> string option \<Rightarrow> grant" where
  "batch_grant q batch kind start =
     (request_grant q None start)\<lparr>g_agent_id := None, g_tool_use_id := None,
       g_agent_type := Some kind, g_batch_id := Some batch\<rparr>"

text \<open>\<open>for _ in range(amount)\<close>, drawing one identifier per slot.\<close>

fun new_slots ::
    "host \<Rightarrow> providers \<Rightarrow> grant \<Rightarrow> instant \<Rightarrow> nat \<Rightarrow> nat \<Rightarrow> registry
       \<Rightarrow> broker_error + (lease list \<times> registry)" where
  "new_slots h p g i k 0 r = Inr ([], r)"
| "new_slots h p g i k (Suc n) r =
     bind_res (new_lease h (p_uuid p k) g i r) (\<lambda>(l, r1).
     bind_res (new_slots h p g i (Suc k) n r1) (\<lambda>(ls, r2). Inr (l # ls, r2)))"

definition batch_slots :: "instant \<Rightarrow> string \<Rightarrow> registry \<Rightarrow> lease list" where
  "batch_slots i batch r =
     sort_key l_fencing_sequence
       (filter (\<lambda>l. l_pool l = AgentPool \<and> l_batch_id l = Some batch \<and> \<not> expired i l)
         (dvalues (r_leases r)))"

definition same_batch_contract :: "agent_request \<Rightarrow> string \<Rightarrow> lease \<Rightarrow> bool" where
  "same_batch_contract q kind l \<longleftrightarrow>
     l_owner_id l = q_owner_id q \<and> l_session_id l = q_session_id q \<and> l_agent_type l = Some kind
     \<and> lease_snapshot l = (Some (q_policy_sha256 q), Some (q_session_limit q),
          Some (q_aggregate_limit q), Some (q_mutation q))"

definition reserve_batch_body ::
    "host \<Rightarrow> providers \<Rightarrow> int \<Rightarrow> string \<Rightarrow> string \<Rightarrow> agent_request \<Rightarrow> string option \<Rightarrow> lease list body" where
  "reserve_batch_body h p amount batch kind q start archived r =
     bind_res (require_owner_admission_open (q_owner_id q) r) (\<lambda>_.
     bind_res (now p 0) (\<lambda>i.
     let existing = batch_slots i batch r in
     if existing \<noteq> []
     then bind_res (guard_res (int (length existing) = amount
              \<and> list_all (same_batch_contract q kind) existing) LeaseOwnershipError) (\<lambda>_.
            Inr (existing, None))
     else
       bind_res (admit_agent p i (q_session_id q) (q_snapshot q) amount r) (\<lambda>r1.
       bind_res (new_slots h p (batch_grant q batch kind start) i 1 (nat amount) r1) (\<lambda>(ls, r2).
       Inr (ls, Some r2)))))"

definition reserve_batch ::
    "host \<Rightarrow> providers \<Rightarrow> int \<Rightarrow> string \<Rightarrow> string \<Rightarrow> agent_request \<Rightarrow> authority
       \<Rightarrow> (broker_error + lease list) \<times> authority" where
  "reserve_batch h p amount batch kind q =
     run_op h p (check_batch_request p amount batch kind q)
       (reserve_batch_body h p amount batch kind q)"

text \<open>\<open>min(candidates, key=...)\<close>: the oldest reservation, ties broken by identifier.\<close>

definition oldest :: "lease list \<Rightarrow> lease" where
  "oldest ls = arg_min_list (\<lambda>l. (l_fencing_sequence l, l_lease_id l)) ls"

section \<open>Claiming\<close>

definition claim_scope :: "instant \<Rightarrow> string \<Rightarrow> string \<Rightarrow> string option \<Rightarrow> lease \<Rightarrow> bool" where
  "claim_scope i session kind batch l \<longleftrightarrow>
     l_pool l = AgentPool \<and> l_session_id l = session
     \<and> (l_agent_type l = Some kind \<or> l_agent_type l = Some ''*'')
     \<and> l_batch_id l = batch \<and> \<not> expired i l"

definition derived_resource ::
    "string \<Rightarrow> string \<Rightarrow> string \<Rightarrow> string option \<Rightarrow> lease \<Rightarrow> broker_error + resource_ref" where
  "derived_resource session kind child worktree selected =
     (let unit_id = (case l_tool_use_id selected of
            Some t \<Rightarrow> if t \<noteq> [] then t else session @ '':'' @ kind @ '':'' @ child
          | None \<Rightarrow> session @ '':'' @ kind @ '':'' @ child)
      in canonical_resource_ref AgentPool
           (JObj ((''logical_unit_id'', JStr unit_id)
             # (case worktree of None \<Rightarrow> [] | Some w \<Rightarrow> [(''worktree_root'', JStr w)]))))"

definition check_claim ::
    "string \<Rightarrow> string \<Rightarrow> string \<Rightarrow> string option \<Rightarrow> json option \<Rightarrow> string option \<Rightarrow> int
       \<Rightarrow> broker_error + resource_ref option" where
  "check_claim session kind child batch ref worktree ttl =
     bind_res (bounded max_id session) (\<lambda>_.
     bind_res (bounded max_id kind) (\<lambda>_.
     bind_res (bounded max_id child) (\<lambda>_.
     bind_res (optional_bounded max_id batch) (\<lambda>_.
     bind_res (optional_agent_ref ref) (\<lambda>res.
     bind_res (case worktree of None \<Rightarrow> Inr None
         | Some w \<Rightarrow> bind_res (safe_absolute_path w) (\<lambda>t. Inr (Some t))) (\<lambda>_.
     bind_res (positive ttl) (\<lambda>_.
     Inr res)))))))"

definition claim_bound ::
    "instant \<Rightarrow> string \<Rightarrow> string \<Rightarrow> string option \<Rightarrow> string \<Rightarrow> registry \<Rightarrow> lease list" where
  "claim_bound i session kind batch child r =
     filter (\<lambda>l. claim_scope i session kind batch l \<and> l_agent_id l = Some child) (dvalues (r_leases r))"

definition claim_candidates ::
    "instant \<Rightarrow> string \<Rightarrow> string \<Rightarrow> string option \<Rightarrow> registry \<Rightarrow> lease list" where
  "claim_candidates i session kind batch r =
     filter (\<lambda>l. claim_scope i session kind batch l \<and> l_agent_id l = None
       \<and> (batch = None \<or> l_tool_use_id l \<noteq> None)) (dvalues (r_leases r))"

definition claimed_lease :: "instant \<Rightarrow> string \<Rightarrow> int \<Rightarrow> resource_ref \<Rightarrow> int \<Rightarrow> lease \<Rightarrow> lease" where
  "claimed_lease i child ttl rf sequence selected =
     selected\<lparr>l_agent_id := Some child, l_resource_ref := Some rf,
       l_claimed_at := Some (i_text i), l_renewed_at := i_text i,
       l_renewed_monotonic_ns := i_monotonic i, l_boot_id := i_boot_id i,
       l_ttl_seconds := ttl, l_fencing_sequence := sequence\<rparr>"

definition grant_claim ::
    "host \<Rightarrow> instant \<Rightarrow> string \<Rightarrow> int \<Rightarrow> resource_ref \<Rightarrow> lease \<Rightarrow> registry
       \<Rightarrow> broker_error + (lease \<times> registry option)" where
  "grant_claim h i child ttl rf selected r =
     (case issue_sequence r of (sequence, r1) \<Rightarrow>
        let claimed = claimed_lease i child ttl rf sequence selected;
            r2 = r1\<lparr>r_leases := dset (l_lease_id selected) claimed (r_leases r1)\<rparr>
        in bind_res (make_resource_current h claimed r2) (\<lambda>r3. Inr (claimed, Some r3)))"

definition claim_body ::
    "host \<Rightarrow> providers \<Rightarrow> string \<Rightarrow> string \<Rightarrow> string \<Rightarrow> string option \<Rightarrow> string option \<Rightarrow> int
       \<Rightarrow> resource_ref option \<Rightarrow> lease body" where
  "claim_body h p session kind child batch worktree ttl res archived r =
     bind_res (now p 0) (\<lambda>i.
     case claim_bound i session kind batch child r of
       [existing] \<Rightarrow>
         if res \<noteq> None \<and> l_resource_ref existing \<noteq> res then Inl LeaseOwnershipError
         else Inr (existing, None)
     | _ # _ # _ \<Rightarrow> Inl RegistryCorruptError
     | [] \<Rightarrow>
         (let candidates = claim_candidates i session kind batch r;
              selected = oldest candidates
          in if candidates = [] then Inl LeaseNotFoundError
          else bind_res (require_owner_admission_open (l_owner_id selected) r) (\<lambda>_.
               bind_res (case res of Some rf \<Rightarrow> Inr rf
                 | None \<Rightarrow> derived_resource session kind child worktree selected) (\<lambda>rf.
               grant_claim h i child ttl rf selected r))))"

definition claim ::
    "host \<Rightarrow> providers \<Rightarrow> string \<Rightarrow> string \<Rightarrow> string \<Rightarrow> json option \<Rightarrow> string option \<Rightarrow> string option
       \<Rightarrow> int \<Rightarrow> authority \<Rightarrow> (broker_error + lease) \<times> authority" where
  "claim h p session kind child ref worktree batch ttl =
     run_op h p (check_claim session kind child batch ref worktree ttl)
       (claim_body h p session kind child batch worktree ttl)"

section \<open>Preparing a batch call\<close>

definition check_prepare ::
    "string \<Rightarrow> string \<Rightarrow> string \<Rightarrow> string \<Rightarrow> string option \<Rightarrow> int \<Rightarrow> broker_error + unit" where
  "check_prepare session batch kind tool parent ttl =
     bind_res (bounded max_id session) (\<lambda>_.
     bind_res (bounded max_id batch) (\<lambda>_.
     bind_res (bounded max_id kind) (\<lambda>_.
     bind_res (bounded max_id tool) (\<lambda>_.
     bind_res (optional_bounded max_id parent) (\<lambda>_.
     bind_res (positive ttl) (\<lambda>_. Inr ()))))))"

definition batch_calls ::
    "instant \<Rightarrow> string \<Rightarrow> string \<Rightarrow> registry \<Rightarrow> lease list" where
  "batch_calls i session batch r =
     filter (\<lambda>l. l_pool l = AgentPool \<and> l_session_id l = session
       \<and> l_batch_id l = Some batch \<and> l_agent_id l = None \<and> \<not> expired i l) (dvalues (r_leases r))"

definition free_slots :: "instant \<Rightarrow> string \<Rightarrow> string \<Rightarrow> registry \<Rightarrow> lease list" where
  "free_slots i session batch r =
     filter (\<lambda>l. l_tool_use_id l = None \<and> l_agent_type l = Some ''*'') (batch_calls i session batch r)"

definition prepared_slot :: "instant \<Rightarrow> string \<Rightarrow> string \<Rightarrow> int \<Rightarrow> lease \<Rightarrow> lease" where
  "prepared_slot i kind tool ttl selected =
     selected\<lparr>l_agent_type := Some kind, l_tool_use_id := Some tool,
       l_renewed_at := i_text i, l_renewed_monotonic_ns := i_monotonic i,
       l_boot_id := i_boot_id i, l_ttl_seconds := ttl\<rparr>"

definition prepare_batch_call_body ::
    "host \<Rightarrow> providers \<Rightarrow> string \<Rightarrow> string \<Rightarrow> string \<Rightarrow> string \<Rightarrow> string option \<Rightarrow> int \<Rightarrow> lease body" where
  "prepare_batch_call_body h p session batch kind tool parent ttl archived r =
     bind_res (now p 0) (\<lambda>i.
     bind_res (require_current_parent h i parent session archived r) (\<lambda>_.
     case filter (\<lambda>l. l_tool_use_id l = Some tool) (batch_calls i session batch r) of
       [l] \<Rightarrow> Inr (l, None)
     | _ # _ # _ \<Rightarrow> Inl RegistryCorruptError
     | [] \<Rightarrow>
         (let candidates = free_slots i session batch r;
              selected = oldest candidates
          in if candidates = []
             then Inl (CapacityExhaustedError (earliest_expiry p i
               (filter (\<lambda>l. l_batch_id l = Some batch) (dvalues (r_leases r)))))
             else bind_res (require_owner_admission_open (l_owner_id selected) r) (\<lambda>_.
               let prepared = prepared_slot i kind tool ttl selected
               in Inr (prepared,
                    Some (r\<lparr>r_leases := dset (l_lease_id selected) prepared (r_leases r)\<rparr>))))))"

definition prepare_batch_call ::
    "host \<Rightarrow> providers \<Rightarrow> string \<Rightarrow> string \<Rightarrow> string \<Rightarrow> string \<Rightarrow> int \<Rightarrow> string option \<Rightarrow> authority
       \<Rightarrow> (broker_error + lease) \<times> authority" where
  "prepare_batch_call h p session batch kind tool ttl parent =
     run_op h p (check_prepare session batch kind tool parent ttl)
       (\<lambda>_. prepare_batch_call_body h p session batch kind tool parent ttl)"

section \<open>Worktrees\<close>

definition check_worktree_request ::
    "providers \<Rightarrow> string \<Rightarrow> string \<Rightarrow> json \<Rightarrow> int \<Rightarrow> int option \<Rightarrow> string option
       \<Rightarrow> broker_error + (resource_ref \<times> string option)" where
  "check_worktree_request p owner session ref ttl pid start =
     bind_res (bounded max_id owner) (\<lambda>_.
     bind_res (bounded max_id session) (\<lambda>_.
     bind_res (canonical_resource_ref WorktreePool ref) (\<lambda>res.
     bind_res (positive ttl) (\<lambda>_.
     bind_res (optional_positive pid) (\<lambda>n.
     bind_res (optional_bounded max_id start) (\<lambda>s.
     Inr (res, owner_identity p n s)))))))"

definition worktree_grant ::
    "string \<Rightarrow> string \<Rightarrow> resource_ref \<Rightarrow> int \<Rightarrow> int option \<Rightarrow> string option \<Rightarrow> grant" where
  "worktree_grant owner session res ttl pid start =
     \<lparr>g_pool = WorktreePool, g_owner_id = owner, g_owner_pid = pid,
      g_owner_process_start = start, g_session_id = session, g_agent_id = None,
      g_tool_use_id = None, g_agent_type = None, g_batch_id = None, g_resource_ref = Some res,
      g_policy_sha256 = None, g_session_limit = None, g_aggregate_limit = None,
      g_mutation = None, g_ttl_seconds = ttl\<rparr>"

definition acquire_worktree_body ::
    "host \<Rightarrow> providers \<Rightarrow> int \<Rightarrow> string \<Rightarrow> string \<Rightarrow> int \<Rightarrow> int option
       \<Rightarrow> resource_ref \<times> string option \<Rightarrow> lease body" where
  "acquire_worktree_body h p limit owner session ttl pid checked archived r =
     (case checked of (res, start) \<Rightarrow>
     bind_res (require_owner_admission_open owner r) (\<lambda>_.
     bind_res (now p 0) (\<lambda>i.
     let granted =
           bind_res (admit_worktree p limit i 1 r) (\<lambda>_.
           bind_res (new_lease h (p_uuid p 1) (worktree_grant owner session res ttl pid start) i r)
             (\<lambda>(l, r1). Inr (l, Some r1)))
     in case dget (r_fences r) (resource_sha256 h res) of
          None \<Rightarrow> granted
        | Some head \<Rightarrow>
            (case dget (r_leases r) (f_lease_id head) of
               None \<Rightarrow> granted
             | Some existing \<Rightarrow>
                 if l_pool existing = WorktreePool \<and> l_owner_id existing = owner
                      \<and> l_session_id existing = session \<and> l_owner_pid existing = pid
                      \<and> l_owner_process_start existing = start \<and> \<not> expired i existing
                 then Inr (existing, None)
                 else if expired i existing then Inl LeaseExpiredError
                 else Inl LeaseOwnershipError))))"

definition acquire_worktree ::
    "host \<Rightarrow> providers \<Rightarrow> int \<Rightarrow> string \<Rightarrow> string \<Rightarrow> json \<Rightarrow> int \<Rightarrow> int option \<Rightarrow> string option
       \<Rightarrow> authority \<Rightarrow> (broker_error + lease) \<times> authority" where
  "acquire_worktree h p limit owner session ref ttl pid start =
     run_op h p (check_worktree_request p owner session ref ttl pid start)
       (acquire_worktree_body h p limit owner session ttl pid)"

definition check_transfer ::
    "providers \<Rightarrow> string \<Rightarrow> string \<Rightarrow> int option \<Rightarrow> string option \<Rightarrow> broker_error + string option" where
  "check_transfer p lease_id owner pid start =
     bind_res (bounded max_id lease_id) (\<lambda>_.
     bind_res (bounded max_id owner) (\<lambda>_.
     bind_res (optional_positive pid) (\<lambda>n.
     bind_res (optional_bounded max_id start) (\<lambda>s.
     Inr (owner_identity p n s)))))"

definition transfer_worktree_body ::
    "host \<Rightarrow> providers \<Rightarrow> string \<Rightarrow> fencing_token \<Rightarrow> string \<Rightarrow> int option \<Rightarrow> string option \<Rightarrow> lease body" where
  "transfer_worktree_body h p lease_id tok owner pid start archived r =
     bind_res (require_owner_admission_open owner r) (\<lambda>_.
     case dget (r_leases r) lease_id of
       None \<Rightarrow> Inl LeaseNotFoundError
     | Some l \<Rightarrow>
         (case l_resource_ref l of
            None \<Rightarrow> Inl LeaseNotFoundError
          | Some res \<Rightarrow>
              if l_pool l \<noteq> WorktreePool then Inl LeaseNotFoundError
              else bind_res (now p 0) (\<lambda>i.
                bind_res (current_state h i res tok archived r) (\<lambda>(state, current).
                if state = Superseded then Inl LeaseSupersededError
                else if state = Closed then Inl LeaseClosedError
                else (case current of
                   None \<Rightarrow> Inl LeaseClosedError
                 | Some c \<Rightarrow>
                     if l_lease_id c \<noteq> lease_id then Inl LeaseClosedError
                     else if tok \<noteq> l_token l then Inl LeaseOwnershipError
                     else let transferred = l\<lparr>l_owner_id := owner, l_owner_pid := pid,
                            l_owner_process_start := start, l_renewed_at := i_text i,
                            l_renewed_monotonic_ns := i_monotonic i, l_boot_id := i_boot_id i\<rparr>
                       in Inr (transferred,
                            Some (r\<lparr>r_leases := dset lease_id transferred (r_leases r)\<rparr>)))))))"

definition transfer_worktree ::
    "host \<Rightarrow> providers \<Rightarrow> string \<Rightarrow> fencing_token \<Rightarrow> string \<Rightarrow> int option \<Rightarrow> string option
       \<Rightarrow> authority \<Rightarrow> (broker_error + lease) \<times> authority" where
  "transfer_worktree h p lease_id tok owner pid start =
     run_op h p (check_transfer p lease_id owner pid start)
       (transfer_worktree_body h p lease_id tok owner pid)"

end
