(* ===== verification/Lease_Tokens.thy ===== *)
theory Lease_Tokens
  imports Lease_Grants
begin

text \<open>
  Tokens in use: classification, forensic publication, verification, the write-target fence of a
  delegated mutation, renewal and release of one lease.
\<close>

section \<open>Classification and verification\<close>

definition classify_token ::
    "host \<Rightarrow> providers \<Rightarrow> pool \<Rightarrow> json \<Rightarrow> fencing_token \<Rightarrow> authority \<Rightarrow> broker_error + token_state" where
  "classify_token h p pl ref tok au =
     bind_res (canonical_resource_ref pl ref) (\<lambda>res.
     inspect_authority h (\<lambda>archived v.
       case v of
         None \<Rightarrow> Inr Superseded
       | Some r \<Rightarrow>
           bind_res (now p 0) (\<lambda>i.
           bind_res (current_state h i res tok archived r) (\<lambda>(state, _). Inr state))) au)"

text \<open>The callback runs under the lock; an exception of it leaves the operation.\<close>

definition publish_body ::
    "host \<Rightarrow> providers \<Rightarrow> fencing_token \<Rightarrow> token_state \<Rightarrow> (broker_error + unit) \<Rightarrow> resource_ref
       \<Rightarrow> bool body" where
  "publish_body h p tok expected publish res archived r =
     bind_res (now p 0) (\<lambda>i.
     bind_res (current_state h i res tok archived r) (\<lambda>(state, _).
     if state \<noteq> expected then Inr (False, None)
     else bind_res publish (\<lambda>_. Inr (True, None))))"

definition publish_if_token_state ::
    "host \<Rightarrow> providers \<Rightarrow> pool \<Rightarrow> json \<Rightarrow> fencing_token \<Rightarrow> token_state \<Rightarrow> (broker_error + unit)
       \<Rightarrow> authority \<Rightarrow> (broker_error + bool) \<times> authority" where
  "publish_if_token_state h p pl ref tok expected publish =
     run_op h p
       (bind_res (canonical_resource_ref pl ref) (\<lambda>res.
        bind_res (guard_res (expected = Expired \<or> expected = Closed) LeaseBrokerError) (\<lambda>_. Inr res)))
       (publish_body h p tok expected publish)"

definition verify_query ::
    "host \<Rightarrow> providers \<Rightarrow> resource_ref \<Rightarrow> fencing_token \<Rightarrow> string option \<Rightarrow> string option
       \<Rightarrow> (string \<Rightarrow> broker_error + fence option) \<Rightarrow> registry option \<Rightarrow> broker_error + lease" where
  "verify_query h p res tok agent owner archived v =
     (case v of
        None \<Rightarrow> Inl LeaseSupersededError
      | Some r \<Rightarrow>
          bind_res (now p 0) (\<lambda>i.
          bind_res (current_state h i res tok archived r) (\<lambda>(state, current).
          case state of
            Superseded \<Rightarrow> Inl LeaseSupersededError
          | Closed \<Rightarrow> Inl LeaseClosedError
          | Expired \<Rightarrow> Inl LeaseExpiredError
          | Current \<Rightarrow>
              (case current of
                 None \<Rightarrow> Inl LeaseNotFoundError
               | Some l \<Rightarrow>
                   bind_res (case agent of None \<Rightarrow> Inr ()
                     | Some a \<Rightarrow> bind_res (bounded max_id a) (\<lambda>t.
                         guard_res (l_agent_id l = Some t) LeaseOwnershipError)) (\<lambda>_.
                   bind_res (case owner of None \<Rightarrow> Inr ()
                     | Some w \<Rightarrow> bind_res (bounded max_id w) (\<lambda>t.
                         guard_res (l_owner_id l = t) LeaseOwnershipError)) (\<lambda>_.
                   Inr l))))))"

definition verify ::
    "host \<Rightarrow> providers \<Rightarrow> pool \<Rightarrow> json \<Rightarrow> fencing_token \<Rightarrow> string option \<Rightarrow> string option \<Rightarrow> authority
       \<Rightarrow> broker_error + lease" where
  "verify h p pl ref tok agent owner au =
     bind_res (canonical_resource_ref pl ref) (\<lambda>res.
       inspect_authority h (verify_query h p res tok agent owner) au)"

definition verify_agent ::
    "host \<Rightarrow> providers \<Rightarrow> string \<Rightarrow> authority \<Rightarrow> broker_error + lease" where
  "verify_agent h p agent au =
     bind_res (bounded max_id agent) (\<lambda>child.
     bind_res (read_registry h au) (\<lambda>v.
     case v of
       None \<Rightarrow> Inl LeaseNotFoundError
     | Some r \<Rightarrow>
         (case filter (\<lambda>l. l_agent_id l = Some child) (dvalues (r_leases r)) of
            [l] \<Rightarrow>
              (case l_resource_ref l of
                 None \<Rightarrow> Inl RegistryCorruptError
               | Some res \<Rightarrow>
                   verify h p AgentPool (resource_ref_json res) (l_token l) (Some child) None au)
          | _ \<Rightarrow> Inl LeaseNotFoundError)))"

section \<open>Write targets\<close>

text \<open>
  The file system as the fence sees it, on absolute paths as lists of components: directories,
  existing nodes and \<open>resolve(strict=True)\<close> (\<^term>\<open>None\<close> when it raises).
\<close>

record file_system =
  fs_is_dir :: "string list \<Rightarrow> bool"
  fs_exists :: "string list \<Rightarrow> bool"
  fs_resolve :: "string list \<Rightarrow> string list option"

definition abs_components :: "string \<Rightarrow> string list" where
  "abs_components s = normpath_stack True [] (path_components s)"

text \<open>\<open>os.path.abspath\<close> of the target, taken below the worktree when it is relative.\<close>

definition target_components :: "string \<Rightarrow> string \<Rightarrow> string list" where
  "target_components worktree target =
     (if path_root target \<noteq> [] then abs_components target
      else normpath_stack True [] (path_components worktree @ path_components target))"

text \<open>The walk to the nearest existing ancestor, innermost component first.\<close>

fun nearest_existing :: "(string list \<Rightarrow> bool) \<Rightarrow> string list \<Rightarrow> string list" where
  "nearest_existing exists [] = []"
| "nearest_existing exists (c # cs) =
     (if exists (rev (c # cs)) then rev (c # cs) else nearest_existing exists cs)"

definition is_below :: "string list \<Rightarrow> string list \<Rightarrow> bool" where
  "is_below base path \<longleftrightarrow> take (length base) path = base"

definition check_target ::
    "file_system \<Rightarrow> string \<Rightarrow> string list \<Rightarrow> string \<Rightarrow> broker_error + unit" where
  "check_target fs worktree resolved_worktree target =
     (let normalized = target_components worktree target;
          parent = nearest_existing (fs_exists fs) (rev normalized)
      in case fs_resolve fs parent of
           None \<Rightarrow> Inl MissingResourceError
         | Some resolved_parent \<Rightarrow>
             guard_res (is_below resolved_worktree
                 (resolved_parent @ drop (length parent) normalized)) MissingResourceError)"

definition fence_write_target ::
    "file_system \<Rightarrow> string option \<Rightarrow> lease \<Rightarrow> broker_error + lease" where
  "fence_write_target fs target l =
     (if l_mutation l \<noteq> Some ReadWrite then Inl LeaseOwnershipError
      else (case l_resource_ref l of
         Some (AgentRef u (Some worktree)) \<Rightarrow>
           if \<not> fs_is_dir fs (path_components worktree) then Inl MissingResourceError
           else (case fs_resolve fs (path_components worktree) of
              None \<Rightarrow> Inl MissingResourceError
            | Some resolved \<Rightarrow>
                (case target of
                   None \<Rightarrow> Inr l
                 | Some t \<Rightarrow> bind_res (check_target fs worktree resolved t) (\<lambda>_. Inr l)))
       | _ \<Rightarrow> Inr l))"

definition assert_write_target ::
    "host \<Rightarrow> providers \<Rightarrow> file_system \<Rightarrow> string \<Rightarrow> string option \<Rightarrow> authority \<Rightarrow> broker_error + lease" where
  "assert_write_target h p fs agent target au =
     bind_res (verify_agent h p agent au) (fence_write_target fs target)"

section \<open>Renewal and release\<close>

definition renewed :: "instant \<Rightarrow> lease \<Rightarrow> lease" where
  "renewed i l = l\<lparr>l_renewed_at := i_text i, l_renewed_monotonic_ns := i_monotonic i,
     l_boot_id := i_boot_id i\<rparr>"

definition check_owner :: "string option \<Rightarrow> lease \<Rightarrow> broker_error + unit" where
  "check_owner owner l =
     (case owner of
        None \<Rightarrow> Inr ()
      | Some w \<Rightarrow> bind_res (bounded max_id w) (\<lambda>t. guard_res (l_owner_id l = t) LeaseOwnershipError))"

definition renew_body ::
    "host \<Rightarrow> providers \<Rightarrow> fencing_token \<Rightarrow> string option \<Rightarrow> string \<Rightarrow> lease body" where
  "renew_body h p tok owner lease_id archived r =
     (case dget (r_leases r) lease_id of
        None \<Rightarrow> Inl LeaseNotFoundError
      | Some l \<Rightarrow>
          bind_res (check_owner owner l) (\<lambda>_.
          bind_res (now p 0) (\<lambda>i.
          bind_res (guard_res (\<not> expired i l) LeaseExpiredError) (\<lambda>_.
          bind_res (guard_res (tok = l_token l) LeaseOwnershipError) (\<lambda>_.
          bind_res (case l_resource_ref l of
              None \<Rightarrow> Inr ()
            | Some res \<Rightarrow>
                bind_res (current_state h i res (l_token l) archived r) (\<lambda>(state, _).
                  guard_res (state = Current) LeaseSupersededError)) (\<lambda>_.
          Inr (renewed i l, Some (r\<lparr>r_leases := dset lease_id (renewed i l) (r_leases r)\<rparr>))))))))"

definition renew ::
    "host \<Rightarrow> providers \<Rightarrow> string \<Rightarrow> fencing_token \<Rightarrow> string option \<Rightarrow> authority
       \<Rightarrow> (broker_error + lease) \<times> authority" where
  "renew h p lease_id tok owner = run_op h p (bounded max_id lease_id) (renew_body h p tok owner)"

definition release_body ::
    "host \<Rightarrow> providers \<Rightarrow> fencing_token \<Rightarrow> string option \<Rightarrow> string \<Rightarrow> bool body" where
  "release_body h p tok owner lease_id archived r =
     (case dget (r_leases r) lease_id of
        None \<Rightarrow> Inr (False, None)
      | Some l \<Rightarrow>
          bind_res (check_owner owner l) (\<lambda>_.
          bind_res (guard_res (tok = l_token l) LeaseOwnershipError) (\<lambda>_.
          bind_res (guard_res (\<forall>res \<in> set_option (l_resource_ref l).
              dget (r_settlements r) (resource_sha256 h res) = None) LeaseOwnershipError) (\<lambda>_.
          let r1 = r\<lparr>r_leases := ddel lease_id (r_leases r)\<rparr> in
          if l_pool l = AgentPool
          then bind_res (now p 0) (\<lambda>i. Inr (True, Some (drop_idle_admission i (l_session_id l) r1)))
          else Inr (True, Some r1)))))"

definition release ::
    "host \<Rightarrow> providers \<Rightarrow> string \<Rightarrow> fencing_token \<Rightarrow> string option \<Rightarrow> authority
       \<Rightarrow> (broker_error + bool) \<times> authority" where
  "release h p lease_id tok owner = run_op h p (bounded max_id lease_id) (release_body h p tok owner)"

end
