(* ===== verification/Lease_Settlements.thy ===== *)
theory Lease_Settlements
  imports Lease_Tokens
begin

text \<open>
  Settlement: \<open>prepare_agent_settlement\<close> retains the authority of one lease, the commit runs the
  protected writer between two registry writes, and an abort gives the authority back while no
  writer can have run.  The phases of a prepared settlement are its own state machine; a commit that
  fails after the writer was reached leaves the settlement ambiguous.
\<close>

section \<open>Preparing\<close>

definition settlement_by_id :: "string \<Rightarrow> registry \<Rightarrow> broker_error + settlement" where
  "settlement_by_id settlement_id r =
     bind_res (uuid_text settlement_id) (\<lambda>selected.
     case filter (\<lambda>s. s_settlement_id s = selected) (dvalues (r_settlements r)) of
       [s] \<Rightarrow> Inr s
     | _ \<Rightarrow> Inl LeaseNotFoundError)"

record settlement_request =
  sr_token :: fencing_token
  sr_owner_id :: string
  sr_producer :: string
  sr_run_id :: string
  sr_expected_output_sha256 :: string
  sr_write_intent_sha256 :: string

definition check_settlement_request ::
    "string \<Rightarrow> settlement_request \<Rightarrow> broker_error + string" where
  "check_settlement_request lease_id q =
     bind_res (uuid_text lease_id) (\<lambda>selected.
     bind_res (bounded 128 (sr_owner_id q)) (\<lambda>_.
     bind_res (guard_res (sr_producer q \<in> set producers) LeaseBrokerError) (\<lambda>_.
     bind_res (bounded 128 (sr_run_id q)) (\<lambda>_.
     bind_res (sha256_text (sr_expected_output_sha256 q)) (\<lambda>_.
     bind_res (sha256_text (sr_write_intent_sha256 q)) (\<lambda>_.
     Inr selected))))))"

definition same_settlement :: "string \<Rightarrow> settlement_request \<Rightarrow> settlement \<Rightarrow> bool" where
  "same_settlement lease_id q s \<longleftrightarrow>
     s_lease_id s = lease_id \<and> s_owner_id s = sr_owner_id q \<and> s_token s = sr_token q
     \<and> s_producer s = sr_producer q \<and> s_run_id s = sr_run_id q
     \<and> s_expected_output_sha256 s = sr_expected_output_sha256 q
     \<and> s_write_intent_sha256 s = sr_write_intent_sha256 q"

definition prepared_settlement ::
    "string \<Rightarrow> string \<Rightarrow> instant \<Rightarrow> settlement_request \<Rightarrow> lease \<Rightarrow> resource_ref \<Rightarrow> string
       \<Rightarrow> string option \<Rightarrow> settlement" where
  "prepared_settlement settlement_id lease_id i q l res policy capability =
     \<lparr>s_settlement_id = settlement_id, s_phase = Prepared, s_lease_id = lease_id,
      s_owner_id = sr_owner_id q, s_owner_pid = l_owner_pid l,
      s_owner_process_start = l_owner_process_start l, s_session_id = l_session_id l,
      s_policy_sha256 = policy, s_resource_ref = res, s_token = sr_token q,
      s_producer = sr_producer q, s_run_id = sr_run_id q,
      s_expected_output_sha256 = sr_expected_output_sha256 q,
      s_write_intent_sha256 = sr_write_intent_sha256 q,
      s_recovery_capability_sha256 = capability, s_prepared_at = i_text i,
      s_updated_at = i_text i, s_extras = []\<rparr>"

definition prepare_settlement_body ::
    "host \<Rightarrow> providers \<Rightarrow> settlement_request \<Rightarrow> string \<Rightarrow> settlement body" where
  "prepare_settlement_body h p q lease_id archived r =
     (case dget (r_leases r) lease_id of
        None \<Rightarrow> Inl LeaseNotFoundError
      | Some l \<Rightarrow>
          (case l_resource_ref l of
             None \<Rightarrow> Inl LeaseNotFoundError
           | Some res \<Rightarrow>
               if l_pool l \<noteq> AgentPool then Inl LeaseNotFoundError
               else if l_owner_id l \<noteq> sr_owner_id q \<or> l_token l \<noteq> sr_token q
               then Inl LeaseOwnershipError
               else (case l_policy_sha256 l of
                  None \<Rightarrow> Inl RegistryCorruptError
                | Some policy \<Rightarrow>
                    let digest = resource_sha256 h res in
                    (case dget (r_settlements r) digest of
                       Some s \<Rightarrow>
                         if same_settlement lease_id q s then Inr (s, None)
                         else Inl LeaseOwnershipError
                     | None \<Rightarrow>
                         if max_settlements \<le> length (r_settlements r)
                         then Inl (CapacityExhaustedError None)
                         else bind_res (now p 0) (\<lambda>i.
                           bind_res (current_state h i res (sr_token q) archived r) (\<lambda>(state, current).
                           if state = Expired then Inl LeaseExpiredError
                           else if state \<noteq> Current then Inl LeaseSupersededError
                           else (case current of
                              None \<Rightarrow> Inl LeaseSupersededError
                            | Some c \<Rightarrow>
                                if l_lease_id c \<noteq> lease_id then Inl LeaseSupersededError
                                else let s = prepared_settlement (p_uuid p 1) lease_id i q l res policy
                                       (r_recovery_capability r)
                                  in Inr (s, Some (r\<lparr>r_leases := dset lease_id (renewed i l) (r_leases r),
                                       r_settlements := dset digest s (r_settlements r)\<rparr>)))))))))"

definition prepare_agent_settlement ::
    "host \<Rightarrow> providers \<Rightarrow> string \<Rightarrow> settlement_request \<Rightarrow> authority
       \<Rightarrow> (broker_error + settlement) \<times> authority" where
  "prepare_agent_settlement h p lease_id q =
     run_op h p (check_settlement_request lease_id q) (prepare_settlement_body h p q)"

section \<open>Committing\<close>

text \<open>What the commit runs: the caller's protected writer, or the replay of a recovery handler, whose
  result must repeat the retained intent and output.\<close>

record replay_result =
  rr_evidence_refs :: "string list"
  rr_write_intent_sha256 :: string
  rr_output_sha256 :: string

datatype commit_writer =
    ProtectedWriter "lease \<Rightarrow> broker_error + string list"
  | ReplayHandler "lease \<Rightarrow> settlement \<Rightarrow> broker_error + replay_result"

definition run_writer ::
    "commit_writer \<Rightarrow> lease \<Rightarrow> settlement \<Rightarrow> broker_error + string list" where
  "run_writer w l s =
     (case w of
        ProtectedWriter write \<Rightarrow> write l
      | ReplayHandler replay \<Rightarrow>
          bind_res (replay l s) (\<lambda>res.
          bind_res (sha256_text (rr_write_intent_sha256 res)) (\<lambda>intent.
          bind_res (guard_res (intent = s_write_intent_sha256 s) LeaseOwnershipError) (\<lambda>_.
          bind_res (sha256_text (rr_output_sha256 res)) (\<lambda>out.
          bind_res (guard_res (out = s_expected_output_sha256 s) LeaseOwnershipError) (\<lambda>_.
          Inr (rr_evidence_refs res)))))))"

definition settlement_close_of ::
    "host \<Rightarrow> settlement \<Rightarrow> string list \<Rightarrow> broker_error + settlement_close" where
  "settlement_close_of h s evidence =
     build_settlement_close h (s_resource_ref s) (s_token s) (s_lease_id s) (s_producer s)
       (s_run_id s) evidence (s_expected_output_sha256 s) (s_settlement_id s) (s_session_id s)
       (s_policy_sha256 s) (s_write_intent_sha256 s) (settlement_sha256 h s)"

definition retire_settlement :: "host \<Rightarrow> settlement \<Rightarrow> registry \<Rightarrow> registry" where
  "retire_settlement h s r =
     r\<lparr>r_settlements := ddel (resource_sha256 h (s_resource_ref s)) (r_settlements r),
       r_leases := ddel (s_lease_id s) (r_leases r)\<rparr>"

definition exact_lease :: "settlement \<Rightarrow> registry \<Rightarrow> lease option" where
  "exact_lease s r =
     (case dget (r_leases r) (s_lease_id s) of
        None \<Rightarrow> None
      | Some l \<Rightarrow>
          if l_token l = s_token s \<and> l_resource_ref l = Some (s_resource_ref s) then Some l else None)"

text \<open>
  \<open>_abort_unstarted_settlement_after_commit_persistence_failure\<close>: the durable authority is read
  again and only the exact settlement of the failed commit is retired.
\<close>

definition abort_unstarted ::
    "host \<Rightarrow> providers \<Rightarrow> settlement \<Rightarrow> authority \<Rightarrow> (broker_error + unit) \<times> authority" where
  "abort_unstarted h p s au =
     (case load_registry h p au of
        Inl e \<Rightarrow> (Inl e, au)
      | Inr r \<Rightarrow>
          (case dget (r_settlements r) (resource_sha256 h (s_resource_ref s)) of
             None \<Rightarrow> (Inl LeaseOwnershipError, au)
           | Some persisted \<Rightarrow>
               if s_phase s \<noteq> Prepared
                  \<or> settlement_sha256 h persisted \<noteq> settlement_sha256 h s
                  \<or> s_phase persisted = Ambiguous \<or> exact_lease s r = None
               then (Inl LeaseOwnershipError, au)
               else (case now p 1 of
                  Inl e \<Rightarrow> (Inl e, au)
                | Inr i \<Rightarrow>
                    (case write_registry h (p_write_fate p 1)
                       (drop_idle_admission i (s_session_id s) (retire_settlement h s r)) au of
                       (Inl e, au') \<Rightarrow> (Inl e, au')
                     | (Inr _, au') \<Rightarrow> (Inr (), au')))))"

text \<open>After the writer was reached: the failure is recorded as \<open>ambiguous\<close> and re-raised.\<close>

definition record_ambiguous ::
    "host \<Rightarrow> providers \<Rightarrow> settlement \<Rightarrow> broker_error \<Rightarrow> registry \<Rightarrow> authority
       \<Rightarrow> (broker_error + settlement_close) \<times> authority" where
  "record_ambiguous h p committing e r au =
     (case now p 1 of
        Inl e' \<Rightarrow> (Inl e', au)
      | Inr i \<Rightarrow>
          let r' = r\<lparr>r_settlements := dset (resource_sha256 h (s_resource_ref committing))
                (committing\<lparr>s_phase := Ambiguous, s_updated_at := i_text i\<rparr>) (r_settlements r)\<rparr>
          in (Inl e, snd (write_registry h (p_write_fate p 1) r' au)))"

text \<open>The head compare-and-set and the one write that publishes the close.\<close>

definition head_matches :: "settlement \<Rightarrow> fence \<Rightarrow> bool" where
  "head_matches s f \<longleftrightarrow>
     f_lease_id f = s_lease_id s \<and> f_token f = s_token s \<and> f_close_receipt f = None"

definition publish_close ::
    "host \<Rightarrow> providers \<Rightarrow> settlement \<Rightarrow> settlement_close \<Rightarrow> registry \<Rightarrow> authority
       \<Rightarrow> (broker_error + settlement_close) \<times> authority" where
  "publish_close h p s close r au =
     (let digest = resource_sha256 h (s_resource_ref s) in
      case dget (r_fences r) digest of
        None \<Rightarrow> (Inl LeaseSupersededError, au)
      | Some head \<Rightarrow>
          if \<not> head_matches s head then (Inl LeaseSupersededError, au)
          else
            let r1 = retire_settlement h s
                  (r\<lparr>r_fences := dset digest (head\<lparr>f_close_receipt := Some close\<rparr>) (r_fences r)\<rparr>)
            in (case now p 1 of
                  Inl e \<Rightarrow> (Inl e, au)
                | Inr i \<Rightarrow>
                    (case write_registry h (p_write_fate p 1)
                       (drop_idle_admission i (s_session_id s) r1) au of
                       (Inl e, au') \<Rightarrow> (Inl e, au')
                     | (Inr _, au') \<Rightarrow> (Inr close, au'))))"

definition commit_phases :: "bool \<Rightarrow> settlement_phase list" where
  "commit_phases allow_retained_replay =
     (if allow_retained_replay then [Prepared, Committing, Ambiguous] else [Prepared])"

definition committing :: "instant \<Rightarrow> settlement \<Rightarrow> settlement" where
  "committing i s = s\<lparr>s_phase := Committing, s_updated_at := i_text i\<rparr>"

definition started_commit :: "host \<Rightarrow> instant \<Rightarrow> lease \<Rightarrow> settlement \<Rightarrow> registry \<Rightarrow> registry" where
  "started_commit h i l s r =
     r\<lparr>r_settlements :=
         dset (resource_sha256 h (s_resource_ref s)) (committing i s) (r_settlements r),
       r_leases := dset (l_lease_id l) (renewed i l) (r_leases r)\<rparr>"

text \<open>What follows the first write: the compensation of a failed one, or the writer and its
  publication.\<close>

definition finish_commit ::
    "host \<Rightarrow> providers \<Rightarrow> commit_writer \<Rightarrow> instant \<Rightarrow> lease \<Rightarrow> settlement \<Rightarrow> broker_error + registry
       \<Rightarrow> authority \<Rightarrow> (broker_error + settlement_close) \<times> authority" where
  "finish_commit h p w i l s started au =
     (case started of
        Inl e \<Rightarrow> (Inl e, snd (abort_unstarted h p s au))
      | Inr r \<Rightarrow>
          (case bind_res (run_writer w (renewed i l) s) (settlement_close_of h s) of
             Inl e \<Rightarrow> record_ambiguous h p (committing i s) e r au
           | Inr close \<Rightarrow> publish_close h p s close r au))"

definition commit_settlement_locked ::
    "host \<Rightarrow> providers \<Rightarrow> bool \<Rightarrow> commit_writer \<Rightarrow> registry \<Rightarrow> settlement \<Rightarrow> authority
       \<Rightarrow> (broker_error + settlement_close) \<times> authority" where
  "commit_settlement_locked h p allow_retained_replay w r s au =
     (case exact_lease s r of
        None \<Rightarrow> (Inl LeaseOwnershipError, au)
      | Some l \<Rightarrow>
          if s_phase s \<notin> set (commit_phases allow_retained_replay) then (Inl LeaseOwnershipError, au)
          else (case now p 0 of
             Inl e \<Rightarrow> (Inl e, au)
           | Inr i \<Rightarrow>
               (case write_registry h (p_write_fate p 0) (started_commit h i l s r) au of
                  (started, au1) \<Rightarrow> finish_commit h p w i l s started au1)))"

definition commit_agent_settlement ::
    "host \<Rightarrow> providers \<Rightarrow> string \<Rightarrow> string \<Rightarrow> fencing_token \<Rightarrow> (lease \<Rightarrow> broker_error + string list)
       \<Rightarrow> authority \<Rightarrow> (broker_error + settlement_close) \<times> authority" where
  "commit_agent_settlement h p settlement_id owner tok write au =
     (case bind_res (bounded 128 owner) (\<lambda>_. load_registry h p au) of
        Inl e \<Rightarrow> (Inl e, au)
      | Inr r \<Rightarrow>
          (case settlement_by_id settlement_id r of
             Inl e \<Rightarrow> (Inl e, au)
           | Inr s \<Rightarrow>
               if s_owner_id s \<noteq> owner \<or> s_token s \<noteq> tok then (Inl LeaseOwnershipError, au)
               else commit_settlement_locked h p False (ProtectedWriter write) r s au))"

section \<open>Aborting\<close>

definition abort_settlement_body ::
    "host \<Rightarrow> providers \<Rightarrow> string \<Rightarrow> fencing_token \<Rightarrow> string \<Rightarrow> bool body" where
  "abort_settlement_body h p settlement_id tok owner archived r =
     bind_res (settlement_by_id settlement_id r) (\<lambda>s.
     bind_res (guard_res (s_owner_id s = owner \<and> s_token s = tok) LeaseOwnershipError) (\<lambda>_.
     bind_res (guard_res (s_phase s = Prepared) LeaseOwnershipError) (\<lambda>_.
     bind_res (now p 0) (\<lambda>i.
     Inr (True, Some (drop_idle_admission i (s_session_id s) (retire_settlement h s r)))))))"

definition abort_agent_settlement ::
    "host \<Rightarrow> providers \<Rightarrow> string \<Rightarrow> string \<Rightarrow> fencing_token \<Rightarrow> authority
       \<Rightarrow> (broker_error + bool) \<times> authority" where
  "abort_agent_settlement h p settlement_id owner tok =
     run_op h p (bounded 128 owner) (abort_settlement_body h p settlement_id tok)"

text \<open>The legacy context manager always refuses.\<close>

definition agent_settlement :: "string \<Rightarrow> fencing_token \<Rightarrow> string \<Rightarrow> broker_error + lease" where
  "agent_settlement lease_id tok owner = Inl LeaseBrokerError"

end
