(* ===== verification/Lease_Sessions.thy ===== *)
theory Lease_Sessions
  imports Lease_Settlements
begin

text \<open>
  Operations on many leases at once: closing an owner's admission, releasing and renewing by owner,
  session and batch, and the two terminal signals of a foreground call, which remove a lease or
  recycle its batch slot.
\<close>

section \<open>Owner admission\<close>

definition lowest_generation :: "owner_close dict \<Rightarrow> string" where
  "lowest_generation d =
     arg_min_list (\<lambda>k. case dget d k of Some c \<Rightarrow> o_close_generation c | None \<Rightarrow> 0) (dkeys d)"

definition close_owner_body :: "providers \<Rightarrow> string \<Rightarrow> (string \<times> owner_close) body" where
  "close_owner_body p owner archived r =
     (case dget (r_closed_owners r) owner of
        Some existing \<Rightarrow> Inr ((owner, existing), None)
      | None \<Rightarrow>
          let kept = (if max_closed_owner_admissions \<le> length (r_closed_owners r)
                then ddel (lowest_generation (r_closed_owners r)) (r_closed_owners r)
                else r_closed_owners r)
          in bind_res (now p 0) (\<lambda>i.
             case issue_sequence r of (generation, r1) \<Rightarrow>
               let close = \<lparr>o_closed_at = i_text i, o_boot_id = i_boot_id i,
                     o_close_generation = generation, o_extras = []\<rparr>
               in Inr ((owner, close), Some (r1\<lparr>r_closed_owners := dset owner close kept\<rparr>))))"

definition close_owner_admission ::
    "host \<Rightarrow> providers \<Rightarrow> string \<Rightarrow> authority \<Rightarrow> (broker_error + (string \<times> owner_close)) \<times> authority" where
  "close_owner_admission h p owner = run_op h p (bounded max_id owner) (close_owner_body p)"

definition inspect_owner_admission ::
    "host \<Rightarrow> string \<Rightarrow> authority \<Rightarrow> broker_error + (string \<times> owner_close) option" where
  "inspect_owner_admission h owner au =
     bind_res (bounded max_id owner) (\<lambda>w.
     inspect_authority h (\<lambda>_ v.
       Inr (case v of
              None \<Rightarrow> None
            | Some r \<Rightarrow> map_option (\<lambda>c. (w, c)) (dget (r_closed_owners r) w))) au)"

section \<open>Owner and session release\<close>

definition by_lease_id :: "lease list \<Rightarrow> lease list" where
  "by_lease_id ls = sort_key l_lease_id ls"

definition select_leases :: "(lease \<Rightarrow> bool) \<Rightarrow> registry \<Rightarrow> lease list" where
  "select_leases P r = filter P (dvalues (r_leases r))"

definition drop_leases :: "string list \<Rightarrow> registry \<Rightarrow> registry" where
  "drop_leases ids r = r\<lparr>r_leases := foldl (\<lambda>d k. ddel k d) (r_leases r) ids\<rparr>"

definition store_leases :: "lease list \<Rightarrow> registry \<Rightarrow> registry" where
  "store_leases ls r =
     r\<lparr>r_leases := foldl (\<lambda>d l. dset (l_lease_id l) l d) (r_leases r) ls\<rparr>"

definition drop_selected ::
    "providers \<Rightarrow> string \<Rightarrow> string list \<Rightarrow> registry \<Rightarrow> broker_error + (string list \<times> registry option)" where
  "drop_selected p session ids r =
     (if ids = [] then Inr ([], None)
      else bind_res (now p 0) (\<lambda>i.
        Inr (ids, Some (drop_idle_admission i session (drop_leases ids r)))))"

definition release_owner_body :: "providers \<Rightarrow> string \<times> string \<Rightarrow> string list body" where
  "release_owner_body p args archived r =
     (case args of (owner, session) \<Rightarrow>
      let selected = by_lease_id (select_leases (\<lambda>l. l_owner_id l = owner \<and> l_batch_id l = None
            \<and> l_session_id l = session) r)
      in bind_res (guard_res (list_all (\<lambda>l. l_agent_id l \<noteq> None \<and> l_child_terminal_at l \<noteq> None)
            selected) LeaseOwnershipError) (\<lambda>_.
         bind_res (require_no_retained_settlements selected r) (\<lambda>_.
         drop_selected p session (map l_lease_id selected) r)))"

definition release_owner ::
    "host \<Rightarrow> providers \<Rightarrow> string \<Rightarrow> string \<Rightarrow> authority \<Rightarrow> (broker_error + string list) \<times> authority" where
  "release_owner h p owner session =
     run_op h p
       (bind_res (bounded max_id owner) (\<lambda>w. bind_res (bounded max_id session) (\<lambda>s. Inr (w, s))))
       (release_owner_body p)"

definition session_leases :: "string \<Rightarrow> registry \<Rightarrow> lease list" where
  "session_leases session r =
     by_lease_id (select_leases (\<lambda>l. l_pool l = AgentPool \<and> l_session_id l = session) r)"

text \<open>The loop that refuses a session with an expired or superseded lease.\<close>

fun check_renewable ::
    "host \<Rightarrow> instant \<Rightarrow> (string \<Rightarrow> broker_error + fence option) \<Rightarrow> registry \<Rightarrow> lease list
       \<Rightarrow> broker_error + unit" where
  "check_renewable h i archived r [] = Inr ()"
| "check_renewable h i archived r (l # ls) =
     bind_res (guard_res (\<not> expired i l) LeaseExpiredError) (\<lambda>_.
     bind_res (case l_resource_ref l of
         None \<Rightarrow> Inr ()
       | Some res \<Rightarrow>
           bind_res (current_state h i res (l_token l) archived r) (\<lambda>(state, _).
             guard_res (state = Current) LeaseSupersededError)) (\<lambda>_.
     check_renewable h i archived r ls))"

definition renew_session_body :: "host \<Rightarrow> providers \<Rightarrow> string \<Rightarrow> lease list body" where
  "renew_session_body h p session archived r =
     (let selected = session_leases session r in
      bind_res (guard_res (selected \<noteq> []) LeaseNotFoundError) (\<lambda>_.
      bind_res (now p 0) (\<lambda>i.
      bind_res (check_renewable h i archived r selected) (\<lambda>_.
      let ls = map (renewed i) selected in Inr (ls, Some (store_leases ls r))))))"

definition renew_session ::
    "host \<Rightarrow> providers \<Rightarrow> string \<Rightarrow> authority \<Rightarrow> (broker_error + lease list) \<times> authority" where
  "renew_session h p session = run_op h p (bounded max_id session) (renew_session_body h p)"

definition release_session_body :: "providers \<Rightarrow> string \<Rightarrow> string list body" where
  "release_session_body p session archived r =
     (let selected = session_leases session r in
      bind_res (require_no_retained_settlements selected r) (\<lambda>_.
      drop_selected p session (map l_lease_id selected) r))"

definition release_session ::
    "host \<Rightarrow> providers \<Rightarrow> string \<Rightarrow> authority \<Rightarrow> (broker_error + string list) \<times> authority" where
  "release_session h p session = run_op h p (bounded max_id session) (release_session_body p)"

definition terminal_lease :: "string list \<Rightarrow> lease \<Rightarrow> bool" where
  "terminal_lease terminal l \<longleftrightarrow>
     \<not> ((case l_agent_id l of
           Some a \<Rightarrow> l_child_terminal_at l = None \<and> a \<notin> set terminal
         | None \<Rightarrow> False)
        \<or> (l_agent_id l = None \<and> l_tool_use_id l \<noteq> None))"

definition release_if_terminal_body :: "string \<times> string list \<Rightarrow> string list body" where
  "release_if_terminal_body args archived r =
     (case args of (session, terminal) \<Rightarrow>
      let selected = session_leases session r in
      bind_res (guard_res (list_all (terminal_lease terminal) selected) LeaseOwnershipError) (\<lambda>_.
      bind_res (require_no_retained_settlements selected r) (\<lambda>_.
      let ids = map l_lease_id selected in
      if ids \<noteq> [] \<or> dget (r_admissions r) session \<noteq> None
      then Inr (ids, Some ((drop_leases ids r)\<lparr>r_admissions := ddel session (r_admissions r)\<rparr>))
      else Inr (ids, None))))"

definition release_session_if_terminal ::
    "host \<Rightarrow> providers \<Rightarrow> string \<Rightarrow> string list \<Rightarrow> authority
       \<Rightarrow> (broker_error + string list) \<times> authority" where
  "release_session_if_terminal h p session terminal =
     run_op h p
       (bind_res (bounded max_id session) (\<lambda>s.
        bind_res (map_res (bounded max_id) terminal) (\<lambda>ts. Inr (s, ts))))
       release_if_terminal_body"

section \<open>Batches\<close>

definition settled_slot :: "lease \<Rightarrow> bool" where
  "settled_slot l \<longleftrightarrow>
     (l_agent_id l = None \<and> l_tool_use_id l = None)
     \<or> (l_agent_id l \<noteq> None \<and> l_child_terminal_at l \<noteq> None \<and> l_parent_completed_at l \<noteq> None)"

definition settle_batch_body ::
    "providers \<Rightarrow> string \<times> string \<times> string \<Rightarrow> string list body" where
  "settle_batch_body p args archived r =
     (case args of (batch, owner, session) \<Rightarrow>
      let selected = select_leases (\<lambda>l. l_pool l = AgentPool \<and> l_batch_id l = Some batch) r in
      if selected = [] then Inr ([], None)
      else bind_res (guard_res (list_all (\<lambda>l. l_owner_id l = owner \<and> l_session_id l = session)
             selected) LeaseOwnershipError) (\<lambda>_.
           bind_res (require_no_retained_settlements selected r) (\<lambda>_.
           drop_selected p session (sort (map l_lease_id (filter settled_slot selected))) r)))"

definition settle_batch ::
    "host \<Rightarrow> providers \<Rightarrow> string \<Rightarrow> string \<Rightarrow> string \<Rightarrow> authority
       \<Rightarrow> (broker_error + string list) \<times> authority" where
  "settle_batch h p batch owner session =
     run_op h p
       (bind_res (bounded max_id batch) (\<lambda>b.
        bind_res (bounded max_id owner) (\<lambda>w.
        bind_res (bounded max_id session) (\<lambda>s. Inr (b, w, s)))))
       (settle_batch_body p)"

fun check_batch_renewable ::
    "instant \<Rightarrow> string option \<Rightarrow> lease list \<Rightarrow> broker_error + unit" where
  "check_batch_renewable i owner [] = Inr ()"
| "check_batch_renewable i owner (l # ls) =
     bind_res (guard_res (owner = None \<or> owner = Some (l_owner_id l)) LeaseOwnershipError) (\<lambda>_.
     bind_res (guard_res (\<not> expired i l) LeaseExpiredError) (\<lambda>_.
     check_batch_renewable i owner ls))"

definition renew_batch_body ::
    "providers \<Rightarrow> string \<times> string option \<Rightarrow> lease list body" where
  "renew_batch_body p args archived r =
     (case args of (batch, owner) \<Rightarrow>
      let selected = by_lease_id (select_leases (\<lambda>l. l_batch_id l = Some batch) r) in
      bind_res (guard_res (selected \<noteq> []) LeaseNotFoundError) (\<lambda>_.
      bind_res (now p 0) (\<lambda>i.
      bind_res (check_batch_renewable i owner selected) (\<lambda>_.
      let ls = map (renewed i) selected in Inr (ls, Some (store_leases ls r))))))"

definition renew_batch ::
    "host \<Rightarrow> providers \<Rightarrow> string \<Rightarrow> string option \<Rightarrow> authority
       \<Rightarrow> (broker_error + lease list) \<times> authority" where
  "renew_batch h p batch owner =
     run_op h p
       (bind_res (bounded max_id batch) (\<lambda>b.
        bind_res (optional_bounded max_id owner) (\<lambda>w. Inr (b, w))))
       (renew_batch_body p)"

section \<open>Foreground completion\<close>

definition recycled_slot :: "instant \<Rightarrow> lease \<Rightarrow> lease" where
  "recycled_slot i l =
     l\<lparr>l_agent_id := None, l_tool_use_id := None, l_agent_type := Some ''*'',
       l_resource_ref := None, l_claimed_at := None, l_child_terminal_at := None,
       l_parent_completed_at := None, l_renewed_at := i_text i,
       l_renewed_monotonic_ns := i_monotonic i, l_boot_id := i_boot_id i,
       l_ttl_seconds := default_claim_ttl_seconds\<rparr>"

definition complete_foreground_lease ::
    "instant \<Rightarrow> lease \<Rightarrow> registry \<Rightarrow> broker_error + registry" where
  "complete_foreground_lease i l r =
     bind_res (require_no_retained_settlements [l] r) (\<lambda>_.
     if l_batch_id l = None
     then Inr (r\<lparr>r_leases := ddel (l_lease_id l) (r_leases r)\<rparr>)
     else Inr (r\<lparr>r_leases := dset (l_lease_id l) (recycled_slot i l) (r_leases r)\<rparr>))"

definition stamp :: "string option \<Rightarrow> string \<Rightarrow> string option" where
  "stamp old text = (case old of Some t \<Rightarrow> if t = [] then Some text else Some t | None \<Rightarrow> Some text)"

definition child_terminal_body :: "providers \<Rightarrow> string \<Rightarrow> bool body" where
  "child_terminal_body p child archived r =
     (case select_leases (\<lambda>l. l_agent_id l = Some child) r of
        [] \<Rightarrow> Inr (False, None)
      | [l] \<Rightarrow>
          bind_res (now p 0) (\<lambda>i.
          let updated = l\<lparr>l_child_terminal_at := stamp (l_child_terminal_at l) (i_text i)\<rparr> in
          bind_res (if l_parent_completed_at updated \<noteq> None
              then complete_foreground_lease i updated r
              else Inr (r\<lparr>r_leases := dset (l_lease_id l) updated (r_leases r)\<rparr>)) (\<lambda>r1.
          Inr (True, Some (drop_idle_admission i (l_session_id l) r1))))
      | _ \<Rightarrow> Inl RegistryCorruptError)"

definition record_child_terminal ::
    "host \<Rightarrow> providers \<Rightarrow> string \<Rightarrow> authority \<Rightarrow> (broker_error + bool) \<times> authority" where
  "record_child_terminal h p agent = run_op h p (bounded max_id agent) (child_terminal_body p)"

fun complete_calls ::
    "instant \<Rightarrow> lease list \<Rightarrow> string list \<Rightarrow> registry \<Rightarrow> broker_error + (string list \<times> registry)" where
  "complete_calls i [] removed r = Inr (removed, r)"
| "complete_calls i (l # ls) removed r =
     (let updated = l\<lparr>l_parent_completed_at := stamp (l_parent_completed_at l) (i_text i)\<rparr> in
      if l_agent_id updated = None \<or> l_child_terminal_at updated \<noteq> None
      then bind_res (complete_foreground_lease i updated r) (\<lambda>r1.
        complete_calls i ls (removed @ [l_lease_id l]) (drop_idle_admission i (l_session_id l) r1))
      else complete_calls i ls removed
        (drop_idle_admission i (l_session_id l)
          (r\<lparr>r_leases := dset (l_lease_id l) updated (r_leases r)\<rparr>)))"

definition parent_completed_body ::
    "providers \<Rightarrow> string \<times> string \<Rightarrow> string list body" where
  "parent_completed_body p args archived r =
     (case args of (session, tool) \<Rightarrow>
      let matches = select_leases (\<lambda>l. l_session_id l = session \<and> l_tool_use_id l = Some tool) r in
      if matches = [] then Inr ([], None)
      else bind_res (now p 0) (\<lambda>i.
           bind_res (complete_calls i matches [] r) (\<lambda>(removed, r1).
           Inr (sort removed, Some r1))))"

definition record_parent_completed ::
    "host \<Rightarrow> providers \<Rightarrow> string \<Rightarrow> string \<Rightarrow> authority \<Rightarrow> (broker_error + string list) \<times> authority" where
  "record_parent_completed h p session tool =
     run_op h p
       (bind_res (bounded max_id session) (\<lambda>s. bind_res (bounded max_id tool) (\<lambda>t. Inr (s, t))))
       (parent_completed_body p)"

end
