(* ===== verification/Lease_Maintenance.thy ===== *)
theory Lease_Maintenance
  imports Lease_Sessions
begin

text \<open>
  Inspection and maintenance: the derived states of \<open>inspect\<close>, one resource head, the sweep of
  expired leases with its worktree reaper, and the compatibility report and repair of preserved
  unknown fields.
\<close>

section \<open>Inspection\<close>

datatype derived_state = DerivedLive | DerivedExpired | DerivedArmed

definition lease_derived_state :: "instant \<Rightarrow> lease \<Rightarrow> derived_state" where
  "lease_derived_state i l = (if expired i l then DerivedExpired else DerivedLive)"

definition admission_derived_state ::
    "instant \<Rightarrow> registry \<Rightarrow> string \<Rightarrow> session_admission \<Rightarrow> derived_state" where
  "admission_derived_state i r session a =
     (if session_has_live_agents i session r then DerivedLive
      else if admission_expired i a then DerivedExpired else DerivedArmed)"

text \<open>At most the newest archived heads that are not hot, in increasing sequence order.\<close>

fun read_archive_entries ::
    "host \<Rightarrow> string list \<Rightarrow> json dict \<Rightarrow> broker_error + (int \<times> string \<times> fence) list" where
  "read_archive_entries h exclude [] = Inr []"
| "read_archive_entries h exclude ((digest, j) # entries) =
     bind_res (sha256_text digest) (\<lambda>_.
     if digest \<in> set exclude then read_archive_entries h exclude entries
     else bind_res (archived_payload j) (\<lambda>payload.
          bind_res (validated_archived_fence h digest payload) (\<lambda>f.
          bind_res (read_archive_entries h exclude entries) (\<lambda>rest.
          Inr ((f_fencing_sequence f, digest, f) # rest)))))"

definition newest_archived ::
    "(int \<times> string \<times> fence) list \<Rightarrow> (string \<times> fence) list" where
  "newest_archived entries =
     (let order = sort_key (\<lambda>(n, d, f). (n, d)) entries
      in map snd (drop (length order - max_closed_fences) order))"

record inspection =
  in_broker_epoch :: string
  in_next_sequence :: int
  in_leases :: "(lease \<times> derived_state) list"
  in_admissions :: "(string \<times> session_admission \<times> derived_state) list"
  in_fences :: "(string \<times> fence) list"
  in_archived :: "(string \<times> fence) list"
  in_settlements :: "(string \<times> settlement) list"

definition inspect ::
    "host \<Rightarrow> providers \<Rightarrow> authority \<Rightarrow> broker_error + inspection option" where
  "inspect h p au =
     bind_res (read_registry h au) (\<lambda>v.
     case v of
       None \<Rightarrow> Inr None
     | Some r \<Rightarrow>
         bind_res (now p 0) (\<lambda>i.
         bind_res (read_archive_entries h (dkeys (r_fences r)) (au_archive au)) (\<lambda>entries.
         Inr (Some \<lparr>in_broker_epoch = r_broker_epoch r, in_next_sequence = r_next_sequence r,
           in_leases = map (\<lambda>l. (l, lease_derived_state i l))
             (sort_key l_lease_id (dvalues (r_leases r))),
           in_admissions = map (\<lambda>(s, a). (s, a, admission_derived_state i r s a))
             (dsort (r_admissions r)),
           in_fences = dsort (r_fences r),
           in_archived = newest_archived entries,
           in_settlements = dsort (r_settlements r)\<rparr>))))"

definition inspect_resource_head ::
    "host \<Rightarrow> pool \<Rightarrow> json \<Rightarrow> authority \<Rightarrow> broker_error + fence option" where
  "inspect_resource_head h pl ref au =
     bind_res (canonical_resource_ref pl ref) (\<lambda>res.
     inspect_authority h (\<lambda>archived v.
       case v of
         None \<Rightarrow> Inr None
       | Some r \<Rightarrow>
           bind_res (resource_head archived r (resource_sha256 h res)) (\<lambda>head.
           case head of
             None \<Rightarrow> Inr None
           | Some f \<Rightarrow> if f_resource_ref f \<noteq> res then Inl RegistryCorruptError else Inr (Some f))) au)"

section \<open>Sweeping\<close>

datatype retained_reason =
    RetainedSettlement settlement_phase
  | ExpiredLiveOwner
  | ExpiredOwnerUnknown
  | ExpiredNoReaper
  | ExpiredResourceMissing
  | ReapFailed

record sweep_state =
  sw_registry :: registry
  sw_released :: "string list"
  sw_sessions :: "string list"
  sw_reaped :: "string list"
  sw_retained :: "retained_reason dict"

definition retained_settlement_phase :: "string \<Rightarrow> registry \<Rightarrow> settlement_phase option" where
  "retained_settlement_phase lease_id r =
     map_option s_phase (List.find (\<lambda>s. s_lease_id s = lease_id) (dvalues (r_settlements r)))"

definition retain :: "string \<Rightarrow> retained_reason \<Rightarrow> sweep_state \<Rightarrow> sweep_state" where
  "retain lease_id why st = st\<lparr>sw_retained := dset lease_id why (sw_retained st)\<rparr>"

definition sweep_drop :: "string \<Rightarrow> sweep_state \<Rightarrow> sweep_state" where
  "sweep_drop lease_id st =
     st\<lparr>sw_registry := (sw_registry st)\<lparr>r_leases := ddel lease_id (r_leases (sw_registry st))\<rparr>\<rparr>"

text \<open>An exception of the reaper counts as a failed reap.\<close>

definition sweep_worktree ::
    "(resource_ref \<Rightarrow> bool) option \<Rightarrow> owner_liveness \<Rightarrow> lease \<Rightarrow> sweep_state \<Rightarrow> sweep_state" where
  "sweep_worktree reaper state l st =
     (case state of
        OwnerLive \<Rightarrow> retain (l_lease_id l) ExpiredLiveOwner st
      | OwnerUnknown \<Rightarrow> retain (l_lease_id l) ExpiredOwnerUnknown st
      | OwnerDead \<Rightarrow>
          (case reaper of
             None \<Rightarrow> retain (l_lease_id l) ExpiredNoReaper st
           | Some reap \<Rightarrow>
               (case l_resource_ref l of
                  None \<Rightarrow> retain (l_lease_id l) ExpiredResourceMissing st
                | Some res \<Rightarrow>
                    if reap res
                    then (sweep_drop (l_lease_id l) st)\<lparr>sw_reaped := sw_reaped st @ [l_lease_id l]\<rparr>
                    else retain (l_lease_id l) ReapFailed st)))"

definition sweep_lease ::
    "providers \<Rightarrow> instant \<Rightarrow> (resource_ref \<Rightarrow> bool) option \<Rightarrow> string list \<Rightarrow> lease \<Rightarrow> sweep_state
       \<Rightarrow> broker_error + sweep_state" where
  "sweep_lease p i reaper terminal l st =
     (case retained_settlement_phase (l_lease_id l) (sw_registry st) of
        Some phase \<Rightarrow> Inr (retain (l_lease_id l) (RetainedSettlement phase) st)
      | None \<Rightarrow>
          if \<not> expired i l then Inr st
          else if l_pool l = AgentPool
          then Inr ((sweep_drop (l_lease_id l) st)\<lparr>sw_released := sw_released st @ [l_lease_id l],
                 sw_sessions := sw_sessions st @ [l_session_id l]\<rparr>)
          else bind_res (if l_lease_id l \<in> set terminal then Inr OwnerDead else owner_state p l)
                 (\<lambda>state. Inr (sweep_worktree reaper state l st)))"

fun sweep_leases ::
    "providers \<Rightarrow> instant \<Rightarrow> (resource_ref \<Rightarrow> bool) option \<Rightarrow> string list \<Rightarrow> lease list \<Rightarrow> sweep_state
       \<Rightarrow> broker_error + sweep_state" where
  "sweep_leases p i reaper terminal [] st = Inr st"
| "sweep_leases p i reaper terminal (l # ls) st =
     bind_res (sweep_lease p i reaper terminal l st) (\<lambda>st1.
     sweep_leases p i reaper terminal ls st1)"

record sweep_result =
  sw_result_released :: "string list"
  sw_result_reaped :: "string list"
  sw_result_retained :: "retained_reason dict"

definition sweep_body ::
    "providers \<Rightarrow> (resource_ref \<Rightarrow> bool) option \<Rightarrow> string list \<Rightarrow> sweep_result body" where
  "sweep_body p reaper terminal archived r =
     bind_res (now p 0) (\<lambda>i.
     case purge_orphan_admissions i r of (purged, r1) \<Rightarrow>
       bind_res (sweep_leases p i reaper terminal (dvalues (r_leases r1))
         \<lparr>sw_registry = r1, sw_released = [], sw_sessions = [], sw_reaped = [], sw_retained = []\<rparr>)
         (\<lambda>st.
       let result = \<lparr>sw_result_released = sort (sw_released st), sw_result_reaped = sort (sw_reaped st),
             sw_result_retained = dsort (sw_retained st)\<rparr>
       in if sw_released st \<noteq> [] \<or> sw_reaped st \<noteq> [] \<or> purged \<noteq> []
          then Inr (result, Some (foldl (\<lambda>r2 s. drop_idle_admission i s r2) (sw_registry st)
                 (remdups (sw_sessions st))))
          else Inr (result, None)))"

definition sweep ::
    "host \<Rightarrow> providers \<Rightarrow> (resource_ref \<Rightarrow> bool) option \<Rightarrow> string list \<Rightarrow> authority
       \<Rightarrow> (broker_error + sweep_result) \<times> authority" where
  "sweep h p reaper terminal =
     run_op h p (map_res (bounded max_id) terminal) (\<lambda>ts. sweep_body p reaper ts)"

section \<open>Doctor and repair\<close>

datatype doctor_status = StatusValid | StatusTolerated | StatusCorrupt

record doctor_report =
  d_status :: doctor_status
  d_exists :: bool
  d_inventory :: "(string \<times> string list) list"
  d_key_count :: nat
  d_extras_bytes :: nat

definition doctor :: "host \<Rightarrow> authority \<Rightarrow> broker_error + doctor_report" where
  "doctor h au =
     (case read_registry h au of
        Inl RegistryCorruptError \<Rightarrow>
          Inr \<lparr>d_status = StatusCorrupt, d_exists = True, d_inventory = [], d_key_count = 0,
               d_extras_bytes = 0\<rparr>
      | Inl e \<Rightarrow> Inl e
      | Inr None \<Rightarrow>
          Inr \<lparr>d_status = StatusValid, d_exists = False, d_inventory = [], d_key_count = 0,
               d_extras_bytes = 0\<rparr>
      | Inr (Some r) \<Rightarrow>
          let inventory = extras_inventory r in
          Inr \<lparr>d_status = (if inventory = [] then StatusValid else StatusTolerated),
               d_exists = True, d_inventory = inventory,
               d_key_count = sum_list (map (\<lambda>(path, keys). length keys) inventory),
               d_extras_bytes = document_extras_bytes r\<rparr>)"

datatype repair_outcome =
    RepairRefused
  | RepairAbsent
  | RepairClean
  | Repaired "(string \<times> string list) list"

text \<open>The backup is a sibling file with the bytes of the document; \<open>None\<close> when none was taken.\<close>

definition repair ::
    "host \<Rightarrow> providers \<Rightarrow> authority
       \<Rightarrow> (broker_error + repair_outcome) \<times> json dict option \<times> authority" where
  "repair h p au =
     (case read_registry h au of
        Inl RegistryCorruptError \<Rightarrow> (Inr RepairRefused, None, au)
      | Inl e \<Rightarrow> (Inl e, None, au)
      | Inr None \<Rightarrow> (Inr RepairAbsent, None, au)
      | Inr (Some r) \<Rightarrow>
          let inventory = extras_inventory r in
          if inventory = [] then (Inr RepairClean, None, au)
          else (case registry_from_json h (registry_to_json (strip_extras r)) of
             Inl RegistryCorruptError \<Rightarrow> (Inr RepairRefused, None, au)
           | Inl e \<Rightarrow> (Inl e, None, au)
           | Inr revalidated \<Rightarrow>
               if extras_inventory revalidated \<noteq> [] then (Inr RepairRefused, None, au)
               else (case write_registry h (p_write_fate p 0) (strip_extras r) au of
                  (Inl e, au') \<Rightarrow> (Inl e, au_document au, au')
                | (Inr _, au') \<Rightarrow> (Inr (Repaired inventory), au_document au, au'))))"

end
