(* ===== verification/Lease_Contract.thy ===== *)
theory Lease_Contract
  imports Lease_Maintenance
begin

text \<open>
  The contract every locked operation keeps, as a relation between the registry it read and the one
  it hands over for writing (\<open>registry_step\<close>), its algebra, and the steps the operations are
  composed of.
\<close>

section \<open>The contract\<close>

text \<open>
  Heads are never dropped, and a head whose token changes gets a sequence number issued by this
  operation.
\<close>

definition f_binding :: "fence \<Rightarrow> fencing_token \<times> resource_ref" where
  "f_binding f = (f_token f, f_resource_ref f)"

lemma f_binding_norm [simp]: "f_binding (norm_fence f) = f_binding f"
  by (simp add: f_binding_def f_token_def norm_fence_def)

definition fence_order :: "registry \<Rightarrow> registry \<Rightarrow> bool" where
  "fence_order r r' \<longleftrightarrow>
     r_broker_epoch r' = r_broker_epoch r \<and> r_next_sequence r \<le> r_next_sequence r'
     \<and> (\<forall>d. dget (r_fences r) d \<noteq> None \<longrightarrow> dget (r_fences r') d \<noteq> None)
     \<and> (\<forall>d f'. dget (r_fences r') d = Some f' \<longrightarrow>
          (\<exists>f. dget (r_fences r) d = Some f \<and> f_binding f' = f_binding f)
          \<or> (r_next_sequence r \<le> f_fencing_sequence f' \<and> f_fencing_sequence f' < r_next_sequence r'
             \<and> f_broker_epoch f' = r_broker_epoch r))"

definition settlements_kept :: "registry \<Rightarrow> registry \<Rightarrow> bool" where
  "settlements_kept r r' \<longleftrightarrow>
     (\<forall>d s. dget (r_settlements r) d = Some s \<longrightarrow> dget (r_settlements r') d = Some s)"

definition registry_advance :: "registry \<Rightarrow> registry \<Rightarrow> bool" where
  "registry_advance r r' \<longleftrightarrow> (registry_shape r \<longrightarrow> registry_shape r') \<and> fence_order r r'"

definition registry_step :: "registry \<Rightarrow> registry \<Rightarrow> bool" where
  "registry_step r r' \<longleftrightarrow>
     (registry_shape r \<longrightarrow> registry_shape r') \<and> fence_order r r' \<and> settlements_kept r r'"

lemma registry_step_iff: "registry_step r r' \<longleftrightarrow> registry_advance r r' \<and> settlements_kept r r'"
  by (auto simp: registry_step_def registry_advance_def)

lemma fence_order_refl [simp]: "fence_order r r"
  by (simp add: fence_order_def)

lemma fence_order_trans:
  assumes "fence_order a b" and "fence_order b c"
  shows "fence_order a c"
  unfolding fence_order_def
proof (intro conjI allI impI)
  fix d f assume c: "dget (r_fences c) d = Some f"
  show "(\<exists>g. dget (r_fences a) d = Some g \<and> f_binding f = f_binding g)
      \<or> (r_next_sequence a \<le> f_fencing_sequence f \<and> f_fencing_sequence f < r_next_sequence c
         \<and> f_broker_epoch f = r_broker_epoch a)"
  proof (cases "\<exists>g. dget (r_fences b) d = Some g \<and> f_binding f = f_binding g")
    case True
    then obtain g where g: "dget (r_fences b) d = Some g" "f_binding f = f_binding g" by blast
    have "(\<exists>e. dget (r_fences a) d = Some e \<and> f_binding g = f_binding e)
        \<or> (r_next_sequence a \<le> f_fencing_sequence g \<and> f_fencing_sequence g < r_next_sequence b
           \<and> f_broker_epoch g = r_broker_epoch a)"
      using assms(1) g(1) unfolding fence_order_def by blast
    moreover have "f_fencing_sequence f = f_fencing_sequence g" "f_broker_epoch f = f_broker_epoch g"
      using g(2) by (simp_all add: f_binding_def f_token_def)
    moreover have "r_next_sequence b \<le> r_next_sequence c" using assms(2) by (simp add: fence_order_def)
    ultimately show ?thesis using g(2) by auto
  next
    case False
    with c assms(2) have "r_next_sequence b \<le> f_fencing_sequence f"
      "f_fencing_sequence f < r_next_sequence c" "f_broker_epoch f = r_broker_epoch b"
      unfolding fence_order_def by blast+
    with assms(1) show ?thesis by (simp add: fence_order_def)
  qed
qed (use assms in \<open>auto simp: fence_order_def\<close>)

lemma registry_step_refl [simp]: "registry_step r r"
  by (simp add: registry_step_def settlements_kept_def)

lemma registry_step_trans [trans]:
  "registry_step a b \<Longrightarrow> registry_step b c \<Longrightarrow> registry_step a c"
  using fence_order_trans by (auto simp: registry_step_def settlements_kept_def)

section \<open>Elementary steps\<close>

lemma rows_ok_delete: "rows_ok ok d \<Longrightarrow> rows_ok ok (ddel k d)"
  using dict.drop_items [of d k] by (auto simp: rows_ok_def list_all_iff dict_wf)

lemma rows_ok_update: "rows_ok ok d \<Longrightarrow> ok k v \<Longrightarrow> rows_ok ok (dset k v d)"
  using dict.store_items [of d k v] by (auto simp: rows_ok_def list_all_iff dict_wf)

lemma rows_ok_foldl_delete: "rows_ok ok d \<Longrightarrow> rows_ok ok (foldl (\<lambda>d k. ddel k d) d ks)"
  by (induction ks arbitrary: d) (auto simp: rows_ok_delete)

lemma step_delete_lease [simp]: "registry_step r (r\<lparr>r_leases := ddel k (r_leases r)\<rparr>)"
  by (auto simp: registry_step_def fence_order_def settlements_kept_def registry_shape_def
      rows_ok_delete)

lemma step_store_lease:
  assumes "l_lease_id l = k" and "l_broker_epoch l = r_broker_epoch r"
    and "extras_ok lease_keys (l_extras l)"
  shows "registry_step r (r\<lparr>r_leases := dset k l (r_leases r)\<rparr>)"
  using assms
  by (auto simp: registry_step_def fence_order_def settlements_kept_def registry_shape_def
      rows_ok_update)

text \<open>A stored lease that is an updated row of the table keeps the shape.\<close>

lemma shape_lease:
  assumes "registry_shape r" and "dget (r_leases r) k = Some l"
  shows "l_lease_id l = k \<and> l_broker_epoch l = r_broker_epoch r \<and> extras_ok lease_keys (l_extras l)"
  using assms rows_ok_lookup by (fastforce simp: registry_shape_def)

lemma shape_lease_member:
  assumes "registry_shape r" and "l \<in> set (dvalues (r_leases r))"
  shows "dget (r_leases r) (l_lease_id l) = Some l"
    and "l_broker_epoch l = r_broker_epoch r" and "extras_ok lease_keys (l_extras l)"
proof -
  have rows: "rows_ok (\<lambda>k l. l_lease_id l = k \<and> l_broker_epoch l = r_broker_epoch r
      \<and> extras_ok lease_keys (l_extras l)) (r_leases r)" and wf: "wf_dict (r_leases r)"
    using assms(1) by (auto simp: registry_shape_def rows_ok_def)
  from assms(2) obtain k where k: "dget (r_leases r) k = Some l"
    using dvalues_lookup [OF wf] by blast
  from shape_lease [OF assms(1) k] k
  show "dget (r_leases r) (l_lease_id l) = Some l"
    and "l_broker_epoch l = r_broker_epoch r" and "extras_ok lease_keys (l_extras l)"
    by auto
qed

lemma step_delete_admission [simp]: "registry_step r (r\<lparr>r_admissions := ddel k (r_admissions r)\<rparr>)"
  by (auto simp: registry_step_def fence_order_def settlements_kept_def registry_shape_def
      rows_ok_delete)

lemma step_store_admission:
  "extras_ok admission_keys (a_extras a) \<Longrightarrow>
     registry_step r (r\<lparr>r_admissions := dset k a (r_admissions r)\<rparr>)"
  by (auto simp: registry_step_def fence_order_def settlements_kept_def registry_shape_def
      rows_ok_update)

lemma step_purge [simp]: "registry_step r (snd (purge_orphan_admissions i r))"
  by (auto simp: purge_orphan_admissions_def Let_def registry_step_def fence_order_def
      settlements_kept_def registry_shape_def rows_ok_foldl_delete)

lemma step_drop_idle [simp]: "registry_step r (drop_idle_admission i s r)"
  by (simp add: drop_idle_admission_def)

lemma step_drop_leases [simp]: "registry_step r (drop_leases ids r)"
  by (auto simp: drop_leases_def registry_step_def fence_order_def settlements_kept_def
      registry_shape_def rows_ok_foldl_delete)

lemma step_issue: "issue_sequence r = (n, r1) \<Longrightarrow> registry_step r r1"
  by (auto simp: issue_sequence_def registry_step_def fence_order_def settlements_kept_def
      registry_shape_def)

lemma step_close_owner:
  assumes "issue_sequence r = (n, r1)" and "kept = r_closed_owners r \<or> kept = ddel k (r_closed_owners r)"
    and "extras_ok owner_close_keys (o_extras c)"
  shows "registry_step r (r1\<lparr>r_closed_owners := dset w c kept\<rparr>)"
  using assms
  by (auto simp: issue_sequence_def registry_step_def fence_order_def settlements_kept_def
      registry_shape_def intro!: rows_ok_update rows_ok_delete)

text \<open>Making a lease current, when its sequence number was issued in this operation.\<close>

lemma make_current_result:
  "make_resource_current h l r = Inr r' \<longleftrightarrow>
     (\<exists>res. l_resource_ref l = Some res \<and> dget (r_settlements r) (resource_sha256 h res) = None
       \<and> r' = r\<lparr>r_leases := leases_without_prior r (resource_sha256 h res) l,
                r_fences := dset (resource_sha256 h res) (fresh_head r res l) (r_fences r)\<rparr>)"
  by (auto simp: make_resource_current_def Let_def split: option.splits)

lemma rows_ok_without_prior: "rows_ok ok (r_leases r) \<Longrightarrow> rows_ok ok (leases_without_prior r d l)"
  by (auto simp: leases_without_prior_def rows_ok_delete split: option.splits)

lemma fresh_head_fields [simp]:
  "f_resource_ref (fresh_head r res l) = res"
  "f_broker_epoch (fresh_head r res l) = r_broker_epoch r"
  "f_fencing_sequence (fresh_head r res l) = l_fencing_sequence l"
  "f_lease_id (fresh_head r res l) = l_lease_id l"
  "f_close_receipt (fresh_head r res l) = None" "f_extras (fresh_head r res l) = []"
  by (simp_all add: fresh_head_def)

lemma make_current_step:
  assumes "make_resource_current h l r2 = Inr r3"
    and "registry_step r r2" and "r_next_sequence r \<le> l_fencing_sequence l"
    and "l_fencing_sequence l < r_next_sequence r2"
  shows "registry_step r r3"
proof -
  from assms(1) obtain d res where
    r3: "r3 = r2\<lparr>r_leases := leases_without_prior r2 d l,
              r_fences := dset d (fresh_head r2 res l) (r_fences r2)\<rparr>"
    by (auto simp: make_current_result)
  have "fence_order r r3"
    using assms(2-4) unfolding r3 registry_step_def fence_order_def by auto
  moreover have "registry_shape r3" if "registry_shape r2"
    using that unfolding r3 registry_shape_def
    by (auto intro!: rows_ok_update rows_ok_without_prior)
  ultimately show ?thesis
    using assms(2) r3 by (auto simp: registry_step_def settlements_kept_def)
qed

lemma granted_lease_simps [simp]:
  "l_lease_id (granted_lease g i k e n) = k" "l_broker_epoch (granted_lease g i k e n) = e"
  "l_extras (granted_lease g i k e n) = []" "l_fencing_sequence (granted_lease g i k e n) = n"
  "l_resource_ref (granted_lease g i k e n) = g_resource_ref g"
  by (simp_all add: granted_lease_def)

lemma new_lease_step:
  assumes "new_lease h k g i r = Inr (l, r')"
  shows "registry_step r r'"
proof -
  define r2 where "r2 = r\<lparr>r_next_sequence := r_next_sequence r + 1,
    r_leases := dset k (granted_lease g i k (r_broker_epoch r) (r_next_sequence r)) (r_leases r)\<rparr>"
  have r2: "registry_step r r2"
    unfolding r2_def
    by (auto simp: registry_step_def fence_order_def settlements_kept_def registry_shape_def
        rows_ok_update)
  from assms have "r' = r2 \<or> make_resource_current h l r2 = Inr r'"
    and "l = granted_lease g i k (r_broker_epoch r) (r_next_sequence r)"
    by (auto simp: new_lease_def issue_sequence_def r2_def Let_def split: if_splits)
  then show ?thesis using r2 make_current_step [of h l r2 r' r] by (auto simp: r2_def)
qed

lemma drop_superseded_step:
  "drop_superseded_resource_lease h p m i res arch r = Inr r' \<Longrightarrow> registry_step r r'"
  by (auto simp: drop_superseded_resource_lease_def Let_def split: if_splits option.splits)

lemma admit_agent_purged:
  "admit_agent p i s snap n r = Inr r' \<Longrightarrow> r' = snd (purge_orphan_admissions i r)"
  by (auto simp: admit_agent_def Let_def split: prod.splits)

lemma admit_agent_step: "admit_agent p i s snap n r = Inr r' \<Longrightarrow> registry_step r r'"
  by (auto dest: admit_agent_purged)

lemma rows_ok_foldl_update:
  "rows_ok ok d \<Longrightarrow> \<forall>l \<in> set ls. ok (key l) l \<Longrightarrow> rows_ok ok (foldl (\<lambda>d l. dset (key l) l d) d ls)"
  by (induction ls arbitrary: d) (simp_all add: rows_ok_update)

lemma store_leases_step:
  assumes "registry_shape r \<Longrightarrow> \<forall>l \<in> set ls. l_broker_epoch l = r_broker_epoch r
      \<and> extras_ok lease_keys (l_extras l)"
  shows "registry_step r (store_leases ls r)"
proof -
  have "registry_shape (store_leases ls r)" if "registry_shape r"
    using that assms [OF that] unfolding registry_shape_def store_leases_def
    by (simp add: rows_ok_foldl_update)
  then show ?thesis
    by (simp add: store_leases_def registry_step_def fence_order_def settlements_kept_def)
qed

section \<open>What a transaction does to the authority\<close>

definition archived_head :: "host \<Rightarrow> authority \<Rightarrow> string \<Rightarrow> fence option" where
  "archived_head h au d =
     (case dget (au_archive au) d of
        None \<Rightarrow> None
      | Some j \<Rightarrow> (case fence_from_json h d j of Inr f \<Rightarrow> Some f | Inl _ \<Rightarrow> None))"

definition authority_registry :: "host \<Rightarrow> authority \<Rightarrow> registry option" where
  "authority_registry h au = (case read_registry h au of Inr v \<Rightarrow> v | Inl _ \<Rightarrow> None)"

text \<open>The head of a resource, hot or archived, and the next sequence number.\<close>

definition authority_head :: "host \<Rightarrow> authority \<Rightarrow> string \<Rightarrow> fence option" where
  "authority_head h au d =
     (case authority_registry h au of
        None \<Rightarrow> archived_head h au d
      | Some r \<Rightarrow> (case dget (r_fences r) d of Some f \<Rightarrow> Some f | None \<Rightarrow> archived_head h au d))"

definition authority_next :: "host \<Rightarrow> authority \<Rightarrow> int" where
  "authority_next h au =
     (case authority_registry h au of None \<Rightarrow> 1 | Some r \<Rightarrow> r_next_sequence r)"

definition authority_inv :: "host \<Rightarrow> authority \<Rightarrow> bool" where
  "authority_inv h au \<longleftrightarrow>
     authority_ok h au
     \<and> (case authority_registry h au of
          None \<Rightarrow> au_archive au = []
        | Some r \<Rightarrow> \<forall>d f. archived_head h au d = Some f \<longrightarrow>
            f_fencing_sequence f < r_next_sequence r \<and> f_broker_epoch f = r_broker_epoch r)
     \<and> (\<forall>r. authority_registry h au = Some r \<longrightarrow> length (closed_heads r) \<le> max_closed_fences)"

lemma authority_inv_ok: "authority_inv h au \<Longrightarrow> authority_ok h au"
  by (simp add: authority_inv_def)

definition authority_order :: "host \<Rightarrow> authority \<Rightarrow> authority \<Rightarrow> bool" where
  "authority_order h au au' \<longleftrightarrow>
     authority_next h au \<le> authority_next h au'
     \<and> (\<forall>r. authority_registry h au = Some r \<longrightarrow>
          (\<exists>r'. authority_registry h au' = Some r' \<and> r_broker_epoch r' = r_broker_epoch r))
     \<and> (\<forall>d. authority_head h au d \<noteq> None \<longrightarrow> authority_head h au' d \<noteq> None)
     \<and> (\<forall>d f'. authority_head h au' d = Some f' \<longrightarrow>
          (\<exists>f. authority_head h au d = Some f \<and> f_binding f' = f_binding f)
          \<or> (authority_next h au \<le> f_fencing_sequence f'
             \<and> f_fencing_sequence f' < authority_next h au'))"

lemma authority_order_refl [simp]: "authority_order h au au"
  by (simp add: authority_order_def)

lemma authority_order_trans [trans]:
  assumes "authority_order h a b" and "authority_order h b c"
  shows "authority_order h a c"
  unfolding authority_order_def
proof (intro conjI allI impI)
  fix d f assume c: "authority_head h c d = Some f"
  show "(\<exists>g. authority_head h a d = Some g \<and> f_binding f = f_binding g)
      \<or> (authority_next h a \<le> f_fencing_sequence f \<and> f_fencing_sequence f < authority_next h c)"
  proof (cases "\<exists>g. authority_head h b d = Some g \<and> f_binding f = f_binding g")
    case True
    then obtain g where g: "authority_head h b d = Some g" "f_binding f = f_binding g" by blast
    have "(\<exists>e. authority_head h a d = Some e \<and> f_binding g = f_binding e)
        \<or> (authority_next h a \<le> f_fencing_sequence g \<and> f_fencing_sequence g < authority_next h b)"
      using assms(1) g(1) unfolding authority_order_def by blast
    moreover have "f_fencing_sequence f = f_fencing_sequence g" using g(2) by (simp add: f_binding_def f_token_def)
    moreover have "authority_next h b \<le> authority_next h c"
      using assms(2) by (simp add: authority_order_def)
    ultimately show ?thesis using g(2) by auto
  next
    case False
    with c assms(2) have "authority_next h b \<le> f_fencing_sequence f"
      "f_fencing_sequence f < authority_next h c"
      unfolding authority_order_def by blast+
    with assms(1) show ?thesis by (simp add: authority_order_def)
  qed
next
  fix r assume "authority_registry h a = Some r"
  with assms show "\<exists>r'. authority_registry h c = Some r' \<and> r_broker_epoch r' = r_broker_epoch r"
    unfolding authority_order_def by metis
qed (use assms in \<open>auto simp: authority_order_def\<close>)

lemma archive_entry:
  assumes "archive_ok h (au_archive au)" and "dget (au_archive au) d = Some j"
  obtains f where "fence_ok h d f" "j = json_norm (JObj (fence_items f))"
    "archived_head h au d = Some (norm_fence f)"
  using assms fence_read_back unfolding archive_ok_def archived_head_def
  by (metis (no_types, lifting) option.simps(5) sum.simps(6))

text \<open>Reading an archived fence gives the archived head or fails on its size.\<close>

lemma read_archived_head:
  assumes "archive_ok h (au_archive au)" and "read_archived_fence h au d = Inr v"
  shows "v = archived_head h au d"
proof (cases "dget (au_archive au) d")
  case (Some j)
  from archive_entry [OF assms(1) Some] obtain f where
    f: "fence_ok h d f" "j = json_norm (JObj (fence_items f))" "archived_head h au d = Some (norm_fence f)" .
  show ?thesis
    using assms(2) Some f fence_read_back [OF f(1)]
    by (auto simp: read_archived_fence_def archived_payload_def validated_archived_fence_def
        split: if_splits json.splits)
qed (use assms(2) in \<open>auto simp: read_archived_fence_def archived_head_def\<close>)

lemma authority_registry_document:
  assumes "registry_ok h r" and "au_document au = Some (norm_items (registry_to_json r))"
  shows "authority_registry h au = Some (norm_registry r)"
  using assms by (simp add: authority_registry_def read_registry_def registry_read_back)

lemma authority_registry_cong:
  "au_document au' = au_document au \<Longrightarrow> authority_registry h au' = authority_registry h au"
  by (simp add: authority_registry_def read_registry_def)

text \<open>A head that the operation made has a live lease.\<close>

definition fresh_heads_live :: "registry \<Rightarrow> registry \<Rightarrow> bool" where
  "fresh_heads_live r r' \<longleftrightarrow>
     (\<forall>d f. dget (r_fences r') d = Some f \<longrightarrow>
        (\<exists>g. dget (r_fences r) d = Some g \<and> f_binding f = f_binding g)
        \<or> dget (r_leases r') (f_lease_id f) \<noteq> None)"

lemma fresh_heads_live_same [simp]: "r_fences r' = r_fences r \<Longrightarrow> fresh_heads_live r r'"
  by (simp add: fresh_heads_live_def)

text \<open>The registry an operation starts from, as the authority sees it.\<close>

definition same_heads :: "registry \<Rightarrow> registry \<Rightarrow> bool" where
  "same_heads r s \<longleftrightarrow>
     r_broker_epoch r = r_broker_epoch s \<and> r_next_sequence r = r_next_sequence s
     \<and> (\<forall>d. map_option f_binding (dget (r_fences r) d) = map_option f_binding (dget (r_fences s) d))"

lemma same_heads_refl [simp]: "same_heads r r"
  by (simp add: same_heads_def)

lemma same_heads_lookup:
  assumes same: "same_heads r s"
  shows "dget (r_fences r) d = None \<longleftrightarrow> dget (r_fences s) d = None"
    and "dget (r_fences r) d = Some f \<Longrightarrow> \<exists>g. dget (r_fences s) d = Some g \<and> f_binding g = f_binding f"
proof -
  have eq: "map_option f_binding (dget (r_fences r) d) = map_option f_binding (dget (r_fences s) d)"
    using same unfolding same_heads_def by blast
  show "dget (r_fences r) d = None \<longleftrightarrow> dget (r_fences s) d = None"
    using eq by (cases "dget (r_fences r) d"; cases "dget (r_fences s) d") auto
  assume "dget (r_fences r) d = Some f"
  with eq show "\<exists>g. dget (r_fences s) d = Some g \<and> f_binding g = f_binding f"
    by (cases "dget (r_fences s) d") auto
qed

lemma same_heads_norm: "wf_dict (r_fences r) \<Longrightarrow> same_heads r (norm_registry r)"
  by (simp add: same_heads_def option.map_comp comp_def)

definition starts_from :: "host \<Rightarrow> authority \<Rightarrow> registry \<Rightarrow> bool" where
  "starts_from h au r \<longleftrightarrow>
     registry_ok h r
     \<and> (case authority_registry h au of
          None \<Rightarrow> r_fences r = [] \<and> r_next_sequence r = 1
        | Some r0 \<Rightarrow> same_heads r r0)"

lemma load_starts_from:
  assumes "authority_inv h au" and "is_uuid_text (p_uuid p 0)" and "load_registry h p au = Inr r"
  shows "starts_from h au r"
proof -
  have ok: "registry_ok h r"
    using load_registry_ok authority_inv_ok assms by blast
  obtain v where v: "read_registry h au = Inr v"
    using read_registry_total [OF authority_inv_ok [OF assms(1)]] by blast
  with assms(3) ok show ?thesis
    by (cases v) (auto simp: starts_from_def authority_registry_def load_registry_def fresh_registry_def)
qed

lemma f_token_norm_eq: "f_token f = f_token g \<Longrightarrow> f_fencing_sequence f = f_fencing_sequence g"
  by (simp add: f_binding_def f_token_def)

lemma consistent_head:
  assumes "registry_consistent r" and "dget (r_fences r) d = Some f"
  shows "f_fencing_sequence f < r_next_sequence r" and "f_broker_epoch f = r_broker_epoch r"
proof -
  have mem: "(d, f) \<in> set (r_fences r)" using assms(2) by (rule map_of_SomeD)
  then have "f_fencing_sequence f \<in> set (issued_sequences r)"
    by (force simp: issued_sequences_def)
  then show "f_fencing_sequence f < r_next_sequence r"
    using assms(1) by (simp add: registry_consistent_def list_all_iff)
  show "f_broker_epoch f = r_broker_epoch r"
    using assms(1) mem by (auto simp: registry_consistent_def list_all_iff)
qed

subsection \<open>The authority an operation starts from\<close>

lemma starts_from_view:
  assumes inv: "authority_inv h au" and start: "starts_from h au r"
  shows "authority_registry h au = None \<Longrightarrow> r_fences r = [] \<and> au_archive au = []"
    and "authority_registry h au = Some r0 \<Longrightarrow> same_heads r r0"
    and "authority_next h au = r_next_sequence r"
    and "dget (r_fences r) d = Some g \<Longrightarrow> \<exists>f. authority_head h au d = Some f \<and> f_binding f = f_binding g"
    and "dget (r_fences r) d = None \<Longrightarrow> authority_head h au d = archived_head h au d"
    and "archived_head h au d = Some f \<Longrightarrow>
      f_fencing_sequence f < r_next_sequence r \<and> f_broker_epoch f = r_broker_epoch r"
proof -
  have cases: "(authority_registry h au = None \<and> r_fences r = [] \<and> r_next_sequence r = 1 \<and> au_archive au = [])
      \<or> (\<exists>s. authority_registry h au = Some s \<and> same_heads r s)"
    using assms by (auto simp: starts_from_def authority_inv_def split: option.splits)
  show "authority_registry h au = None \<Longrightarrow> r_fences r = [] \<and> au_archive au = []"
    and "authority_registry h au = Some r0 \<Longrightarrow> same_heads r r0"
    and "authority_next h au = r_next_sequence r"
    using cases by (auto simp: authority_next_def same_heads_def)
  show "dget (r_fences r) d = Some g \<Longrightarrow> \<exists>f. authority_head h au d = Some f \<and> f_binding f = f_binding g"
    using cases same_heads_lookup(2) [of r _ d g] by (fastforce simp: authority_head_def)
  show "dget (r_fences r) d = None \<Longrightarrow> authority_head h au d = archived_head h au d"
    using cases same_heads_lookup(1) [of r _ d] by (auto simp: authority_head_def)
  assume "archived_head h au d = Some f"
  with cases show "f_fencing_sequence f < r_next_sequence r \<and> f_broker_epoch f = r_broker_epoch r"
    using inv by (auto simp: archived_head_def authority_inv_def same_heads_def)
qed

subsection \<open>The archive after compaction\<close>

text \<open>Of the heads that compaction moves, those of the digests \<open>D\<close> are archived: all of them, or the
  part that was written before a sidecar failed.\<close>

definition archived_part :: "string set \<Rightarrow> registry \<Rightarrow> authority \<Rightarrow> authority \<Rightarrow> bool" where
  "archived_part D r' au au1 \<longleftrightarrow>
     au_document au1 = au_document au \<and> (wf_dict (au_archive au) \<longrightarrow> wf_dict (au_archive au1))
     \<and> (\<forall>d. dget (au_archive au1) d =
          (case dget (excess_heads r') d of
             Some f \<Rightarrow> if d \<in> D then Some (json_norm (JObj (fence_items f))) else dget (au_archive au) d
           | None \<Rightarrow> dget (au_archive au) d))"

abbreviation archived_by :: "registry \<Rightarrow> authority \<Rightarrow> authority \<Rightarrow> bool" where
  "archived_by \<equiv> archived_part UNIV"

lemma excess_head_facts:
  assumes ok: "registry_ok h r'" and ex: "dget (excess_heads r') d = Some f"
  shows "dget (r_fences r') d = Some f" and "dget (r_leases r') (f_lease_id f) = None"
    and "fence_ok h d f" and "f_fencing_sequence f < r_next_sequence r'"
    and "f_broker_epoch f = r_broker_epoch r'"
    and "extras_serialized_size (f_extras f) \<le> max_extras_bytes"
proof -
  have wf: "wf_dict (r_fences r')" and con: "registry_consistent r'"
    using ok by (simp_all add: registry_ok_def rows_ok_def)
  show f: "dget (r_fences r') d = Some f" and "dget (r_leases r') (f_lease_id f) = None"
    using excess_heads_lookup [OF wf ex] by simp_all
  show "fence_ok h d f" using ok f rows_ok_lookup by (fastforce simp: registry_ok_def)
  show "f_fencing_sequence f < r_next_sequence r'" "f_broker_epoch f = r_broker_epoch r'"
    using consistent_head [OF con f] by simp_all
  have "extras_serialized_size (f_extras f)
      \<in> set (map (\<lambda>f. extras_serialized_size (f_extras f)) (dvalues (r_fences r')))"
    using map_of_SomeD [OF f] by force
  then have "extras_serialized_size (f_extras f) \<le> document_extras_bytes r'"
    using member_le_sum_list unfolding document_extras_bytes_def by fastforce
  then show "extras_serialized_size (f_extras f) \<le> max_extras_bytes"
    using con by (simp add: registry_consistent_def)
qed

lemma archived_by_view:
  assumes ok: "registry_ok h r'" and arc: "archived_part D r' au au1"
  shows "archive_ok h (au_archive au) \<Longrightarrow> archive_ok h (au_archive au1)"
    and "archived_head h au1 d =
      (case dget (excess_heads r') d of
         Some f \<Rightarrow> if d \<in> D then Some (norm_fence f) else archived_head h au d
       | None \<Rightarrow> archived_head h au d)"
proof -
  assume "archive_ok h (au_archive au)"
  then show "archive_ok h (au_archive au1)"
    using arc excess_head_facts(3,6) [OF ok]
    by (fastforce simp: archive_ok_def archived_part_def split: option.splits if_splits)
next
  show "archived_head h au1 d =
      (case dget (excess_heads r') d of
         Some f \<Rightarrow> if d \<in> D then Some (norm_fence f) else archived_head h au d
       | None \<Rightarrow> archived_head h au d)"
    using arc excess_head_facts(3) [OF ok] fence_read_back
    by (auto simp: archived_head_def archived_part_def split: option.splits)
qed

text \<open>An archived head of this write was a head before it.\<close>

lemma excess_was_head:
  assumes "registry_ok h r'" and "fresh_heads_live r r'" and "dget (excess_heads r') d = Some f"
  shows "\<exists>g. dget (r_fences r) d = Some g \<and> f_binding f = f_binding g"
  using assms(2) excess_head_facts(1,2) [OF assms(1,3)] unfolding fresh_heads_live_def by blast

subsection \<open>The closed heads that stay hot\<close>

lemma length_closed_heads:
  "length (closed_heads r) = length (filter (\<lambda>(d, f). dget (r_leases r) (f_lease_id f) = None) (r_fences r))"
  by (simp add: closed_heads_def)

lemma closed_heads_norm:
  assumes "wf_dict (r_leases r)"
  shows "length (closed_heads (norm_registry r)) = length (closed_heads r)"
proof -
  let ?P = "\<lambda>(d :: string, f). dget (r_leases r) (f_lease_id f) = None"
  have "?P (k, norm_fence f) = ?P (k, f)" for k f by (simp add: norm_fence_def)
  moreover have "dget (r_leases (norm_registry r)) k = None \<longleftrightarrow> dget (r_leases r) k = None" for k
    using assms by simp
  moreover have "r_fences (norm_registry r) = map (\<lambda>(k, f). (k, norm_fence f)) (dsort (r_fences r))"
    by (simp add: norm_rows_def map_rows_def)
  ultimately have "length (closed_heads (norm_registry r)) = length (filter ?P (dsort (r_fences r)))"
    by (simp add: length_closed_heads filter_map comp_def case_prod_unfold del: norm_registry_fields)
  also have "\<dots> = length (filter ?P (r_fences r))"
    using mset_dsort [of "r_fences r"] by (metis mset_filter size_mset)
  finally show ?thesis by (simp add: length_closed_heads)
qed

lemma closed_heads_compacted:
  assumes "registry_ok h r"
  shows "length (closed_heads (compacted_registry r)) \<le> max_closed_fences"
proof -
  let ?P = "\<lambda>(d :: string, f). dget (r_leases r) (f_lease_id f) = None"
  let ?n = "length (closed_heads r) - max_closed_fences"
  have wf: "wf_dict (r_fences r)" using assms by (simp add: registry_ok_def rows_ok_def)
  have "set (closed_heads (compacted_registry r)) \<subseteq> set (drop ?n (closed_heads r))"
  proof (rule subrelI)
    fix d f assume mem: "(d, f) \<in> set (closed_heads (compacted_registry r))"
    then have "d \<notin> set (dkeys (excess_heads r))" "(d, f) \<in> set (closed_heads r)"
      by (auto simp: closed_heads_def compacted_registry_def)
    then have "(d, f) \<notin> set (take ?n (closed_heads r))"
      by (force simp: excess_heads_def)
    with \<open>(d, f) \<in> set (closed_heads r)\<close> show "(d, f) \<in> set (drop ?n (closed_heads r))"
      by (metis Un_iff append_take_drop_id set_append)
  qed
  moreover have "distinct (closed_heads (compacted_registry r))"
    using wf_dict_distinct [OF wf] by (simp add: closed_heads_def compacted_registry_def)
  ultimately have "length (closed_heads (compacted_registry r)) \<le> length (drop ?n (closed_heads r))"
    by (metis card_length card_mono distinct_card finite_set order_trans)
  then show ?thesis by simp
qed

subsection \<open>Sidecars without the replacement\<close>

lemma sidecars_preserve:
  assumes inv: "authority_inv h au" and start: "starts_from h au r"
    and live: "fresh_heads_live r r'" and ok': "registry_ok h r'" and arc: "archived_part D r' au au1"
  shows "authority_inv h au1 \<and> authority_order h au au1"
proof -
  note view = starts_from_view [OF inv start] and old = excess_was_head [OF ok' live]
  note head1 = archived_by_view(2) [OF ok' arc]
  have doc: "au_document au1 = au_document au" using arc by (simp add: archived_part_def)
  have reg: "authority_registry h au1 = authority_registry h au"
    by (rule authority_registry_cong [OF doc])
  have con: "registry_consistent r" using start by (simp add: starts_from_def registry_ok_def)
  have same: "archived_head h au1 d = archived_head h au d" if "dget (r_fences r) d = None" for d
    using old [of d] that by (cases "dget (excess_heads r') d") (auto simp: head1)
  have heads: "authority_head h au1 d = authority_head h au d" for d
  proof (cases "authority_registry h au")
    case None
    with same [of d] view(1) show ?thesis by (simp add: authority_head_def reg)
  next
    case (Some s)
    with same [of d] same_heads_lookup(1) [OF view(2), of s d] show ?thesis
      by (auto simp: authority_head_def reg split: option.split)
  qed
  have "authority_order h au au1"
    using reg by (simp add: authority_order_def heads authority_next_def)
  moreover have "au_archive au1 = []" if "authority_registry h au = None"
  proof -
    have "dget (au_archive au1) d = None" for d
      using old [of d] view(1) [OF that] arc
      by (cases "dget (excess_heads r') d") (auto simp: archived_part_def split: if_splits)
    then show ?thesis by (metis ext map_of_eq_empty_iff)
  qed
  moreover have "f_fencing_sequence f < r_next_sequence r \<and> f_broker_epoch f = r_broker_epoch r"
    if f: "archived_head h au1 d = Some f" for d f
  proof (cases "dget (excess_heads r') d")
    case (Some g)
    from old [OF Some] obtain e where "dget (r_fences r) d = Some e" "f_binding g = f_binding e" by blast
    with consistent_head [OF con, of d e] f Some view(6) [of d f] show ?thesis
      by (auto simp: head1 f_binding_def f_token_def split: if_splits)
  qed (use f view(6) in \<open>simp add: head1\<close>)
  ultimately show ?thesis
    using inv view(2) archived_by_view(1) [OF ok' arc] doc
    by (auto simp: authority_inv_def authority_ok_def reg same_heads_def split: option.splits)
qed

subsection \<open>The replacement\<close>

lemma replaced_heads:
  assumes ok': "registry_ok h r'" and arc: "archived_by r' au au1"
    and doc: "au_document au2 = Some (norm_items (registry_to_json (compacted_registry r')))"
    and arch: "au_archive au2 = au_archive au1"
  shows "authority_registry h au2 = Some (norm_registry (compacted_registry r'))"
    and "archived_head h au2 d = archived_head h au1 d"
    and "authority_head h au2 d =
      (case dget (r_fences r') d of Some f \<Rightarrow> Some (norm_fence f) | None \<Rightarrow> archived_head h au d)"
proof -
  have wf: "wf_dict (r_fences r')" and wfc: "wf_dict (r_fences (compacted_registry r'))"
    using ok' compacted_registry_ok [OF ok'] by (simp_all add: registry_ok_def rows_ok_def)
  show reg: "authority_registry h au2 = Some (norm_registry (compacted_registry r'))"
    by (rule authority_registry_document [OF compacted_registry_ok [OF ok'] doc])
  show arch2: "archived_head h au2 d = archived_head h au1 d"
    by (simp add: archived_head_def arch)
  show "authority_head h au2 d =
      (case dget (r_fences r') d of Some f \<Rightarrow> Some (norm_fence f) | None \<Rightarrow> archived_head h au d)"
    using excess_head_facts(1) [OF ok', of d] archived_by_view(2) [OF ok' arc, of d]
    by (auto simp: authority_head_def reg arch2 wfc compacted_lookup [OF wf] split: option.splits)
qed

lemma replaced_order:
  assumes inv: "authority_inv h au" and start: "starts_from h au r" and order: "fence_order r r'"
    and reg: "authority_registry h au2 = Some (norm_registry (compacted_registry r'))"
    and heads: "\<And>d. authority_head h au2 d =
      (case dget (r_fences r') d of Some f \<Rightarrow> Some (norm_fence f) | None \<Rightarrow> archived_head h au d)"
  shows "authority_order h au au2"
proof -
  note view = starts_from_view [OF inv start]
  have next2: "authority_next h au2 = r_next_sequence r'" by (simp add: authority_next_def reg)
  show ?thesis
    unfolding authority_order_def
  proof (intro conjI allI impI)
    show "authority_next h au \<le> authority_next h au2"
      using order by (simp add: view(3) next2 fence_order_def)
  next
    fix r0 assume "authority_registry h au = Some r0"
    then have "r_broker_epoch r = r_broker_epoch r0" using view(2) by (simp add: same_heads_def)
    with order show "\<exists>r'. authority_registry h au2 = Some r' \<and> r_broker_epoch r' = r_broker_epoch r0"
      by (simp add: reg fence_order_def)
  next
    fix d assume "authority_head h au d \<noteq> None"
    with order view(5) [of d] show "authority_head h au2 d \<noteq> None"
      by (cases "dget (r_fences r) d") (auto simp: heads fence_order_def split: option.splits)
  next
    fix d f' assume f': "authority_head h au2 d = Some f'"
    show "(\<exists>f. authority_head h au d = Some f \<and> f_binding f' = f_binding f)
        \<or> (authority_next h au \<le> f_fencing_sequence f' \<and> f_fencing_sequence f' < authority_next h au2)"
    proof (cases "dget (r_fences r') d")
      case None
      with order have "dget (r_fences r) d = None"
        unfolding fence_order_def by blast
      with None f' view(5) [of d] show ?thesis by (simp add: heads)
    next
      case (Some f)
      with f' have "f' = norm_fence f" by (simp add: heads)
      moreover have "(\<exists>g. dget (r_fences r) d = Some g \<and> f_binding f = f_binding g)
          \<or> (r_next_sequence r \<le> f_fencing_sequence f \<and> f_fencing_sequence f < r_next_sequence r')"
        using order Some unfolding fence_order_def by blast
      ultimately show ?thesis using view(4) by (fastforce simp: view(3) next2)
    qed
  qed
qed

lemma replaced_preserve:
  assumes inv: "authority_inv h au" and start: "starts_from h au r" and order: "fence_order r r'"
    and ok': "registry_ok h r'" and arc: "archived_by r' au au1"
    and doc: "au_document au2 = Some (norm_items (registry_to_json (compacted_registry r')))"
    and arch: "au_archive au2 = au_archive au1"
  shows "authority_inv h au2 \<and> authority_order h au au2"
proof -
  note view = starts_from_view [OF inv start] and new = replaced_heads [OF ok' arc doc arch]
  have "f_fencing_sequence f < r_next_sequence r' \<and> f_broker_epoch f = r_broker_epoch r'"
    if f: "archived_head h au1 d = Some f" for d f
  proof (cases "dget (excess_heads r') d")
    case (Some g)
    with f excess_head_facts(4,5) [OF ok' Some] show ?thesis
      by (auto simp: archived_by_view(2) [OF ok' arc])
  next
    case None
    with f view(6) [of d f] order show ?thesis
      by (auto simp: archived_by_view(2) [OF ok' arc] fence_order_def)
  qed
  moreover have "authority_ok h au2"
    using compacted_registry_ok [OF ok'] archived_by_view(1) [OF ok' arc] inv doc arch
    by (auto simp: authority_ok_def authority_inv_def)
  moreover have "length (closed_heads (norm_registry (compacted_registry r'))) \<le> max_closed_fences"
    using closed_heads_compacted [OF ok'] closed_heads_norm [of "compacted_registry r'"]
      compacted_registry_ok [OF ok'] by (simp add: registry_ok_def rows_ok_def)
  ultimately have "authority_inv h au2" by (simp add: authority_inv_def new(1,2))
  with replaced_order [OF inv start order new(1,3)] show ?thesis by simp
qed

text \<open>One write, whatever its fate.\<close>

lemma write_registry_cases:
  assumes ok: "registry_shape r'" and wr: "write_registry h fate r' au = (res, au')"
  obtains "au' = au" and "\<exists>e. res = Inl e"
  | D where "registry_ok h r'" and "archived_part D r' au au'" and "fate \<notin> {Persisted, ReplacedThenFailed}"
      and "res = Inl PyOSError"
  | au1 where "registry_ok h r'" and "archived_by r' au au1" and "fate \<noteq> NotReplaced"
      and "au' = au1\<lparr>au_document := Some (norm_items (registry_to_json (compacted_registry r')))\<rparr>"
      and "res = (if fate = ReplacedThenFailed then Inl PyOSError else Inr (compacted_registry r'))"
proof (cases "registry_from_json h (registry_to_json r')")
  case (Inl e)
  with wr have "res = Inl e" "au' = au" by (simp_all add: write_registry_def)
  with that(1) show ?thesis by blast
next
  case (Inr r0)
  have ok': "registry_ok h r'" using registry_validated [OF Inr ok] by simp
  obtain res1 au1 where run: "compact_closed_fences h fate r' au = (res1, au1)" by fastforce
  note eff = compact_effect [OF ok' run]
  show ?thesis
  proof (cases res1)
    case (Inl e)
    from eff(4) [OF Inl] obtain D where e: "e = PyOSError" and fate: "\<exists>k replaced. fate = SidecarFailed k replaced"
      and part: "archived_part D r' au au1" using eff(1,2) by (auto simp: archived_part_def)
    have "res = Inl PyOSError" "au' = au1" using wr Inr run Inl e by (simp_all add: write_registry_def)
    with that(2) [OF ok', of D] part fate show ?thesis by auto
  next
    case (Inr r1)
    with eff have r1: "r1 = compacted_registry r'" and arc: "archived_by r' au au1"
      by (auto simp: archived_part_def split: option.split)
    have "(case fate of
        NotReplaced \<Rightarrow> (Inl PyOSError, au1)
      | ReplacedThenFailed \<Rightarrow>
          (Inl PyOSError, au1\<lparr>au_document := Some (norm_items (registry_to_json (compacted_registry r')))\<rparr>)
      | _ \<Rightarrow> (Inr (compacted_registry r'),
          au1\<lparr>au_document := Some (norm_items (registry_to_json (compacted_registry r')))\<rparr>)) = (res, au')"
      using wr registry_written [OF compacted_registry_ok [OF ok']]
        \<open>registry_from_json h (registry_to_json r') = Inr r0\<close>
      by (simp add: write_registry_def run Inr r1 Let_def)
    then show ?thesis
      using that(2) [OF ok', of UNIV] that(3) [OF ok' arc] arc by (cases fate) auto
  qed
qed

lemma write_registry_preserves:
  assumes inv: "authority_inv h au" and start: "starts_from h au r"
    and step: "registry_advance r r'" and live: "fresh_heads_live r r'"
    and wr: "write_registry h fate r' au = (res, au')"
  shows "authority_inv h au' \<and> authority_order h au au'"
    and "res = Inr r2 \<Longrightarrow> starts_from h au' r2 \<and> r2 = compacted_registry r'"
proof -
  have order: "fence_order r r'" and shape: "registry_shape r'"
    using step start registry_ok_shape by (auto simp: registry_advance_def starts_from_def)
  from shape wr show "authority_inv h au' \<and> authority_order h au au'"
  proof (cases rule: write_registry_cases)
    case 1
    then show ?thesis using inv by simp
  next
    case (2 D)
    then show ?thesis using sidecars_preserve [OF inv start live] by blast
  next
    case (3 au1)
    then show ?thesis using replaced_preserve [OF inv start order 3(1,2)] by simp
  qed
  assume "res = Inr r2"
  from shape wr show "starts_from h au' r2 \<and> r2 = compacted_registry r'"
  proof (cases rule: write_registry_cases)
    case (3 au1)
    then have "r2 = compacted_registry r'" using \<open>res = Inr r2\<close> by (simp split: if_splits)
    moreover have "registry_ok h (compacted_registry r')" by (rule compacted_registry_ok [OF 3(1)])
    moreover from this have "same_heads (compacted_registry r') (norm_registry (compacted_registry r'))"
      by (intro same_heads_norm) (simp add: registry_ok_def rows_ok_def)
    ultimately show ?thesis
      using authority_registry_document [of h "compacted_registry r'" au'] 3(4)
      by (simp add: starts_from_def)
  qed (use \<open>res = Inr r2\<close> in simp_all)
qed

section \<open>Locked operations as clients of the contract\<close>

text \<open>
  The provider of the interface is the body of an operation; what it promises is the advance above.
  The client is the transaction around it.  Most bodies also leave every retained settlement alone:
  they provide the extended contract.
\<close>

locale broker_op =
  fixes body :: "'a body"
  assumes body_advance: "registry_ok h r \<Longrightarrow> body archived r = Inr (x, Some r') \<Longrightarrow> registry_advance r r'"
    and body_heads: "registry_ok h r \<Longrightarrow> body archived r = Inr (x, Some r') \<Longrightarrow> fresh_heads_live r r'"
begin

lemma transact_preserves:
  assumes inv: "authority_inv h au" and ids: "is_uuid_text (p_uuid p 0)"
    and run: "transact h p body au = (res, au')"
  shows "authority_inv h au' \<and> authority_order h au au'"
proof (cases "load_registry h p au")
  case (Inl e)
  then show ?thesis using run inv by (simp add: transact_def)
next
  case (Inr r)
  have start: "starts_from h au r" by (rule load_starts_from [OF inv ids Inr])
  then have ok: "registry_ok h r" by (simp add: starts_from_def)
  show ?thesis
  proof (cases "\<exists>x r'. body (read_archived_fence h au) r = Inr (x, Some r')")
    case True
    then obtain x r' where b: "body (read_archived_fence h au) r = Inr (x, Some r')" by blast
    with run Inr obtain res0 where "write_registry h (p_write_fate p 0) r' au = (res0, au')"
      by (auto simp: transact_def split: prod.splits sum.splits)
    then show ?thesis
      by (rule write_registry_preserves(1) [OF inv start body_advance [OF ok b] body_heads [OF ok b]])
  next
    case False
    then show ?thesis
      using run Inr inv by (auto simp: transact_def split: sum.splits option.splits prod.splits)
  qed
qed

text \<open>A transaction that raises, and a body that does not write, leave the authority as it was.\<close>

lemma transact_unwritten:
  assumes "\<And>r. load_registry h p au = Inr r \<Longrightarrow>
      (\<exists>e. body (read_archived_fence h au) r = Inl e) \<or> (\<exists>x. body (read_archived_fence h au) r = Inr (x, None))"
  shows "snd (transact h p body au) = au"
  using assms by (auto simp: transact_def split: sum.splits option.splits prod.splits)

end

locale settlement_keeper = broker_op +
  assumes body_keeps: "registry_ok h r \<Longrightarrow> body archived r = Inr (x, Some r') \<Longrightarrow> settlements_kept r r'"

lemma settlement_keeperI:
  assumes "\<And>h archived r x r'. registry_ok h r \<Longrightarrow> body archived r = Inr (x, Some r') \<Longrightarrow>
      registry_step r r' \<and> fresh_heads_live r r'"
  shows "settlement_keeper body"
  using assms by unfold_locales (auto simp: registry_step_iff)

end
