(* ===== verification/Lease_Providers.thy ===== *)
theory Lease_Providers
  imports Lease_Contract
begin

text \<open>
  Every locked operation of the broker provides the contract: one interpretation of
  \<open>broker_op\<close> per operation, on the body the code has.
\<close>

section \<open>Heads\<close>

lemma fresh_heads_live_cong:
  "r_fences r = r_fences s \<Longrightarrow> fresh_heads_live r r' = fresh_heads_live s r'"
  by (simp add: fresh_heads_live_def)

lemma leases_without_prior_self:
  "dget (r_leases r) (l_lease_id l) = Some l \<Longrightarrow>
     dget (leases_without_prior r d l) (l_lease_id l) = Some l"
  by (simp add: leases_without_prior_def split: option.split)

lemma make_current_heads:
  assumes "make_resource_current h l r = Inr r'" and "dget (r_leases r) (l_lease_id l) = Some l"
  shows "fresh_heads_live r r'"
proof -
  from assms(1) obtain d res where
    r': "r' = r\<lparr>r_leases := leases_without_prior r d l,
              r_fences := dset d (fresh_head r res l) (r_fences r)\<rparr>"
    by (auto simp: make_current_result)
  show ?thesis
    unfolding fresh_heads_live_def r'
    using leases_without_prior_self [OF assms(2), of d] by auto
qed

lemma drop_superseded_fences:
  "drop_superseded_resource_lease h p m i res arch r = Inr r' \<Longrightarrow> r_fences r' = r_fences r"
  by (auto simp: drop_superseded_resource_lease_def Let_def split: if_splits option.splits)

lemma purge_fences [simp]: "r_fences (snd (purge_orphan_admissions i r)) = r_fences r"
  by (simp add: purge_orphan_admissions_def Let_def)

lemma drop_idle_fences [simp]: "r_fences (drop_idle_admission i s r) = r_fences r"
  by (simp add: drop_idle_admission_def)

lemma drop_leases_fences [simp]: "r_fences (drop_leases ids r) = r_fences r"
  by (simp add: drop_leases_def)

lemma store_leases_fences [simp]: "r_fences (store_leases ls r) = r_fences r"
  by (simp add: store_leases_def)

lemma admit_agent_fences: "admit_agent p i s snap n r = Inr r' \<Longrightarrow> r_fences r' = r_fences r"
  by (auto dest: admit_agent_purged)

lemma new_lease_heads:
  assumes "new_lease h k g i r = Inr (l, r')"
  shows "fresh_heads_live r r'"
proof (cases "g_resource_ref g")
  case None
  then show ?thesis
    using assms by (intro fresh_heads_live_same) (auto simp: new_lease_def issue_sequence_def Let_def)
next
  case (Some res)
  then show ?thesis
    using assms make_current_heads
    by (fastforce simp: new_lease_def issue_sequence_def Let_def fresh_heads_live_def)
qed

lemma new_slots_step:
  assumes "g_resource_ref g = None" and "new_slots h p g i k n r = Inr (ls, r')"
  shows "registry_step r r' \<and> r_fences r' = r_fences r"
  using assms(2)
proof (induction n arbitrary: k r ls)
  case (Suc n)
  then obtain l r1 ls' where l: "new_lease h (p_uuid p k) g i r = Inr (l, r1)"
    and rest: "new_slots h p g i (Suc k) n r1 = Inr (ls', r')" by auto
  have "r_fences r1 = r_fences r"
    using l assms(1) by (auto simp: new_lease_def issue_sequence_def Let_def)
  with Suc.IH [OF rest] new_lease_step [OF l] show ?case
    using registry_step_trans by metis
qed simp

section \<open>Stored updates of a table row\<close>

lemma lease_shape:
  "registry_ok h r \<Longrightarrow> dget (r_leases r) k = Some l \<Longrightarrow>
     l_lease_id l = k \<and> l_broker_epoch l = r_broker_epoch r \<and> extras_ok lease_keys (l_extras l)"
  using shape_lease registry_ok_shape by blast

lemma lease_shape_member:
  assumes "registry_ok h r" and "l \<in> set (dvalues (r_leases r))"
  shows "dget (r_leases r) (l_lease_id l) = Some l"
    and "l_broker_epoch l = r_broker_epoch r" and "extras_ok lease_keys (l_extras l)"
  using shape_lease_member [OF registry_ok_shape [OF assms(1)] assms(2)] by simp_all

lemma oldest_member: "ls \<noteq> [] \<Longrightarrow> oldest ls \<in> set ls"
  unfolding oldest_def by (rule arg_min_list_in)

lemma filter_singleton: "filter P xs = [x] \<Longrightarrow> x \<in> set xs \<and> P x"
  by (auto simp: filter_eq_Cons_iff)

section \<open>Admissions\<close>

interpretation configure_op: settlement_keeper "configure_body p s c" for p s c
  by (rule settlement_keeperI)
     (auto simp: configure_body_def Let_def split: if_splits option.splits prod.splits
       intro: registry_step_trans [OF step_purge step_store_admission])

interpretation clear_op: settlement_keeper "clear_body p s" for p s
  by (rule settlement_keeperI) (auto simp: clear_body_def split: if_splits)

section \<open>Grants\<close>

lemma drop_prior_step:
  "drop_prior_of_request h p q i res archived r = Inr r' \<Longrightarrow> registry_step r r' \<and> r_fences r' = r_fences r"
  by (auto simp: drop_prior_of_request_def split: option.splits
      dest: drop_superseded_step drop_superseded_fences)

lemma acquire_agent_result:
  assumes "acquire_agent_body h p q (res, start) archived r = Inr (l, Some r')"
  shows "\<exists>i r1 r2. now p 0 = Inr i \<and> require_owner_admission_open (q_owner_id q) r = Inr ()
    \<and> drop_prior_of_request h p q i res archived r = Inr r1
    \<and> admit_agent p i (q_session_id q) (q_snapshot q) 1 r1 = Inr r2
    \<and> new_lease h (p_uuid p 1) (request_grant q res start) i r2 = Inr (l, r')"
  using assms
  by (auto simp: acquire_agent_body_def split: option.splits)

text \<open>A grant after steps that leave the heads alone.\<close>

lemma grant_after_step:
  assumes "registry_step r r2" and "r_fences r2 = r_fences r"
    and "new_lease h k g i r2 = Inr (l, r')"
  shows "registry_step r r' \<and> fresh_heads_live r r'"
  using new_lease_heads [OF assms(3)] new_lease_step [OF assms(3)] assms(1,2) registry_step_trans
  by (auto simp: fresh_heads_live_def)

interpretation acquire_agent_op: settlement_keeper "acquire_agent_body h p q c" for h p q c
proof (rule settlement_keeperI)
  fix r x r' archived assume run: "acquire_agent_body h p q c archived r = Inr (x, Some r')"
  obtain res start where "c = (res, start)" by (cases c)
  with acquire_agent_result run obtain i r1 r2 where
    *: "drop_prior_of_request h p q i res archived r = Inr r1"
    "admit_agent p i (q_session_id q) (q_snapshot q) 1 r1 = Inr r2"
    "new_lease h (p_uuid p 1) (request_grant q res start) i r2 = Inr (x, r')" by blast
  have "registry_step r r2"
    using drop_prior_step [OF *(1)] admit_agent_step [OF *(2)] registry_step_trans by blast
  moreover have "r_fences r2 = r_fences r"
    using drop_prior_step [OF *(1)] admit_agent_fences [OF *(2)] by simp
  ultimately show "registry_step r r' \<and> fresh_heads_live r r'" by (rule grant_after_step [OF _ _ *(3)])
qed

interpretation acquire_successor_op: settlement_keeper "acquire_successor_body h p q t d c" for h p q t d c
proof (rule settlement_keeperI)
  fix r x r' archived assume "acquire_successor_body h p q t d c archived r = Inr (x, Some r')"
  then obtain i g r2 where *: "admit_agent p i (q_session_id q) (q_snapshot q) 1 r = Inr r2"
    "new_lease h (p_uuid p 1) g i r2 = Inr (x, r')"
    by (auto simp: acquire_successor_body_def Let_def split: prod.splits if_splits)
  show "registry_step r r' \<and> fresh_heads_live r r'"
    by (rule grant_after_step [OF admit_agent_step [OF *(1)] admit_agent_fences [OF *(1)] *(2)])
qed

interpretation reserve_batch_op: settlement_keeper "reserve_batch_body h p n b k q c" for h p n b k q c
proof (rule settlement_keeperI)
  fix r x r' archived assume "reserve_batch_body h p n b k q c archived r = Inr (x, Some r')"
  then obtain i r1 where *: "admit_agent p i (q_session_id q) (q_snapshot q) n r = Inr r1"
    "new_slots h p (batch_grant q b k c) i 1 (nat n) r1 = Inr (x, r')"
    by (auto simp: reserve_batch_body_def Let_def split: if_splits)
  have g: "g_resource_ref (batch_grant q b k c) = None"
    by (simp add: batch_grant_def request_grant_def)
  show "registry_step r r' \<and> fresh_heads_live r r'"
    using new_slots_step [OF g *(2)] admit_agent_step [OF *(1)] admit_agent_fences [OF *(1)]
      registry_step_trans by auto
qed

lemma claim_result:
  assumes "claim_body h p session kind child batch worktree ttl res archived r = Inr (l, Some r')"
  shows "\<exists>i rf. now p 0 = Inr i
    \<and> claim_candidates i session kind batch r \<noteq> []
    \<and> require_owner_admission_open (l_owner_id (oldest (claim_candidates i session kind batch r))) r = Inr ()
    \<and> grant_claim h i child ttl rf (oldest (claim_candidates i session kind batch r)) r = Inr (l, Some r')"
proof -
  from assms obtain i where i: "now p 0 = Inr i" by (auto simp: claim_body_def)
  show ?thesis
  proof (cases "claim_bound i session kind batch child r")
    case Nil
    with assms i show ?thesis by (auto simp: claim_body_def Let_def split: if_splits option.splits)
  next
    case (Cons y ys)
    with assms i show ?thesis by (cases ys) (auto simp: claim_body_def Let_def split: if_splits)
  qed
qed

lemma claimed_lease_simps [simp]:
  "l_lease_id (claimed_lease i c t rf n l) = l_lease_id l"
  "l_broker_epoch (claimed_lease i c t rf n l) = l_broker_epoch l"
  "l_extras (claimed_lease i c t rf n l) = l_extras l"
  "l_fencing_sequence (claimed_lease i c t rf n l) = n"
  "l_resource_ref (claimed_lease i c t rf n l) = Some rf"
  "l_pool (claimed_lease i c t rf n l) = l_pool l"
  by (simp_all add: claimed_lease_def)

lemma grant_claim_step:
  assumes ok: "registry_ok h' r" and sel: "sel \<in> set (dvalues (r_leases r))"
    and run: "grant_claim h i child ttl rf sel r = Inr (x, Some r')"
  shows "registry_step r r' \<and> fresh_heads_live r r'"
proof -
  define r2 where "r2 = r\<lparr>r_next_sequence := r_next_sequence r + 1,
    r_leases := dset (l_lease_id sel) (claimed_lease i child ttl rf (r_next_sequence r) sel) (r_leases r)\<rparr>"
  from run have x: "x = claimed_lease i child ttl rf (r_next_sequence r) sel"
    and cur: "make_resource_current h x r2 = Inr r'"
    by (auto simp: grant_claim_def issue_sequence_def Let_def r2_def)
  have "registry_step r r2"
    using lease_shape_member [OF ok sel]
    by (auto simp: r2_def registry_step_def fence_order_def settlements_kept_def registry_shape_def
        rows_ok_update)
  then have "registry_step r r'"
    by (rule make_current_step [OF cur]) (simp_all add: x r2_def)
  moreover have "dget (r_leases r2) (l_lease_id x) = Some x" by (simp add: x r2_def)
  then have "fresh_heads_live r r'"
    using make_current_heads [OF cur] by (simp add: fresh_heads_live_def r2_def)
  ultimately show ?thesis ..
qed

lemma claim_candidates_member:
  "claim_candidates i s k b r \<noteq> [] \<Longrightarrow>
     oldest (claim_candidates i s k b r) \<in> set (dvalues (r_leases r))"
  using oldest_member [of "claim_candidates i s k b r"] by (auto simp: claim_candidates_def)

interpretation claim_op: settlement_keeper "claim_body h p s k a b w t c" for h p s k a b w t c
proof (rule settlement_keeperI)
  fix h' r x r' archived
  assume ok: "registry_ok h' r" and run: "claim_body h p s k a b w t c archived r = Inr (x, Some r')"
  from claim_result [OF run] claim_candidates_member
  obtain i sel rf where "sel \<in> set (dvalues (r_leases r))" "grant_claim h i a t rf sel r = Inr (x, Some r')"
    by blast
  from grant_claim_step [OF ok this] show "registry_step r r' \<and> fresh_heads_live r r'" .
qed

text \<open>Storing an updated row.\<close>

lemma update_lease_step:
  assumes "registry_ok h r" and "dget (r_leases r) k = Some l"
    and "l_lease_id l' = l_lease_id l" and "l_broker_epoch l' = l_broker_epoch l"
    and "l_extras l' = l_extras l"
  shows "registry_step r (r\<lparr>r_leases := dset k l' (r_leases r)\<rparr>)"
  by (rule step_store_lease) (use lease_shape [OF assms(1,2)] assms(3-5) in simp_all)

lemma free_slots_member:
  "free_slots i s b r \<noteq> [] \<Longrightarrow> oldest (free_slots i s b r) \<in> set (dvalues (r_leases r))"
  using oldest_member [of "free_slots i s b r"] by (auto simp: free_slots_def batch_calls_def)

lemma prepared_slot_simps [simp]:
  "l_lease_id (prepared_slot i k t n l) = l_lease_id l"
  "l_broker_epoch (prepared_slot i k t n l) = l_broker_epoch l"
  "l_extras (prepared_slot i k t n l) = l_extras l"
  by (simp_all add: prepared_slot_def)

lemma prepare_call_result:
  assumes "prepare_batch_call_body h p s b k t a n archived r = Inr (x, Some r')"
  shows "\<exists>i sel. now p 0 = Inr i \<and> free_slots i s b r \<noteq> [] \<and> sel = oldest (free_slots i s b r)
    \<and> x = prepared_slot i k t n sel \<and> r' = r\<lparr>r_leases := dset (l_lease_id sel) x (r_leases r)\<rparr>"
proof -
  from assms obtain i where i: "now p 0 = Inr i" by (auto simp: prepare_batch_call_body_def)
  show ?thesis
  proof (cases "filter (\<lambda>l. l_tool_use_id l = Some t) (batch_calls i s b r)")
    case Nil
    with assms i show ?thesis by (auto simp: prepare_batch_call_body_def Let_def split: if_splits)
  next
    case (Cons y ys)
    with assms i show ?thesis by (cases ys) (auto simp: prepare_batch_call_body_def)
  qed
qed

interpretation prepare_call_op: settlement_keeper "prepare_batch_call_body h p s b k t a n"
  for h p s b k t a n
proof (rule settlement_keeperI)
  fix h' r x r' archived
  assume ok: "registry_ok h' r"
    and run: "prepare_batch_call_body h p s b k t a n archived r = Inr (x, Some r')"
  from prepare_call_result [OF run] obtain i sel where
    "free_slots i s b r \<noteq> []" "sel = oldest (free_slots i s b r)"
    and x: "x = prepared_slot i k t n sel"
    and r': "r' = r\<lparr>r_leases := dset (l_lease_id sel) x (r_leases r)\<rparr>" by blast
  then have sel: "sel \<in> set (dvalues (r_leases r))" using free_slots_member by blast
  have "registry_step r r'" unfolding r'
    by (rule update_lease_step [OF ok lease_shape_member(1) [OF ok sel]]) (simp_all add: x)
  then show "registry_step r r' \<and> fresh_heads_live r r'" by (simp add: r')
qed

interpretation acquire_worktree_op: settlement_keeper "acquire_worktree_body h p n w s t q c"
  for h p n w s t q c
proof (rule settlement_keeperI)
  fix r x r' archived assume "acquire_worktree_body h p n w s t q c archived r = Inr (x, Some r')"
  then obtain g i where *: "new_lease h (p_uuid p 1) g i r = Inr (x, r')"
    by (auto simp: acquire_worktree_body_def Let_def split: prod.splits option.splits if_splits)
  show "registry_step r r' \<and> fresh_heads_live r r'"
    by (rule grant_after_step [OF _ _ *]) simp_all
qed

interpretation transfer_worktree_op: settlement_keeper "transfer_worktree_body h p k t w q c"
  for h p k t w q c
  by (rule settlement_keeperI)
     (auto simp: transfer_worktree_body_def Let_def split: option.splits if_splits
       intro!: update_lease_step)

section \<open>Renewal and release\<close>

lemma renewed_simps [simp]:
  "l_lease_id (renewed i l) = l_lease_id l" "l_broker_epoch (renewed i l) = l_broker_epoch l"
  "l_extras (renewed i l) = l_extras l" "l_fencing_sequence (renewed i l) = l_fencing_sequence l"
  "l_resource_ref (renewed i l) = l_resource_ref l"
  by (simp_all add: renewed_def)

interpretation renew_op: settlement_keeper "renew_body h p tok w k" for h p tok w k
  by (rule settlement_keeperI)
     (auto simp: renew_body_def Let_def split: option.splits intro!: update_lease_step)

lemma drop_then_idle: "registry_step r (drop_idle_admission i s (r\<lparr>r_leases := ddel k (r_leases r)\<rparr>))"
  by (rule registry_step_trans [OF step_delete_lease step_drop_idle])

interpretation release_op: settlement_keeper "release_body h p tok w k" for h p tok w k
  by (rule settlement_keeperI)
     (auto simp: release_body_def Let_def drop_then_idle split: option.splits if_splits)

interpretation release_owner_op: settlement_keeper "release_owner_body p args" for p args
  by (rule settlement_keeperI)
     (auto simp: release_owner_body_def drop_selected_def Let_def split: prod.splits if_splits
       intro: registry_step_trans [OF step_drop_leases step_drop_idle])

interpretation release_session_op: settlement_keeper "release_session_body p s" for p s
  by (rule settlement_keeperI)
     (auto simp: release_session_body_def drop_selected_def Let_def split: if_splits
       intro: registry_step_trans [OF step_drop_leases step_drop_idle])

interpretation release_terminal_op: settlement_keeper "release_if_terminal_body args" for args
proof (rule settlement_keeperI)
  fix r x r' archived assume "release_if_terminal_body args archived r = Inr (x, Some r')"
  then obtain ids s where
    r': "r' = (drop_leases ids r)\<lparr>r_admissions := ddel s (r_admissions (drop_leases ids r))\<rparr>"
    by (auto simp: release_if_terminal_body_def Let_def drop_leases_def split: prod.splits if_splits)
  show "registry_step r r' \<and> fresh_heads_live r r'"
    unfolding r' using registry_step_trans [OF step_drop_leases step_delete_admission] by simp
qed

interpretation settle_batch_op: settlement_keeper "settle_batch_body p args" for p args
  by (rule settlement_keeperI)
     (auto simp: settle_batch_body_def drop_selected_def Let_def split: prod.splits if_splits
       intro: registry_step_trans [OF step_drop_leases step_drop_idle])

definition kept_closes :: "registry \<Rightarrow> owner_close dict" where
  "kept_closes r = (if max_closed_owner_admissions \<le> length (r_closed_owners r)
     then ddel (lowest_generation (r_closed_owners r)) (r_closed_owners r) else r_closed_owners r)"

lemma close_owner_result:
  "close_owner_body p w archived r = Inr (x, Some r') \<Longrightarrow>
     dget (r_closed_owners r) w = None \<and> fst x = w \<and> o_close_generation (snd x) = r_next_sequence r
     \<and> o_extras (snd x) = []
     \<and> r' = r\<lparr>r_next_sequence := r_next_sequence r + 1, r_closed_owners := dset w (snd x) (kept_closes r)\<rparr>"
  by (auto simp: close_owner_body_def issue_sequence_def Let_def kept_closes_def
      split: option.splits)

interpretation close_owner_op: settlement_keeper "close_owner_body p w" for p w
proof (rule settlement_keeperI)
  fix r x r' archived assume "close_owner_body p w archived r = Inr (x, Some r')"
  from close_owner_result [OF this] have
    r': "r' = r\<lparr>r_next_sequence := r_next_sequence r + 1, r_closed_owners := dset w (snd x) (kept_closes r)\<rparr>"
    and e: "o_extras (snd x) = []" by simp_all
  have "registry_step r r'"
    unfolding r' registry_step_def registry_shape_def fence_order_def settlements_kept_def
    using e by (auto simp: kept_closes_def intro!: rows_ok_update rows_ok_delete)
  then show "registry_step r r' \<and> fresh_heads_live r r'" by (simp add: r')
qed

lemma renewed_rows_step:
  assumes ok: "registry_ok h r" and sub: "set ls \<subseteq> set (dvalues (r_leases r))"
  shows "registry_step r (store_leases (map (renewed i) ls) r)"
proof (rule store_leases_step)
  show "\<forall>l \<in> set (map (renewed i) ls). l_broker_epoch l = r_broker_epoch r
      \<and> extras_ok lease_keys (l_extras l)"
    using sub lease_shape_member(2,3) [OF ok] by auto
qed

lemma selected_rows: "set (by_lease_id (select_leases P r)) \<subseteq> set (dvalues (r_leases r))"
  by (auto simp: by_lease_id_def select_leases_def)

interpretation renew_session_op: settlement_keeper "renew_session_body h p s" for h p s
  by (rule settlement_keeperI)
     (auto simp: renew_session_body_def session_leases_def Let_def split: if_splits
       intro!: renewed_rows_step selected_rows)

interpretation renew_batch_op: settlement_keeper "renew_batch_body p args" for p args
  by (rule settlement_keeperI)
     (auto simp: renew_batch_body_def Let_def split: if_splits prod.splits
       intro!: renewed_rows_step selected_rows)

section \<open>Terminal signals\<close>

definition row_like :: "registry \<Rightarrow> lease \<Rightarrow> bool" where
  "row_like r l \<longleftrightarrow> l_broker_epoch l = r_broker_epoch r \<and> extras_ok lease_keys (l_extras l)"

lemma row_likeI: "registry_ok h r \<Longrightarrow> l \<in> set (dvalues (r_leases r)) \<Longrightarrow> row_like r l"
  using lease_shape_member by (simp add: row_like_def)

lemma row_like_step: "registry_step r r' \<Longrightarrow> row_like r' l = row_like r l"
  by (simp add: row_like_def registry_step_def fence_order_def)

lemma row_like_stored: "row_like r l \<Longrightarrow> registry_step r (r\<lparr>r_leases := dset (l_lease_id l) l (r_leases r)\<rparr>)"
  by (rule step_store_lease) (simp_all add: row_like_def)

lemma complete_foreground_step:
  assumes "row_like r l" and "complete_foreground_lease i l r = Inr r'"
  shows "registry_step r r' \<and> r_fences r' = r_fences r"
proof -
  have "row_like r (recycled_slot i l)" using assms(1) by (simp add: row_like_def recycled_slot_def)
  moreover have "l_lease_id (recycled_slot i l) = l_lease_id l" by (simp add: recycled_slot_def)
  ultimately have "registry_step r (r\<lparr>r_leases := dset (l_lease_id l) (recycled_slot i l) (r_leases r)\<rparr>)"
    using row_like_stored by metis
  then show ?thesis
    using assms(2) by (auto simp: complete_foreground_lease_def split: if_splits)
qed

interpretation child_terminal_op: settlement_keeper "child_terminal_body p c" for p c
proof (rule settlement_keeperI)
  fix h r x r' archived
  assume ok: "registry_ok h r" and run: "child_terminal_body p c archived r = Inr (x, Some r')"
  obtain l where l: "select_leases (\<lambda>l. l_agent_id l = Some c) r = [l]"
    using run
    by (cases "select_leases (\<lambda>l. l_agent_id l = Some c) r" rule: remdups_adj.cases)
       (auto simp: child_terminal_body_def)
  then have "l \<in> set (dvalues (r_leases r))"
    unfolding select_leases_def by (metis filter_is_subset list.set_intros(1) subsetD)
  then have "row_like r l" by (rule row_likeI [OF ok])
  from run l obtain i u r1 where u: "u = l\<lparr>l_child_terminal_at := stamp (l_child_terminal_at l) (i_text i)\<rparr>"
    and r1: "complete_foreground_lease i u r = Inr r1
      \<or> r1 = r\<lparr>r_leases := dset (l_lease_id l) u (r_leases r)\<rparr>"
    and r': "r' = drop_idle_admission i (l_session_id l) r1"
    by (auto simp: child_terminal_body_def Let_def split: if_splits)
  have like: "row_like r u" using \<open>row_like r l\<close> by (simp add: row_like_def u)
  have "registry_step r r1 \<and> r_fences r1 = r_fences r"
    using r1 complete_foreground_step [OF like] row_like_stored [OF like] by (auto simp: u)
  then show "registry_step r r' \<and> fresh_heads_live r r'"
    using registry_step_trans [OF _ step_drop_idle] by (simp add: r')
qed

lemma complete_calls_step:
  "\<forall>l \<in> set ls. row_like r l \<Longrightarrow> complete_calls i ls removed r = Inr (gone, r') \<Longrightarrow>
     registry_step r r' \<and> r_fences r' = r_fences r"
proof (induction i ls removed r arbitrary: gone rule: complete_calls.induct)
  case (2 i l ls removed r)
  define u where "u = l\<lparr>l_parent_completed_at := stamp (l_parent_completed_at l) (i_text i)\<rparr>"
  have like: "row_like r u" using 2(3) by (simp add: row_like_def u_def)
  show ?case
  proof (cases "l_agent_id u = None \<or> l_child_terminal_at u \<noteq> None")
    case True
    with 2(4) obtain r1 where r1: "complete_foreground_lease i u r = Inr r1"
      and rest: "complete_calls i ls (removed @ [l_lease_id l])
          (drop_idle_admission i (l_session_id l) r1) = Inr (gone, r')"
      by (auto simp: Let_def u_def [symmetric])
    define r2 where "r2 = drop_idle_admission i (l_session_id l) r1"
    have step: "registry_step r r2" and f: "r_fences r2 = r_fences r"
      using complete_foreground_step [OF like r1] registry_step_trans [OF _ step_drop_idle]
      by (auto simp: r2_def)
    have "\<forall>l \<in> set ls. row_like r2 l" using 2(3) by (simp add: row_like_step [OF step])
    with 2(1) [OF u_def True, of r1 gone] rest show ?thesis
      using registry_step_trans [OF step] f by (simp add: r2_def)
  next
    case False
    define r1 where "r1 = r\<lparr>r_leases := dset (l_lease_id l) u (r_leases r)\<rparr>"
    define r2 where "r2 = drop_idle_admission i (l_session_id l) r1"
    have "l_lease_id u = l_lease_id l" by (simp add: u_def)
    then have step: "registry_step r r2" and f: "r_fences r2 = r_fences r"
      using row_like_stored [OF like] registry_step_trans [OF _ step_drop_idle]
      by (auto simp: r1_def r2_def)
    have "\<forall>l \<in> set ls. row_like r2 l" using 2(3) by (simp add: row_like_step [OF step])
    moreover have "complete_calls i ls removed r2 = Inr (gone, r')"
      using 2(4) False by (auto simp: Let_def u_def [symmetric] r1_def r2_def split: if_splits)
    ultimately show ?thesis
      using 2(2) [OF u_def False, of gone] registry_step_trans [OF step] f by (simp add: r1_def r2_def)
  qed
qed simp

interpretation parent_completed_op: settlement_keeper "parent_completed_body p args" for p args
proof (rule settlement_keeperI)
  fix h r x r' archived
  assume ok: "registry_ok h r" and run: "parent_completed_body p args archived r = Inr (x, Some r')"
  from run obtain i P gone where "complete_calls i (select_leases P r) [] r = Inr (gone, r')"
    by (auto simp: parent_completed_body_def Let_def split: prod.splits if_splits)
  moreover have "\<forall>l \<in> set (select_leases P r). row_like r l"
    using row_likeI [OF ok] by (auto simp: select_leases_def)
  ultimately show "registry_step r r' \<and> fresh_heads_live r r'" using complete_calls_step by simp
qed

section \<open>Forensic publication\<close>

interpretation publish_op: settlement_keeper "publish_body h p tok e f c" for h p tok e f c
  by (rule settlement_keeperI) (auto simp: publish_body_def split: if_splits)

end
