(* ===== verification/Lease_Recovery.thy ===== *)
theory Lease_Recovery
  imports Lease_Maintenance
begin

text \<open>
  \<open>SettlementRecoveryCoordinator\<close>: the process-bound seam that recovers one retained settlement.
  Its own state is the identity of the process that opened it, the digest of its capability and the
  registered handlers; the registry binds at most one capability.  The calling process is an argument
  (\<open>os.getpid\<close>, \<open>os.geteuid\<close>); a replay callable is its identity, its behaviour an argument.
\<close>

section \<open>The coordinator\<close>

record recovery_handler =
  rh_settlement :: settlement
  rh_callable :: nat

record coordinator =
  rc_owner_id :: string
  rc_pid :: int
  rc_process_start :: string
  rc_boot_id :: string
  rc_effective_uid :: int
  rc_capability_sha256 :: string
  rc_handlers :: "recovery_handler dict"

record caller =
  ca_pid :: int
  ca_uid :: int

definition check_handlers :: "recovery_handler dict \<Rightarrow> broker_error + unit" where
  "check_handlers handlers =
     (if max_settlements < length handlers then Inl PyValueError
      else bind_res (map_res (\<lambda>(k, handler).
          bind_res (uuid_text k) (\<lambda>selected.
          guard_res (selected = s_settlement_id (rh_settlement handler)) PyValueError)) handlers)
        (\<lambda>_. Inr ()))"

definition new_coordinator ::
    "providers \<Rightarrow> caller \<Rightarrow> string \<Rightarrow> recovery_handler dict \<Rightarrow> string \<Rightarrow> broker_error + coordinator" where
  "new_coordinator p me owner handlers capability_sha256 =
     bind_res (bounded 128 owner) (\<lambda>w.
     case p_process_identity p (ca_pid me) of
       None \<Rightarrow> Inl UnsafeAuthorityError
     | Some start \<Rightarrow>
         bind_res (bounded max_id (p_boot_id p)) (\<lambda>boot.
         bind_res (check_handlers handlers) (\<lambda>_.
         Inr \<lparr>rc_owner_id = w, rc_pid = ca_pid me, rc_process_start = start, rc_boot_id = boot,
              rc_effective_uid = ca_uid me, rc_capability_sha256 = capability_sha256,
              rc_handlers = handlers\<rparr>)))"

text \<open>The registry is bound to the first capability that opens it.\<close>

definition bind_capability_body :: "coordinator \<Rightarrow> coordinator body" where
  "bind_capability_body c archived r =
     (case r_recovery_capability r of
        None \<Rightarrow> Inr (c, Some (r\<lparr>r_recovery_capability := Some (rc_capability_sha256 c)\<rparr>))
      | Some bound \<Rightarrow>
          if bound \<noteq> rc_capability_sha256 c then Inl LeaseOwnershipError else Inr (c, None))"

definition open_coordinator ::
    "host \<Rightarrow> providers \<Rightarrow> caller \<Rightarrow> string \<Rightarrow> recovery_handler dict \<Rightarrow> string \<Rightarrow> authority
       \<Rightarrow> (broker_error + coordinator) \<times> authority" where
  "open_coordinator h p me owner handlers capability_sha256 =
     run_op h p (new_coordinator p me owner handlers capability_sha256) bind_capability_body"

definition register_recovery_handler ::
    "caller \<Rightarrow> recovery_handler \<Rightarrow> coordinator \<Rightarrow> broker_error + coordinator" where
  "register_recovery_handler me handler c =
     (let k = s_settlement_id (rh_settlement handler) in
      if ca_pid me \<noteq> rc_pid c then Inl LeaseOwnershipError
      else if max_settlements \<le> length (rc_handlers c) \<and> dget (rc_handlers c) k = None
      then Inl (CapacityExhaustedError None)
      else if s_recovery_capability_sha256 (rh_settlement handler) \<noteq> Some (rc_capability_sha256 c)
      then Inl LeaseOwnershipError
      else if dget (rc_handlers c) k \<noteq> None \<and> dget (rc_handlers c) k \<noteq> Some handler
      then Inl LeaseOwnershipError
      else Inr (c\<lparr>rc_handlers := dset k handler (rc_handlers c)\<rparr>))"

section \<open>The recovery intent\<close>

definition settlement_recovery_keys :: "string list" where
  "settlement_recovery_keys =
     [''schema'', ''resource_ref'', ''token'', ''lease_id'', ''generation'', ''settlement_id'',
      ''session_id'', ''policy_sha256'', ''expected_phase'', ''protected_write_intent_sha256'',
      ''recovery_owner_id'', ''recovery_owner_pid'', ''recovery_owner_process_start'',
      ''recovery_owner_boot_id'', ''recovery_owner_effective_uid'', ''sha256'']"

definition recovery_token :: "json \<Rightarrow> broker_error + fencing_token" where
  "recovery_token j =
     (case j of
        JObj d \<Rightarrow> if same_keys d token_keys then token_from_json j else Inl LeaseBrokerError
      | _ \<Rightarrow> Inl LeaseBrokerError)"

definition parse_recovery_intent ::
    "host \<Rightarrow> json dict \<Rightarrow> broker_error + (json dict \<times> resource_ref \<times> fencing_token)" where
  "parse_recovery_intent h value =
     bind_res (closed_mapping value settlement_recovery_keys) (\<lambda>d.
     bind_res (guard_res (jfield d ''schema'' = JStr ''settlement_recovery_intent.v1'')
       LeaseBrokerError) (\<lambda>_.
     bind_res (json_sha256 (jfield d ''sha256'')) (\<lambda>supplied.
     bind_res (guard_res (supplied = record_sha256 h d [''sha256'']) LeaseBrokerError) (\<lambda>_.
     bind_res (canonical_resource_ref AgentPool (jfield d ''resource_ref'')) (\<lambda>res.
     bind_res (recovery_token (jfield d ''token'')) (\<lambda>tok.
     bind_res (guard_res (jfield d ''generation'' = JStr (token_generation tok)) LeaseBrokerError) (\<lambda>_.
     Inr (d, res, tok))))))))"

text \<open>The comparisons of \<open>_authorize_caller\<close> run in order and stop at the first that differs.\<close>

definition authorize_caller ::
    "providers \<Rightarrow> caller \<Rightarrow> coordinator \<Rightarrow> json dict \<Rightarrow> broker_error + unit" where
  "authorize_caller p me c d =
     bind_res (guard_res (ca_pid me = rc_pid c) LeaseOwnershipError) (\<lambda>_.
     bind_res (guard_res (jfield d ''recovery_owner_id'' = JStr (rc_owner_id c)) LeaseOwnershipError) (\<lambda>_.
     bind_res (json_int positive (jfield d ''recovery_owner_pid'')) (\<lambda>pid.
     bind_res (guard_res (pid = rc_pid c) LeaseOwnershipError) (\<lambda>_.
     bind_res (json_bounded max_id (jfield d ''recovery_owner_process_start'')) (\<lambda>start.
     bind_res (guard_res (start = rc_process_start c) LeaseOwnershipError) (\<lambda>_.
     bind_res (json_bounded max_id (jfield d ''recovery_owner_boot_id'')) (\<lambda>boot.
     bind_res (guard_res (boot = rc_boot_id c) LeaseOwnershipError) (\<lambda>_.
     bind_res (json_int nonnegative (jfield d ''recovery_owner_effective_uid'')) (\<lambda>uid.
     guard_res (uid = rc_effective_uid c
         \<and> p_process_identity p (rc_pid c) = Some (rc_process_start c) \<and> p_boot_id p = rc_boot_id c)
       LeaseOwnershipError)))))))))"

text \<open>Membership of an unhashable value raises \<open>TypeError\<close>.\<close>

definition check_expected_phase :: "json \<Rightarrow> broker_error + unit" where
  "check_expected_phase j =
     (case j of
        JArr _ \<Rightarrow> Inl PyTypeError
      | JObj _ \<Rightarrow> Inl PyTypeError
      | _ \<Rightarrow> guard_res (j \<in> set (map (\<lambda>p. JStr (phase_text p)) [Prepared, Committing, Ambiguous]))
               LeaseBrokerError)"

definition intent_matches_settlement ::
    "json dict \<Rightarrow> resource_ref \<Rightarrow> fencing_token \<Rightarrow> settlement \<Rightarrow> bool" where
  "intent_matches_settlement d res tok s \<longleftrightarrow>
     jfield d ''expected_phase'' = JStr (phase_text (s_phase s))
     \<and> s_resource_ref s = res \<and> s_token s = tok
     \<and> jfield d ''lease_id'' = JStr (s_lease_id s)
     \<and> jfield d ''settlement_id'' = JStr (s_settlement_id s)
     \<and> jfield d ''session_id'' = JStr (s_session_id s)
     \<and> jfield d ''policy_sha256'' = JStr (s_policy_sha256 s)
     \<and> jfield d ''protected_write_intent_sha256'' = JStr (s_write_intent_sha256 s)"

text \<open>Mappings are equal whatever the order of their keys.\<close>

definition same_json :: "json \<Rightarrow> json \<Rightarrow> bool" where
  "same_json a b \<longleftrightarrow> json_norm a = json_norm b"

definition close_matches_intent ::
    "host \<Rightarrow> settlement_close \<Rightarrow> close_binding \<Rightarrow> json dict \<Rightarrow> recovery_handler option \<Rightarrow> bool" where
  "close_matches_intent h close b d handler \<longleftrightarrow>
     same_json (resource_ref_json (sc_resource_ref close)) (jfield d ''resource_ref'')
     \<and> same_json (token_to_json (sc_token close)) (jfield d ''token'')
     \<and> jfield d ''lease_id'' = JStr (sc_lease_id close)
     \<and> jfield d ''settlement_id'' = JStr (cb_settlement_id b)
     \<and> jfield d ''session_id'' = JStr (cb_session_id b)
     \<and> jfield d ''policy_sha256'' = JStr (cb_policy_sha256 b)
     \<and> jfield d ''protected_write_intent_sha256'' = JStr (cb_write_intent_sha256 b)
     \<and> (case handler of
          None \<Rightarrow> False
        | Some rh \<Rightarrow>
            cb_settlement_sha256 b = settlement_sha256 h (rh_settlement rh)
            \<and> sc_producer close = s_producer (rh_settlement rh)
            \<and> sc_run_id close = s_run_id (rh_settlement rh)
            \<and> sc_expected_output_sha256 close = s_expected_output_sha256 (rh_settlement rh))"

section \<open>Recovery\<close>

datatype recovery_action = RecoverAbort | RecoverCommit

definition handler_of :: "coordinator \<Rightarrow> json \<Rightarrow> broker_error + recovery_handler option" where
  "handler_of c j =
     (case j of
        JStr k \<Rightarrow> Inr (dget (rc_handlers c) k)
      | JArr _ \<Rightarrow> Inl PyTypeError
      | JObj _ \<Rightarrow> Inl PyTypeError
      | _ \<Rightarrow> Inr None)"

text \<open>A retry after the settlement was retired converges on the disposition of the head.\<close>

definition recovered_disposition ::
    "host \<Rightarrow> recovery_action \<Rightarrow> json dict \<Rightarrow> resource_ref \<Rightarrow> fencing_token
       \<Rightarrow> recovery_handler option \<Rightarrow> fence option \<Rightarrow> broker_error + settlement_close option" where
  "recovered_disposition h action d res tok handler head =
     (case head of
        None \<Rightarrow> Inl LeaseNotFoundError
      | Some f \<Rightarrow>
          if f_resource_ref f \<noteq> res \<or> f_token f \<noteq> tok \<or> jfield d ''lease_id'' \<noteq> JStr (f_lease_id f)
          then Inl LeaseNotFoundError
          else (case (action, f_close_receipt f) of
             (RecoverAbort, None) \<Rightarrow> Inr None
           | (RecoverCommit, Some close) \<Rightarrow>
               (case sc_binding close of
                  None \<Rightarrow> Inl RegistryCorruptError
                | Some b \<Rightarrow>
                    if close_matches_intent h close b d handler then Inr (Some close)
                    else Inl LeaseOwnershipError)
           | _ \<Rightarrow> Inl LeaseOwnershipError))"

text \<open>What the retained settlement must satisfy before either action.\<close>

definition recoverable ::
    "providers \<Rightarrow> coordinator \<Rightarrow> json dict \<Rightarrow> resource_ref \<Rightarrow> fencing_token \<Rightarrow> registry \<Rightarrow> settlement
       \<Rightarrow> broker_error + unit" where
  "recoverable p c d res tok r s =
     bind_res (guard_res (intent_matches_settlement d res tok s) LeaseOwnershipError) (\<lambda>_.
     bind_res (guard_res (s_recovery_capability_sha256 s = Some (rc_capability_sha256 c))
       LeaseOwnershipError) (\<lambda>_.
     case dget (r_leases r) (s_lease_id s) of
       None \<Rightarrow> Inl LeaseOwnershipError
     | Some l \<Rightarrow>
         bind_res (owner_state p l) (\<lambda>state.
         guard_res (state = OwnerDead) LeaseOwnershipError)))"

definition recover_retained ::
    "host \<Rightarrow> providers \<Rightarrow> (nat \<Rightarrow> lease \<Rightarrow> settlement \<Rightarrow> broker_error + replay_result)
       \<Rightarrow> recovery_action \<Rightarrow> recovery_handler option \<Rightarrow> registry \<Rightarrow> settlement \<Rightarrow> authority
       \<Rightarrow> (broker_error + settlement_close option) \<times> authority" where
  "recover_retained h p replay action handler r s au =
     (case action of
        RecoverAbort \<Rightarrow>
          if s_phase s \<noteq> Prepared then (Inl LeaseOwnershipError, au)
          else (case write_registry h (p_write_fate p 0) (retire_settlement h s r) au of
             (Inl e, au') \<Rightarrow> (Inl e, au')
           | (Inr _, au') \<Rightarrow> (Inr None, au'))
      | RecoverCommit \<Rightarrow>
          (case handler of
             None \<Rightarrow> (Inl LeaseOwnershipError, au)
           | Some rh \<Rightarrow>
               if settlement_sha256 h (rh_settlement rh) \<noteq> settlement_sha256 h s
               then (Inl LeaseOwnershipError, au)
               else (case commit_settlement_locked h p True (ReplayHandler (replay (rh_callable rh))) r s au of
                  (Inl e, au') \<Rightarrow> (Inl e, au')
                | (Inr close, au') \<Rightarrow> (Inr (Some close), au'))))"

definition recover_agent_settlement ::
    "host \<Rightarrow> providers \<Rightarrow> caller \<Rightarrow> (nat \<Rightarrow> lease \<Rightarrow> settlement \<Rightarrow> broker_error + replay_result)
       \<Rightarrow> coordinator \<Rightarrow> json dict \<Rightarrow> recovery_action \<Rightarrow> authority
       \<Rightarrow> (broker_error + settlement_close option) \<times> authority" where
  "recover_agent_settlement h p me replay c intent action au =
     (case bind_res (parse_recovery_intent h intent) (\<lambda>(d, res, tok).
           bind_res (authorize_caller p me c d) (\<lambda>_.
           bind_res (check_expected_phase (jfield d ''expected_phase'')) (\<lambda>_.
           bind_res (load_registry h p au) (\<lambda>r.
           bind_res (guard_res (r_recovery_capability r = Some (rc_capability_sha256 c))
             LeaseOwnershipError) (\<lambda>_.
           bind_res (handler_of c (jfield d ''settlement_id'')) (\<lambda>handler.
           Inr (d, res, tok, r, handler))))))) of
        Inl e \<Rightarrow> (Inl e, au)
      | Inr (d, res, tok, r, handler) \<Rightarrow>
          (case dget (r_settlements r) (resource_sha256 h res) of
             None \<Rightarrow>
               (bind_res (resource_head (read_archived_fence h au) r (resource_sha256 h res))
                  (recovered_disposition h action d res tok handler), au)
           | Some s \<Rightarrow>
               (case recoverable p c d res tok r s of
                  Inl e \<Rightarrow> (Inl e, au)
                | Inr _ \<Rightarrow> recover_retained h p replay action handler r s au)))"

end
