(* ===== verification/Lease_Settlement_Steps.thy ===== *)
theory Lease_Settlement_Steps
  imports Lease_Providers Lease_Recovery
begin

text \<open>
  The operations whose bodies touch settlements: preparing provides the extended contract, aborting
  the plain one.  The three-phase commit and the repair write outside \<open>transact\<close>; they keep the
  authority by the same lemmas.
\<close>

section \<open>Settlements\<close>

lemma prepare_settlement_result:
  assumes "prepare_settlement_body h p q k archived r = Inr (s, Some r')"
  shows "\<exists>l res i pol. dget (r_leases r) k = Some l \<and> l_resource_ref l = Some res
    \<and> l_owner_id l = sr_owner_id q \<and> l_token l = sr_token q \<and> l_pool l = AgentPool
    \<and> dget (r_settlements r) (resource_sha256 h res) = None
    \<and> length (r_settlements r) < max_settlements
    \<and> now p 0 = Inr i \<and> l_policy_sha256 l = Some pol
    \<and> s = prepared_settlement (p_uuid p 1) k i q l res pol (r_recovery_capability r)
    \<and> r' = r\<lparr>r_leases := dset k (renewed i l) (r_leases r),
             r_settlements := dset (resource_sha256 h res) s (r_settlements r)\<rparr>"
  using assms
  by (auto simp: prepare_settlement_body_def Let_def split: option.splits if_splits prod.splits)

interpretation prepare_settlement_op: settlement_keeper "prepare_settlement_body h p q k" for h p q k
proof (rule settlement_keeperI)
  fix h' r x r' archived
  assume ok: "registry_ok h' r" and run: "prepare_settlement_body h p q k archived r = Inr (x, Some r')"
  from prepare_settlement_result [OF run] obtain l d i where
    l: "dget (r_leases r) k = Some l" and new: "dget (r_settlements r) d = None"
    and x: "s_extras x = []"
    and r': "r' = r\<lparr>r_leases := dset k (renewed i l) (r_leases r), r_settlements := dset d x (r_settlements r)\<rparr>"
    by (auto simp: prepared_settlement_def)
  have row: "l_lease_id (renewed i l) = k \<and> l_broker_epoch (renewed i l) = r_broker_epoch r
      \<and> extras_ok lease_keys (l_extras (renewed i l))"
    using lease_shape [OF ok l] by simp
  have "registry_step r r'"
    unfolding r' registry_step_def registry_shape_def fence_order_def settlements_kept_def
    using row x new by (auto intro!: rows_ok_update)
  then show "registry_step r r' \<and> fresh_heads_live r r'" by (simp add: r')
qed

section \<open>The sweep\<close>

lemma sweep_drop_step: "registry_step (sw_registry st) (sw_registry (sweep_drop k st))
    \<and> r_fences (sw_registry (sweep_drop k st)) = r_fences (sw_registry st)"
  by (simp add: sweep_drop_def)

lemma retain_registry [simp]: "sw_registry (retain k why st) = sw_registry st"
  by (simp add: retain_def)

lemma sweep_worktree_step:
  "registry_step (sw_registry st) (sw_registry (sweep_worktree reaper state l st))
   \<and> r_fences (sw_registry (sweep_worktree reaper state l st)) = r_fences (sw_registry st)"
  using sweep_drop_step by (cases state) (auto simp: sweep_worktree_def split: option.split)

lemma sweep_lease_step:
  "sweep_lease p i reaper terminal l st = Inr st' \<Longrightarrow>
     registry_step (sw_registry st) (sw_registry st')
     \<and> r_fences (sw_registry st') = r_fences (sw_registry st)"
  using sweep_drop_step sweep_worktree_step
  by (auto simp: sweep_lease_def split: option.splits if_splits)

lemma sweep_leases_step:
  "sweep_leases p i reaper terminal ls st = Inr st' \<Longrightarrow>
     registry_step (sw_registry st) (sw_registry st')
     \<and> r_fences (sw_registry st') = r_fences (sw_registry st)"
proof (induction ls arbitrary: st)
  case (Cons l ls)
  then obtain st1 where "sweep_lease p i reaper terminal l st = Inr st1"
    and rest: "sweep_leases p i reaper terminal ls st1 = Inr st'" by auto
  with Cons.IH [OF rest] sweep_lease_step show ?case
    using registry_step_trans by metis
qed simp

lemma drop_idle_fold_step:
  "registry_step r (foldl (\<lambda>r2 s. drop_idle_admission i s r2) r ss)
   \<and> r_fences (foldl (\<lambda>r2 s. drop_idle_admission i s r2) r ss) = r_fences r"
proof (induction ss arbitrary: r)
  case (Cons s ss)
  from Cons.IH [of "drop_idle_admission i s r"] show ?case
    using registry_step_trans [OF step_drop_idle [of r i s]] by simp
qed simp

definition start_sweep :: "registry \<Rightarrow> sweep_state" where
  "start_sweep r =
     \<lparr>sw_registry = r, sw_released = [], sw_sessions = [], sw_reaped = [], sw_retained = []\<rparr>"

lemma sweep_result:
  assumes "sweep_body p reaper terminal archived r = Inr (x, Some r')"
  shows "\<exists>i st. now p 0 = Inr i
    \<and> sweep_leases p i reaper terminal (dvalues (r_leases (snd (purge_orphan_admissions i r))))
        (start_sweep (snd (purge_orphan_admissions i r))) = Inr st
    \<and> r' = foldl (\<lambda>r2 s. drop_idle_admission i s r2) (sw_registry st) (remdups (sw_sessions st))"
proof -
  from assms obtain i where i: "now p 0 = Inr i" by (auto simp: sweep_body_def)
  obtain purged r1 where purge: "purge_orphan_admissions i r = (purged, r1)" by fastforce
  show ?thesis
    using assms i purge by (auto simp: sweep_body_def Let_def start_sweep_def split: if_splits)
qed

interpretation sweep_op: settlement_keeper "sweep_body p reaper terminal" for p reaper terminal
proof (rule settlement_keeperI)
  fix r x r' archived assume "sweep_body p reaper terminal archived r = Inr (x, Some r')"
  from sweep_result [OF this] obtain i st where
    st: "sweep_leases p i reaper terminal (dvalues (r_leases (snd (purge_orphan_admissions i r))))
        (start_sweep (snd (purge_orphan_admissions i r))) = Inr st"
    and r': "r' = foldl (\<lambda>r2 s. drop_idle_admission i s r2) (sw_registry st) (remdups (sw_sessions st))"
    by blast
  have "registry_step r (sw_registry st) \<and> r_fences (sw_registry st) = r_fences r"
    using sweep_leases_step [OF st] registry_step_trans [OF step_purge] by (auto simp: start_sweep_def)
  then show "registry_step r r' \<and> fresh_heads_live r r'"
    using drop_idle_fold_step [of "sw_registry st" i "remdups (sw_sessions st)"] registry_step_trans
    unfolding r' by auto
qed

section \<open>Operations that retire a settlement\<close>

lemma registry_advance_trans: "registry_advance a b \<Longrightarrow> registry_advance b c \<Longrightarrow> registry_advance a c"
  using fence_order_trans by (auto simp: registry_advance_def)

lemma step_advance: "registry_step r r' \<Longrightarrow> registry_advance r r'"
  by (simp add: registry_step_iff)

lemma retire_advance:
  "registry_advance r (retire_settlement h s r) \<and> r_fences (retire_settlement h s r) = r_fences r"
  by (auto simp: registry_advance_def retire_settlement_def registry_shape_def fence_order_def
      rows_ok_delete)

lemma retire_idle_advance:
  "registry_advance r (drop_idle_admission i w (retire_settlement h s r))
   \<and> r_fences (drop_idle_admission i w (retire_settlement h s r)) = r_fences r"
  using retire_advance [of r h s]
    registry_advance_trans [OF _ step_advance [OF step_drop_idle [of "retire_settlement h s r" i w]]]
  by auto

interpretation abort_op: broker_op "abort_settlement_body h p k tok w" for h p k tok w
  using retire_idle_advance
  by unfold_locales (auto simp: abort_settlement_body_def intro!: fresh_heads_live_same)

text \<open>The three-phase commit: two registry writes with the writer between them.\<close>

lemma write_preserves_chain:
  assumes "authority_inv h au" and "starts_from h au r" and "registry_advance r r'"
    and "fresh_heads_live r r'" and "write_registry h fate r' au = (res, au1)"
  shows "authority_inv h au1 \<and> authority_order h au au1"
  by (rule write_registry_preserves(1) [OF assms])

lemma load_starts:
  assumes "authority_inv h au" and "is_uuid_text (p_uuid p 0)" and "load_registry h p au = Inr r"
  shows "starts_from h au r \<and> registry_ok h r"
  using load_starts_from [OF assms] by (simp add: starts_from_def)

lemma abort_unstarted_preserves:
  assumes inv: "authority_inv h au" and ids: "is_uuid_text (p_uuid p 0)"
  shows "authority_inv h (snd (abort_unstarted h p s au)) \<and> authority_order h au (snd (abort_unstarted h p s au))"
proof (cases "load_registry h p au")
  case (Inr r)
  have "authority_inv h au' \<and> authority_order h au au'"
    if "write_registry h fate (drop_idle_admission i w (retire_settlement h s r)) au = (res, au')"
    for fate i w res au'
    using write_registry_preserves(1) [OF inv conjunct1 [OF load_starts [OF inv ids Inr]] _ _ that]
      retire_idle_advance by (simp add: fresh_heads_live_same)
  then show ?thesis
    using inv Inr
    by (auto simp: abort_unstarted_def split: option.splits sum.splits prod.splits)
qed (simp add: abort_unstarted_def inv)

lemma record_ambiguous_preserves:
  assumes inv: "authority_inv h au" and start: "starts_from h au r" and e: "extras_ok settlement_keys (s_extras c)"
  shows "authority_inv h (snd (record_ambiguous h p c err r au))
    \<and> authority_order h au (snd (record_ambiguous h p c err r au))"
proof (cases "now p 1")
  case (Inr i)
  define r' where "r' = r\<lparr>r_settlements := dset (resource_sha256 h (s_resource_ref c))
     (c\<lparr>s_phase := Ambiguous, s_updated_at := i_text i\<rparr>) (r_settlements r)\<rparr>"
  have adv: "registry_advance r r'" and live: "fresh_heads_live r r'"
    using e by (auto simp: r'_def registry_advance_def registry_shape_def fence_order_def intro!: rows_ok_update)
  obtain res au' where w: "write_registry h (p_write_fate p 1) r' au = (res, au')" by fastforce
  with write_registry_preserves(1) [OF inv start adv live w] show ?thesis
    unfolding record_ambiguous_def Inr sum.case Let_def by (simp add: r'_def)
qed (simp add: record_ambiguous_def inv)

lemma publish_close_advance:
  assumes "dget (r_fences r) d = Some head"
  shows "registry_advance r (r\<lparr>r_fences := dset d (head\<lparr>f_close_receipt := c\<rparr>) (r_fences r)\<rparr>)
    \<and> fresh_heads_live r (r\<lparr>r_fences := dset d (head\<lparr>f_close_receipt := c\<rparr>) (r_fences r)\<rparr>)"
proof -
  have "extras_ok fence_keys (f_extras head)" if "registry_shape r"
    using that assms rows_ok_lookup by (fastforce simp: registry_shape_def)
  then show ?thesis
    using assms
    by (auto simp: registry_advance_def registry_shape_def fence_order_def fresh_heads_live_def f_binding_def f_token_def
        intro!: rows_ok_update)
qed

lemma publish_close_preserves:
  assumes inv: "authority_inv h au" and start: "starts_from h au r"
  shows "authority_inv h (snd (publish_close h p s c r au))
    \<and> authority_order h au (snd (publish_close h p s c r au))"
proof -
  define d where "d = resource_sha256 h (s_resource_ref s)"
  have "authority_inv h au' \<and> authority_order h au au'"
    if head: "dget (r_fences r) d = Some head" and
      wr: "write_registry h fate (drop_idle_admission i w (retire_settlement h s
        (r\<lparr>r_fences := dset d (head\<lparr>f_close_receipt := Some c\<rparr>) (r_fences r)\<rparr>))) au = (res, au')"
    for head fate i w res au'
  proof -
    let ?r1 = "r\<lparr>r_fences := dset d (head\<lparr>f_close_receipt := Some c\<rparr>) (r_fences r)\<rparr>"
    let ?r2 = "drop_idle_admission i w (retire_settlement h s ?r1)"
    have "registry_advance r ?r2"
      using publish_close_advance [OF head] retire_idle_advance registry_advance_trans by blast
    moreover have "fresh_heads_live r ?r2"
      unfolding fresh_heads_live_def
    proof (intro allI impI disjI1)
      fix e f assume f: "dget (r_fences ?r2) e = Some f"
      have "r_fences ?r2 = dset d (head\<lparr>f_close_receipt := Some c\<rparr>) (r_fences r)"
        using retire_idle_advance [of ?r1 i w h s] by simp
      with f head show "\<exists>g. dget (r_fences r) e = Some g \<and> f_binding f = f_binding g"
        by (auto simp: f_binding_def f_token_def split: if_splits)
    qed
    ultimately show ?thesis by (rule write_registry_preserves(1) [OF inv start _ _ wr])
  qed
  then show ?thesis
    using inv
    by (auto simp: publish_close_def Let_def d_def split: option.splits sum.splits prod.splits)
qed

lemma finish_commit_preserves:
  assumes inv: "authority_inv h au" and ids: "is_uuid_text (p_uuid p 0)"
    and ex: "extras_ok settlement_keys (s_extras s)"
    and start: "\<And>r. started = Inr r \<Longrightarrow> starts_from h au r"
  shows "authority_inv h (snd (finish_commit h p w i l s started au))
    \<and> authority_order h au (snd (finish_commit h p w i l s started au))"
proof (cases started)
  case (Inl e)
  then show ?thesis using abort_unstarted_preserves [OF inv ids] by (simp add: finish_commit_def)
next
  case (Inr r)
  have "extras_ok settlement_keys (s_extras (committing i s))" using ex by (simp add: committing_def)
  with Inr publish_close_preserves [OF inv start [OF Inr]] record_ambiguous_preserves [OF inv start [OF Inr]]
  show ?thesis by (simp add: finish_commit_def split: sum.split)
qed

lemma started_commit_advance:
  assumes ok: "registry_ok h r" and ex: "extras_ok settlement_keys (s_extras s)"
    and l: "exact_lease s r = Some l"
  shows "registry_advance r (started_commit h' i l s r) \<and> fresh_heads_live r (started_commit h' i l s r)"
proof -
  from l have "dget (r_leases r) (s_lease_id s) = Some l"
    by (auto simp: exact_lease_def split: option.splits if_splits)
  from lease_shape [OF ok this] ex show ?thesis
    by (auto simp: started_commit_def committing_def registry_advance_def registry_shape_def
        fence_order_def intro!: rows_ok_update)
qed

lemma commit_locked_preserves:
  assumes inv: "authority_inv h au" and start: "starts_from h au r" and ids: "is_uuid_text (p_uuid p 0)"
    and row: "dget (r_settlements r) d0 = Some s"
  shows "authority_inv h (snd (commit_settlement_locked h p replay w r s au))
    \<and> authority_order h au (snd (commit_settlement_locked h p replay w r s au))"
proof (cases "exact_lease s r \<noteq> None \<and> s_phase s \<in> set (commit_phases replay) \<and> \<not> isl (now p 0)")
  case False
  then show ?thesis
    using inv by (cases "now p 0") (auto simp: commit_settlement_locked_def split: option.split)
next
  case True
  then obtain l i where l: "exact_lease s r = Some l" and i: "now p 0 = Inr i"
    by (cases "now p 0") auto
  have ok: "registry_ok h r" using start by (simp add: starts_from_def)
  then have ex: "extras_ok settlement_keys (s_extras s)"
    using row rows_ok_lookup registry_ok_shape by (fastforce simp: registry_shape_def)
  obtain started au1 where
    wr: "write_registry h (p_write_fate p 0) (started_commit h i l s r) au = (started, au1)" by fastforce
  note adv = started_commit_advance [OF ok ex l]
  note pres = write_registry_preserves [OF inv start conjunct1 [OF adv] conjunct2 [OF adv] wr]
  have "authority_inv h (snd (finish_commit h p w i l s started au1))
      \<and> authority_order h au1 (snd (finish_commit h p w i l s started au1))"
    using finish_commit_preserves [OF _ ids ex] pres by blast
  with pres(1) authority_order_trans True l i wr show ?thesis
    by (auto simp: commit_settlement_locked_def)
qed

lemma settlement_by_id_row:
  assumes "wf_dict (r_settlements r)" and "settlement_by_id k r = Inr s"
  shows "\<exists>d. dget (r_settlements r) d = Some s"
proof -
  from assms(2)
  obtain c where "filter (\<lambda>s. s_settlement_id s = c) (dvalues (r_settlements r)) = [s]"
    by (auto simp: settlement_by_id_def split: list.splits)
  then have "s \<in> set (dvalues (r_settlements r))" by (metis filter_singleton)
  then show ?thesis using dvalues_lookup [OF assms(1)] by blast
qed

lemma commit_settlement_cases:
  assumes run: "commit_agent_settlement h p k w tok wr au = (res, au')"
  obtains e where "res = Inl e" and "au' = au"
  | r s where "load_registry h p au = Inr r" and "settlement_by_id k r = Inr s"
      and "s_owner_id s = w" and "s_token s = tok"
      and "commit_settlement_locked h p False (ProtectedWriter wr) r s au = (res, au')"
proof (cases "bind_res (bounded 128 w) (\<lambda>_. load_registry h p au)")
  case (Inl e)
  with run show ?thesis by (intro that(1) [of e]) (simp_all add: commit_agent_settlement_def)
next
  case (Inr r)
  note loaded = this
  then have r: "load_registry h p au = Inr r" by auto
  show ?thesis
  proof (cases "settlement_by_id k r")
    case (Inl e)
    with run loaded show ?thesis
      by (intro that(1) [of e]; simp only: commit_agent_settlement_def sum.case) simp_all
  next
    case (Inr s)
    with run loaded have "s_owner_id s \<noteq> w \<or> s_token s \<noteq> tok \<Longrightarrow> res = Inl LeaseOwnershipError \<and> au' = au"
      and "\<not> (s_owner_id s \<noteq> w \<or> s_token s \<noteq> tok) \<Longrightarrow>
        commit_settlement_locked h p False (ProtectedWriter wr) r s au = (res, au')"
      by (simp_all only: commit_agent_settlement_def sum.case if_True if_False prod.inject)
    with r Inr that show ?thesis by blast
  qed
qed

lemma commit_settlement_preserves:
  assumes inv: "authority_inv h au" and ids: "is_uuid_text (p_uuid p 0)"
    and run: "commit_agent_settlement h p k w tok wr au = (res, au')"
  shows "authority_inv h au' \<and> authority_order h au au'"
  using run
proof (cases rule: commit_settlement_cases)
  case (2 r s)
  note start = conjunct1 [OF load_starts [OF inv ids 2(1)]]
  have "wf_dict (r_settlements r)"
    using start by (simp add: starts_from_def registry_ok_def rows_ok_def)
  from settlement_by_id_row [OF this 2(2)] obtain d where "dget (r_settlements r) d = Some s" ..
  from commit_locked_preserves [OF inv start ids this, of False "ProtectedWriter wr"] 2(5)
  show ?thesis by simp
qed (use inv in simp)

section \<open>Repair\<close>

lemma strip_extras_fields [simp]:
  "r_broker_epoch (strip_extras r) = r_broker_epoch r"
  "r_next_sequence (strip_extras r) = r_next_sequence r"
  "r_fences (strip_extras r) = map_rows (f_extras_update (\<lambda>_. [])) (r_fences r)"
  by (simp_all add: strip_extras_def)

lemma strip_extras_advance:
  assumes "registry_ok h r"
  shows "registry_advance r (strip_extras r) \<and> fresh_heads_live r (strip_extras r)"
  using registry_ok_shape [OF strip_extras_ok [OF assms]]
  by (auto simp: registry_advance_def fence_order_def fresh_heads_live_def f_binding_def f_token_def)

lemma repair_preserves:
  assumes inv: "authority_inv h au"
  shows "authority_inv h (snd (snd (repair h p au))) \<and> authority_order h au (snd (snd (repair h p au)))"
proof (cases "read_registry h au = Inr None \<or> isl (read_registry h au)")
  case True
  then show ?thesis
    using inv by (cases "read_registry h au") (auto simp: repair_def split: broker_error.split)
next
  case False
  then obtain r where r: "read_registry h au = Inr (Some r)"
    by (cases "read_registry h au") auto
  have ok: "registry_ok h r" using inv r read_registry_ok by (auto simp: authority_inv_def)
  then have start: "starts_from h au r" using r by (simp add: starts_from_def authority_registry_def)
  have "authority_inv h au' \<and> authority_order h au au'"
    if "write_registry h fate (strip_extras r) au = (res, au')" for fate res au'
    using write_registry_preserves(1) [OF inv start _ _ that] strip_extras_advance [OF ok] by blast
  then show ?thesis
    using inv r
    by (auto simp: repair_def Let_def split: sum.split prod.split broker_error.split)
qed

end
