(* ===== verification/Lease_Reachable.thy ===== *)
theory Lease_Reachable
  imports Lease_Settlement_Steps
begin

text \<open>
  Every operation of the broker as a step on the authority, the authorities that sequences of steps
  reach, and what holds of all of them: they read back, and tokens are fenced over time.
\<close>

section \<open>Transactions of the contract\<close>

lemma run_op_preserves:
  assumes inv: "authority_inv h au" and ids: "is_uuid_text (p_uuid p 0)"
    and ops: "\<And>c. broker_op (body c)"
  shows "authority_inv h (snd (run_op h p checked body au))
    \<and> authority_order h au (snd (run_op h p checked body au))"
proof (cases checked)
  case (Inl e)
  then show ?thesis using inv by (simp add: run_op_def)
next
  case (Inr c)
  obtain res au' where run: "transact h p (body c) au = (res, au')" by fastforce
  from broker_op.transact_preserves [OF ops inv ids run] run Inr show ?thesis
    by (simp add: run_op_def)
qed

section \<open>Recovery\<close>

interpretation bind_capability_op: settlement_keeper "bind_capability_body c" for c
  by (rule settlement_keeperI)
     (auto simp: bind_capability_body_def registry_step_def registry_shape_def fence_order_def
       settlements_kept_def split: option.splits if_splits)

lemma recover_retained_preserves:
  assumes inv: "authority_inv h au" and start: "starts_from h au r" and ids: "is_uuid_text (p_uuid p 0)"
    and row: "dget (r_settlements r) d = Some s"
  shows "authority_inv h (snd (recover_retained h p replay action handler r s au))
    \<and> authority_order h au (snd (recover_retained h p replay action handler r s au))"
proof (cases action)
  case RecoverAbort
  obtain res au' where wr: "write_registry h (p_write_fate p 0) (retire_settlement h s r) au = (res, au')"
    by fastforce
  have "fresh_heads_live r (retire_settlement h s r)" using retire_advance by (intro fresh_heads_live_same) blast
  from write_registry_preserves(1) [OF inv start conjunct1 [OF retire_advance] this wr] inv
  show ?thesis by (simp add: recover_retained_def RecoverAbort wr split: sum.split)
next
  case RecoverCommit
  show ?thesis
  proof (cases handler)
    case (Some rh)
    from commit_locked_preserves [OF inv start ids row, of True "ReplayHandler (replay (rh_callable rh))"] inv
    show ?thesis by (auto simp: recover_retained_def RecoverCommit Some split: sum.split prod.split)
  qed (simp add: recover_retained_def RecoverCommit inv)
qed

lemma recover_preserves:
  assumes inv: "authority_inv h au" and ids: "is_uuid_text (p_uuid p 0)"
  shows "authority_inv h (snd (recover_agent_settlement h p me replay c intent action au))
    \<and> authority_order h au (snd (recover_agent_settlement h p me replay c intent action au))"
proof -
  have "authority_inv h (snd (recover_retained h p replay action handler r s au))
    \<and> authority_order h au (snd (recover_retained h p replay action handler r s au))"
    if "load_registry h p au = Inr r" and "dget (r_settlements r) d = Some s" for r d s handler
    using recover_retained_preserves [OF inv conjunct1 [OF load_starts [OF inv ids that(1)]] ids that(2)] .
  then show ?thesis
    using inv
    by (auto simp: recover_agent_settlement_def split: sum.split option.split)
qed

section \<open>Every operation as a step\<close>

text \<open>
  One step is one call of one operation, with any arguments, clock, liveness and write fate; the
  identifier source gives UUIDs, as \<open>uuid4\<close> does.
\<close>

definition ids_ok :: "providers \<Rightarrow> bool" where
  "ids_ok p \<longleftrightarrow> is_uuid_text (p_uuid p 0)"

inductive broker_step :: "host \<Rightarrow> authority \<Rightarrow> authority \<Rightarrow> bool" for h where
  configure: "ids_ok p \<Longrightarrow> broker_step h au (snd (configure_session_admission h p s pol sl al m au))"
| clear: "ids_ok p \<Longrightarrow> broker_step h au (snd (clear_session_admission h p s au))"
| acquire: "ids_ok p \<Longrightarrow> broker_step h au (snd (acquire_agent h p q au))"
| succeed: "ids_ok p \<Longrightarrow> broker_step h au (snd (acquire_successor h p q ref tok receipt au))"
| reserve: "ids_ok p \<Longrightarrow> broker_step h au (snd (reserve_batch h p amount batch kind q au))"
| claiming: "ids_ok p \<Longrightarrow> broker_step h au (snd (claim h p s kind child opt_ref wt opt_batch ttl au))"
| prepare_call: "ids_ok p \<Longrightarrow>
    broker_step h au (snd (prepare_batch_call h p s batch kind tool ttl parent au))"
| acquire_tree: "ids_ok p \<Longrightarrow>
    broker_step h au (snd (acquire_worktree h p limit owner s ref ttl pid start au))"
| transfer_tree: "ids_ok p \<Longrightarrow>
    broker_step h au (snd (transfer_worktree h p k tok owner pid start au))"
| publish: "ids_ok p \<Longrightarrow>
    broker_step h au (snd (publish_if_token_state h p pl ref tok expected callback au))"
| renew_one: "ids_ok p \<Longrightarrow> broker_step h au (snd (renew h p k tok opt_owner au))"
| release_one: "ids_ok p \<Longrightarrow> broker_step h au (snd (release h p k tok opt_owner au))"
| prepare: "ids_ok p \<Longrightarrow> broker_step h au (snd (prepare_agent_settlement h p k sr au))"
| commit: "ids_ok p \<Longrightarrow> broker_step h au (snd (commit_agent_settlement h p k owner tok writer au))"
| abort: "ids_ok p \<Longrightarrow> broker_step h au (snd (abort_agent_settlement h p k owner tok au))"
| close_owner: "ids_ok p \<Longrightarrow> broker_step h au (snd (close_owner_admission h p owner au))"
| release_all: "ids_ok p \<Longrightarrow> broker_step h au (snd (release_owner h p owner s au))"
| renew_all: "ids_ok p \<Longrightarrow> broker_step h au (snd (renew_session h p s au))"
| release_sess: "ids_ok p \<Longrightarrow> broker_step h au (snd (release_session h p s au))"
| release_term: "ids_ok p \<Longrightarrow> broker_step h au (snd (release_session_if_terminal h p s terminal au))"
| settle: "ids_ok p \<Longrightarrow> broker_step h au (snd (settle_batch h p batch owner s au))"
| renew_slots: "ids_ok p \<Longrightarrow> broker_step h au (snd (renew_batch h p batch opt_owner au))"
| child_done: "ids_ok p \<Longrightarrow> broker_step h au (snd (record_child_terminal h p agent au))"
| parent_done: "ids_ok p \<Longrightarrow> broker_step h au (snd (record_parent_completed h p s tool au))"
| sweeping: "ids_ok p \<Longrightarrow> broker_step h au (snd (sweep h p reaper terminal au))"
| repairing: "ids_ok p \<Longrightarrow> broker_step h au (snd (snd (repair h p au)))"
| open_recovery: "ids_ok p \<Longrightarrow>
    broker_step h au (snd (open_coordinator h p me owner handlers capability au))"
| recover: "ids_ok p \<Longrightarrow>
    broker_step h au (snd (recover_agent_settlement h p me replay c intent action au))"

inductive broker_steps :: "host \<Rightarrow> authority \<Rightarrow> authority \<Rightarrow> bool" for h where
  stop: "broker_steps h au au"
| more: "broker_step h au au1 \<Longrightarrow> broker_steps h au1 au2 \<Longrightarrow> broker_steps h au au2"

definition reachable :: "host \<Rightarrow> authority \<Rightarrow> bool" where
  "reachable h au \<longleftrightarrow> broker_steps h empty_authority au"

lemmas op_defs =
  configure_session_admission_def clear_session_admission_def acquire_agent_def acquire_successor_def
  reserve_batch_def claim_def prepare_batch_call_def acquire_worktree_def transfer_worktree_def
  publish_if_token_state_def renew_def release_def prepare_agent_settlement_def
  abort_agent_settlement_def close_owner_admission_def release_owner_def renew_session_def
  release_session_def release_session_if_terminal_def settle_batch_def renew_batch_def
  record_child_terminal_def record_parent_completed_def sweep_def open_coordinator_def

lemmas op_providers =
  configure_op.broker_op_axioms clear_op.broker_op_axioms acquire_agent_op.broker_op_axioms
  acquire_successor_op.broker_op_axioms reserve_batch_op.broker_op_axioms claim_op.broker_op_axioms
  prepare_call_op.broker_op_axioms acquire_worktree_op.broker_op_axioms
  transfer_worktree_op.broker_op_axioms publish_op.broker_op_axioms renew_op.broker_op_axioms
  release_op.broker_op_axioms prepare_settlement_op.broker_op_axioms abort_op.broker_op_axioms
  close_owner_op.broker_op_axioms release_owner_op.broker_op_axioms
  renew_session_op.broker_op_axioms release_session_op.broker_op_axioms
  release_terminal_op.broker_op_axioms settle_batch_op.broker_op_axioms
  renew_batch_op.broker_op_axioms child_terminal_op.broker_op_axioms
  parent_completed_op.broker_op_axioms sweep_op.broker_op_axioms
  bind_capability_op.broker_op_axioms

lemma configure_provider: "broker_op (\<lambda>archived r. (case a of (s, c) \<Rightarrow> configure_body p s c) archived r)"
  using configure_op.broker_op_axioms by (cases a) simp

lemma broker_step_preserves:
  assumes "broker_step h au au'" and inv: "authority_inv h au"
  shows "authority_inv h au' \<and> authority_order h au au'"
  using assms(1)
proof cases
  case (commit p k owner tok writer)
  obtain res au1 where "commit_agent_settlement h p k owner tok writer au = (res, au1)" by fastforce
  with commit_settlement_preserves [OF inv, of p k owner tok writer] commit show ?thesis
    by (simp add: ids_ok_def)
next
  case (repairing p)
  with repair_preserves [OF inv] show ?thesis by simp
next
  case (recover p me replay c intent action)
  with recover_preserves [OF inv] show ?thesis by (simp add: ids_ok_def)
next
  case (configure p s pol sl al m)
  then show ?thesis
    unfolding op_defs by (auto intro!: run_op_preserves [OF inv] simp: ids_ok_def configure_op.broker_op_axioms split: prod.split)
qed (simp only: op_defs ids_ok_def; rule run_op_preserves [OF inv]; simp add: op_providers)+

section \<open>Reachable authorities\<close>

lemma authority_inv_empty [simp]: "authority_inv h empty_authority"
  by (simp add: authority_inv_def authority_registry_def read_registry_def)
     (simp add: empty_authority_def)

lemma broker_steps_preserve:
  assumes "broker_steps h au au'" and "authority_inv h au"
  shows "authority_inv h au' \<and> authority_order h au au'"
  using assms
proof induction
  case (more au au1 au2)
  then have "authority_inv h au1 \<and> authority_order h au au1"
    using broker_step_preserves by blast
  with more.IH show ?case using authority_order_trans by blast
qed simp

lemma broker_steps_append:
  "broker_steps h a b \<Longrightarrow> broker_steps h b c \<Longrightarrow> broker_steps h a c"
  by (induction rule: broker_steps.induct) (auto intro: broker_steps.more)

lemma reachable_inv: "reachable h au \<Longrightarrow> authority_inv h au"
  using broker_steps_preserve [of h empty_authority au] by (simp add: reachable_def)

lemma reachable_step: "reachable h au \<Longrightarrow> broker_step h au au' \<Longrightarrow> reachable h au'"
  unfolding reachable_def by (blast intro: broker_steps_append more stop)

section \<open>Tokens over time\<close>

text \<open>What a token's state is, in terms of the head of its resource.\<close>

lemma classified:
  assumes "classify_token h p pl ref tok au = Inr st"
  obtains (absent) "read_registry h au = Inr None" and "st = Superseded"
  | (present) r i res l where "read_registry h au = Inr (Some r)" and "now p 0 = Inr i"
      and "canonical_resource_ref pl ref = Inr res"
      and "current_state h i res tok (read_archived_fence h au) r = Inr (st, l)"
proof -
  from assms obtain res v where res: "canonical_resource_ref pl ref = Inr res"
    and v: "read_registry h au = Inr v"
    by (auto simp: classify_token_def inspect_authority_def)
  show ?thesis
  proof (cases v)
    case None
    with assms res v show ?thesis
      by (intro absent) (simp_all add: classify_token_def inspect_authority_def)
  next
    case (Some r)
    with assms res v obtain i l where "now p 0 = Inr i"
      "current_state h i res tok (read_archived_fence h au) r = Inr (st, l)"
      by (auto simp: classify_token_def inspect_authority_def)
    with v Some res show ?thesis by (intro present) simp_all
  qed
qed

text \<open>What an archived or hot head says about a token that is not its own.\<close>

lemma not_head_superseded:
  assumes inv: "authority_inv h au" and r: "read_registry h au = Inr (Some r)"
    and other: "\<And>f. authority_head h au (resource_sha256 h res) = Some f \<Longrightarrow> tok \<noteq> f_token f"
  shows "current_state h i res tok (read_archived_fence h au) r = Inr (Superseded, None)
    \<or> (\<exists>e. current_state h i res tok (read_archived_fence h au) r = Inl e
         \<and> read_archived_fence h au (resource_sha256 h res) = Inl e)"
proof -
  have reg: "authority_registry h au = Some r" using r by (simp add: authority_registry_def)
  have ok: "archive_ok h (au_archive au)" using inv by (simp add: authority_inv_def authority_ok_def)
  let ?d = "resource_sha256 h res"
  show ?thesis
  proof (cases "dget (r_fences r) ?d")
    case (Some f)
    then have "authority_head h au ?d = Some f" using reg by (simp add: authority_head_def)
    with other Some show ?thesis by (simp add: current_state_def Let_def)
  next
    case None
    show ?thesis
    proof (cases "read_archived_fence h au ?d")
      case (Inl e)
      with None show ?thesis by (simp add: current_state_def Let_def)
    next
      case (Inr a)
      have "authority_head h au ?d = a"
        using read_archived_head [OF ok Inr] None reg by (simp add: authority_head_def)
      with other None Inr show ?thesis
        by (auto simp: current_state_def Let_def archived_state_def split: option.splits)
    qed
  qed
qed

lemma archived_state_not_current [simp]: "archived_state r res tok a \<noteq> Current"
  by (simp add: archived_state_def split: option.split)

lemma current_is_head:
  assumes r: "read_registry h au = Inr (Some r)"
    and st: "current_state h i res tok (read_archived_fence h au) r = Inr (Current, l)"
  shows "\<exists>f. authority_head h au (resource_sha256 h res) = Some f \<and> tok = f_token f"
proof -
  have reg: "authority_registry h au = Some r" using r by (simp add: authority_registry_def)
  show ?thesis
  proof (cases "dget (r_fences r) (resource_sha256 h res)")
    case None
    with st show ?thesis by (auto simp: current_state_def Let_def dest: sym)
  next
    case (Some f)
    with st reg show ?thesis
      by (auto simp: current_state_def Let_def authority_head_def split: if_splits option.splits)
  qed
qed

lemma head_below_next:
  assumes inv: "authority_inv h au" and f: "authority_head h au d = Some f"
  shows "f_fencing_sequence f < authority_next h au"
proof (cases "authority_registry h au")
  case None
  with inv f show ?thesis by (simp add: authority_inv_def authority_head_def archived_head_def)
next
  case (Some r)
  then have "read_registry h au = Inr (Some r)"
    by (auto simp: authority_registry_def split: sum.splits)
  then have con: "registry_consistent r"
    using inv read_registry_ok by (fastforce simp: authority_inv_def registry_ok_def)
  show ?thesis
    using f inv consistent_head [OF con] Some
    by (auto simp: authority_head_def authority_next_def authority_inv_def split: option.splits)
qed

text \<open>A head never falls behind.\<close>

lemma head_advances:
  assumes "authority_order h au au'" and inv: "authority_inv h au"
    and f: "authority_head h au d = Some f"
  shows "\<exists>f'. authority_head h au' d = Some f' \<and> f_fencing_sequence f \<le> f_fencing_sequence f'
    \<and> (f_fencing_sequence f' = f_fencing_sequence f \<longrightarrow> f_token f' = f_token f)"
proof -
  from assms(1) f obtain f' where f': "authority_head h au' d = Some f'"
    unfolding authority_order_def by fastforce
  with assms(1) have "(\<exists>g. authority_head h au d = Some g \<and> f_binding f' = f_binding g)
      \<or> authority_next h au \<le> f_fencing_sequence f'"
    unfolding authority_order_def by blast
  with f f' head_below_next [OF inv f] show ?thesis by (auto simp: f_binding_def f_token_def)
qed

end
