(* ===== verification/Lease_Effects.thy ===== *)
theory Lease_Effects
  imports Lease_Reachable
begin

text \<open>
  What one call has done when it returns, and when it raises: the shared way into the functional
  properties of the operations.
\<close>

section \<open>A successful write\<close>

definition authority_of :: "registry \<Rightarrow> json dict \<Rightarrow> authority" where
  "authority_of r archive = \<lparr>au_document = Some (norm_items (registry_to_json r)), au_archive = archive\<rparr>"

lemma read_authority_of:
  assumes "registry_ok h r"
  shows "read_registry h (authority_of r archive) = Inr (Some (norm_registry r))"
  using assms by (simp add: authority_of_def read_registry_def registry_read_back)

lemma load_authority_of:
  assumes "registry_ok h r"
  shows "load_registry h p (authority_of r archive) = Inr (norm_registry r)"
  using read_authority_of [OF assms] by (simp add: load_registry_def)

lemma no_excess: "length (closed_heads r) \<le> max_closed_fences \<Longrightarrow> excess_heads r = []"
  by (simp add: excess_heads_def)

lemma compacted_small: "length (closed_heads r) \<le> max_closed_fences \<Longrightarrow> compacted_registry r = r"
  by (simp add: compacted_registry_def no_excess)

lemma write_small:
  assumes ok: "registry_ok h r" and few: "length (closed_heads r) \<le> max_closed_fences"
  shows "write_registry h Persisted r au = (Inr r, authority_of r (au_archive au))"
  using registry_written [OF ok] no_excess [OF few]
  by (simp add: write_registry_def compact_closed_fences_def authority_of_def)

text \<open>One call that writes, from the registry it loads.\<close>

lemma run_op_small:
  assumes "checked = Inr c" and "load_registry h p au = Inr r"
    and "body c (read_archived_fence h au) r = Inr (x, Some r')"
    and "registry_ok h r'" and "length (closed_heads r') \<le> max_closed_fences"
    and "p_write_fate p 0 = Persisted"
  shows "run_op h p checked body au = (Inr x, authority_of r' (au_archive au))"
  using assms write_small [OF assms(4,5), of au] by (simp add: run_op_def transact_def)

text \<open>What a call that returns has done, whichever operation it is.\<close>

lemma run_op_returned:
  assumes inv: "authority_inv h au" and ids: "ids_ok p" and ops: "\<And>c. broker_op (body c)"
    and run: "run_op h p checked body au = (Inr x, au')"
  obtains (unwritten) c r where "checked = Inr c" and "load_registry h p au = Inr r" and "registry_ok h r"
      and "body c (read_archived_fence h au) r = Inr (x, None)" and "au' = au"
  | (written) c r r' where "checked = Inr c" and "load_registry h p au = Inr r" and "registry_ok h r"
      and "body c (read_archived_fence h au) r = Inr (x, Some r')" and "registry_ok h r'"
      and "registry_advance r r'"
      and "read_registry h au' = Inr (Some (norm_registry (compacted_registry r')))"
      and "\<And>d. archived_head h au' d =
        (case dget (excess_heads r') d of Some f \<Rightarrow> Some (norm_fence f) | None \<Rightarrow> archived_head h au d)"
proof -
  from run obtain c where c: "checked = Inr c" and tr: "transact h p (body c) au = (Inr x, au')"
    by (auto simp: run_op_def split: sum.splits)
  from tr obtain r where load: "load_registry h p au = Inr r"
    by (auto simp: transact_def split: sum.splits)
  have ok: "registry_ok h r" using load_starts [OF inv _ load] ids by (simp add: ids_ok_def)
  from tr load obtain w where b: "body c (read_archived_fence h au) r = Inr (x, w)"
    by (auto simp: transact_def split: sum.splits option.splits prod.splits)
  show ?thesis
  proof (cases w)
    case None
    with tr load b have "au' = au" by (simp add: transact_def)
    with c load ok b None show ?thesis by (intro unwritten) simp_all
  next
    case (Some r')
    with b have b': "body c (read_archived_fence h au) r = Inr (x, Some r')" by simp
    note adv = broker_op.body_advance [OF ops ok b']
    have shape: "registry_shape r'"
      using adv registry_ok_shape [OF ok] by (simp add: registry_advance_def)
    from tr load b' obtain r2 where wr: "write_registry h (p_write_fate p 0) r' au = (Inr r2, au')"
      by (auto simp: transact_def split: sum.splits prod.splits)
    from shape wr show ?thesis
    proof (cases rule: write_registry_cases)
      case (3 au1)
      have doc: "au_document au' = Some (norm_items (registry_to_json (compacted_registry r')))"
        using 3(4) by simp
      have arch: "au_archive au' = au_archive au1" using 3(4) by simp
      show ?thesis
      proof (rule written [OF c load ok b' 3(1) adv])
        show "read_registry h au' = Inr (Some (norm_registry (compacted_registry r')))"
          using registry_read_back [OF compacted_registry_ok [OF 3(1)]]
          by (simp add: read_registry_def doc)
        show "archived_head h au' d = (case dget (excess_heads r') d of Some f \<Rightarrow> Some (norm_fence f)
            | None \<Rightarrow> archived_head h au d)" for d
          using replaced_heads(2) [OF 3(1,2) doc arch] archived_by_view(2) [OF 3(1,2)]
          by (simp split: option.split)
      qed
    qed auto
  qed
qed

text \<open>A call that raises has either done nothing or failed while writing.\<close>

lemma run_op_raised:
  assumes "checked = Inl e \<or> (\<exists>c r. checked = Inr c \<and> load_registry h p au = Inr r
      \<and> body c (read_archived_fence h au) r = Inl e)"
  shows "run_op h p checked body au = (Inl e, au)"
  using assms by (auto simp: run_op_def transact_def)

end
