(* ===== verification/Lease_Demo.thy ===== *)
theory Lease_Demo
  imports Lease_Effects
begin

text \<open>
  A small concrete history, evaluated in the kernel: on one host, owner \<open>o\<close> acquires the agent
  resource \<open>u\<close> and then owner \<open>w\<close> supersedes it.  The properties are applied to it.
\<close>

section \<open>A concrete host\<close>

definition zeros :: string where "zeros = replicate 64 CHR ''0''"

definition demo_host :: host where
  "demo_host = \<lparr>sha256 = (\<lambda>s. replicate 63 CHR ''0'' @ [hex_chars ! (length s mod 16)]), iso_utc = (\<lambda>s. True)\<rparr>"

definition uuid_of :: "char \<Rightarrow> string" where
  "uuid_of c = replicate 8 c @ ''-'' @ replicate 4 c @ ''-'' @ replicate 4 c @ ''-'' @ replicate 4 c
     @ ''-'' @ replicate 12 c"

definition demo_time :: string where "demo_time = ''2026-01-01T00:00:00+00:00''"

text \<open>A call at monotonic instant \<open>t\<close> that draws the identifier of \<open>c\<close>.\<close>

definition demo_providers :: "char \<Rightarrow> int \<Rightarrow> providers" where
  "demo_providers c t =
     \<lparr>p_clock = (\<lambda>_. \<lparr>c_aware = True, c_now_text = demo_time, c_monotonic = t\<rparr>),
      p_boot_id = ''boot'', p_uuid = (\<lambda>k. if k = 0 then uuid_of CHR ''e'' else uuid_of c),
      p_process_exists = (\<lambda>_. True), p_process_identity = (\<lambda>_. Some ''start''),
      p_expiry_text = (\<lambda>s _. s), p_write_fate = (\<lambda>_. Persisted)\<rparr>"

definition demo_ref :: resource_ref where "demo_ref = AgentRef ''u'' None"

definition demo_request :: "string \<Rightarrow> agent_request" where
  "demo_request owner =
     \<lparr>q_owner_id = owner, q_session_id = ''s'', q_policy_sha256 = zeros, q_session_limit = 2,
      q_aggregate_limit = 3, q_mutation = ReadWrite, q_ttl_seconds = 10,
      q_resource_ref = Some (resource_ref_json demo_ref), q_owner_pid = None,
      q_owner_process_start = None, q_agent_id = Some ''a'', q_tool_use_id = None,
      q_agent_type = None, q_batch_id = None, q_parent_agent_id = None,
      q_on_conflict = Supersede\<rparr>"

definition demo_instant :: "int \<Rightarrow> instant" where
  "demo_instant t = \<lparr>i_text = demo_time, i_monotonic = t, i_boot_id = ''boot''\<rparr>"

definition demo_lease :: "char \<Rightarrow> string \<Rightarrow> int \<Rightarrow> int \<Rightarrow> lease" where
  "demo_lease c owner t n =
     granted_lease (request_grant (demo_request owner) (Some demo_ref) None) (demo_instant t) (uuid_of c)
       (uuid_of CHR ''e'') n"

definition demo_registry :: "char \<Rightarrow> string \<Rightarrow> int \<Rightarrow> int \<Rightarrow> registry" where
  "demo_registry c owner t n =
     (fresh_registry (uuid_of CHR ''e''))\<lparr>r_next_sequence := n + 1,
       r_leases := [(uuid_of c, demo_lease c owner t n)],
       r_fences := [(resource_sha256 demo_host demo_ref,
         fresh_head (fresh_registry (uuid_of CHR ''e'')) demo_ref (demo_lease c owner t n))]\<rparr>"

abbreviation demo_reg1 where "demo_reg1 \<equiv> demo_registry CHR ''a'' ''o'' 0 1"
abbreviation demo_reg2 where "demo_reg2 \<equiv> demo_registry CHR ''b'' ''w'' 5 2"

lemma demo_now: "now (demo_providers c t) k = (if t < 0 then Inl LeaseBrokerError else Inr (demo_instant t))"
  by (simp add: now_def demo_providers_def demo_instant_def bounded_def max_id_def)




lemma demo_regs_ok: "registry_ok demo_host demo_reg1" "registry_ok demo_host demo_reg2"
  by code_simp+

lemma demo_regs_small:
  "length (closed_heads demo_reg1) \<le> max_closed_fences" "length (closed_heads demo_reg2) \<le> max_closed_fences"
  by code_simp+

lemma demo_checked: "check_agent_request (demo_providers c t) (demo_request ''o'') = Inr (Some demo_ref, None)"
  "check_agent_request (demo_providers c t) (demo_request ''w'') = Inr (Some demo_ref, None)"
  by code_simp+

lemma demo_first: "acquire_agent_body demo_host (demo_providers CHR ''a'' 0) (demo_request ''o'')
    (Some demo_ref, None) (read_archived_fence demo_host empty_authority)
    (fresh_registry (uuid_of CHR ''e''))
  = Inr (demo_lease CHR ''a'' ''o'' 0 1, Some demo_reg1)"
  by code_simp

lemma demo_norm: "norm_registry demo_reg1 = demo_reg1" "norm_registry demo_reg2 = demo_reg2"
  by code_simp+

lemma demo_second: "acquire_agent_body demo_host (demo_providers CHR ''b'' 5) (demo_request ''w'')
    (Some demo_ref, None) archived demo_reg1
  = Inr (demo_lease CHR ''b'' ''w'' 5 2, Some demo_reg2)"
  by code_simp

section \<open>Two acquisitions of one resource\<close>

abbreviation demo_au1 where "demo_au1 \<equiv> authority_of demo_reg1 []"
abbreviation demo_au2 where "demo_au2 \<equiv> authority_of demo_reg2 []"

lemma demo_epoch: "p_uuid (demo_providers c t) 0 = uuid_of CHR ''e''"
  by (simp add: demo_providers_def)

lemma demo_persisted [simp]: "p_write_fate (demo_providers c t) k = Persisted"
  by (simp add: demo_providers_def)

lemma demo_ids_ok: "ids_ok (demo_providers c t)"
  unfolding ids_ok_def demo_epoch by code_simp

lemma demo_load_empty: "load_registry h (demo_providers c t) empty_authority = Inr (fresh_registry (uuid_of CHR ''e''))"
  by (simp add: load_registry_def read_registry_def empty_authority_def demo_epoch)

lemma demo_load:
  "load_registry demo_host p demo_au1 = Inr demo_reg1" "load_registry demo_host p demo_au2 = Inr demo_reg2"
  using load_authority_of demo_regs_ok demo_norm by auto

lemma demo_read:
  "read_registry demo_host demo_au1 = Inr (Some demo_reg1)"
  "read_registry demo_host demo_au2 = Inr (Some demo_reg2)"
  using read_authority_of demo_regs_ok demo_norm by auto

lemma demo_acquire1: "acquire_agent demo_host (demo_providers CHR ''a'' 0) (demo_request ''o'') empty_authority
    = (Inr (demo_lease CHR ''a'' ''o'' 0 1), demo_au1)"
  unfolding acquire_agent_def
  using run_op_small [where body = "acquire_agent_body demo_host (demo_providers CHR ''a'' 0) (demo_request ''o'')",
    OF demo_checked(1) demo_load_empty demo_first demo_regs_ok(1) demo_regs_small(1)]
  by (simp add: empty_authority_def)

lemma demo_acquire2: "acquire_agent demo_host (demo_providers CHR ''b'' 5) (demo_request ''w'') demo_au1
    = (Inr (demo_lease CHR ''b'' ''w'' 5 2), demo_au2)"
  unfolding acquire_agent_def
  using run_op_small [where body = "acquire_agent_body demo_host (demo_providers CHR ''b'' 5) (demo_request ''w'')",
    OF demo_checked(2) demo_load(1) demo_second demo_regs_ok(2) demo_regs_small(2)]
  by (simp add: authority_of_def)

lemma demo_step1: "broker_step demo_host empty_authority demo_au1"
  using broker_step.acquire [OF demo_ids_ok, of demo_host empty_authority "CHR ''a''" 0 "demo_request ''o''"]
  by (simp add: demo_acquire1)

lemma demo_step2: "broker_step demo_host demo_au1 demo_au2"
  using broker_step.acquire [OF demo_ids_ok, of demo_host demo_au1 "CHR ''b''" 5 "demo_request ''w''"]
  by (simp add: demo_acquire2)

lemma demo_reachable: "reachable demo_host demo_au1" "reachable demo_host demo_au2"
  unfolding reachable_def
  using demo_step1 demo_step2 by (blast intro: broker_steps.more broker_steps.stop)+

lemma demo_heads:
  "dget (r_fences (demo_registry c w t n)) (resource_sha256 demo_host demo_ref)
     = Some (fresh_head (fresh_registry (uuid_of CHR ''e'')) demo_ref (demo_lease c w t n))"
  by (simp add: demo_registry_def)

lemma demo_authority_heads:
  "authority_head demo_host demo_au1 (resource_sha256 demo_host demo_ref)
     = Some (fresh_head (fresh_registry (uuid_of CHR ''e'')) demo_ref (demo_lease CHR ''a'' ''o'' 0 1))"
  "authority_head demo_host demo_au2 (resource_sha256 demo_host demo_ref)
     = Some (fresh_head (fresh_registry (uuid_of CHR ''e'')) demo_ref (demo_lease CHR ''b'' ''w'' 5 2))"
  unfolding authority_head_def authority_registry_def demo_read by (simp_all add: demo_heads)

section \<open>Further calls on the concrete history\<close>

lemma run_op_of:
  assumes "checked = Inr c" and "load_registry h p (authority_of r a) = Inr r"
    and "\<And>archived. body c archived r = Inr (x, Some r')" and "registry_ok h r'"
    and "length (closed_heads r') \<le> max_closed_fences" and "p_write_fate p 0 = Persisted"
  shows "run_op h p checked body (authority_of r a) = (Inr x, authority_of r' a)"
  using run_op_small [where body = body, OF assms(1,2) assms(3) assms(4-6)] by (simp add: authority_of_def)

definition demo_call :: agent_request where
  "demo_call = (demo_request ''o'')\<lparr>q_resource_ref := None, q_agent_id := None, q_tool_use_id := Some ''t''\<rparr>"

definition demo_call_lease :: lease where
  "demo_call_lease =
     granted_lease (request_grant demo_call None None) (demo_instant 0) (uuid_of CHR ''a'') (uuid_of CHR ''e'') 1"

definition demo_call_registry :: registry where
  "demo_call_registry = (fresh_registry (uuid_of CHR ''e''))\<lparr>r_next_sequence := 2,
     r_leases := [(uuid_of CHR ''a'', demo_call_lease)]\<rparr>"

abbreviation demo_au_call where "demo_au_call \<equiv> authority_of demo_call_registry []"

lemma demo_called: "acquire_agent demo_host (demo_providers CHR ''a'' 0) demo_call empty_authority
    = (Inr demo_call_lease, demo_au_call)"
proof -
  have "check_agent_request (demo_providers CHR ''a'' 0) demo_call = Inr (None, None)" by code_simp
  moreover have "acquire_agent_body demo_host (demo_providers CHR ''a'' 0) demo_call (None, None)
      (read_archived_fence demo_host empty_authority) (fresh_registry (uuid_of CHR ''e''))
    = Inr (demo_call_lease, Some demo_call_registry)" by code_simp
  moreover have "registry_ok demo_host demo_call_registry" by code_simp
  moreover have "length (closed_heads demo_call_registry) \<le> max_closed_fences" by code_simp
  ultimately show ?thesis
    unfolding acquire_agent_def
    using run_op_small [where body = "acquire_agent_body demo_host (demo_providers CHR ''a'' 0) demo_call",
      OF _ demo_load_empty]
    by (simp add: empty_authority_def)
qed

definition demo_close :: owner_close where
  "demo_close = \<lparr>o_closed_at = demo_time, o_boot_id = ''boot'', o_close_generation = 2, o_extras = []\<rparr>"

definition demo_closed_registry :: registry where
  "demo_closed_registry = demo_reg1\<lparr>r_next_sequence := 3, r_closed_owners := [(''o'', demo_close)]\<rparr>"

lemma demo_closing: "close_owner_admission demo_host (demo_providers CHR ''c'' 6) ''o'' demo_au1
    = (Inr (''o'', demo_close), authority_of demo_closed_registry [])"
proof -
  have "bounded max_id ''o'' = Inr ''o''" by code_simp
  moreover have "close_owner_body (demo_providers CHR ''c'' 6) ''o'' archived demo_reg1
    = Inr ((''o'', demo_close), Some demo_closed_registry)" for archived by code_simp
  moreover have "registry_ok demo_host demo_closed_registry" by code_simp
  moreover have "length (closed_heads demo_closed_registry) \<le> max_closed_fences" by code_simp
  ultimately show ?thesis
    unfolding close_owner_admission_def by (rule run_op_of [OF _ demo_load(1)]) simp_all
qed

definition demo_settlement_request :: settlement_request where
  "demo_settlement_request =
     \<lparr>sr_token = FencingToken (uuid_of CHR ''e'') 2, sr_owner_id = ''w'', sr_producer = hd producers,
      sr_run_id = ''run'', sr_expected_output_sha256 = zeros, sr_write_intent_sha256 = zeros\<rparr>"

definition demo_settlement :: settlement where
  "demo_settlement = prepared_settlement (uuid_of CHR ''d'') (uuid_of CHR ''b'') (demo_instant 6)
     demo_settlement_request (demo_lease CHR ''b'' ''w'' 5 2) demo_ref zeros None"

definition demo_retaining :: registry where
  "demo_retaining = demo_reg2\<lparr>r_leases := [(uuid_of CHR ''b'', renewed (demo_instant 6) (demo_lease CHR ''b'' ''w'' 5 2))],
     r_settlements := [(resource_sha256 demo_host demo_ref, demo_settlement)]\<rparr>"

abbreviation demo_au_retaining where "demo_au_retaining \<equiv> authority_of demo_retaining []"

lemma demo_preparing: "prepare_agent_settlement demo_host (demo_providers CHR ''d'' 6) (uuid_of CHR ''b'')
    demo_settlement_request demo_au2 = (Inr demo_settlement, demo_au_retaining)"
proof -
  have "check_settlement_request (uuid_of CHR ''b'') demo_settlement_request = Inr (uuid_of CHR ''b'')" by code_simp
  moreover have "prepare_settlement_body demo_host (demo_providers CHR ''d'' 6) demo_settlement_request
      (uuid_of CHR ''b'') archived demo_reg2 = Inr (demo_settlement, Some demo_retaining)" for archived
    by code_simp
  moreover have "registry_ok demo_host demo_retaining" by code_simp
  moreover have "length (closed_heads demo_retaining) \<le> max_closed_fences" by code_simp
  ultimately show ?thesis
    unfolding prepare_agent_settlement_def by (rule run_op_of [OF _ demo_load(2)]) simp_all
qed

end
