(* ===== verification/Lease_Fencing.thy ===== *)
theory Lease_Fencing
  imports Lease_Demo
begin

text \<open>
  The safety properties of the broker over any sequence of calls: reads never find a corrupt
  registry, a resource has one current token, and a token that its resource has passed stays
  superseded.
\<close>

lemma demo_current: "classify_token demo_host (demo_providers CHR ''c'' 9) AgentPool (resource_ref_json demo_ref)
    (FencingToken (uuid_of CHR ''e'') 2) demo_au2 = Inr Current"
proof -
  have "canonical_resource_ref AgentPool (resource_ref_json demo_ref) = Inr demo_ref" by code_simp
  moreover have "current_state demo_host (demo_instant 9) demo_ref (FencingToken (uuid_of CHR ''e'') 2)
      archived demo_reg2 = Inr (Current, Some (demo_lease CHR ''b'' ''w'' 5 2))" for archived
    by code_simp
  ultimately show ?thesis
    by (simp add: classify_token_def inspect_authority_def demo_read demo_now)
qed

text \<open>C11: Every authority that any sequence of broker calls produces, whatever their arguments, clocks,
  process table and write failures, reads back: the next call finds no registry or a well-formed
  one, never a corrupt one.\<close>

theorem reachable_reads_back:
  assumes "reachable h au"
  shows "\<exists>v. read_registry h au = Inr v
    \<and> (\<forall>r \<in> set_option v. registry_ok h r \<and> length (closed_heads r) \<le> max_closed_fences)"
proof -
  have inv: "authority_inv h au" by (rule reachable_inv [OF assms])
  obtain v where v: "read_registry h au = Inr v" using read_registry_total [OF authority_inv_ok [OF inv]] by blast
  have "registry_ok h r \<and> length (closed_heads r) \<le> max_closed_fences" if "v = Some r" for r
    using read_registry_ok [OF authority_inv_ok [OF inv]] inv v that
    by (simp add: authority_inv_def authority_registry_def)
  with v show ?thesis by auto
qed

theorem reachable_reads_back_witness:
  "\<exists>v. read_registry demo_host demo_au2 = Inr v
    \<and> (\<forall>r \<in> set_option v. registry_ok demo_host r \<and> length (closed_heads r) \<le> max_closed_fences)"
  by (rule reachable_reads_back [OF demo_reachable(2)])

text \<open>C1: Fencing.  Once the head of a resource has passed a token, the token is superseded in every
  later authority: classification says so, or refuses because the clock or the archived fence
  cannot be read.\<close>

theorem fenced_forever:
  assumes "reachable h au" and "broker_steps h au au'"
    and "canonical_resource_ref pl ref = Inr res"
    and "authority_head h au (resource_sha256 h res) = Some f"
    and "tok_seq tok < f_fencing_sequence f"
  shows "classify_token h p pl ref tok au' = Inr Superseded
    \<or> (\<exists>e. classify_token h p pl ref tok au' = Inl e
         \<and> (now p 0 = Inl e \<or> read_archived_fence h au' (resource_sha256 h res) = Inl e))"
proof -
  have inv: "authority_inv h au" by (rule reachable_inv [OF assms(1)])
  from broker_steps_preserve [OF assms(2) inv] have inv': "authority_inv h au'"
    and order: "authority_order h au au'" by simp_all
  have other: "tok \<noteq> f_token g" if "authority_head h au' (resource_sha256 h res) = Some g" for g
    using head_advances [OF order inv assms(4)] that assms(5) by (auto simp: f_token_def)
  obtain v where v: "read_registry h au' = Inr v"
    using read_registry_total [OF authority_inv_ok [OF inv']] by blast
  show ?thesis
  proof (cases v)
    case (Some r)
    with v have r: "read_registry h au' = Inr (Some r)" by simp
    show ?thesis
    proof (cases "now p 0")
      case (Inr i)
      note not_head_superseded [where i = i and res = res and tok = tok, OF inv' r other]
      then show ?thesis
        using assms(3) r Inr by (auto simp: classify_token_def inspect_authority_def)
    qed (use assms(3) r in \<open>simp add: classify_token_def inspect_authority_def\<close>)
  qed (use v assms(3) in \<open>simp add: classify_token_def inspect_authority_def\<close>)
qed

theorem fenced_forever_witness:
  "classify_token demo_host (demo_providers CHR ''c'' 9) AgentPool (resource_ref_json demo_ref)
       (FencingToken (uuid_of CHR ''e'') 1) demo_au2 = Inr Superseded
   \<or> (\<exists>e. classify_token demo_host (demo_providers CHR ''c'' 9) AgentPool (resource_ref_json demo_ref)
       (FencingToken (uuid_of CHR ''e'') 1) demo_au2 = Inl e
     \<and> (now (demo_providers CHR ''c'' 9) 0 = Inl e
        \<or> read_archived_fence demo_host demo_au2 (resource_sha256 demo_host demo_ref) = Inl e))"
proof (rule fenced_forever [OF demo_reachable(2) broker_steps.stop _ demo_authority_heads(2)])
  show "canonical_resource_ref AgentPool (resource_ref_json demo_ref) = Inr demo_ref" by code_simp
qed (simp add: demo_lease_def)

text \<open>At any authority at most one token of a resource is current: while one classifies as
  current, no other does, whatever the clocks of the two readers.\<close>

lemma one_current_token:
  assumes "classify_token h p pl ref tok au = Inr Current" and "tok' \<noteq> tok"
  shows "classify_token h p' pl ref tok' au \<noteq> Inr Current"
proof
  assume other: "classify_token h p' pl ref tok' au = Inr Current"
  from assms(1) obtain r i res l where 1: "read_registry h au = Inr (Some r)"
    "canonical_resource_ref pl ref = Inr res"
    "current_state h i res tok (read_archived_fence h au) r = Inr (Current, l)"
    by (rule classified) simp_all
  from other obtain s j res' m where 2: "read_registry h au = Inr (Some s)"
    "canonical_resource_ref pl ref = Inr res'"
    "current_state h j res' tok' (read_archived_fence h au) s = Inr (Current, m)"
    by (rule classified) simp_all
  from current_is_head [OF 1(1,3)] current_is_head [OF 2(1,3)] 1(2) 2(2) assms(2) show False by auto
qed

theorem one_current_token_witness:
  "classify_token demo_host (demo_providers CHR ''d'' 11) AgentPool (resource_ref_json demo_ref)
     (FencingToken (uuid_of CHR ''e'') 1) demo_au2 \<noteq> Inr Current"
  by (rule one_current_token [OF demo_current]) simp

text \<open>C12: Over any sequence of calls the head of a resource never disappears and its sequence number
  never goes back; it changes only to a larger one.\<close>

theorem heads_never_go_back:
  assumes "reachable h au" and "broker_steps h au au'" and "authority_head h au d = Some f"
  shows "\<exists>f'. authority_head h au' d = Some f' \<and> f_fencing_sequence f \<le> f_fencing_sequence f'
    \<and> (f_fencing_sequence f' = f_fencing_sequence f \<longrightarrow> f_token f' = f_token f)"
  using head_advances broker_steps_preserve [OF assms(2)] reachable_inv [OF assms(1)] assms(3) by blast

theorem heads_never_go_back_witness:
  "\<exists>f'. authority_head demo_host demo_au2 (resource_sha256 demo_host demo_ref) = Some f'
    \<and> f_fencing_sequence (fresh_head (fresh_registry (uuid_of CHR ''e'')) demo_ref (demo_lease CHR ''a'' ''o'' 0 1))
        \<le> f_fencing_sequence f'
    \<and> (f_fencing_sequence f' = f_fencing_sequence
           (fresh_head (fresh_registry (uuid_of CHR ''e'')) demo_ref (demo_lease CHR ''a'' ''o'' 0 1)) \<longrightarrow>
         f_token f' = f_token (fresh_head (fresh_registry (uuid_of CHR ''e'')) demo_ref (demo_lease CHR ''a'' ''o'' 0 1)))"
  by (rule heads_never_go_back [OF demo_reachable(1) broker_steps.more [OF demo_step2 broker_steps.stop]
        demo_authority_heads(1)])

end
