(* ===== verification/Lease_Ownership.thy ===== *)
theory Lease_Ownership
  imports Lease_Fencing
begin

text \<open>
  What an acquisition stores: the rows of the lease and of the head it makes current, and that the
  token it hands out is the resource's current and newest one.
\<close>

section \<open>What an acquisition stores\<close>

lemma lookup_after_new_lease:
  assumes new: "new_lease h k g i r = Inr (l, r')" and res: "g_resource_ref g = Some res"
  shows "l = granted_lease g i k (r_broker_epoch r) (r_next_sequence r)"
    and "dget (r_leases r') k = Some l"
    and "dget (r_fences r') (resource_sha256 h res) = Some (fresh_head r res l)"
    and "dget (r_settlements r') (resource_sha256 h res) = None"
    and "r_broker_epoch r' = r_broker_epoch r"
proof -
  define r2 where "r2 = r\<lparr>r_next_sequence := r_next_sequence r + 1,
    r_leases := dset k (granted_lease g i k (r_broker_epoch r) (r_next_sequence r)) (r_leases r)\<rparr>"
  from new res have l: "l = granted_lease g i k (r_broker_epoch r) (r_next_sequence r)"
    and mk: "make_resource_current h l r2 = Inr r'"
    by (auto simp: new_lease_def issue_sequence_def r2_def Let_def)
  from l show "l = granted_lease g i k (r_broker_epoch r) (r_next_sequence r)" .
  have self: "dget (r_leases r2) (l_lease_id l) = Some l" by (simp add: r2_def l)
  from mk res show "dget (r_leases r') k = Some l"
    "dget (r_fences r') (resource_sha256 h res) = Some (fresh_head r res l)"
    "dget (r_settlements r') (resource_sha256 h res) = None"
    "r_broker_epoch r' = r_broker_epoch r"
    using leases_without_prior_self [OF self, of "resource_sha256 h res"]
    by (auto simp: make_current_result l fresh_head_def r2_def)
qed

text \<open>A row of a registry that was written, as the next call reads it.\<close>

lemma stored_rows:
  assumes "registry_ok h r"
  shows "dget (r_leases (norm_registry (compacted_registry r))) k = map_option norm_lease (dget (r_leases r) k)"
    and "dget (r_settlements (norm_registry (compacted_registry r))) d
      = map_option norm_settlement (dget (r_settlements r) d)"
    and "dget (r_closed_owners (norm_registry (compacted_registry r))) w
      = map_option norm_owner_close (dget (r_closed_owners r) w)"
  using assms by (simp_all add: registry_ok_def rows_ok_def)

lemma stored_head:
  assumes ok: "registry_ok h r" and f: "dget (r_fences r) d = Some f"
    and l: "dget (r_leases r) (f_lease_id f) \<noteq> None"
  shows "dget (r_fences (norm_registry (compacted_registry r))) d = Some (norm_fence f)"
proof -
  have wf: "wf_dict (r_fences r)" and wfc: "wf_dict (r_fences (compacted_registry r))"
    using ok compacted_registry_ok [OF ok] by (simp_all add: registry_ok_def rows_ok_def)
  have "dget (excess_heads r) d = None"
    using excess_heads_lookup [OF wf, of d] f l by (cases "dget (excess_heads r) d") auto
  then show ?thesis by (simp add: wfc compacted_lookup [OF wf] f)
qed

lemma granted_lease_stored [simp]: "norm_lease (granted_lease g i k e n) = granted_lease g i k e n"
  by (simp add: granted_lease_def norm_lease_def)

lemma fresh_head_stored [simp]: "norm_fence (fresh_head r res l) = fresh_head r res l"
  by (simp add: fresh_head_def norm_fence_def)

lemma granted_not_expired: "0 < g_ttl_seconds g \<Longrightarrow> \<not> expired i (granted_lease g i k e n)"
  by (simp add: expired_def granted_lease_def nanoseconds_def)

lemma granted_token: "f_token (fresh_head r res l) = l_token l" if "l_broker_epoch l = r_broker_epoch r"
  using that by (simp add: f_token_def l_token_def fresh_head_def)

text \<open>The state of the token of a grant in the registry that was written.\<close>

lemma granted_current:
  assumes new: "new_lease h k g i r = Inr (l, r')" and res: "g_resource_ref g = Some res"
    and ok: "registry_ok h r'" and ttl: "0 < g_ttl_seconds g"
  shows "current_state h i res (l_token l) archived (norm_registry (compacted_registry r')) = Inr (Current, Some l)"
proof -
  note look = lookup_after_new_lease [OF new res]
  have "dget (r_fences (norm_registry (compacted_registry r'))) (resource_sha256 h res)
      = Some (fresh_head r res l)"
    using stored_head [OF ok look(3)] look(1,2) by simp
  moreover have "l_broker_epoch l = r_broker_epoch r" "l_lease_id l = k" by (simp_all add: look(1))
  moreover have "tok_epoch (l_token l) = r_broker_epoch r" using calculation by (simp add: l_token_def)
  moreover have "\<not> expired i l" using granted_not_expired [OF ttl] by (simp add: look(1))
  moreover have "norm_lease l = l" "l_resource_ref l = Some res" by (simp_all add: look(1) res)
  moreover have "r_broker_epoch (norm_registry (compacted_registry r')) = r_broker_epoch r'" by simp
  ultimately show ?thesis
    using look(2,4,5)
    by (simp add: current_state_def Let_def stored_rows [OF ok] granted_token del: norm_registry_fields)
qed

text \<open>The authority a call starts from and the registry it loads.\<close>

lemma loaded_next:
  assumes "authority_inv h au" and "ids_ok p" and "load_registry h p au = Inr r"
  shows "authority_next h au = r_next_sequence r"
  using starts_from_view(3) load_starts_from assms by (simp add: ids_ok_def)

lemma optional_bounded_same: "optional_bounded n v = Inr w \<Longrightarrow> w = v"
  by (auto simp: optional_bounded_def split: option.splits)

lemma replay_some: "replay_acquire q ls = Inr (Some l) \<Longrightarrow> ls = [l]"
  by (auto simp: replay_acquire_def split: list.splits if_splits)

text \<open>An acquisition that returns found the one provisional lease of its tool use, or granted a lease.\<close>

lemma acquire_cases:
  assumes inv: "authority_inv h au" and ids: "ids_ok p"
    and run: "acquire_agent h p q au = (Inr l, au')"
  obtains (replayed) t i r where "q_tool_use_id q = Some t" and "now p 0 = Inr i"
    and "read_registry h au = Inr (Some r)" and "provisional_calls i (q_session_id q) t r = [l]"
    and "au' = au"
  | (granted) res start i r r1 r2 r' where "check_agent_request p q = Inr (res, start)" and "now p 0 = Inr i"
    and "load_registry h p au = Inr r" and "registry_ok h r"
    and "require_owner_admission_open (q_owner_id q) r = Inr ()"
    and "drop_prior_of_request h p q i res (read_archived_fence h au) r = Inr r1"
    and "admit_agent p i (q_session_id q) (q_snapshot q) 1 r1 = Inr r2"
    and "new_lease h (p_uuid p 1) (request_grant q res start) i r2 = Inr (l, r')"
    and "registry_ok h r'"
    and "read_registry h au' = Inr (Some (norm_registry (compacted_registry r')))"
  using inv ids acquire_agent_op.broker_op_axioms run [unfolded acquire_agent_def]
proof (cases rule: run_op_returned)
  case (unwritten c r)
  from unwritten(4) obtain t i where *: "q_tool_use_id q = Some t" "now p 0 = Inr i"
    "replay_acquire q (provisional_calls i (q_session_id q) t r) = Inr (Some l)"
    by (auto simp: acquire_agent_body_def split: prod.splits option.splits dest: optional_bounded_same)
  note one = replay_some [OF *(3)]
  have "read_registry h au = Inr (Some r)"
    using unwritten(2) one by (auto simp: load_registry_def provisional_calls_def fresh_registry_def split: option.splits)
  with unwritten(5) * one show ?thesis by (intro replayed) simp_all
next
  case (written c r r')
  obtain res start where c: "c = (res, start)" by (cases c)
  from written(4) [unfolded c] acquire_agent_result obtain i r1 r2 where
    "now p 0 = Inr i" "require_owner_admission_open (q_owner_id q) r = Inr ()"
    "drop_prior_of_request h p q i res (read_archived_fence h au) r = Inr r1"
    "admit_agent p i (q_session_id q) (q_snapshot q) 1 r1 = Inr r2"
    "new_lease h (p_uuid p 1) (request_grant q res start) i r2 = Inr (l, r')" by blast
  with written c show ?thesis by (intro granted) simp_all
qed

lemma acquire_fresh:
  assumes inv: "authority_inv h au" and ids: "ids_ok p" and tool: "q_tool_use_id q = None"
    and run: "acquire_agent h p q au = (Inr l, au')"
  obtains res start i r r1 r2 r' where "check_agent_request p q = Inr (res, start)" and "now p 0 = Inr i"
    and "load_registry h p au = Inr r" and "registry_ok h r"
    and "require_owner_admission_open (q_owner_id q) r = Inr ()"
    and "drop_prior_of_request h p q i res (read_archived_fence h au) r = Inr r1"
    and "admit_agent p i (q_session_id q) (q_snapshot q) 1 r1 = Inr r2"
    and "new_lease h (p_uuid p 1) (request_grant q res start) i r2 = Inr (l, r')"
    and "registry_ok h r'"
    and "read_registry h au' = Inr (Some (norm_registry (compacted_registry r')))"
  using inv ids run by (cases rule: acquire_cases) (use tool in \<open>simp_all add: that\<close>)

text \<open>C2: An agent that acquires a resource, by a request that names no tool use, holds its current
  token: at once classification says so, and the token is newer than the head of every resource.\<close>

theorem acquired_token_current:
  assumes "reachable h au" and "ids_ok p" and "q_tool_use_id q = None" and "q_resource_ref q = Some ref"
    and "acquire_agent h p q au = (Inr l, au')"
  shows "classify_token h p AgentPool ref (l_token l) au' = Inr Current
    \<and> (\<forall>d f. authority_head h au d = Some f \<longrightarrow> f_fencing_sequence f < l_fencing_sequence l)"
proof (intro conjI allI impI)
  have inv: "authority_inv h au" by (rule reachable_inv [OF assms(1)])
  from inv assms(2,3,5) show "classify_token h p AgentPool ref (l_token l) au' = Inr Current"
  proof (cases rule: acquire_fresh)
    case (1 res start i r r1 r2 r')
    then obtain rf where rf: "canonical_resource_ref AgentPool ref = Inr rf" "res = Some rf"
      and ttl: "0 < q_ttl_seconds q"
      using assms(4) by (auto simp: check_agent_request_def optional_agent_ref_def)
    have "current_state h i rf (l_token l) (read_archived_fence h au') (norm_registry (compacted_registry r'))
        = Inr (Current, Some l)"
      using granted_current [OF 1(8) _ 1(9)] rf(2) ttl by (simp add: request_grant_def)
    with 1(2,10) rf(1) show ?thesis by (simp add: classify_token_def inspect_authority_def)
  qed
next
  have inv: "authority_inv h au" by (rule reachable_inv [OF assms(1)])
  fix d f assume f: "authority_head h au d = Some f"
  from inv assms(2,3,5) show "f_fencing_sequence f < l_fencing_sequence l"
  proof (cases rule: acquire_fresh)
    case (1 res start i r r1 r2 r')
    have "r_next_sequence r2 = r_next_sequence r"
      using 1(6,7) by (auto simp: drop_prior_of_request_def drop_superseded_resource_lease_def Let_def
          purge_orphan_admissions_def split: option.splits if_splits dest!: admit_agent_purged)
    moreover have "l_fencing_sequence l = r_next_sequence r2"
      using 1(8) by (auto simp: new_lease_def issue_sequence_def Let_def split: if_splits)
    ultimately show ?thesis
      using head_below_next [OF inv f] loaded_next [OF inv assms(2) 1(3)] by simp
  qed
qed

theorem acquired_token_current_witness:
  "classify_token demo_host (demo_providers CHR ''b'' 5) AgentPool (resource_ref_json demo_ref)
      (l_token (demo_lease CHR ''b'' ''w'' 5 2)) demo_au2 = Inr Current
   \<and> f_fencing_sequence (fresh_head (fresh_registry (uuid_of CHR ''e'')) demo_ref (demo_lease CHR ''a'' ''o'' 0 1))
        < l_fencing_sequence (demo_lease CHR ''b'' ''w'' 5 2)"
proof -
  have "q_tool_use_id (demo_request ''w'') = None" "q_resource_ref (demo_request ''w'') = Some (resource_ref_json demo_ref)"
    by (simp_all add: demo_request_def)
  from acquired_token_current [OF demo_reachable(1) demo_ids_ok this demo_acquire2] demo_authority_heads(1)
  show ?thesis by blast
qed

end
