(* ===== verification/Lease_Capacity.thy ===== *)
theory Lease_Capacity
  imports Lease_Ownership
begin

text \<open>
  Capacity after a grant, and the atomicity of a call: the registry is the old one or the one the
  call wrote.
\<close>

section \<open>Capacity\<close>

definition counts_as_agent :: "instant \<Rightarrow> registry \<Rightarrow> lease \<Rightarrow> bool" where
  "counts_as_agent i r l \<longleftrightarrow>
     (l_lease_id l \<in> set (retained_ids r) \<or> \<not> expired i l) \<and> l_pool l = AgentPool"

lemma live_agents_eq: "live_agents i r = filter (counts_as_agent i r) (dvalues (r_leases r))"
  by (auto simp: live_agents_def live_def counts_as_agent_def intro: filter_cong)

lemma retained_ids_stored [simp]:
  "set (retained_ids (norm_registry (compacted_registry r))) = set (retained_ids r)"
  by (force simp: retained_ids_def set_norm_rows image_image)

lemma expired_norm [simp]: "expired i (norm_lease l) = expired i l"
  by (simp add: expired_def norm_lease_def)

lemma counts_stored [simp]:
  "counts_as_agent i (norm_registry (compacted_registry r)) (norm_lease l) = counts_as_agent i r l"
  by (simp add: counts_as_agent_def) (simp add: norm_lease_def)

lemma length_filter_stored:
  assumes "\<And>l. P (norm_lease l) = Q l"
  shows "length (filter P (dvalues (norm_rows norm_lease d))) = length (filter Q (dvalues d))"
proof -
  have "length (filter P (dvalues (norm_rows norm_lease d)))
      = length (filter Q (dvalues (dsort d)))"
    unfolding norm_rows_def map_rows_def
    by (induction "dsort d") (auto simp: assms filter_map comp_def case_prod_unfold)
  also have "\<dots> = length (filter Q (dvalues d))"
    using mset_dsort [of d] by (metis mset_filter mset_map size_mset)
  finally show ?thesis .
qed

lemma session_agents_eq:
  "session_agents i s r = filter (\<lambda>l. counts_as_agent i r l \<and> l_session_id l = s) (dvalues (r_leases r))"
  by (auto simp: session_agents_def live_agents_eq intro: filter_cong)

lemma agents_stored:
  "length (live_agents i (norm_registry (compacted_registry r))) = length (live_agents i r)"
  "length (session_agents i s (norm_registry (compacted_registry r))) = length (session_agents i s r)"
proof -
  have "l_session_id (norm_lease l) = l_session_id l" for l by (simp add: norm_lease_def)
  then show "length (live_agents i (norm_registry (compacted_registry r))) = length (live_agents i r)"
    "length (session_agents i s (norm_registry (compacted_registry r))) = length (session_agents i s r)"
    unfolding live_agents_eq session_agents_eq norm_registry_fields compacted_registry_fields
    by (intro length_filter_stored; simp)+
qed

lemma count_after_set: "length (filter P (dvalues (dset k v d))) \<le> Suc (length (filter P (dvalues d)))"
  by (induction d) auto

lemma count_after_delete: "length (filter P (dvalues (ddel k d))) \<le> length (filter P (dvalues d))"
  by (induction d) auto

lemma values_after_set: "set (dvalues (dset k v d)) \<subseteq> insert v (set (dvalues d))"
  by (induction d) auto

lemma values_after_delete: "set (dvalues (ddel k d)) \<subseteq> set (dvalues d)"
  by (induction d) auto

lemma leases_without_prior_cases:
  "leases_without_prior r d l = r_leases r \<or> (\<exists>k. leases_without_prior r d l = ddel k (r_leases r))"
  by (auto simp: leases_without_prior_def split: option.splits)

lemma new_lease_rows:
  assumes "new_lease h k g i r = Inr (l, r')"
  shows "(r_leases r' = dset k l (r_leases r) \<or> (\<exists>c. r_leases r' = ddel c (dset k l (r_leases r))))
    \<and> r_settlements r' = r_settlements r"
proof -
  define r2 where "r2 = r\<lparr>r_next_sequence := r_next_sequence r + 1, r_leases := dset k l (r_leases r)\<rparr>"
  from assms have "r' = r2 \<or> make_resource_current h l r2 = Inr r'"
    by (auto simp: new_lease_def issue_sequence_def Let_def r2_def split: if_splits)
  then have "(r_leases r' = r_leases r2 \<or> (\<exists>d. r_leases r' = leases_without_prior r2 d l))
      \<and> r_settlements r' = r_settlements r2"
    by (auto simp: make_current_result)
  moreover have "r_leases r2 = dset k l (r_leases r)" "r_settlements r2 = r_settlements r"
    by (simp_all add: r2_def)
  ultimately show ?thesis using leases_without_prior_cases by metis
qed

lemma new_lease_count:
  assumes "new_lease h k g i r = Inr (l, r')"
  shows "length (filter P (dvalues (r_leases r'))) \<le> Suc (length (filter P (dvalues (r_leases r))))"
    and "set (dvalues (r_leases r')) \<subseteq> insert l (set (dvalues (r_leases r)))"
proof -
  from new_lease_rows [OF assms]
  consider "r_leases r' = dset k l (r_leases r)" | c where "r_leases r' = ddel c (dset k l (r_leases r))" by blast
  then have "length (filter P (dvalues (r_leases r'))) \<le> length (filter P (dvalues (dset k l (r_leases r))))
      \<and> set (dvalues (r_leases r')) \<subseteq> set (dvalues (dset k l (r_leases r)))"
    by cases (simp_all only: count_after_delete values_after_delete order_refl subset_refl conj_absorb simp_thms)
  note bound = conjunct1 [OF this] and sub = conjunct2 [OF this]
  show "length (filter P (dvalues (r_leases r'))) \<le> Suc (length (filter P (dvalues (r_leases r))))"
    by (rule order_trans [OF bound count_after_set])
  show "set (dvalues (r_leases r')) \<subseteq> insert l (set (dvalues (r_leases r)))"
    by (rule subset_trans [OF sub values_after_set])
qed

lemma min_list_le: "x \<in> set xs \<Longrightarrow> min_list xs \<le> (x::int)"
  using min_list_Min [of xs] Min_le [of "set xs" x] by force

lemma effective_aggregate_le:
  "effective_aggregate n ls \<le> n"
  "l \<in> set ls \<Longrightarrow> l_aggregate_limit l = Some m \<Longrightarrow> effective_aggregate n ls \<le> m"
  unfolding effective_aggregate_def
  by (rule min_list_le, force simp: map_filter_def)+

text \<open>What admission has checked, after the grant it was for.\<close>

lemma admitted_grant_fits:
  assumes admit: "admit_agent p i s (pol, sl, al, mode) 1 r = Inr r2"
    and new: "new_lease h k g i r2 = Inr (l, r')"
  shows "int (length (session_agents i s r')) \<le> sl"
    and "int (length (live_agents i r')) \<le> al"
    and "\<lbrakk>m \<in> set (live_agents i r'); m \<noteq> l; l_aggregate_limit m = Some n\<rbrakk> \<Longrightarrow> int (length (live_agents i r')) \<le> n"
proof -
  have r2: "r2 = snd (purge_orphan_admissions i r)" by (rule admit_agent_purged [OF admit])
  from admit have caps: "int (length (session_agents i s r2)) + 1 \<le> sl"
    "int (length (live_agents i r2)) + 1 \<le> effective_aggregate al (live_agents i r2)"
    by (auto simp: admit_agent_def Let_def r2)
  note count = new_lease_count [OF new]
  have ids: "retained_ids r' = retained_ids r2" by (simp add: retained_ids_def new_lease_rows [OF new])
  have counts: "counts_as_agent i r' = counts_as_agent i r2" by (simp add: counts_as_agent_def ids fun_eq_iff)
  have "length (session_agents i s r') \<le> Suc (length (session_agents i s r2))"
    and live: "length (live_agents i r') \<le> Suc (length (live_agents i r2))"
    using count(1) by (simp_all add: session_agents_eq live_agents_eq counts)
  with caps effective_aggregate_le(1) [of al "live_agents i r2"]
  show "int (length (session_agents i s r')) \<le> sl" "int (length (live_agents i r')) \<le> al" by linarith+
  assume "m \<in> set (live_agents i r')" "m \<noteq> l" and n: "l_aggregate_limit m = Some n"
  then have "m \<in> set (live_agents i r2)" using count(2) by (auto simp: live_agents_eq counts)
  from effective_aggregate_le(2) [OF this n] have "effective_aggregate al (live_agents i r2) \<le> n" .
  with caps(2) live show "int (length (live_agents i r')) \<le> n" by linarith
qed


text \<open>C5: An acquisition that returns, for an agent or for a tool use of the hook, either repeats a call
  of its tool use, and then returns the one provisional lease of that use and changes nothing, or it
  is a grant, after which the live agents of the session are at most the session limit of the request
  and those of all sessions at most its aggregate limit.\<close>

theorem acquired_within_limits:
  assumes "reachable h au" and "ids_ok p" and "now p 0 = Inr i"
    and "acquire_agent h p q au = (Inr l, au')"
  shows "(\<exists>t r. q_tool_use_id q = Some t \<and> read_registry h au = Inr (Some r)
        \<and> provisional_calls i (q_session_id q) t r = [l] \<and> au' = au)
    \<or> (\<exists>r. read_registry h au' = Inr (Some r)
        \<and> int (length (session_agents i (q_session_id q) r)) \<le> q_session_limit q
        \<and> int (length (live_agents i r)) \<le> q_aggregate_limit q)"
  using reachable_inv [OF assms(1)] assms(2,4)
proof (cases rule: acquire_cases)
  case (replayed t j r)
  with assms(3) show ?thesis by auto
next
  case (granted res start j r0 r1 r2 r')
  moreover from this assms(3) have "i = j" by simp
  moreover obtain sl al pol mode where "q_snapshot q = (pol, sl, al, mode)" by (cases "q_snapshot q")
  ultimately show ?thesis
    using admitted_grant_fits(1,2) by (auto simp: agents_stored q_snapshot_def)
qed

theorem acquired_within_limits_witness:
  "int (length (session_agents (demo_instant 0) (q_session_id demo_call) demo_call_registry)) \<le> q_session_limit demo_call
   \<and> int (length (live_agents (demo_instant 0) demo_call_registry)) \<le> q_aggregate_limit demo_call"
proof -
  have "reachable demo_host empty_authority" by (simp add: reachable_def broker_steps.stop)
  moreover have "now (demo_providers CHR ''a'' 0) 0 = Inr (demo_instant 0)" by (simp add: demo_now)
  moreover have "read_registry demo_host empty_authority \<noteq> Inr (Some r)" for r
    by (simp add: empty_authority_def read_registry_def)
  moreover have "registry_ok demo_host demo_call_registry" "norm_registry demo_call_registry = demo_call_registry"
    by code_simp+
  then have "read_registry demo_host demo_au_call = Inr (Some demo_call_registry)"
    using read_authority_of by metis
  ultimately show ?thesis
    using acquired_within_limits [OF _ demo_ids_ok _ demo_called] by auto
qed

section \<open>One write or none\<close>

lemma archive_heads_document: "au_document (snd (archive_heads h fate heads r au)) = au_document au"
  by (induction h fate heads r au rule: archive_heads.induct)
     (auto simp: archive_closed_fence_def Let_def split: prod.split sum.split write_fate.split)

lemma archive_heads_durable:
  "archive_heads h fate heads r au = (Inr r1, au1) \<Longrightarrow> archive_heads h Persisted heads r au = (Inr r1, au1)"
proof (induction heads arbitrary: fate r au)
  case (Cons p heads)
  obtain d f where p: "p = (d, f)" by fastforce
  have "resource_sha256 h (f_resource_ref f) = d"
    using Cons.prems by (auto simp: p archive_closed_fence_def split: if_splits)
  with Cons.IH [OF archived_step [OF Cons.prems [unfolded p]]] show ?case
    by (simp add: p archive_closed_fence_def)
qed simp

lemma write_registry_document:
  "au_document (snd (write_registry h fate r au)) = au_document au
   \<or> au_document (snd (write_registry h fate r au)) = au_document (snd (write_registry h Persisted r au))"
proof (cases "compact_closed_fences h fate r au")
  case (Pair res au1)
  have doc: "au_document au1 = au_document au"
    using Pair archive_heads_document [of h fate "excess_heads r" r au] by (simp add: compact_closed_fences_def)
  show ?thesis
  proof (cases res)
    case (Inl e)
    with Pair doc show ?thesis by (simp add: write_registry_def split: sum.split)
  next
    case (Inr r1)
    then have "compact_closed_fences h Persisted r au = (Inr r1, au1)"
      using Pair archive_heads_durable by (simp add: compact_closed_fences_def)
    with Pair Inr doc show ?thesis
      by (cases fate) (simp_all add: write_registry_def Let_def split: sum.split)
  qed
qed

text \<open>The providers of a call whose first write is durable.\<close>

definition durable :: "providers \<Rightarrow> providers" where
  "durable p = p\<lparr>p_write_fate := \<lambda>_. Persisted\<rparr>"

lemma durable_fields:
  "p_clock (durable p) = p_clock p" "p_boot_id (durable p) = p_boot_id p" "p_uuid (durable p) = p_uuid p"
  "p_process_exists (durable p) = p_process_exists p" "p_process_identity (durable p) = p_process_identity p"
  "p_expiry_text (durable p) = p_expiry_text p" "p_write_fate (durable p) k = Persisted"
  by (simp_all add: durable_def)

lemma durable_simps [simp]:
  "now (durable p) k = now p k" "owner_state (durable p) = owner_state p"
  "load_registry h (durable p) = load_registry h p" "earliest_expiry (durable p) = earliest_expiry p"
  "owner_identity (durable p) = owner_identity p"
  unfolding fun_eq_iff now_def owner_state_def load_registry_def earliest_expiry_def owner_identity_def
    durable_fields by (rule refl | (intro allI, rule refl))+

lemma snd_written: "snd (case m of (Inl e, a) \<Rightarrow> (Inl e, a) | (Inr y, a) \<Rightarrow> (Inr x, a)) = snd m"
  by (simp split: prod.split sum.split)

lemma run_op_document:
  "au_document (snd (run_op h p checked body au)) = au_document au
   \<or> au_document (snd (run_op h p checked body au)) = au_document (snd (run_op h (durable p) checked body au))"
proof -
  have "au_document (snd (transact h p (body c) au)) = au_document au
      \<or> au_document (snd (transact h p (body c) au)) = au_document (snd (transact h (durable p) (body c) au))" for c
    using write_registry_document
    by (simp add: transact_def snd_written durable_fields split: sum.split prod.split option.split)
  then show ?thesis by (simp add: run_op_def split: sum.split)
qed

lemma acquire_durable:
  "check_agent_request (durable p) = check_agent_request p"
  "acquire_agent_body h (durable p) = acquire_agent_body h p"
  unfolding fun_eq_iff check_agent_request_def acquire_agent_body_def drop_prior_of_request_def
    drop_superseded_resource_lease_def refuse_live_prior_def admit_agent_def durable_simps durable_fields
  by (intro allI refl)+

text \<open>An acquisition is one write or none: whatever becomes of its write, the stored registry is the one
  before the call or the one the call stores when its write is durable.\<close>

lemma acquire_all_or_nothing:
  "au_document (snd (acquire_agent h p q au)) = au_document au
   \<or> au_document (snd (acquire_agent h p q au)) = au_document (snd (acquire_agent h (durable p) q au))"
  unfolding acquire_agent_def unfolding acquire_durable by (rule run_op_document)

text \<open>A call whose writes are durable and that raises has changed nothing.\<close>

lemma run_op_refused:
  assumes inv: "authority_inv h au" and ids: "ids_ok p" and ops: "\<And>c. broker_op (body c)"
    and fate: "p_write_fate p 0 = Persisted" and run: "run_op h p checked body au = (Inl e, au')"
  shows "au' = au"
proof (cases checked)
  case (Inr c)
  with run have tr: "transact h p (body c) au = (Inl e, au')" by (simp add: run_op_def)
  show ?thesis
  proof (cases "\<exists>r x r'. load_registry h p au = Inr r \<and> body c (read_archived_fence h au) r = Inr (x, Some r')")
    case True
    then obtain r x r' where load: "load_registry h p au = Inr r"
      and b: "body c (read_archived_fence h au) r = Inr (x, Some r')" by blast
    have ok: "registry_ok h r" using load_starts [OF inv _ load] ids by (simp add: ids_ok_def)
    have shape: "registry_shape r'"
      using broker_op.body_advance [OF ops ok b] registry_ok_shape [OF ok] by (simp add: registry_advance_def)
    from tr load b obtain res where wr: "write_registry h (p_write_fate p 0) r' au = (res, au')"
      and "\<exists>e. res = Inl e" by (auto simp: transact_def split: sum.splits prod.splits)
    from shape wr show ?thesis
      by (cases rule: write_registry_cases) (use fate \<open>\<exists>e. res = Inl e\<close> in auto)
  next
    case False
    with tr show ?thesis
      by (auto simp: transact_def split: sum.splits prod.splits option.splits)
  qed
qed (use run in \<open>simp add: run_op_def\<close>)

end
