(* ===== verification/Lease_Replays.thy ===== *)
theory Lease_Replays
  imports Lease_Capacity
begin

text \<open>
  Repeated acquisitions of one tool use.
\<close>

section \<open>Repeated calls\<close>

definition later :: "instant \<Rightarrow> instant \<Rightarrow> bool" where
  "later i j \<longleftrightarrow> i_boot_id j = i_boot_id i \<and> i_monotonic i \<le> i_monotonic j"

lemma expired_later: "later i j \<Longrightarrow> expired i l \<Longrightarrow> expired j l"
  by (auto simp: later_def expired_def split: if_splits)

lemma filter_one:
  assumes "distinct xs" and "set (filter P xs) = {x}"
  shows "filter P xs = [x]"
  using assms by (metis distinct_filter distinct_singleton distinct_card card_1_singleton_iff
      empty_set length_0_conv length_Suc_conv list.set_intros(1) list.simps(15) set_empty singletonD
      distinct.simps(2) insert_not_empty)

lemma provisional_set:
  "set (provisional_calls i s t r) = {l \<in> set (dvalues (r_leases r)). l_pool l = AgentPool \<and> l_session_id l = s
     \<and> l_tool_use_id l = Some t \<and> l_agent_id l = None \<and> \<not> expired i l}"
  by (auto simp: provisional_calls_def)

lemma provisional_later: "later i j \<Longrightarrow> set (provisional_calls j s t r) \<subseteq> set (provisional_calls i s t r)"
  unfolding provisional_set using expired_later by blast

lemma values_distinct:
  assumes "registry_ok h r"
  shows "distinct (dvalues (r_leases r))"
proof -
  have wf: "wf_dict (r_leases r)" using assms by (simp add: registry_ok_def rows_ok_def)
  have "inj_on l_lease_id (set (dvalues (r_leases r)))"
    using lease_shape_member(1) [OF assms] by (intro inj_onI) (metis option.inject)
  have "map l_lease_id (dvalues (r_leases r)) = dkeys (r_leases r)"
  proof (simp, rule ballI)
    fix x assume "x \<in> set (r_leases r)"
    then have "dget (r_leases r) (fst x) = Some (snd x)" using wf by (simp add: wf_dict_def)
    from lease_shape [OF assms this] show "l_lease_id (snd x) = fst x" by simp
  qed
  then show ?thesis using wf unfolding wf_dict_def by (metis distinct_map)
qed

lemma norm_lease_fields [simp]:
  "l_pool (norm_lease l) = l_pool l" "l_session_id (norm_lease l) = l_session_id l"
  "l_tool_use_id (norm_lease l) = l_tool_use_id l" "l_agent_id (norm_lease l) = l_agent_id l"
  by (simp_all add: norm_lease_def)

lemma bounded_same: "bounded n v = Inr w \<Longrightarrow> w = v"
  by (auto simp: bounded_def split: if_splits)

lemma replay_none: "replay_acquire q ls = Inr None \<longleftrightarrow> ls = []"
  by (auto simp: replay_acquire_def split: list.splits if_splits)

lemma new_lease_member:
  assumes new: "new_lease h k g i r = Inr (l, r')"
  shows "dget (r_leases r') k = Some l" and "l = granted_lease g i k (r_broker_epoch r) (r_next_sequence r)"
proof -
  show l: "l = granted_lease g i k (r_broker_epoch r) (r_next_sequence r)"
    using new by (auto simp: new_lease_def issue_sequence_def Let_def split: if_splits)
  show "dget (r_leases r') k = Some l"
  proof (cases "g_resource_ref g")
    case None
    then show ?thesis using new by (auto simp: new_lease_def issue_sequence_def Let_def)
  qed (use lookup_after_new_lease(2) [OF new] in simp)
qed

text \<open>The two ways a call with a tool use ends.\<close>

lemma acquire_called:
  assumes inv: "authority_inv h au" and ids: "ids_ok p" and tool: "q_tool_use_id q = Some t"
    and run: "acquire_agent h p q au = (Inr l, au')"
  obtains (replayed) c i r where "check_agent_request p q = Inr c" and "now p 0 = Inr i"
      and "read_registry h au = Inr (Some r)" and "registry_ok h r"
      and "require_owner_admission_open (q_owner_id q) r = Inr ()" 
      and "provisional_calls i (q_session_id q) t r = [l]"
      and "replay_acquire q [l] = Inr (Some l)" and "optional_bounded max_id (Some t) = Inr (Some t)"
      and "au' = au"
  | (granted) res start i r r1 r2 r' where "check_agent_request p q = Inr (res, start)" and "now p 0 = Inr i"
      and "registry_ok h r" and "require_owner_admission_open (q_owner_id q) r = Inr ()"
      and "provisional_calls i (q_session_id q) t r = []" and "optional_bounded max_id (Some t) = Inr (Some t)"
      and "optional_bounded max_id (q_agent_type q) = Inr (q_agent_type q)"
      and "drop_prior_of_request h p q i res (read_archived_fence h au) r = Inr r1"
      and "admit_agent p i (q_session_id q) (q_snapshot q) 1 r1 = Inr r2"
      and "new_lease h (p_uuid p 1) (request_grant q res start) i r2 = Inr (l, r')"
      and "registry_ok h r'"
      and "read_registry h au' = Inr (Some (norm_registry (compacted_registry r')))"
  using inv ids acquire_agent_op.broker_op_axioms run [unfolded acquire_agent_def]
proof (cases rule: run_op_returned)
  case (unwritten c r)
  from unwritten(4) tool obtain i where *: "now p 0 = Inr i"
    "require_owner_admission_open (q_owner_id q) r = Inr ()"
    "optional_bounded max_id (Some t) = Inr (Some t)"
    "replay_acquire q (provisional_calls i (q_session_id q) t r) = Inr (Some l)"
    by (auto simp: acquire_agent_body_def split: prod.splits option.splits dest: optional_bounded_same)
  note one = replay_some [OF *(4)]
  have "read_registry h au = Inr (Some r)"
    using unwritten(2) one by (auto simp: load_registry_def provisional_calls_def fresh_registry_def split: option.splits)
  with unwritten * one show ?thesis by (intro replayed) simp_all
next
  case (written c r r')
  obtain res start where c: "c = (res, start)" by (cases c)
  from written(4) [unfolded c] acquire_agent_result obtain i r1 r2 where
    "now p 0 = Inr i" "require_owner_admission_open (q_owner_id q) r = Inr ()"
    "drop_prior_of_request h p q i res (read_archived_fence h au) r = Inr r1"
    "admit_agent p i (q_session_id q) (q_snapshot q) 1 r1 = Inr r2"
    "new_lease h (p_uuid p 1) (request_grant q res start) i r2 = Inr (l, r')" by blast
  moreover from written(4) [unfolded c] tool this(1) have
    "optional_bounded max_id (Some t) = Inr (Some t)"
    "optional_bounded max_id (q_agent_type q) = Inr (q_agent_type q)"
    "provisional_calls i (q_session_id q) t r = []"
    by (auto simp: acquire_agent_body_def replay_none split: option.splits dest: optional_bounded_same)
  ultimately show ?thesis using written c by (intro granted) simp_all
qed

lemma check_request_time: "check_agent_request p q = Inr (res, start) \<Longrightarrow> \<exists>start'. check_agent_request p' q = Inr (res, start')"
  by (auto simp: check_agent_request_def)

text \<open>A later call that finds the one provisional lease of its tool use returns it.\<close>

lemma acquire_replays:
  assumes "check_agent_request p q = Inr c" and "now p 0 = Inr j" and "q_parent_agent_id q = None"
    and "q_tool_use_id q = Some t" and "optional_bounded max_id (Some t) = Inr (Some t)"
    and "read_registry h au = Inr (Some r)" and "require_owner_admission_open (q_owner_id q) r = Inr ()"
    and "provisional_calls j (q_session_id q) t r = [l]" and "replay_acquire q [l] = Inr (Some l)"
  shows "acquire_agent h p q au = (Inr l, au)"
  using assms
  by (simp add: acquire_agent_def run_op_def transact_def load_registry_def acquire_agent_body_def
      require_current_parent_def split: prod.split del: optional_bounded_eq_Inr)

lemma drop_superseded_result:
  assumes "drop_superseded_resource_lease h p mode i res archived r = Inr r1"
  shows "r1 = r \<or> (\<exists>c. r1 = r\<lparr>r_leases := ddel c (r_leases r)\<rparr>)"
proof (cases "resource_head archived r (resource_sha256 h res)")
  case (Inr v)
  with assms show ?thesis
    by (cases v) (auto simp: drop_superseded_resource_lease_def Let_def split: if_splits)
qed (use assms in \<open>auto simp: drop_superseded_resource_lease_def Let_def split: if_splits\<close>)

lemma drop_prior_result:
  "drop_prior_of_request h p q i res archived r = Inr r1 \<Longrightarrow>
     r1 = r \<or> (\<exists>c. r1 = r\<lparr>r_leases := ddel c (r_leases r)\<rparr>)"
  by (cases res) (auto simp: drop_prior_of_request_def dest: drop_superseded_result)

lemma prior_values:
  assumes "drop_prior_of_request h p q i res archived r = Inr r1" and "admit_agent p i s snap n r1 = Inr r2"
  shows "set (dvalues (r_leases r2)) \<subseteq> set (dvalues (r_leases r))"
proof -
  have "r_leases r2 = r_leases r1"
    using admit_agent_purged [OF assms(2)] by (simp add: purge_orphan_admissions_def Let_def)
  moreover from drop_prior_result [OF assms(1)]
  consider "r_leases r1 = r_leases r" | c where "r_leases r1 = ddel c (r_leases r)" by auto
  then have "set (dvalues (r_leases r1)) \<subseteq> set (dvalues (r_leases r))"
    by cases (simp_all only: values_after_delete subset_refl)
  ultimately show ?thesis by simp
qed

lemma granted_owners:
  assumes "drop_prior_of_request h p q i res archived r = Inr r1" and "admit_agent p i s snap n r1 = Inr r2"
    and "new_lease h k g i r2 = Inr (l, r')"
  shows "r_closed_owners r' = r_closed_owners r"
proof -
  have "r_closed_owners r1 = r_closed_owners r"
    using drop_prior_result [OF assms(1)] by auto
  moreover have "r_closed_owners r2 = r_closed_owners r1"
    using admit_agent_purged [OF assms(2)] by (simp add: purge_orphan_admissions_def Let_def)
  moreover have "r_closed_owners r' = r_closed_owners r2"
    using assms(3) by (auto simp: new_lease_def issue_sequence_def Let_def make_current_result split: if_splits)
  ultimately show ?thesis by simp
qed

text \<open>C6: Repeating an acquisition of one tool use that names no parent agent, later and while its
  provisional lease lives, returns that lease and changes nothing.\<close>

theorem acquire_idempotent:
  assumes "reachable h au" and "ids_ok p" and "acquire_agent h p q au = (Inr l, au')"
    and "q_tool_use_id q = Some t" and "q_agent_id q = None" and "q_parent_agent_id q = None"
    and "now p 0 = Inr i" and "now p' 0 = Inr j" and "later i j" and "\<not> expired j l"
  shows "acquire_agent h p' q au' = (Inr l, au')"
  using reachable_inv [OF assms(1)] assms(2,4,3)
proof (cases rule: acquire_called)
  case (replayed c k r)
  obtain res start where "c = (res, start)" by (cases c)
  with replayed(1) check_request_time obtain c' where c': "check_agent_request p' q = Inr c'" by blast
  have "set (provisional_calls j (q_session_id q) t r) \<subseteq> {l}"
    using provisional_later [OF assms(9), of "q_session_id q" t r] replayed(2,6) assms(7) by simp
  moreover have "l \<in> set (provisional_calls k (q_session_id q) t r)" using replayed(6) by simp
  then have "l \<in> set (provisional_calls j (q_session_id q) t r)" using assms(10) by (simp add: provisional_calls_def)
  ultimately have "set (provisional_calls j (q_session_id q) t r) = {l}" by blast
  then have one: "provisional_calls j (q_session_id q) t r = [l]"
    unfolding provisional_calls_def by (rule filter_one [OF values_distinct [OF replayed(4)]])
  from acquire_replays [OF c' assms(8,6,4) replayed(8,3,5) one replayed(7)] replayed(9)
  show ?thesis by simp
next
  case (granted res start k r r1 r2 r')
  let ?s = "norm_registry (compacted_registry r')"
  have k: "k = i" using granted(2) assms(7) by simp
  obtain c' where c': "check_agent_request p' q = Inr c'" using granted(1) check_request_time by blast
  note l = new_lease_member [OF granted(10)]
  have sub: "set (dvalues (r_leases r')) \<subseteq> insert l (set (dvalues (r_leases r)))"
    using new_lease_count(2) [OF granted(10)] prior_values [OF granted(8,9)] by blast
  have old: "x \<notin> set (provisional_calls j (q_session_id q) t r)" for x
    using provisional_later [OF assms(9), of "q_session_id q" t r] granted(5) k by simp
  have "set (provisional_calls j (q_session_id q) t ?s) = {l}"
  proof (intro equalityI subsetI)
    fix x assume "x \<in> set (provisional_calls j (q_session_id q) t ?s)"
    then obtain y where y: "y \<in> set (dvalues (r_leases r'))" "x = norm_lease y"
      and "y = l \<or> y \<in> set (provisional_calls j (q_session_id q) t r)"
      using sub unfolding provisional_set norm_registry_fields compacted_registry_fields set_dvalues_norm_rows
      by (elim imageE CollectE conjE) (simp del: set_map, blast)
    with old y(2) l(2) show "x \<in> {l}" by auto
  next
    fix x assume "x \<in> {l}"
    moreover have "norm_lease l \<in> set (dvalues (r_leases ?s))"
      using map_of_SomeD [OF l(1)] by (force simp: set_norm_rows)
    moreover have "norm_lease l = l" "l_pool l = AgentPool" "l_session_id l = q_session_id q"
      "l_tool_use_id l = Some t" "l_agent_id l = None"
      using assms(4,5) by (simp_all add: l(2)) (simp_all add: granted_lease_def request_grant_def)
    ultimately show "x \<in> set (provisional_calls j (q_session_id q) t ?s)"
      using assms(10) unfolding provisional_set by simp
  qed
  then have one: "provisional_calls j (q_session_id q) t ?s = [l]"
    unfolding provisional_calls_def
    by (rule filter_one [OF values_distinct [OF norm_registry_ok [OF compacted_registry_ok [OF granted(11)]]]])
  have replay: "replay_acquire q [l] = Inr (Some l)"
    using granted(7) l(2)
    by (simp add: replay_acquire_def granted_lease_def request_grant_def lease_snapshot_def del: optional_bounded_eq_Inr)
  have "require_owner_admission_open (q_owner_id q) ?s = Inr ()"
    using granted(4) granted_owners [OF granted(8-10)] granted(11)
    by (auto simp: require_owner_admission_open_def registry_ok_def rows_ok_def)
  from acquire_replays [OF c' assms(8,6,4) granted(6,12) this one replay] show ?thesis .
qed

theorem acquire_idempotent_witness:
  "acquire_agent demo_host (demo_providers CHR ''f'' 3) demo_call demo_au_call = (Inr demo_call_lease, demo_au_call)"
proof (rule acquire_idempotent [OF _ demo_ids_ok demo_called])
  show "reachable demo_host empty_authority" by (simp add: reachable_def broker_steps.stop)
  show "now (demo_providers CHR ''a'' 0) 0 = Inr (demo_instant 0)" by (simp add: demo_now)
  show "now (demo_providers CHR ''f'' 3) 0 = Inr (demo_instant 3)" by (simp add: demo_now)
  show "later (demo_instant 0) (demo_instant 3)" by code_simp
  show "\<not> expired (demo_instant 3) demo_call_lease" by code_simp
qed (simp_all add: demo_call_def demo_request_def)

end
