(* ===== verification/Lease_Retention.thy ===== *)
theory Lease_Retention
  imports Lease_Replays
begin

text \<open>
  What reclaims leases and settlements, and what may not: the sweep spares live and retained leases,
  and a retained settlement ends only by commit, abort or recovery.
\<close>

section \<open>Sweeping\<close>

definition same_lease :: "lease \<Rightarrow> lease \<Rightarrow> bool" where
  "same_lease l m \<longleftrightarrow> l\<lparr>l_extras := []\<rparr> = m\<lparr>l_extras := []\<rparr>"

lemma same_lease_simps [simp]: "same_lease l l" "same_lease l (norm_lease l)"
  by (simp_all add: same_lease_def norm_lease_def)

lemma sweep_worktree_keeps:
  assumes "dget (r_leases (sw_registry st)) k = Some m" and "l_lease_id l \<noteq> k"
  shows "dget (r_leases (sw_registry (sweep_worktree reaper state l st))) k = Some m"
  using assms
  by (cases state) (auto simp: sweep_worktree_def sweep_drop_def split: option.split)

lemma sweep_worktree_settlements [simp]:
  "r_settlements (sw_registry (sweep_worktree reaper state l st)) = r_settlements (sw_registry st)"
  by (cases state) (auto simp: sweep_worktree_def sweep_drop_def split: option.split)

lemma sweep_lease_keeps:
  assumes "sweep_lease p i reaper terminal l st = Inr st'"
    and "dget (r_leases (sw_registry st)) k = Some m"
    and "l_lease_id l = k \<Longrightarrow> retained_settlement_phase k (sw_registry st) \<noteq> None \<or> \<not> expired i l"
  shows "dget (r_leases (sw_registry st')) k = Some m"
    and "r_settlements (sw_registry st') = r_settlements (sw_registry st)"
proof -
  show "dget (r_leases (sw_registry st')) k = Some m"
  proof (cases "l_lease_id l = k")
    case True
    with assms(1,2) assms(3) [OF True] show ?thesis
      by (auto simp: sweep_lease_def split: option.splits if_splits)
  next
    case False
    with assms(1,2) show ?thesis
      by (auto simp: sweep_lease_def sweep_worktree_keeps sweep_drop_def split: option.splits if_splits)
  qed
  show "r_settlements (sw_registry st') = r_settlements (sw_registry st)"
    using assms(1) by (auto simp: sweep_lease_def sweep_drop_def split: option.splits if_splits)
qed

lemma sweep_leases_keep:
  assumes "sweep_leases p i reaper terminal ls st = Inr st'"
    and "dget (r_leases (sw_registry st)) k = Some m"
    and "\<And>l. l \<in> set ls \<Longrightarrow> l_lease_id l = k \<Longrightarrow>
      retained_settlement_phase k (sw_registry st) \<noteq> None \<or> \<not> expired i l"
  shows "dget (r_leases (sw_registry st')) k = Some m"
  using assms
proof (induction ls arbitrary: st)
  case (Cons l ls)
  from Cons.prems(1) obtain st1 where one: "sweep_lease p i reaper terminal l st = Inr st1"
    and rest: "sweep_leases p i reaper terminal ls st1 = Inr st'" by auto
  note kept = sweep_lease_keeps [OF one Cons.prems(2)]
  have "retained_settlement_phase k (sw_registry st1) = retained_settlement_phase k (sw_registry st)"
    using kept(2) Cons.prems(3) by (simp add: retained_settlement_phase_def)
  then show ?case using Cons.IH [OF rest] kept(1) Cons.prems(3) by simp
qed simp

lemma drop_idle_leases [simp]: "r_leases (drop_idle_admission i s r) = r_leases r"
  by (simp add: drop_idle_admission_def)

lemma drop_idle_fold_leases [simp]: "r_leases (foldl (\<lambda>r2 s. drop_idle_admission i s r2) r ss) = r_leases r"
  by (induction ss arbitrary: r) auto

lemma purge_rows [simp]:
  "r_leases (snd (purge_orphan_admissions i r)) = r_leases r"
  "r_settlements (snd (purge_orphan_admissions i r)) = r_settlements r"
  by (simp_all add: purge_orphan_admissions_def Let_def)

text \<open>C8: A sweep keeps every lease that has not expired and every lease a settlement retains.\<close>

theorem sweep_spares:
  assumes "reachable h au" and "ids_ok p" and "sweep h p reaper terminal au = (Inr res, au')"
    and "now p 0 = Inr i" and "read_registry h au = Inr (Some r)" and "dget (r_leases r) k = Some l"
    and "\<not> expired i l \<or> retained_settlement_phase k r \<noteq> None"
  shows "\<exists>r' l'. read_registry h au' = Inr (Some r') \<and> dget (r_leases r') k = Some l' \<and> same_lease l l'"
  using reachable_inv [OF assms(1)] assms(2) sweep_op.broker_op_axioms assms(3) [unfolded sweep_def]
proof (cases rule: run_op_returned)
  case (unwritten c s)
  then show ?thesis using assms(5,6) same_lease_simps(1) by blast
next
  case (written c s r')
  have s: "s = r" using written(2) assms(5) by (simp add: load_registry_def)
  let ?r1 = "snd (purge_orphan_admissions i r)"
  from sweep_result [OF written(4)] assms(4) s obtain st where
    st: "sweep_leases p i reaper c (dvalues (r_leases ?r1)) (start_sweep ?r1) = Inr st"
    and r': "r' = foldl (\<lambda>r2 s. drop_idle_admission i s r2) (sw_registry st) (remdups (sw_sessions st))"
    by auto
  have at: "dget (r_leases (sw_registry (start_sweep ?r1))) k = Some l" using assms(6) by (simp add: start_sweep_def)
  have spared: "retained_settlement_phase k (sw_registry (start_sweep ?r1)) \<noteq> None \<or> \<not> expired i m"
    if "m \<in> set (dvalues (r_leases ?r1))" "l_lease_id m = k" for m
  proof -
    have "dget (r_leases r) k = Some m"
      using lease_shape_member(1) [of h r m] written(3) s that by auto
    with assms(6,7) show ?thesis by (auto simp: start_sweep_def retained_settlement_phase_def)
  qed
  have "dget (r_leases (sw_registry st)) k = Some l"
    by (rule sweep_leases_keep [OF st at]) (rule spared)
  then have "dget (r_leases r') k = Some l" by (simp add: r')
  then show ?thesis using written(7) stored_rows(1) [OF written(5), of k] same_lease_simps(2) by auto
qed

lemma demo_swept: "sweep demo_host (demo_providers CHR ''c'' 7) None [] demo_au2
    = (Inr \<lparr>sw_result_released = [], sw_result_reaped = [], sw_result_retained = []\<rparr>, demo_au2)"
proof -
  have "sweep_body (demo_providers CHR ''c'' 7) None [] archived demo_reg2
    = Inr (\<lparr>sw_result_released = [], sw_result_reaped = [], sw_result_retained = []\<rparr>, None)" for archived
    by code_simp
  then show ?thesis by (simp add: sweep_def run_op_def transact_def demo_load)
qed

theorem sweep_spares_witness:
  "\<exists>r' l'. read_registry demo_host demo_au2 = Inr (Some r') \<and> dget (r_leases r') (uuid_of CHR ''b'') = Some l'
     \<and> same_lease (demo_lease CHR ''b'' ''w'' 5 2) l'"
proof (rule sweep_spares [OF demo_reachable(2) demo_ids_ok demo_swept _ demo_read(2)])
  show "now (demo_providers CHR ''c'' 7) 0 = Inr (demo_instant 7)" by (simp add: demo_now)
  show "dget (r_leases demo_reg2) (uuid_of CHR ''b'') = Some (demo_lease CHR ''b'' ''w'' 5 2)"
    by (simp add: demo_registry_def)
  have "\<not> expired (demo_instant 7) (demo_lease CHR ''b'' ''w'' 5 2)" by code_simp
  then show "\<not> expired (demo_instant 7) (demo_lease CHR ''b'' ''w'' 5 2)
      \<or> retained_settlement_phase (uuid_of CHR ''b'') demo_reg2 \<noteq> None" by simp
qed

section \<open>Retained settlements\<close>

definition retained :: "host \<Rightarrow> authority \<Rightarrow> string \<Rightarrow> settlement option" where
  "retained h au d =
     (case authority_registry h au of
        None \<Rightarrow> None
      | Some r \<Rightarrow> map_option (\<lambda>s. s\<lparr>s_extras := []\<rparr>) (dget (r_settlements r) d))"

lemma retained_stored:
  assumes "registry_ok h r" and "au_document au = Some (norm_items (registry_to_json (compacted_registry r)))"
  shows "retained h au d = map_option (\<lambda>s. s\<lparr>s_extras := []\<rparr>) (dget (r_settlements r) d)"
proof -
  have "authority_registry h au = Some (norm_registry (compacted_registry r))"
    by (rule authority_registry_document [OF compacted_registry_ok [OF assms(1)] assms(2)])
  moreover have "(norm_settlement s)\<lparr>s_extras := []\<rparr> = s\<lparr>s_extras := []\<rparr>" for s
    by (simp add: norm_settlement_def)
  ultimately show ?thesis
    using stored_rows(2) [OF assms(1), of d]
    by (simp add: retained_def option.map_comp comp_def del: norm_registry_fields)
qed

lemma retained_document: "au_document au' = au_document au \<Longrightarrow> retained h au' d = retained h au d"
  by (simp add: retained_def authority_registry_def read_registry_def)

lemma write_retained:
  assumes "registry_shape r'" and "write_registry h fate r' au = (res, au')"
  shows "retained h au' d = retained h au d
    \<or> retained h au' d = map_option (\<lambda>s. s\<lparr>s_extras := []\<rparr>) (dget (r_settlements r') d)"
  using assms
proof (cases rule: write_registry_cases)
  case (2 D)
  then show ?thesis by (auto simp: archived_part_def intro: retained_document)
next
  case (3 au1)
  then show ?thesis using retained_stored [OF 3(1), of au'] by simp
qed auto

lemma transact_retained:
  assumes inv: "authority_inv h au" and ids: "ids_ok p" and keeper: "settlement_keeper body"
    and row: "retained h au d = Some s"
  shows "retained h (snd (transact h p body au)) d = Some s"
proof -
  obtain res au' where run: "transact h p body au = (res, au')" by fastforce
  from row obtain r where reg: "authority_registry h au = Some r"
    and s: "map_option (\<lambda>s. s\<lparr>s_extras := []\<rparr>) (dget (r_settlements r) d) = Some s"
    by (auto simp: retained_def split: option.splits)
  then have load: "load_registry h p au = Inr r"
    by (auto simp: authority_registry_def load_registry_def split: sum.splits)
  have ok: "registry_ok h r" using load_starts [OF inv _ load] ids by (simp add: ids_ok_def)
  show ?thesis
  proof (cases "\<exists>x r'. body (read_archived_fence h au) r = Inr (x, Some r')")
    case True
    then obtain x r' where b: "body (read_archived_fence h au) r = Inr (x, Some r')" by blast
    with run load obtain res0 where wr: "write_registry h (p_write_fate p 0) r' au = (res0, au')"
      by (auto simp: transact_def split: prod.splits sum.splits)
    have "registry_shape r'"
      using broker_op.body_advance [OF settlement_keeper.axioms(1) [OF keeper] ok b] registry_ok_shape [OF ok]
      by (simp add: registry_advance_def)
    moreover have "map_option (\<lambda>s. s\<lparr>s_extras := []\<rparr>) (dget (r_settlements r') d) = Some s"
      using settlement_keeper.body_keeps [OF keeper ok b] s by (auto simp: settlements_kept_def)
    ultimately show ?thesis using write_retained [OF _ wr, of d] row run by auto
  next
    case False
    then show ?thesis
      using run load row by (auto simp: transact_def split: sum.splits option.splits prod.splits)
  qed
qed

lemma run_op_retained:
  assumes "authority_inv h au" and "ids_ok p" and "\<And>c. settlement_keeper (body c)"
    and "retained h au d = Some s"
  shows "retained h (snd (run_op h p checked body au)) d = Some s"
  using assms(4) transact_retained [OF assms] by (simp add: run_op_def split: sum.split)

lemmas op_keepers =
  configure_op.settlement_keeper_axioms clear_op.settlement_keeper_axioms
  acquire_agent_op.settlement_keeper_axioms
  acquire_successor_op.settlement_keeper_axioms reserve_batch_op.settlement_keeper_axioms
  claim_op.settlement_keeper_axioms
  prepare_call_op.settlement_keeper_axioms acquire_worktree_op.settlement_keeper_axioms
  transfer_worktree_op.settlement_keeper_axioms publish_op.settlement_keeper_axioms
  renew_op.settlement_keeper_axioms
  release_op.settlement_keeper_axioms prepare_settlement_op.settlement_keeper_axioms
  close_owner_op.settlement_keeper_axioms release_owner_op.settlement_keeper_axioms
  renew_session_op.settlement_keeper_axioms release_session_op.settlement_keeper_axioms
  release_terminal_op.settlement_keeper_axioms settle_batch_op.settlement_keeper_axioms
  renew_batch_op.settlement_keeper_axioms child_terminal_op.settlement_keeper_axioms
  parent_completed_op.settlement_keeper_axioms sweep_op.settlement_keeper_axioms
  bind_capability_op.settlement_keeper_axioms

lemma repair_retained:
  assumes inv: "authority_inv h au" and row: "retained h au d = Some s"
  shows "retained h (snd (snd (repair h p au))) d = Some s"
proof -
  from row obtain r where reg: "authority_registry h au = Some r"
    and s: "map_option (\<lambda>s. s\<lparr>s_extras := []\<rparr>) (dget (r_settlements r) d) = Some s"
    by (auto simp: retained_def split: option.splits)
  then have r: "read_registry h au = Inr (Some r)"
    by (auto simp: authority_registry_def split: sum.splits)
  have ok: "registry_ok h r" using inv r read_registry_ok by (auto simp: authority_inv_def)
  have strip: "map_option (\<lambda>s. s\<lparr>s_extras := []\<rparr>) (dget (r_settlements (strip_extras r)) d) = Some s"
    using s by (auto simp: strip_extras_def)
  have "retained h au' d = Some s" if "write_registry h fate (strip_extras r) au = (res, au')" for fate res au'
    using write_retained [OF registry_ok_shape [OF strip_extras_ok [OF ok]] that, of d] row strip by auto
  then show ?thesis
    using row r by (auto simp: repair_def Let_def split: sum.split prod.split broker_error.split)
qed

lemma configure_keeper: "settlement_keeper (\<lambda>archived r. (case a of (s, c) \<Rightarrow> configure_body p s c) archived r)"
  using configure_op.settlement_keeper_axioms by (cases a) simp

text \<open>C3: A retained settlement ends or changes only by a commit, an abort or a recovery of it: no other
  operation of the broker touches it, however it fails.\<close>

theorem settlement_retired_only_by:
  assumes "reachable h au" and "broker_step h au au'" and "retained h au d = Some s"
    and "retained h au' d \<noteq> Some s"
  shows "(\<exists>p k owner tok writer. au' = snd (commit_agent_settlement h p k owner tok writer au))
    \<or> (\<exists>p k owner tok. au' = snd (abort_agent_settlement h p k owner tok au))
    \<or> (\<exists>p me replay c intent action. au' = snd (recover_agent_settlement h p me replay c intent action au))"
proof -
  have inv: "authority_inv h au" by (rule reachable_inv [OF assms(1)])
  have "retained h au' d = Some s
    \<or> (\<exists>p k owner tok writer. au' = snd (commit_agent_settlement h p k owner tok writer au))
    \<or> (\<exists>p k owner tok. au' = snd (abort_agent_settlement h p k owner tok au))
    \<or> (\<exists>p me replay c intent action. au' = snd (recover_agent_settlement h p me replay c intent action au))"
    using assms(2)
  proof cases
    case (repairing p)
    then show ?thesis using repair_retained [OF inv assms(3)] by simp
  next
    case (configure p w pol sl al m)
    then show ?thesis
      unfolding op_defs
      by (auto intro!: run_op_retained [OF inv _ _ assms(3)] simp: configure_op.settlement_keeper_axioms split: prod.split)
  qed (blast | (rule disjI1, simp only: op_defs, rule run_op_retained [OF inv _ _ assms(3)]; simp add: op_keepers))+
  with assms(4) show ?thesis by blast
qed

lemma demo_retaining_ok: "registry_ok demo_host demo_retaining" "length (closed_heads demo_retaining) \<le> max_closed_fences"
  by code_simp+

lemma demo_retaining_norm: "norm_registry demo_retaining = demo_retaining" by code_simp

lemma demo_retaining_load: "load_registry demo_host p demo_au_retaining = Inr demo_retaining"
  using load_authority_of [OF demo_retaining_ok(1)] demo_retaining_norm by simp

lemma demo_retained: "retained demo_host demo_au_retaining (resource_sha256 demo_host demo_ref) = Some demo_settlement"
proof -
  have "read_registry demo_host demo_au_retaining = Inr (Some demo_retaining)"
    using read_authority_of [OF demo_retaining_ok(1)] demo_retaining_norm by simp
  then have "authority_registry demo_host demo_au_retaining = Some demo_retaining"
    by (simp add: authority_registry_def)
  then show ?thesis
    by (simp add: retained_def) (simp add: demo_retaining_def demo_settlement_def prepared_settlement_def)
qed

lemma demo_retaining_reachable: "reachable demo_host demo_au_retaining"
  using reachable_step [OF demo_reachable(2)]
    broker_step.prepare [OF demo_ids_ok, of demo_host demo_au2 "CHR ''d''" 6 "uuid_of CHR ''b''" demo_settlement_request]
  by (simp add: demo_preparing)

definition demo_released :: registry where
  "demo_released = demo_retaining\<lparr>r_leases := [], r_settlements := []\<rparr>"

lemma demo_aborting: "abort_agent_settlement demo_host (demo_providers CHR ''f'' 7) (uuid_of CHR ''d'') ''w''
    (FencingToken (uuid_of CHR ''e'') 2) demo_au_retaining = (Inr True, authority_of demo_released [])"
proof -
  have "bounded 128 ''w'' = Inr ''w''" by code_simp
  moreover have "abort_settlement_body demo_host (demo_providers CHR ''f'' 7) (uuid_of CHR ''d'')
      (FencingToken (uuid_of CHR ''e'') 2) ''w'' archived demo_retaining = Inr (True, Some demo_released)" for archived
    by code_simp
  moreover have "registry_ok demo_host demo_released" "length (closed_heads demo_released) \<le> max_closed_fences"
    by code_simp+
  ultimately show ?thesis
    unfolding abort_agent_settlement_def by (rule run_op_of [OF _ demo_retaining_load]) simp
qed

lemma demo_released_retains: "retained demo_host (authority_of demo_released []) d = None"
proof -
  have "registry_ok demo_host demo_released" by code_simp
  from read_authority_of [OF this, of "[]"] show ?thesis
    by (simp add: retained_def authority_registry_def)
      (simp add: demo_released_def norm_rows_def map_rows_def)
qed

theorem settlement_retired_only_by_witness:
  "(\<exists>p k owner tok writer. authority_of demo_released []
       = snd (commit_agent_settlement demo_host p k owner tok writer demo_au_retaining))
   \<or> (\<exists>p k owner tok. authority_of demo_released []
       = snd (abort_agent_settlement demo_host p k owner tok demo_au_retaining))
   \<or> (\<exists>p me replay c intent action. authority_of demo_released []
       = snd (recover_agent_settlement demo_host p me replay c intent action demo_au_retaining))"
proof (rule settlement_retired_only_by [OF demo_retaining_reachable _ demo_retained])
  show "broker_step demo_host demo_au_retaining (authority_of demo_released [])"
    using broker_step.abort [OF demo_ids_ok, of demo_host demo_au_retaining "CHR ''f''" 7 "uuid_of CHR ''d''" "''w''"
        "FencingToken (uuid_of CHR ''e'') 2"]
    by (simp add: demo_aborting)
qed (simp add: demo_released_retains)

end
