(* ===== verification/Lease_Commit.thy ===== *)
theory Lease_Commit
  imports Lease_Retention
begin

text \<open>
  The commit of a settlement: what a commit that returns has done.
\<close>

section \<open>Committing\<close>

lemma build_close_evidence:
  assumes "build_settlement_close h ref tok lid producer run evidence expected sid session pol intent sd = Inr c"
  shows "sc_evidence_refs c = sort (remdups evidence)"
proof -
  have same: "map_res (bounded max_id) evidence = Inr refs \<Longrightarrow> refs = evidence" for refs
    by (induction evidence arbitrary: refs) (auto dest: bounded_same)
  from assms have "\<exists>refs p. map_res (bounded max_id) evidence = Inr refs
      \<and> validate_settlement_close h (close_items p) = Inr c \<and> sc_evidence_refs p = sort (remdups refs)"
    unfolding build_settlement_close_def Let_def bind_res_eq_Inr
    by (elim exE conjE) (intro exI conjI, assumption, assumption, simp)
  then obtain refs p where refs: "map_res (bounded max_id) evidence = Inr refs"
    and v: "validate_settlement_close h (close_items p) = Inr c"
    and p: "sc_evidence_refs p = sort (remdups refs)" by blast
  from v have "json_evidence_refs (JArr (map JStr (sc_evidence_refs p))) = Inr (sc_evidence_refs c)"
    by (auto simp: validate_settlement_close_def close_item_fields closed_mapping_def split: if_splits)
  then show ?thesis using same [OF refs] p by (auto simp: json_evidence_refs_eq_Inr)
qed

lemma settlement_close_evidence:
  "settlement_close_of h s ev = Inr c \<Longrightarrow> sc_evidence_refs c = sort (remdups ev)"
  unfolding settlement_close_of_def by (rule build_close_evidence)

lemma written_view:
  assumes "registry_shape r'" and "write_registry h fate r' au = (Inr r2, au')"
  shows "authority_head h au' d =
      (case dget (r_fences r') d of Some f \<Rightarrow> Some (norm_fence f) | None \<Rightarrow> archived_head h au d)"
    and "retained h au' d = map_option (\<lambda>s. s\<lparr>s_extras := []\<rparr>) (dget (r_settlements r') d)"
proof -
  from assms have both: "authority_head h au' d =
      (case dget (r_fences r') d of Some f \<Rightarrow> Some (norm_fence f) | None \<Rightarrow> archived_head h au d)
    \<and> retained h au' d = map_option (\<lambda>s. s\<lparr>s_extras := []\<rparr>) (dget (r_settlements r') d)"
  proof (cases rule: write_registry_cases)
    case (3 au1)
    then show ?thesis
      using replaced_heads(3) [OF 3(1,2), of au'] retained_stored [OF 3(1), of au'] by simp
  qed auto
  then show "authority_head h au' d =
      (case dget (r_fences r') d of Some f \<Rightarrow> Some (norm_fence f) | None \<Rightarrow> archived_head h au d)"
    and "retained h au' d = map_option (\<lambda>s. s\<lparr>s_extras := []\<rparr>) (dget (r_settlements r') d)" by simp_all
qed

lemma published:
  assumes start: "starts_from h au r" and run: "publish_close h p s c r au = (Inr close, au')"
  shows "close = c" and "retained h au' (resource_sha256 h (s_resource_ref s)) = None"
    and "\<exists>f. authority_head h au' (resource_sha256 h (s_resource_ref s)) = Some f
      \<and> f_token f = s_token s \<and> f_close_receipt f = Some c"
proof -
  let ?d = "resource_sha256 h (s_resource_ref s)"
  from run obtain head i r2 where head: "dget (r_fences r) ?d = Some head" "head_matches s head"
    and c: "close = c"
    and wr: "write_registry h (p_write_fate p 1) (drop_idle_admission i (s_session_id s) (retire_settlement h s
        (r\<lparr>r_fences := dset ?d (head\<lparr>f_close_receipt := Some c\<rparr>) (r_fences r)\<rparr>))) au = (Inr r2, au')"
    by (auto simp: publish_close_def Let_def split: option.splits if_splits sum.splits prod.splits)
  show "close = c" by (rule c)
  let ?r1 = "r\<lparr>r_fences := dset ?d (head\<lparr>f_close_receipt := Some c\<rparr>) (r_fences r)\<rparr>"
  let ?r2 = "drop_idle_admission i (s_session_id s) (retire_settlement h s ?r1)"
  have "registry_shape ?r2"
    using publish_close_advance [OF head(1)] retire_idle_advance registry_advance_trans start registry_ok_shape
    unfolding starts_from_def by (meson registry_advance_def)
  note view = written_view [OF this wr]
  have fences: "r_fences ?r2 = dset ?d (head\<lparr>f_close_receipt := Some c\<rparr>) (r_fences r)"
    using retire_idle_advance [of ?r1 i "s_session_id s" h s] by simp
  have settled: "dget (r_settlements ?r2) ?d = None"
    by (simp add: drop_idle_admission_def retire_settlement_def)
  show "retained h au' ?d = None" using view(2) [of ?d] settled by simp
  show "\<exists>f. authority_head h au' ?d = Some f \<and> f_token f = s_token s \<and> f_close_receipt f = Some c"
    using view(1) [of ?d] head(2) unfolding fences
    by (simp add: head_matches_def norm_fence_def f_token_def)
qed

text \<open>C4: A commit that returns has run the protected writer once on the renewed exact lease of a prepared
  settlement of this owner and token; the settlement is gone, and the head of its resource is closed by
  the returned receipt, which carries the writer's evidence.\<close>

theorem committed_closes_once:
  assumes "reachable h au" and "ids_ok p"
    and "commit_agent_settlement h p k owner tok writer au = (Inr close, au')"
  shows "\<exists>r s l i evidence. load_registry h p au = Inr r \<and> settlement_by_id k r = Inr s
    \<and> s_phase s = Prepared \<and> s_owner_id s = owner \<and> s_token s = tok \<and> exact_lease s r = Some l
    \<and> now p 0 = Inr i \<and> writer (renewed i l) = Inr evidence \<and> sc_evidence_refs close = sort (remdups evidence)
    \<and> retained h au' (resource_sha256 h (s_resource_ref s)) = None
    \<and> (\<exists>f. authority_head h au' (resource_sha256 h (s_resource_ref s)) = Some f
         \<and> f_token f = tok \<and> f_close_receipt f = Some close)"
  using assms(3)
proof (cases rule: commit_settlement_cases)
  case (2 r s)
  have inv: "authority_inv h au" by (rule reachable_inv [OF assms(1)])
  have start: "starts_from h au r" and ok: "registry_ok h r"
    using load_starts [OF inv _ 2(1)] assms(2) by (simp_all add: ids_ok_def)
  from 2(5) obtain l i where l: "exact_lease s r = Some l" and ph: "s_phase s = Prepared" and i: "now p 0 = Inr i"
    by (auto simp: commit_settlement_locked_def commit_phases_def split: option.splits if_splits sum.splits)
  obtain started au1 where
    wr: "write_registry h (p_write_fate p 0) (started_commit h i l s r) au = (started, au1)" by fastforce
  with 2(5) l ph i have fin: "finish_commit h p (ProtectedWriter writer) i l s started au1 = (Inr close, au')"
    by (simp add: commit_settlement_locked_def commit_phases_def)
  then obtain r1 where r1: "started = Inr r1" by (cases started) (auto simp: finish_commit_def)
  obtain d where "dget (r_settlements r) d = Some s"
    using settlement_by_id_row [OF _ 2(2)] ok by (auto simp: registry_ok_def rows_ok_def)
  then have ex: "extras_ok settlement_keys (s_extras s)"
    using rows_ok_lookup registry_ok_shape [OF ok] by (fastforce simp: registry_shape_def)
  note adv = started_commit_advance [OF ok ex l]
  have start1: "starts_from h au1 r1"
    using write_registry_preserves(2) [OF inv start conjunct1 [OF adv] conjunct2 [OF adv] wr r1] by blast
  have "\<exists>ev. writer (renewed i l) = Inr ev \<and> settlement_close_of h s ev = Inr c \<and>
      publish_close h p s c r1 au1 = (Inr close, au')"
    if "bind_res (run_writer (ProtectedWriter writer) (renewed i l) s) (settlement_close_of h s) = Inr c" for c
    using fin that r1 by (auto simp: finish_commit_def run_writer_def)
  moreover have "\<exists>c. bind_res (run_writer (ProtectedWriter writer) (renewed i l) s) (settlement_close_of h s) = Inr c"
    using fin r1 by (cases "bind_res (run_writer (ProtectedWriter writer) (renewed i l) s) (settlement_close_of h s)")
      (auto simp: finish_commit_def record_ambiguous_def Let_def split: sum.splits)
  ultimately obtain c ev where ev: "writer (renewed i l) = Inr ev" "settlement_close_of h s ev = Inr c"
    and pub: "publish_close h p s c r1 au1 = (Inr close, au')" by blast
  note closing = published [OF start1 pub]
  show ?thesis
    using 2(1-4) l ph i ev settlement_close_evidence [OF ev(2)] closing by blast
qed simp

section \<open>A concrete commit\<close>

definition demo_committing :: registry where
  "demo_committing = started_commit demo_host (demo_instant 7)
     (renewed (demo_instant 6) (demo_lease CHR ''b'' ''w'' 5 2)) demo_settlement demo_retaining"

definition digest_ending :: "char \<Rightarrow> string" where
  "digest_ending c = replicate 63 CHR ''0'' @ [c]"

definition demo_payload :: settlement_close where
  "demo_payload = \<lparr>sc_resource_ref = demo_ref, sc_token = FencingToken (uuid_of CHR ''e'') 2,
     sc_lease_id = uuid_of CHR ''b'', sc_producer = hd producers, sc_run_id = ''run'',
     sc_evidence_refs = [''evidence''], sc_expected_output_sha256 = zeros,
     sc_binding = Some \<lparr>cb_settlement_id = uuid_of CHR ''d'', cb_session_id = ''s'', cb_policy_sha256 = zeros,
       cb_write_intent_sha256 = zeros, cb_settlement_sha256 = digest_ending CHR ''c''\<rparr>,
     sc_receipt_sha256 = [], sc_sha256 = []\<rparr>"

definition demo_receipt :: settlement_close where
  "demo_receipt = demo_payload\<lparr>sc_receipt_sha256 := digest_ending CHR ''3'', sc_sha256 := digest_ending CHR ''7''\<rparr>"

lemma demo_receipt_built: "settlement_close_of demo_host demo_settlement [''evidence''] = Inr demo_receipt"
proof -
  have checks: "canonical_resource_ref AgentPool (resource_ref_json (s_resource_ref demo_settlement)) = Inr demo_ref"
    "uuid_text (s_lease_id demo_settlement) = Inr (uuid_of CHR ''b'')"
    "uuid_text (s_settlement_id demo_settlement) = Inr (uuid_of CHR ''d'')"
    "bounded 128 (s_session_id demo_settlement) = Inr ''s''"
    "sha256_text (s_policy_sha256 demo_settlement) = Inr zeros"
    "bounded 128 (s_run_id demo_settlement) = Inr ''run''"
    "map_res (bounded max_id) [''evidence''] = Inr [''evidence'']"
    "sha256_text (s_expected_output_sha256 demo_settlement) = Inr zeros"
    "sha256_text (s_write_intent_sha256 demo_settlement) = Inr zeros"
    "sha256_text (settlement_sha256 demo_host demo_settlement) = Inr (digest_ending CHR ''c'')"
    "s_token demo_settlement = FencingToken (uuid_of CHR ''e'') 2"
    "s_producer demo_settlement = hd producers" "sort (remdups [''evidence'']) = [''evidence'']"
    by code_simp+
  have receipt: "close_receipt_digest demo_host demo_payload = digest_ending CHR ''3''" by code_simp
  have digest: "close_digest demo_host (demo_payload\<lparr>sc_receipt_sha256 := digest_ending CHR ''3''\<rparr>) = digest_ending CHR ''7''"
    by code_simp
  have "close_ok demo_host demo_receipt" by code_simp
  then have "validate_settlement_close demo_host (close_items demo_receipt) = Inr demo_receipt"
    by (rule validate_close_roundtrip) (simp add: demo_receipt_def demo_payload_def)
  then show ?thesis
    unfolding settlement_close_of_def build_settlement_close_def checks bind_res_simps Let_def
      demo_payload_def [symmetric] receipt digest
    by (simp add: demo_receipt_def)
qed

definition demo_published :: registry where
  "demo_published = demo_committing\<lparr>r_leases := [], r_settlements := [],
     r_fences := [(resource_sha256 demo_host demo_ref,
       (fresh_head (fresh_registry (uuid_of CHR ''e'')) demo_ref (demo_lease CHR ''b'' ''w'' 5 2))
         \<lparr>f_close_receipt := Some demo_receipt\<rparr>)]\<rparr>"

lemma demo_commit_ok:
  "registry_ok demo_host demo_committing" "length (closed_heads demo_committing) \<le> max_closed_fences"
  "registry_ok demo_host demo_published" "length (closed_heads demo_published) \<le> max_closed_fences"
  by code_simp+

lemma archive_of [simp]: "au_archive (authority_of r a) = a"
  by (simp add: authority_of_def)

lemma demo_commit: "commit_agent_settlement demo_host (demo_providers CHR ''f'' 7) (uuid_of CHR ''d'') ''w''
    (FencingToken (uuid_of CHR ''e'') 2) (\<lambda>_. Inr [''evidence'']) demo_au_retaining
  = (Inr demo_receipt, authority_of demo_published [])"
proof -
  let ?p = "demo_providers CHR ''f'' 7"
  have "bounded 128 ''w'' = Inr ''w''" by code_simp
  moreover have "settlement_by_id (uuid_of CHR ''d'') demo_retaining = Inr demo_settlement" by code_simp
  moreover have "s_owner_id demo_settlement = ''w''" "s_token demo_settlement = FencingToken (uuid_of CHR ''e'') 2"
    by code_simp+
  moreover have "exact_lease demo_settlement demo_retaining
      = Some (renewed (demo_instant 6) (demo_lease CHR ''b'' ''w'' 5 2))" by code_simp
  moreover have "s_phase demo_settlement \<in> set (commit_phases False)" by code_simp
  moreover have "publish_close demo_host ?p demo_settlement demo_receipt demo_committing (authority_of demo_committing [])
      = (Inr demo_receipt, authority_of demo_published [])"
  proof -
    have head: "dget (r_fences demo_committing) (resource_sha256 demo_host (s_resource_ref demo_settlement))
        = Some (fresh_head (fresh_registry (uuid_of CHR ''e'')) demo_ref (demo_lease CHR ''b'' ''w'' 5 2))"
      by code_simp
    have match: "head_matches demo_settlement
        (fresh_head (fresh_registry (uuid_of CHR ''e'')) demo_ref (demo_lease CHR ''b'' ''w'' 5 2))" by code_simp
    have "drop_idle_admission (demo_instant 7) (s_session_id demo_settlement) (retire_settlement demo_host demo_settlement
        (demo_committing\<lparr>r_fences := dset (resource_sha256 demo_host (s_resource_ref demo_settlement))
          ((fresh_head (fresh_registry (uuid_of CHR ''e'')) demo_ref (demo_lease CHR ''b'' ''w'' 5 2))
            \<lparr>f_close_receipt := Some demo_receipt\<rparr>) (r_fences demo_committing)\<rparr>)) = demo_published"
      by code_simp
    then show ?thesis
      using head match write_small [OF demo_commit_ok(3,4), of "authority_of demo_committing []"]
      by (simp add: publish_close_def demo_now)
  qed
  ultimately show ?thesis
    using write_small [OF demo_commit_ok(1,2), of demo_au_retaining] demo_receipt_built
    by (simp add: commit_agent_settlement_def commit_settlement_locked_def finish_commit_def run_writer_def
        demo_retaining_load demo_now demo_committing_def del: bounded_eq_Inr)
qed

theorem committed_closes_once_witness:
  "\<exists>r s l i evidence. load_registry demo_host (demo_providers CHR ''f'' 7) demo_au_retaining = Inr r
    \<and> settlement_by_id (uuid_of CHR ''d'') r = Inr s
    \<and> s_phase s = Prepared \<and> s_owner_id s = ''w'' \<and> s_token s = FencingToken (uuid_of CHR ''e'') 2
    \<and> exact_lease s r = Some l
    \<and> now (demo_providers CHR ''f'' 7) 0 = Inr i \<and> Inr [''evidence''] = (Inr evidence :: broker_error + string list)
    \<and> sc_evidence_refs demo_receipt = sort (remdups evidence)
    \<and> retained demo_host (authority_of demo_published []) (resource_sha256 demo_host (s_resource_ref s)) = None
    \<and> (\<exists>f. authority_head demo_host (authority_of demo_published []) (resource_sha256 demo_host (s_resource_ref s)) = Some f
         \<and> f_token f = FencingToken (uuid_of CHR ''e'') 2 \<and> f_close_receipt f = Some demo_receipt)"
  using committed_closes_once [OF demo_retaining_reachable demo_ids_ok demo_commit] by simp

end
