(* ===== verification/Lease_Upkeep.thy ===== *)
theory Lease_Upkeep
  imports Lease_Commit
begin

text \<open>
  Repair, write targets, recovery and the round trips of documents: what these operations guarantee
  when they return.
\<close>

section \<open>Repair\<close>

lemma stored_extras:
  assumes "registry_ok h r"
  shows "document_extras_bytes (norm_registry (compacted_registry r)) \<le> document_extras_bytes r"
proof -
  have "document_extras_bytes (compacted_registry r) \<le> document_extras_bytes r"
    using sum_filter_le [of "\<lambda>f. extras_serialized_size (f_extras f)" _ "r_fences r"]
    unfolding document_extras_bytes_def compacted_registry_fields
    by (simp add: compacted_registry_def)
  then show ?thesis
    using document_extras_norm [OF compacted_registry_ok [OF assms]] by simp
qed

lemma clean_doctor:
  assumes "read_registry h au = Inr (Some r)" and "document_extras_bytes r = 0"
  shows "doctor h au = Inr \<lparr>d_status = StatusValid, d_exists = True, d_inventory = [], d_key_count = 0, d_extras_bytes = 0\<rparr>"
    and "repair h p au = (Inr RepairClean, None, au)"
  using assms extras_inventory_complete [of r] by (simp_all add: doctor_def repair_def Let_def)

text \<open>C14: A repair that acts keeps the old document as backup and leaves a registry that the doctor finds
  valid, without unknown fields, and that a second repair finds clean.\<close>

theorem repaired_is_clean:
  assumes "au_document au = Some doc" and "json_wf (JObj doc)"
    and "repair h p au = (Inr (Repaired inventory), backup, au')"
  shows "backup = au_document au
    \<and> doctor h au' = Inr \<lparr>d_status = StatusValid, d_exists = True, d_inventory = [], d_key_count = 0, d_extras_bytes = 0\<rparr>
    \<and> repair h p' au' = (Inr RepairClean, None, au')"
proof -
  from assms(3) obtain r r2 where r: "read_registry h au = Inr (Some r)"
    and wr: "write_registry h (p_write_fate p 0) (strip_extras r) au = (Inr r2, au')"
    and backup: "backup = au_document au"
    by (auto simp: repair_def Let_def split: sum.splits option.splits broker_error.splits if_splits prod.splits)
  have ok: "registry_ok h (strip_extras r)"
    using strip_extras_ok [OF registry_sound [OF _ assms(2)]] r assms(1) by (simp add: read_registry_def)
  have "authority_registry h au' = Some (norm_registry (compacted_registry (strip_extras r)))"
    using registry_ok_shape [OF ok] wr
  proof (cases rule: write_registry_cases)
    case (3 au1)
    then show ?thesis by (intro authority_registry_document [OF compacted_registry_ok [OF ok]]) simp
  qed auto
  then have read: "read_registry h au' = Inr (Some (norm_registry (compacted_registry (strip_extras r))))"
    by (auto simp: authority_registry_def split: sum.splits)
  have "document_extras_bytes (norm_registry (compacted_registry (strip_extras r))) = 0"
    using stored_extras [OF ok] strip_extras_size [of r] by simp
  with clean_doctor [OF read] backup show ?thesis by simp
qed

definition demo_tolerated :: registry where
  "demo_tolerated = (fresh_registry (uuid_of CHR ''e''))\<lparr>r_extras := [(''future'', JInt 1)]\<rparr>"

lemma demo_tolerated_ok: "registry_ok demo_host demo_tolerated" by code_simp

lemma demo_repairing: "repair demo_host (demo_providers CHR ''a'' 0) (authority_of demo_tolerated [])
    = (Inr (Repaired (extras_inventory demo_tolerated)), au_document (authority_of demo_tolerated []),
       authority_of (strip_extras demo_tolerated) [])"
proof -
  have "norm_registry demo_tolerated = demo_tolerated" by code_simp
  then have "read_registry demo_host (authority_of demo_tolerated []) = Inr (Some demo_tolerated)"
    using read_authority_of [OF demo_tolerated_ok, of "[]"] by simp
  moreover have "extras_inventory demo_tolerated \<noteq> []" by code_simp
  moreover have ok: "registry_ok demo_host (strip_extras demo_tolerated)" by code_simp
  moreover have "length (closed_heads (strip_extras demo_tolerated)) \<le> max_closed_fences" by code_simp
  moreover have "extras_inventory (sort_registry (strip_extras demo_tolerated)) = []" by code_simp
  ultimately show ?thesis
    using registry_written [OF ok] write_small [OF ok, of "authority_of demo_tolerated []"]
      extras_inventory_complete [of "strip_extras demo_tolerated"] strip_extras_size
    by (simp add: repair_def Let_def)
qed

theorem repaired_is_clean_witness:
  "au_document (authority_of demo_tolerated []) = au_document (authority_of demo_tolerated [])
   \<and> doctor demo_host (authority_of (strip_extras demo_tolerated) [])
     = Inr \<lparr>d_status = StatusValid, d_exists = True, d_inventory = [], d_key_count = 0, d_extras_bytes = 0\<rparr>
   \<and> repair demo_host (demo_providers CHR ''b'' 1) (authority_of (strip_extras demo_tolerated) [])
     = (Inr RepairClean, None, authority_of (strip_extras demo_tolerated) [])"
proof (rule repaired_is_clean [OF _ _ demo_repairing])
  show "au_document (authority_of demo_tolerated []) = Some (norm_items (registry_to_json demo_tolerated))"
    by (simp add: authority_of_def)
  show "json_wf (JObj (norm_items (registry_to_json demo_tolerated)))" by code_simp
qed

section \<open>Write targets\<close>

lemma nearest_existing_prefix:
  "\<exists>n \<le> length cs. nearest_existing exists cs = take n (rev cs)
    \<and> (n = 0 \<or> exists (take n (rev cs))) \<and> (\<forall>m. n < m \<and> m \<le> length cs \<longrightarrow> \<not> exists (take m (rev cs)))"
proof (induction cs)
  case (Cons c cs)
  show ?case
  proof (cases "exists (rev (c # cs))")
    case True
    then show ?thesis by (intro exI [of _ "Suc (length cs)"]) auto
  next
    case False
    from Cons obtain n where n: "n \<le> length cs" "nearest_existing exists cs = take n (rev cs)"
      "n = 0 \<or> exists (take n (rev cs))" "\<forall>m. n < m \<and> m \<le> length cs \<longrightarrow> \<not> exists (take m (rev cs))" by blast
    have "take m (rev (c # cs)) = take m (rev cs)" if "m \<le> length cs" for m using that by simp
    with n False show ?thesis by (intro exI [of _ n]) (auto simp: le_Suc_eq)
  qed
qed simp

text \<open>C10: A write target that passes the fence for a lease that is bound to a worktree is under a
  read-write lease; its longest existing prefix resolves to a directory, and the target below that is
  inside the resolved worktree of the lease.\<close>

theorem write_target_confined:
  assumes "assert_write_target h p fs agent (Some target) au = Inr l"
    and "l_resource_ref l = Some (AgentRef u (Some worktree))"
  shows "\<exists>base resolved n. l_mutation l = Some ReadWrite \<and> fs_resolve fs (path_components worktree) = Some base
    \<and> n \<le> length (target_components worktree target)
    \<and> (n = 0 \<or> fs_exists fs (take n (target_components worktree target)))
    \<and> (\<forall>m. n < m \<and> m \<le> length (target_components worktree target) \<longrightarrow>
         \<not> fs_exists fs (take m (target_components worktree target)))
    \<and> fs_resolve fs (take n (target_components worktree target)) = Some resolved
    \<and> is_below base (resolved @ drop n (target_components worktree target))"
proof -
  let ?t = "target_components worktree target"
  from nearest_existing_prefix [of "rev ?t" "fs_exists fs"] obtain n where
    n: "n \<le> length ?t" "nearest_existing (fs_exists fs) (rev ?t) = take n ?t"
      "n = 0 \<or> fs_exists fs (take n ?t)" "\<forall>m. n < m \<and> m \<le> length ?t \<longrightarrow> \<not> fs_exists fs (take m ?t)" by auto
  from assms obtain base where rw: "l_mutation l = Some ReadWrite"
    and base: "fs_resolve fs (path_components worktree) = Some base"
    and target: "check_target fs worktree base target = Inr ()"
    by (auto simp: assert_write_target_def fence_write_target_def split: if_splits option.splits resource_ref.splits)
  from target n(1,2) obtain resolved where "fs_resolve fs (take n ?t) = Some resolved"
    "is_below base (resolved @ drop n ?t)"
    by (auto simp: check_target_def Let_def min_absorb2 split: option.splits)
  with rw base n show ?thesis by blast
qed

definition demo_tree_ref :: resource_ref where "demo_tree_ref = AgentRef ''u'' (Some ''/w'')"

definition demo_tree_lease :: lease where
  "demo_tree_lease = (demo_lease CHR ''a'' ''o'' 0 1)\<lparr>l_resource_ref := Some demo_tree_ref\<rparr>"

definition demo_tree :: registry where
  "demo_tree = (fresh_registry (uuid_of CHR ''e''))\<lparr>r_next_sequence := 2,
     r_leases := [(uuid_of CHR ''a'', demo_tree_lease)],
     r_fences := [(resource_sha256 demo_host demo_tree_ref,
       fresh_head (fresh_registry (uuid_of CHR ''e'')) demo_tree_ref demo_tree_lease)]\<rparr>"

definition demo_files :: file_system where
  "demo_files = \<lparr>fs_is_dir = (\<lambda>_. True), fs_exists = (\<lambda>c. length c \<le> 1), fs_resolve = Some\<rparr>"

lemma demo_target: "assert_write_target demo_host (demo_providers CHR ''b'' 4) demo_files ''a'' (Some ''f/g'')
    (authority_of demo_tree []) = Inr demo_tree_lease"
proof -
  let ?p = "demo_providers CHR ''b'' 4"
  have "registry_ok demo_host demo_tree" by code_simp
  moreover have "norm_registry demo_tree = demo_tree" by code_simp
  ultimately have read: "read_registry demo_host (authority_of demo_tree []) = Inr (Some demo_tree)"
    using read_authority_of [of demo_host demo_tree "[]"] by simp
  have "verify_query demo_host ?p demo_tree_ref (l_token demo_tree_lease) (Some ''a'') None archived (Some demo_tree)
      = Inr demo_tree_lease" for archived
    by code_simp
  moreover have "canonical_resource_ref AgentPool (resource_ref_json demo_tree_ref) = Inr demo_tree_ref" by code_simp
  ultimately have "verify demo_host ?p AgentPool (resource_ref_json demo_tree_ref) (l_token demo_tree_lease)
      (Some ''a'') None (authority_of demo_tree []) = Inr demo_tree_lease"
    by (simp add: verify_def inspect_authority_def read)
  moreover have "bounded max_id ''a'' = Inr ''a''" by code_simp
  moreover have "filter (\<lambda>l. l_agent_id l = Some ''a'') (dvalues (r_leases demo_tree)) = [demo_tree_lease]" by code_simp
  moreover have "l_resource_ref demo_tree_lease = Some demo_tree_ref" by (simp add: demo_tree_lease_def)
  ultimately have "verify_agent demo_host ?p ''a'' (authority_of demo_tree []) = Inr demo_tree_lease"
    by (simp add: verify_agent_def read del: bounded_eq_Inr filter_map)
  moreover have "fence_write_target demo_files (Some ''f/g'') demo_tree_lease = Inr demo_tree_lease" by code_simp
  ultimately show ?thesis by (simp add: assert_write_target_def)
qed

theorem write_target_confined_witness:
  "\<exists>base resolved n. l_mutation demo_tree_lease = Some ReadWrite
    \<and> fs_resolve demo_files (path_components ''/w'') = Some base
    \<and> n \<le> length (target_components ''/w'' ''f/g'')
    \<and> (n = 0 \<or> fs_exists demo_files (take n (target_components ''/w'' ''f/g'')))
    \<and> (\<forall>m. n < m \<and> m \<le> length (target_components ''/w'' ''f/g'') \<longrightarrow>
         \<not> fs_exists demo_files (take m (target_components ''/w'' ''f/g'')))
    \<and> fs_resolve demo_files (take n (target_components ''/w'' ''f/g'')) = Some resolved
    \<and> is_below base (resolved @ drop n (target_components ''/w'' ''f/g''))"
  by (rule write_target_confined [OF demo_target]) (simp add: demo_tree_lease_def demo_tree_ref_def)

section \<open>Recovery\<close>

text \<open>C9: A recovery that changes anything was authorised by its caller and the capability of the registry,
  names exactly the retained settlement, and the owner of its lease is dead; an abort only of a
  prepared settlement.\<close>

theorem recovery_only_for_dead_owner:
  assumes "recover_agent_settlement h p me replay c intent action au = (res, au')" and "au' \<noteq> au"
  shows "\<exists>d rf tok r s l. parse_recovery_intent h intent = Inr (d, rf, tok) \<and> authorize_caller p me c d = Inr ()
    \<and> load_registry h p au = Inr r \<and> r_recovery_capability r = Some (rc_capability_sha256 c)
    \<and> dget (r_settlements r) (resource_sha256 h rf) = Some s
    \<and> s_recovery_capability_sha256 s = Some (rc_capability_sha256 c)
    \<and> intent_matches_settlement d rf tok s
    \<and> dget (r_leases r) (s_lease_id s) = Some l \<and> owner_state p l = Inr OwnerDead
    \<and> (action = RecoverAbort \<longrightarrow> s_phase s = Prepared)"
proof -
  from assms obtain d rf tok r handler where checks: "parse_recovery_intent h intent = Inr (d, rf, tok)"
    "authorize_caller p me c d = Inr ()" "load_registry h p au = Inr r"
    "r_recovery_capability r = Some (rc_capability_sha256 c)"
    and rest: "(case dget (r_settlements r) (resource_sha256 h rf) of
             None \<Rightarrow>
               (bind_res (resource_head (read_archived_fence h au) r (resource_sha256 h rf))
                  (recovered_disposition h action d rf tok handler), au)
           | Some s \<Rightarrow>
               (case recoverable p c d rf tok r s of
                  Inl e \<Rightarrow> (Inl e, au)
                | Inr _ \<Rightarrow> recover_retained h p replay action handler r s au)) = (res, au')"
    by (auto simp: recover_agent_settlement_def split: sum.splits)
  from rest assms(2) obtain s where s: "dget (r_settlements r) (resource_sha256 h rf) = Some s"
    and recoverable: "recoverable p c d rf tok r s = Inr ()"
    and act: "recover_retained h p replay action handler r s au = (res, au')"
    by (auto split: option.splits sum.splits)
  from recoverable obtain l where "intent_matches_settlement d rf tok s"
    "s_recovery_capability_sha256 s = Some (rc_capability_sha256 c)"
    "dget (r_leases r) (s_lease_id s) = Some l" "owner_state p l = Inr OwnerDead"
    by (auto simp: recoverable_def split: option.splits)
  moreover have "action = RecoverAbort \<Longrightarrow> s_phase s = Prepared"
    using act assms(2) by (auto simp: recover_retained_def split: if_splits)
  ultimately show ?thesis using checks s by blast
qed

definition demo_owned :: registry where
  "demo_owned = demo_retaining\<lparr>r_recovery_capability := Some zeros,
     r_settlements := [(resource_sha256 demo_host demo_ref,
       demo_settlement\<lparr>s_recovery_capability_sha256 := Some zeros\<rparr>)]\<rparr>"

definition demo_recoverer :: providers where
  "demo_recoverer = (demo_providers CHR ''f'' 8)\<lparr>p_boot_id := ''boot2''\<rparr>"

definition demo_coordinator :: coordinator where
  "demo_coordinator = \<lparr>rc_owner_id = ''r'', rc_pid = 7, rc_process_start = ''start'', rc_boot_id = ''boot2'',
     rc_effective_uid = 0, rc_capability_sha256 = zeros, rc_handlers = []\<rparr>"

definition demo_intent :: "string \<Rightarrow> json dict" where
  "demo_intent digest =
     [(''schema'', JStr ''settlement_recovery_intent.v1''), (''resource_ref'', resource_ref_json demo_ref),
      (''token'', token_to_json (FencingToken (uuid_of CHR ''e'') 2)), (''lease_id'', JStr (uuid_of CHR ''b'')),
      (''generation'', JStr (token_generation (FencingToken (uuid_of CHR ''e'') 2))),
      (''settlement_id'', JStr (uuid_of CHR ''d'')), (''session_id'', JStr ''s''), (''policy_sha256'', JStr zeros),
      (''expected_phase'', JStr ''prepared''), (''protected_write_intent_sha256'', JStr zeros),
      (''recovery_owner_id'', JStr ''r''), (''recovery_owner_pid'', JInt 7),
      (''recovery_owner_process_start'', JStr ''start''), (''recovery_owner_boot_id'', JStr ''boot2''),
      (''recovery_owner_effective_uid'', JInt 0), (''sha256'', JStr digest)]"

definition demo_recovered :: registry where
  "demo_recovered = demo_owned\<lparr>r_leases := [], r_settlements := []\<rparr>"

abbreviation demo_caller :: caller where "demo_caller \<equiv> \<lparr>ca_pid = 7, ca_uid = 0\<rparr>"

lemma demo_recovering: "recover_agent_settlement demo_host demo_recoverer demo_caller replay demo_coordinator
    (demo_intent zeros) RecoverAbort (authority_of demo_owned []) = (Inr None, authority_of demo_recovered [])"
proof -
  have ok: "registry_ok demo_host demo_owned" by code_simp
  have "norm_registry demo_owned = demo_owned" by code_simp
  then have load: "load_registry demo_host p (authority_of demo_owned []) = Inr demo_owned" for p
    using load_authority_of [OF ok, of _ "[]"] by simp
  have intent: "parse_recovery_intent demo_host (demo_intent zeros)
      = Inr (demo_intent zeros, demo_ref, FencingToken (uuid_of CHR ''e'') 2)"
  proof -
    have "closed_mapping (demo_intent zeros) settlement_recovery_keys = Inr (demo_intent zeros)" by code_simp
    moreover have "jfield (demo_intent zeros) ''schema'' = JStr ''settlement_recovery_intent.v1''" by code_simp
    moreover have "json_sha256 (jfield (demo_intent zeros) ''sha256'') = Inr zeros" by code_simp
    moreover have "record_sha256 demo_host (demo_intent zeros) [''sha256''] = zeros" by code_simp
    moreover have "canonical_resource_ref AgentPool (jfield (demo_intent zeros) ''resource_ref'') = Inr demo_ref" by code_simp
    moreover have "recovery_token (jfield (demo_intent zeros) ''token'') = Inr (FencingToken (uuid_of CHR ''e'') 2)"
      by code_simp
    moreover have "jfield (demo_intent zeros) ''generation'' = JStr (token_generation (FencingToken (uuid_of CHR ''e'') 2))"
      by code_simp
    ultimately show ?thesis by (simp add: parse_recovery_intent_def)
  qed
  have caller: "authorize_caller demo_recoverer demo_caller demo_coordinator (demo_intent zeros) = Inr ()" by code_simp
  have phase: "check_expected_phase (jfield (demo_intent zeros) ''expected_phase'') = Inr ()" by code_simp
  have handler: "handler_of demo_coordinator (jfield (demo_intent zeros) ''settlement_id'') = Inr None" by code_simp
  have cap: "r_recovery_capability demo_owned = Some (rc_capability_sha256 demo_coordinator)" by code_simp
  have row: "dget (r_settlements demo_owned) (resource_sha256 demo_host demo_ref)
      = Some (demo_settlement\<lparr>s_recovery_capability_sha256 := Some zeros\<rparr>)" by code_simp
  have ready: "recoverable demo_recoverer demo_coordinator (demo_intent zeros) demo_ref
      (FencingToken (uuid_of CHR ''e'') 2) demo_owned (demo_settlement\<lparr>s_recovery_capability_sha256 := Some zeros\<rparr>) = Inr ()"
    by code_simp
  have retire: "retire_settlement demo_host (demo_settlement\<lparr>s_recovery_capability_sha256 := Some zeros\<rparr>) demo_owned
      = demo_recovered" by code_simp
  have prepared: "s_phase (demo_settlement\<lparr>s_recovery_capability_sha256 := Some zeros\<rparr>) = Prepared" by code_simp
  have ok': "registry_ok demo_host demo_recovered" "length (closed_heads demo_recovered) \<le> max_closed_fences"
    by code_simp+
  have fate: "p_write_fate demo_recoverer 0 = Persisted" by (simp add: demo_recoverer_def)
  have "recover_retained demo_host demo_recoverer replay RecoverAbort None demo_owned
      (demo_settlement\<lparr>s_recovery_capability_sha256 := Some zeros\<rparr>) (authority_of demo_owned [])
      = (Inr None, authority_of demo_recovered [])"
    unfolding recover_retained_def recovery_action.case retire fate prepared
    using write_small [OF ok', of "authority_of demo_owned []"] by (simp add: authority_of_def)
  then show ?thesis
    by (simp add: recover_agent_settlement_def intent caller phase handler cap row ready load)
qed

theorem recovery_only_for_dead_owner_witness:
  "\<exists>d rf tok r s l. parse_recovery_intent demo_host (demo_intent zeros) = Inr (d, rf, tok)
    \<and> authorize_caller demo_recoverer demo_caller demo_coordinator d = Inr ()
    \<and> load_registry demo_host demo_recoverer (authority_of demo_owned []) = Inr r
    \<and> r_recovery_capability r = Some (rc_capability_sha256 demo_coordinator)
    \<and> dget (r_settlements r) (resource_sha256 demo_host rf) = Some s
    \<and> s_recovery_capability_sha256 s = Some (rc_capability_sha256 demo_coordinator)
    \<and> intent_matches_settlement d rf tok s
    \<and> dget (r_leases r) (s_lease_id s) = Some l \<and> owner_state demo_recoverer l = Inr OwnerDead
    \<and> (RecoverAbort = RecoverAbort \<longrightarrow> s_phase s = Prepared)"
proof (rule recovery_only_for_dead_owner [OF demo_recovering])
  have "norm_items (registry_to_json demo_owned) \<noteq> norm_items (registry_to_json demo_recovered)" by code_simp
  then show "authority_of demo_recovered [] \<noteq> authority_of demo_owned []" by (auto simp: authority_of_def)
qed

section \<open>Documents and closes\<close>

text \<open>C13: A registry read from any document writes back to a document that reads as the same registry, with its
  unknown fields in canonical order, and is well-formed.\<close>

theorem registry_roundtrip:
  assumes "registry_from_json h data = Inr r" and "json_wf (JObj data)"
  shows "registry_from_json h (norm_items (registry_to_json r)) = Inr (norm_registry r)
    \<and> registry_ok h (norm_registry r)"
  using registry_sound [OF assms] registry_read_back norm_registry_ok by blast

theorem registry_roundtrip_witness:
  "registry_from_json demo_host (norm_items (registry_to_json demo_reg2)) = Inr (norm_registry demo_reg2)
    \<and> registry_ok demo_host (norm_registry demo_reg2)"
proof -
  have "registry_from_json demo_host (norm_items (registry_to_json demo_reg2)) = Inr demo_reg2"
    using registry_read_back [OF demo_regs_ok(2)] demo_norm by simp
  moreover have "json_wf (JObj (norm_items (registry_to_json demo_reg2)))" by code_simp
  ultimately show ?thesis by (rule registry_roundtrip)
qed

text \<open>A settlement close that is built validates, to itself.\<close>

lemma built_close_validates:
  assumes "build_settlement_close h ref tok lid producer run evidence expected sid session pol intent sd = Inr c"
  shows "validate_settlement_close h (close_items c) = Inr c"
proof -
  from assms obtain p where "validate_settlement_close h (close_items p) = Inr c"
    unfolding build_settlement_close_def Let_def bind_res_eq_Inr by (elim exE conjE) (rule that, assumption)
  then show ?thesis using validate_close_sound validate_close_roundtrip by blast
qed

theorem built_close_validates_witness:
  "validate_settlement_close demo_host (close_items demo_receipt) = Inr demo_receipt"
  using demo_receipt_built unfolding settlement_close_of_def by (rule built_close_validates)

end
