(* ===== verification/Lease_Closures.thy ===== *)
theory Lease_Closures
  imports Lease_Replays
begin

text \<open>
  Owners whose admission is closed: which operations keep the record of a closure, the one that may
  evict it, and what the record forbids for as long as it is there.
\<close>

section \<open>The contract of an operation\<close>

text \<open>Every operation but the closing itself leaves the records of closed owners as they are.\<close>

locale closure_keeper = broker_op +
  assumes closures_kept: "body archived r = Inr (x, Some r') \<Longrightarrow> r_closed_owners r' = r_closed_owners r"

lemma closure_keeperI:
  assumes "broker_op body"
    and "\<And>archived r x r'. body archived r = Inr (x, Some r') \<Longrightarrow> r_closed_owners r' = r_closed_owners r"
  shows "closure_keeper body"
  using assms by (simp add: closure_keeper_def closure_keeper_axioms_def)

lemma closures_fixed [simp]:
  "r_closed_owners (snd (purge_orphan_admissions i r)) = r_closed_owners r"
  "r_closed_owners (drop_idle_admission i s r) = r_closed_owners r"
  "r_closed_owners (drop_leases ids r) = r_closed_owners r"
  "r_closed_owners (store_leases ls r) = r_closed_owners r"
  "r_closed_owners (retire_settlement h e r) = r_closed_owners r"
  by (simp_all add: purge_orphan_admissions_def Let_def drop_idle_admission_def drop_leases_def
      store_leases_def retire_settlement_def)

lemma closures_granted:
  "new_lease h k g i r = Inr (l, r') \<Longrightarrow> r_closed_owners r' = r_closed_owners r"
  "admit_agent p i s snapshot n r = Inr r' \<Longrightarrow> r_closed_owners r' = r_closed_owners r"
  "drop_prior_of_request h p q i res archived r = Inr r' \<Longrightarrow> r_closed_owners r' = r_closed_owners r"
  by (auto simp: new_lease_def issue_sequence_def Let_def make_current_result split: if_splits
      dest!: admit_agent_purged drop_prior_result)

lemma closures_slots:
  "new_slots h p g i k n r = Inr (ls, r') \<Longrightarrow> r_closed_owners r' = r_closed_owners r"
  by (induction n arbitrary: k r ls) (auto dest!: closures_granted(1) split: prod.splits)

lemma closures_claimed:
  "grant_claim h i child ttl rf l r = Inr (x, Some r') \<Longrightarrow> r_closed_owners r' = r_closed_owners r"
  by (auto simp: grant_claim_def issue_sequence_def Let_def make_current_result)

lemma closures_foreground:
  "complete_foreground_lease i l r = Inr r' \<Longrightarrow> r_closed_owners r' = r_closed_owners r"
  by (auto simp: complete_foreground_lease_def split: if_splits)

lemma closures_calls:
  "complete_calls i ls removed r = Inr (gone, r') \<Longrightarrow> r_closed_owners r' = r_closed_owners r"
proof (induction ls arbitrary: removed r)
  case (Cons l ls)
  define u where "u = l\<lparr>l_parent_completed_at := stamp (l_parent_completed_at l) (i_text i)\<rparr>"
  have "\<exists>r1 removed'. r_closed_owners r1 = r_closed_owners r
    \<and> complete_calls i ls removed' (drop_idle_admission i (l_session_id l) r1) = Inr (gone, r')"
  proof (cases "l_agent_id u = None \<or> l_child_terminal_at u \<noteq> None")
    case True
    with Cons.prems show ?thesis
      by (cases "complete_foreground_lease i u r")
        (auto simp: Let_def u_def [symmetric] dest: closures_foreground)
  next
    case False
    with Cons.prems show ?thesis
      by (intro exI [of _ "r\<lparr>r_leases := dset (l_lease_id l) u (r_leases r)\<rparr>"] exI [of _ removed])
        (auto simp: Let_def u_def [symmetric])
  qed
  with Cons.IH show ?case by fastforce
qed simp

lemma closures_sweep_drop [simp]:
  "r_closed_owners (sw_registry (sweep_drop k st)) = r_closed_owners (sw_registry st)"
  by (simp add: sweep_drop_def)

lemma closures_sweep_worktree [simp]:
  "r_closed_owners (sw_registry (sweep_worktree reaper state l st)) = r_closed_owners (sw_registry st)"
  by (cases state) (auto simp: sweep_worktree_def split: option.split)

lemma closures_sweep_lease:
  "sweep_lease p i reaper terminal l st = Inr st' \<Longrightarrow>
     r_closed_owners (sw_registry st') = r_closed_owners (sw_registry st)"
  by (auto simp: sweep_lease_def split: option.splits if_splits)

lemma closures_sweep_leases:
  "sweep_leases p i reaper terminal ls st = Inr st' \<Longrightarrow>
     r_closed_owners (sw_registry st') = r_closed_owners (sw_registry st)"
  by (induction ls arbitrary: st) (auto dest!: closures_sweep_lease)

lemma closures_idle_fold [simp]:
  "r_closed_owners (foldl (\<lambda>r2 s. drop_idle_admission i s r2) r ss) = r_closed_owners r"
  by (induction ss arbitrary: r) simp_all

section \<open>The operations\<close>

interpretation configure_closures: closure_keeper "configure_body p s c" for p s c
  by (rule closure_keeperI [OF configure_op.broker_op_axioms])
    (auto simp: configure_body_def Let_def split: if_splits option.splits prod.splits)

interpretation clear_closures: closure_keeper "clear_body p s" for p s
  by (rule closure_keeperI [OF clear_op.broker_op_axioms]) (auto simp: clear_body_def split: if_splits)

interpretation acquire_closures: closure_keeper "acquire_agent_body h p q c" for h p q c
proof (rule closure_keeperI [OF acquire_agent_op.broker_op_axioms])
  fix archived r x r' assume "acquire_agent_body h p q c archived r = Inr (x, Some r')"
  then show "r_closed_owners r' = r_closed_owners r"
    by (cases c) (auto dest!: acquire_agent_result closures_granted)
qed

interpretation successor_closures: closure_keeper "acquire_successor_body h p q t d c" for h p q t d c
  by (rule closure_keeperI [OF acquire_successor_op.broker_op_axioms])
    (auto simp: acquire_successor_body_def Let_def dest!: closures_granted split: prod.splits if_splits)

interpretation reserve_closures: closure_keeper "reserve_batch_body h p n b k q c" for h p n b k q c
  by (rule closure_keeperI [OF reserve_batch_op.broker_op_axioms])
    (auto simp: reserve_batch_body_def Let_def dest!: closures_granted closures_slots split: if_splits)

interpretation claim_closures: closure_keeper "claim_body h p s k a b w t c" for h p s k a b w t c
  by (rule closure_keeperI [OF claim_op.broker_op_axioms]) (blast dest: claim_result closures_claimed)

interpretation prepare_call_closures: closure_keeper "prepare_batch_call_body h p s b k t a n"
  for h p s b k t a n
  by (rule closure_keeperI [OF prepare_call_op.broker_op_axioms]) (auto dest!: prepare_call_result)

interpretation worktree_closures: closure_keeper "acquire_worktree_body h p n w s t q c"
  for h p n w s t q c
  by (rule closure_keeperI [OF acquire_worktree_op.broker_op_axioms])
    (auto simp: acquire_worktree_body_def Let_def dest!: closures_granted
      split: prod.splits option.splits if_splits)

interpretation transfer_closures: closure_keeper "transfer_worktree_body h p k t w q c" for h p k t w q c
  by (rule closure_keeperI [OF transfer_worktree_op.broker_op_axioms])
    (auto simp: transfer_worktree_body_def Let_def split: option.splits if_splits)

interpretation renew_closures: closure_keeper "renew_body h p tok w k" for h p tok w k
  by (rule closure_keeperI [OF renew_op.broker_op_axioms])
    (auto simp: renew_body_def Let_def split: option.splits)

interpretation release_closures: closure_keeper "release_body h p tok w k" for h p tok w k
  by (rule closure_keeperI [OF release_op.broker_op_axioms])
    (auto simp: release_body_def Let_def split: option.splits if_splits)

interpretation release_owner_closures: closure_keeper "release_owner_body p args" for p args
  by (rule closure_keeperI [OF release_owner_op.broker_op_axioms])
    (auto simp: release_owner_body_def drop_selected_def Let_def split: prod.splits if_splits)

interpretation release_session_closures: closure_keeper "release_session_body p s" for p s
  by (rule closure_keeperI [OF release_session_op.broker_op_axioms])
    (auto simp: release_session_body_def drop_selected_def Let_def split: if_splits)

interpretation release_terminal_closures: closure_keeper "release_if_terminal_body args" for args
  by (rule closure_keeperI [OF release_terminal_op.broker_op_axioms])
    (auto simp: release_if_terminal_body_def Let_def split: prod.splits if_splits)

interpretation settle_batch_closures: closure_keeper "settle_batch_body p args" for p args
  by (rule closure_keeperI [OF settle_batch_op.broker_op_axioms])
    (auto simp: settle_batch_body_def drop_selected_def Let_def split: prod.splits if_splits)

interpretation renew_session_closures: closure_keeper "renew_session_body h p s" for h p s
  by (rule closure_keeperI [OF renew_session_op.broker_op_axioms])
    (auto simp: renew_session_body_def Let_def split: if_splits)

interpretation renew_batch_closures: closure_keeper "renew_batch_body p args" for p args
  by (rule closure_keeperI [OF renew_batch_op.broker_op_axioms])
    (auto simp: renew_batch_body_def Let_def split: if_splits prod.splits)

interpretation child_terminal_closures: closure_keeper "child_terminal_body p c" for p c
  by (rule closure_keeperI [OF child_terminal_op.broker_op_axioms])
    (auto simp: child_terminal_body_def Let_def dest!: closures_foreground split: if_splits list.splits)

interpretation parent_completed_closures: closure_keeper "parent_completed_body p args" for p args
  by (rule closure_keeperI [OF parent_completed_op.broker_op_axioms])
    (auto simp: parent_completed_body_def Let_def dest!: closures_calls split: prod.splits if_splits)

interpretation publish_closures: closure_keeper "publish_body h p tok e f c" for h p tok e f c
  by (rule closure_keeperI [OF publish_op.broker_op_axioms]) (auto simp: publish_body_def split: if_splits)

interpretation prepare_closures: closure_keeper "prepare_settlement_body h p q k" for h p q k
  by (rule closure_keeperI [OF prepare_settlement_op.broker_op_axioms]) (auto dest!: prepare_settlement_result)

interpretation sweep_closures: closure_keeper "sweep_body p reaper terminal" for p reaper terminal
  by (rule closure_keeperI [OF sweep_op.broker_op_axioms])
    (auto simp: start_sweep_def dest!: sweep_result closures_sweep_leases)

interpretation abort_closures: closure_keeper "abort_settlement_body h p k tok w" for h p k tok w
  by (rule closure_keeperI [OF abort_op.broker_op_axioms]) (auto simp: abort_settlement_body_def)

interpretation bind_closures: closure_keeper "bind_capability_body c" for c
  by (rule closure_keeperI [OF bind_capability_op.broker_op_axioms])
    (auto simp: bind_capability_body_def split: option.splits if_splits)

lemmas op_closures =
  configure_closures.closure_keeper_axioms clear_closures.closure_keeper_axioms
  acquire_closures.closure_keeper_axioms successor_closures.closure_keeper_axioms
  reserve_closures.closure_keeper_axioms claim_closures.closure_keeper_axioms
  prepare_call_closures.closure_keeper_axioms worktree_closures.closure_keeper_axioms
  transfer_closures.closure_keeper_axioms renew_closures.closure_keeper_axioms
  release_closures.closure_keeper_axioms release_owner_closures.closure_keeper_axioms
  release_session_closures.closure_keeper_axioms release_terminal_closures.closure_keeper_axioms
  settle_batch_closures.closure_keeper_axioms renew_session_closures.closure_keeper_axioms
  renew_batch_closures.closure_keeper_axioms child_terminal_closures.closure_keeper_axioms
  parent_completed_closures.closure_keeper_axioms publish_closures.closure_keeper_axioms
  prepare_closures.closure_keeper_axioms sweep_closures.closure_keeper_axioms
  abort_closures.closure_keeper_axioms bind_closures.closure_keeper_axioms

section \<open>Writing\<close>

text \<open>The owners the stored registry records as closed.\<close>

definition closed_owners :: "host \<Rightarrow> authority \<Rightarrow> string set" where
  "closed_owners h au =
     (case authority_registry h au of None \<Rightarrow> {} | Some r \<Rightarrow> set (dkeys (r_closed_owners r)))"

text \<open>A registry in hand that records the owners the stored one does.\<close>

definition same_closures :: "host \<Rightarrow> authority \<Rightarrow> registry \<Rightarrow> bool" where
  "same_closures h au r \<longleftrightarrow> registry_ok h r \<and> set (dkeys (r_closed_owners r)) = closed_owners h au"

lemma closed_owners_document: "au_document au' = au_document au \<Longrightarrow> closed_owners h au' = closed_owners h au"
  by (simp add: closed_owners_def authority_registry_def read_registry_def)

lemma load_same_closures:
  assumes "authority_inv h au" and "ids_ok p" and "load_registry h p au = Inr r"
  shows "same_closures h au r"
proof -
  have "registry_ok h r" using load_starts [OF assms(1) _ assms(3)] assms(2) by (simp add: ids_ok_def)
  moreover have "set (dkeys (r_closed_owners r)) = closed_owners h au"
  proof (cases "read_registry h au")
    case (Inr v)
    with assms(3) show ?thesis
      by (cases v) (auto simp: load_registry_def closed_owners_def authority_registry_def fresh_registry_def)
  qed (use assms(3) in \<open>simp add: load_registry_def\<close>)
  ultimately show ?thesis by (simp add: same_closures_def)
qed

lemma write_closures:
  assumes "registry_shape r'" and "write_registry h fate r' au = (res, au')"
  shows "closed_owners h au' = closed_owners h au
      \<or> closed_owners h au' = set (dkeys (r_closed_owners r'))"
    and "res = Inr r1 \<Longrightarrow> same_closures h au' r1 \<and> r_closed_owners r1 = r_closed_owners r'"
proof -
  have stored: "closed_owners h au2 = set (dkeys (r_closed_owners r'))"
    if "registry_ok h r'" "au_document au2 = Some (norm_items (registry_to_json (compacted_registry r')))" for au2
  proof -
    have reg: "authority_registry h au2 = Some (norm_registry (compacted_registry r'))"
      by (rule authority_registry_document [OF compacted_registry_ok [OF that(1)] that(2)])
    have "k \<in> set (dkeys (r_closed_owners (norm_registry (compacted_registry r'))))
        \<longleftrightarrow> k \<in> set (dkeys (r_closed_owners r'))" for k
      unfolding dkeys_lookup stored_rows(3) [OF that(1)] by simp
    then show ?thesis unfolding closed_owners_def reg by (simp only: option.case) blast
  qed
  from assms show "closed_owners h au' = closed_owners h au
      \<or> closed_owners h au' = set (dkeys (r_closed_owners r'))"
  proof (cases rule: write_registry_cases)
    case (2 D)
    then show ?thesis using closed_owners_document [of au' au h] by (simp add: archived_part_def)
  next
    case (3 au1)
    then show ?thesis using stored [of au'] by simp
  qed auto
  assume "res = Inr r1"
  from assms show "same_closures h au' r1 \<and> r_closed_owners r1 = r_closed_owners r'"
  proof (cases rule: write_registry_cases)
    case (3 au1)
    then have "r1 = compacted_registry r'" using \<open>res = Inr r1\<close> by (simp split: if_splits)
    with 3 show ?thesis using stored [of au'] compacted_registry_ok by (simp add: same_closures_def)
  qed (use \<open>res = Inr r1\<close> in auto)
qed

lemma write_same_closures:
  assumes "same_closures h au r" and "registry_shape r'" and "r_closed_owners r' = r_closed_owners r"
    and "write_registry h fate r' au = (res, au')"
  shows "closed_owners h au' = closed_owners h au" and "res = Inr r1 \<Longrightarrow> same_closures h au' r1"
  using write_closures [OF assms(2,4)] assms(1,3) by (auto simp: same_closures_def)

lemma same_closures_advance:
  "same_closures h au r \<Longrightarrow> registry_advance r r' \<Longrightarrow> registry_shape r'"
  using registry_ok_shape by (auto simp: same_closures_def registry_advance_def)

context closure_keeper
begin

lemma transact_closures:
  assumes "authority_inv h au" and "ids_ok p"
  shows "closed_owners h (snd (transact h p body au)) = closed_owners h au"
proof (cases "\<exists>r x r'. load_registry h p au = Inr r \<and> body (read_archived_fence h au) r = Inr (x, Some r')")
  case True
  then obtain r x r' where load: "load_registry h p au = Inr r"
    and b: "body (read_archived_fence h au) r = Inr (x, Some r')" by blast
  obtain res au' where wr: "write_registry h (p_write_fate p 0) r' au = (res, au')" by fastforce
  have same: "same_closures h au r" by (rule load_same_closures [OF assms load])
  have "registry_shape r'"
    using body_advance [OF _ b] same same_closures_advance by (auto simp: same_closures_def)
  from write_same_closures(1) [OF same this closures_kept [OF b] wr] load b wr show ?thesis
    by (simp add: transact_def split: sum.split)
next
  case False
  then show ?thesis by (auto simp: transact_def split: sum.splits option.splits prod.splits)
qed

end

lemma run_op_closures:
  assumes "authority_inv h au" and "ids_ok p" and "\<And>c. closure_keeper (body c)"
  shows "closed_owners h (snd (run_op h p checked body au)) = closed_owners h au"
  using closure_keeper.transact_closures [OF assms(3,1,2)] by (simp add: run_op_def split: sum.split)

section \<open>Commit, recovery and repair\<close>

lemma abort_unstarted_closures:
  assumes inv: "authority_inv h au" and ids: "ids_ok p"
  shows "closed_owners h (snd (abort_unstarted h p s au)) = closed_owners h au"
proof (cases "load_registry h p au")
  case (Inr r)
  have same: "same_closures h au r" by (rule load_same_closures [OF inv ids Inr])
  have "closed_owners h au' = closed_owners h au"
    if "write_registry h fate (drop_idle_admission i w (retire_settlement h s r)) au = (res, au')"
    for fate i w res au'
    using write_same_closures(1) [OF same _ _ that]
      same_closures_advance [OF same conjunct1 [OF retire_idle_advance]] by simp
  then show ?thesis
    using Inr by (auto simp: abort_unstarted_def split: option.splits sum.splits prod.splits)
qed (simp add: abort_unstarted_def)

lemma record_ambiguous_closures:
  assumes same: "same_closures h au r" and e: "extras_ok settlement_keys (s_extras c)"
  shows "closed_owners h (snd (record_ambiguous h p c err r au)) = closed_owners h au"
proof (cases "now p 1")
  case (Inr i)
  define r' where "r' = r\<lparr>r_settlements := dset (resource_sha256 h (s_resource_ref c))
     (c\<lparr>s_phase := Ambiguous, s_updated_at := i_text i\<rparr>) (r_settlements r)\<rparr>"
  have "registry_advance r r'"
    using e by (auto simp: r'_def registry_advance_def registry_shape_def fence_order_def intro!: rows_ok_update)
  then have shape: "registry_shape r'" by (rule same_closures_advance [OF same])
  obtain res au' where w: "write_registry h (p_write_fate p 1) r' au = (res, au')" by fastforce
  have "r_closed_owners r' = r_closed_owners r" by (simp add: r'_def)
  from write_same_closures(1) [OF same shape this w] w show ?thesis
    unfolding record_ambiguous_def Inr sum.case Let_def by (simp add: r'_def)
qed (simp add: record_ambiguous_def)

lemma publish_close_closures:
  assumes same: "same_closures h au r"
  shows "closed_owners h (snd (publish_close h p s c r au)) = closed_owners h au"
proof -
  define d where "d = resource_sha256 h (s_resource_ref s)"
  have "closed_owners h au' = closed_owners h au"
    if head: "dget (r_fences r) d = Some head" and
      wr: "write_registry h fate (drop_idle_admission i w (retire_settlement h s
        (r\<lparr>r_fences := dset d (head\<lparr>f_close_receipt := Some c\<rparr>) (r_fences r)\<rparr>))) au = (res, au')"
    for head fate i w res au'
  proof (rule write_same_closures(1) [OF same _ _ wr])
    have "registry_advance r (drop_idle_admission i w (retire_settlement h s
        (r\<lparr>r_fences := dset d (head\<lparr>f_close_receipt := Some c\<rparr>) (r_fences r)\<rparr>)))"
      using publish_close_advance [OF head] retire_idle_advance registry_advance_trans by blast
    then show "registry_shape (drop_idle_admission i w (retire_settlement h s
        (r\<lparr>r_fences := dset d (head\<lparr>f_close_receipt := Some c\<rparr>) (r_fences r)\<rparr>)))"
      by (rule same_closures_advance [OF same])
  qed simp
  then show ?thesis
    by (auto simp: publish_close_def Let_def d_def split: option.splits sum.splits prod.splits)
qed

lemma finish_commit_closures:
  assumes inv: "authority_inv h au" and ids: "ids_ok p"
    and ex: "extras_ok settlement_keys (s_extras s)"
    and start: "\<And>r. started = Inr r \<Longrightarrow> same_closures h au r"
  shows "closed_owners h (snd (finish_commit h p w i l s started au)) = closed_owners h au"
proof (cases started)
  case (Inl e)
  then show ?thesis using abort_unstarted_closures [OF inv ids] by (simp add: finish_commit_def)
next
  case (Inr r)
  have "extras_ok settlement_keys (s_extras (committing i s))" using ex by (simp add: committing_def)
  with Inr publish_close_closures [OF start [OF Inr]] record_ambiguous_closures [OF start [OF Inr]]
  show ?thesis by (simp add: finish_commit_def split: sum.split)
qed

lemma commit_locked_closures:
  assumes inv: "authority_inv h au" and ids: "ids_ok p" and load: "load_registry h p au = Inr r"
    and row: "dget (r_settlements r) d0 = Some s"
  shows "closed_owners h (snd (commit_settlement_locked h p replay w r s au)) = closed_owners h au"
proof (cases "exact_lease s r \<noteq> None \<and> s_phase s \<in> set (commit_phases replay) \<and> \<not> isl (now p 0)")
  case False
  then show ?thesis
    by (cases "now p 0") (auto simp: commit_settlement_locked_def split: option.split)
next
  case True
  then obtain l i where l: "exact_lease s r = Some l" and i: "now p 0 = Inr i"
    by (cases "now p 0") auto
  have start: "starts_from h au r" using load_starts [OF inv _ load] ids by (simp add: ids_ok_def)
  have same: "same_closures h au r" by (rule load_same_closures [OF inv ids load])
  then have ok: "registry_ok h r" by (simp add: same_closures_def)
  then have ex: "extras_ok settlement_keys (s_extras s)"
    using row rows_ok_lookup registry_ok_shape by (fastforce simp: registry_shape_def)
  obtain started au1 where
    wr: "write_registry h (p_write_fate p 0) (started_commit h i l s r) au = (started, au1)" by fastforce
  note adv = started_commit_advance [OF ok ex l]
  have inv1: "authority_inv h au1"
    using write_registry_preserves(1) [OF inv start conjunct1 [OF adv] conjunct2 [OF adv] wr] by simp
  have "r_closed_owners (started_commit h i l s r) = r_closed_owners r" by (simp add: started_commit_def)
  note kept = write_same_closures [OF same same_closures_advance [OF same conjunct1 [OF adv]] this wr]
  have "closed_owners h (snd (finish_commit h p w i l s started au1)) = closed_owners h au1"
    by (rule finish_commit_closures [OF inv1 ids ex kept(2)])
  with kept(1) True l i wr show ?thesis by (auto simp: commit_settlement_locked_def)
qed

lemma commit_closures:
  assumes inv: "authority_inv h au" and ids: "ids_ok p"
  shows "closed_owners h (snd (commit_agent_settlement h p k w tok wr au)) = closed_owners h au"
proof -
  obtain res au' where run: "commit_agent_settlement h p k w tok wr au = (res, au')" by fastforce
  then have "closed_owners h au' = closed_owners h au"
  proof (cases rule: commit_settlement_cases)
    case (2 r s)
    have "wf_dict (r_settlements r)"
      using load_starts [OF inv _ 2(1)] ids by (simp add: ids_ok_def registry_ok_def rows_ok_def)
    from settlement_by_id_row [OF this 2(2)] obtain d where "dget (r_settlements r) d = Some s" ..
    from commit_locked_closures [OF inv ids 2(1) this, of False "ProtectedWriter wr"] 2(5)
    show ?thesis by simp
  qed simp
  with run show ?thesis by simp
qed

lemma recover_changed:
  assumes "recover_agent_settlement h p me replay c intent action au = (res, au')" and "au' \<noteq> au"
  obtains r d s handler where "load_registry h p au = Inr r" and "dget (r_settlements r) d = Some s"
    and "recover_retained h p replay action handler r s au = (res, au')"
proof -
  from assms obtain d rf tok r handler where load: "load_registry h p au = Inr r"
    and rest: "(case dget (r_settlements r) (resource_sha256 h rf) of
             None \<Rightarrow>
               (bind_res (resource_head (read_archived_fence h au) r (resource_sha256 h rf))
                  (recovered_disposition h action d rf tok handler), au)
           | Some s \<Rightarrow>
               (case recoverable p c d rf tok r s of
                  Inl e \<Rightarrow> (Inl e, au)
                | Inr _ \<Rightarrow> recover_retained h p replay action handler r s au)) = (res, au')"
    by (auto simp: recover_agent_settlement_def split: sum.splits)
  from rest assms(2) obtain s where "dget (r_settlements r) (resource_sha256 h rf) = Some s"
    and "recover_retained h p replay action handler r s au = (res, au')"
    by (auto split: option.splits sum.splits)
  with load that show ?thesis by blast
qed

lemma recover_retained_closures:
  assumes inv: "authority_inv h au" and ids: "ids_ok p"
    and load: "load_registry h p au = Inr r" and row: "dget (r_settlements r) d = Some s"
  shows "closed_owners h (snd (recover_retained h p replay action handler r s au)) = closed_owners h au"
proof (cases action)
  case RecoverAbort
  obtain res au' where wr: "write_registry h (p_write_fate p 0) (retire_settlement h s r) au = (res, au')"
    by fastforce
  have same: "same_closures h au r" by (rule load_same_closures [OF inv ids load])
  from write_same_closures(1) [OF same same_closures_advance [OF same conjunct1 [OF retire_advance]] _ wr]
  show ?thesis by (simp add: recover_retained_def RecoverAbort wr split: sum.split)
next
  case RecoverCommit
  show ?thesis
  proof (cases handler)
    case (Some rh)
    obtain res au' where run: "commit_settlement_locked h p True (ReplayHandler (replay (rh_callable rh))) r s au
        = (res, au')" by fastforce
    with commit_locked_closures [OF inv ids load row] have "closed_owners h au' = closed_owners h au"
      by (metis snd_conv)
    then show ?thesis by (simp add: recover_retained_def RecoverCommit Some run split: sum.split)
  qed (simp add: recover_retained_def RecoverCommit)
qed

lemma recover_closures:
  assumes "authority_inv h au" and "ids_ok p"
  shows "closed_owners h (snd (recover_agent_settlement h p me replay c intent action au)) = closed_owners h au"
proof -
  obtain res au' where run: "recover_agent_settlement h p me replay c intent action au = (res, au')" by fastforce
  have "closed_owners h au' = closed_owners h au" if "au' \<noteq> au"
    using run that
  proof (cases rule: recover_changed)
    case (1 r d s handler)
    from recover_retained_closures [OF assms 1(1,2), of replay action handler] 1(3) show ?thesis by simp
  qed
  with run show ?thesis by auto
qed

lemma repair_closures:
  assumes inv: "authority_inv h au"
  shows "closed_owners h (snd (snd (repair h p au))) = closed_owners h au"
proof (cases "read_registry h au = Inr None \<or> isl (read_registry h au)")
  case True
  then show ?thesis
    by (cases "read_registry h au") (auto simp: repair_def split: broker_error.split)
next
  case False
  then obtain r where r: "read_registry h au = Inr (Some r)"
    by (cases "read_registry h au") auto
  have ok: "registry_ok h r" using inv r read_registry_ok by (auto simp: authority_inv_def)
  have "set (dkeys (r_closed_owners (strip_extras r))) = closed_owners h au"
    using r by (force simp: closed_owners_def authority_registry_def strip_extras_def map_rows_def)
  then have "closed_owners h au' = closed_owners h au"
    if "write_registry h fate (strip_extras r) au = (res, au')" for fate res au'
    using write_closures(1) [OF registry_ok_shape [OF strip_extras_ok [OF ok]] that] by auto
  then show ?thesis
    using r by (auto simp: repair_def Let_def split: sum.split prod.split broker_error.split)
qed

section \<open>The life of a closure\<close>

text \<open>
  A step evicts the record of an owner when it closes one more owner while as many records as the
  registry holds are there and this owner's is the oldest.
\<close>

definition evicts :: "host \<Rightarrow> string \<Rightarrow> authority \<Rightarrow> authority \<Rightarrow> bool" where
  "evicts h owner au au' \<longleftrightarrow>
     (\<exists>p w r. au' = snd (close_owner_admission h p w au) \<and> authority_registry h au = Some r
        \<and> dget (r_closed_owners r) w = None
        \<and> max_closed_owner_admissions \<le> length (r_closed_owners r)
        \<and> lowest_generation (r_closed_owners r) = owner)"

inductive steps_keeping :: "host \<Rightarrow> string \<Rightarrow> authority \<Rightarrow> authority \<Rightarrow> bool" for h owner where
  unmoved: "steps_keeping h owner au au"
| moved: "broker_step h au au1 \<Longrightarrow> \<not> evicts h owner au au1 \<Longrightarrow> steps_keeping h owner au1 au2 \<Longrightarrow>
     steps_keeping h owner au au2"

lemma run_op_refuses:
  assumes "checked = Inr c" and "load_registry h p au = Inr r"
    and "body c (read_archived_fence h au) r = Inl e"
  shows "run_op h p checked body au = (Inl e, au)"
  using assms by (simp add: run_op_def transact_def)

lemma close_owner_closures:
  assumes inv: "authority_inv h au" and ids: "ids_ok p"
    and closed: "owner \<in> closed_owners h au"
    and kept: "\<not> evicts h owner au (snd (close_owner_admission h p w au))"
  shows "owner \<in> closed_owners h (snd (close_owner_admission h p w au))"
proof (cases "\<exists>c r x r'. bounded max_id w = Inr c \<and> load_registry h p au = Inr r
    \<and> close_owner_body p c (read_archived_fence h au) r = Inr (x, Some r')")
  case True
  then obtain c r x r' where c: "bounded max_id w = Inr c" and load: "load_registry h p au = Inr r"
    and b: "close_owner_body p c (read_archived_fence h au) r = Inr (x, Some r')" by blast
  have w: "c = w" using c by (rule bounded_same)
  have same: "same_closures h au r" by (rule load_same_closures [OF inv ids load])
  note result = close_owner_result [OF b]
  have reg: "authority_registry h au = Some r"
    using load closed by (auto simp: load_registry_def closed_owners_def authority_registry_def
        split: sum.splits option.splits)
  obtain res au' where wr: "write_registry h (p_write_fate p 0) r' au = (res, au')" by fastforce
  then have au': "snd (close_owner_admission h p w au) = au'"
    unfolding close_owner_admission_def run_op_def c transact_def load sum.case b
    by (simp split: sum.split)
  have "owner \<in> set (dkeys (kept_closes r))"
  proof -
    have "owner \<in> set (dkeys (r_closed_owners r))" using closed reg by (simp add: closed_owners_def)
    moreover have "lowest_generation (r_closed_owners r) \<noteq> owner"
      if "max_closed_owner_admissions \<le> length (r_closed_owners r)"
      using kept that reg result w unfolding evicts_def by blast
    ultimately show ?thesis unfolding kept_closes_def dkeys_lookup by auto
  qed
  then have "owner \<in> set (dkeys (r_closed_owners r'))"
    using result unfolding dkeys_lookup by simp
  moreover have "registry_shape r'"
    using broker_op.body_advance [OF close_owner_op.broker_op_axioms _ b] same same_closures_advance
    by (auto simp: same_closures_def)
  ultimately show ?thesis using write_closures(1) [OF _ wr] closed unfolding au' by blast
next
  case False
  then show ?thesis
    using closed by (auto simp: close_owner_admission_def run_op_def transact_def
        split: sum.splits option.splits prod.splits)
qed

lemma broker_step_closures:
  assumes inv: "authority_inv h au" and step: "broker_step h au au'"
    and closed: "owner \<in> closed_owners h au" and kept: "\<not> evicts h owner au au'"
  shows "owner \<in> closed_owners h au'"
  using step
proof cases
  case (close_owner p w)
  with close_owner_closures [OF inv _ closed] kept show ?thesis by blast
next
  case (configure p w pol sl al m)
  have "closed_owners h au' = closed_owners h au"
    unfolding configure op_defs
    by (rule run_op_closures [OF inv]) (use configure in \<open>auto simp: op_closures split: prod.split\<close>)
  with closed show ?thesis by simp
next
  case (commit p k w tok writer)
  with commit_closures [OF inv] closed show ?thesis by simp
next
  case (recover p me replay c intent action)
  with recover_closures [OF inv] closed show ?thesis by simp
next
  case (repairing p)
  with repair_closures [OF inv] closed show ?thesis by simp
qed (rule subst [of "closed_owners h au"], rule sym, simp only: op_defs,
    rule run_op_closures [OF inv]; simp add: op_closures closed)+

lemma steps_keeping_closed:
  assumes "steps_keeping h owner au au'" and "authority_inv h au" and "owner \<in> closed_owners h au"
  shows "authority_inv h au' \<and> owner \<in> closed_owners h au'"
  using assms
  by (induction rule: steps_keeping.induct)
    (use broker_step_preserves broker_step_closures in blast)+

lemma closed_owner_stored:
  assumes inv: "authority_inv h au" and ids: "ids_ok p"
    and run: "close_owner_admission h p owner au = (Inr c, au')"
  shows "owner \<in> closed_owners h au'"
  using inv ids close_owner_op.broker_op_axioms run [unfolded close_owner_admission_def]
proof (cases rule: run_op_returned)
  case (unwritten w r)
  have "w = owner" using unwritten(1) by (rule bounded_same)
  then have "dget (r_closed_owners r) owner \<noteq> None"
    using unwritten(4) by (auto simp: close_owner_body_def issue_sequence_def Let_def split: option.splits)
  then have "owner \<in> set (dkeys (r_closed_owners r))" unfolding dkeys_lookup .
  with load_same_closures [OF inv ids unwritten(2)] unwritten(5) show ?thesis by (simp add: same_closures_def)
next
  case (written w r r')
  have "w = owner" using written(1) by (rule bounded_same)
  with close_owner_result [OF written(4)] have "dget (r_closed_owners r') owner \<noteq> None" by simp
  then have "owner \<in> set (dkeys (r_closed_owners (norm_registry (compacted_registry r'))))"
    unfolding dkeys_lookup stored_rows(3) [OF written(5)] by simp
  then show ?thesis
    using written(7) by (simp add: closed_owners_def authority_registry_def del: norm_registry_fields)
qed

text \<open>C7: Once an owner's admission is closed, its acquisitions, batch reservations and worktree
  acquisitions are refused and change nothing, after any later sequence of broker calls, whatever
  their arguments, write fates and results, that does not evict the record of the closure; and only
  the closing of one more owner can evict it, when the registry is full of records and this one is
  the oldest.\<close>

theorem closed_owner_refused:
  assumes "reachable h au" and "ids_ok p" and "close_owner_admission h p owner au = (Inr c, au1)"
    and "steps_keeping h owner au1 au'" and "q_owner_id q = owner"
    and "check_agent_request p' q = Inr c1" and "check_batch_request p' n batch kind q = Inr c2"
    and "check_worktree_request p' owner session ref ttl pid start = Inr c3"
  shows "acquire_agent h p' q au' = (Inl OwnerAdmissionClosedError, au')
    \<and> reserve_batch h p' n batch kind q au' = (Inl OwnerAdmissionClosedError, au')
    \<and> acquire_worktree h p' limit owner session ref ttl pid start au' = (Inl OwnerAdmissionClosedError, au')"
proof -
  have inv: "authority_inv h au" by (rule reachable_inv [OF assms(1)])
  have "authority_inv h au1"
    using broker_step_preserves [OF broker_step.close_owner [OF assms(2), of h au owner] inv] assms(3) by simp
  with steps_keeping_closed [OF assms(4)] closed_owner_stored [OF inv assms(2,3)]
  have "owner \<in> closed_owners h au'" by blast
  then obtain r where r: "read_registry h au' = Inr (Some r)" and "owner \<in> set (dkeys (r_closed_owners r))"
    by (auto simp: closed_owners_def authority_registry_def split: sum.splits option.splits)
  then have refuse: "require_owner_admission_open owner r = Inl OwnerAdmissionClosedError"
    unfolding dkeys_lookup by (simp add: require_owner_admission_open_def guard_res_def)
  have load: "load_registry h p' au' = Inr r" using r by (simp add: load_registry_def)
  show ?thesis
    unfolding acquire_agent_def reserve_batch_def acquire_worktree_def
    using assms(5) refuse
    by (intro conjI run_op_refuses [OF assms(6) load] run_op_refuses [OF assms(7) load]
        run_op_refuses [OF assms(8) load])
       (simp_all add: acquire_agent_body_def reserve_batch_body_def acquire_worktree_body_def split: prod.split)
qed

text \<open>Another owner is closed after the first.\<close>

definition demo_au_closures :: authority where
  "demo_au_closures = snd (close_owner_admission demo_host (demo_providers CHR ''d'' 7) ''w''
     (authority_of demo_closed_registry []))"

lemma demo_closures_keeping: "steps_keeping demo_host ''o'' (authority_of demo_closed_registry []) demo_au_closures"
proof -
  have "registry_ok demo_host demo_closed_registry" "norm_registry demo_closed_registry = demo_closed_registry"
    by code_simp+
  then have "read_registry demo_host (authority_of demo_closed_registry []) = Inr (Some demo_closed_registry)"
    using read_authority_of by metis
  then have "\<not> evicts demo_host ''o'' (authority_of demo_closed_registry []) au" for au
    by (auto simp: evicts_def authority_registry_def demo_closed_registry_def max_closed_owner_admissions_def)
  then show ?thesis
    unfolding demo_au_closures_def
    using steps_keeping.moved broker_step.close_owner [OF demo_ids_ok] steps_keeping.unmoved by blast
qed

lemma demo_worktree_checked:
  "check_worktree_request (demo_providers CHR ''d'' 7) ''o'' ''s'' (resource_ref_json (WorktreeRef ''/r'' ''/r/w'' ''b'')) 5 None None
     = Inr (WorktreeRef ''/r'' ''/r/w'' ''b'', None)"
  by code_simp

theorem closed_owner_refused_witness:
  "acquire_agent demo_host (demo_providers CHR ''d'' 7) (demo_request ''o'') demo_au_closures
     = (Inl OwnerAdmissionClosedError, demo_au_closures)
   \<and> reserve_batch demo_host (demo_providers CHR ''d'' 7) 2 ''b'' ''k'' (demo_request ''o'') demo_au_closures
     = (Inl OwnerAdmissionClosedError, demo_au_closures)
   \<and> acquire_worktree demo_host (demo_providers CHR ''d'' 7) 4 ''o'' ''s''
       (resource_ref_json (WorktreeRef ''/r'' ''/r/w'' ''b'')) 5 None None demo_au_closures
     = (Inl OwnerAdmissionClosedError, demo_au_closures)"
proof (rule closed_owner_refused [OF demo_reachable(1) demo_ids_ok demo_closing demo_closures_keeping _ demo_checked(1) _ demo_worktree_checked])
  show "q_owner_id (demo_request ''o'') = ''o''" by (simp add: demo_request_def)
  show "check_batch_request (demo_providers CHR ''d'' 7) 2 ''b'' ''k'' (demo_request ''o'') = Inr None" by code_simp
qed

end
