(* ===== verification/Py_Text.thy ===== *)
theory Py_Text
  imports Py_Json
begin

text \<open>
  The parts of Python's \<open>str\<close> the saga modules use on untrusted values: \<open>str.strip\<close>,
  \<open>str.lower\<close>, \<open>str(value)\<close> of a JSON value with the \<open>repr\<close> of containers, and the
  equality of dictionaries.  A character is a code point up to 255, as in \<open>Py_Json\<close>.
\<close>

section \<open>Stripping and lower case\<close>

definition is_space :: "char \<Rightarrow> bool" where
  "is_space c \<longleftrightarrow>
     (let n = of_char c :: nat in
      9 \<le> n \<and> n \<le> 13 \<or> 28 \<le> n \<and> n \<le> 32 \<or> n = 133 \<or> n = 160)"

definition strip :: "string \<Rightarrow> string" where
  "strip s = rev (dropWhile is_space (rev (dropWhile is_space s)))"

definition lower_char :: "char \<Rightarrow> char" where
  "lower_char c =
     (let n = of_char c :: nat in
      if 65 \<le> n \<and> n \<le> 90 \<or> 192 \<le> n \<and> n \<le> 222 \<and> n \<noteq> 215 then char_of (n + 32) else c)"

definition lower :: "string \<Rightarrow> string" where
  "lower s = map lower_char s"

lemma dropWhile_none: "list_all (\<lambda>c. \<not> P c) s \<Longrightarrow> dropWhile P s = s"
  by (cases s) auto

lemma strip_none:
  assumes "list_all (\<lambda>c. \<not> is_space c) s"
  shows "strip s = s"
  using assms unfolding strip_def by (simp add: dropWhile_none list_all_rev)

lemma strip_Nil [simp]: "strip [] = []"
  by (simp add: strip_def)

lemma dropWhile_fixed: "s = [] \<or> \<not> P (hd s) \<Longrightarrow> dropWhile P s = s"
  by (cases s) auto

lemma strip_strip [simp]: "strip (strip s) = strip s"
proof -
  define a where "a = dropWhile is_space s"
  define b where "b = dropWhile is_space (rev a)"
  have a: "a = [] \<or> \<not> is_space (hd a)"
    unfolding a_def by (meson hd_dropWhile)
  have b: "b = [] \<or> \<not> is_space (hd b)"
    unfolding b_def by (meson hd_dropWhile)
  have "rev b = [] \<or> \<not> is_space (hd (rev b))"
  proof (cases "b = []")
    case False
    obtain xs where "rev a = xs @ b"
      unfolding b_def by (metis takeWhile_dropWhile_id)
    then have "a = rev b @ rev xs" by (metis rev_append rev_rev_ident)
    with a False show ?thesis by auto
  qed simp
  then have "dropWhile is_space (rev b) = rev b" by (rule dropWhile_fixed)
  moreover have "dropWhile is_space b = b" using b by (rule dropWhile_fixed)
  ultimately show ?thesis by (simp add: strip_def a_def [symmetric] b_def [symmetric])
qed

section \<open>The text of a value\<close>

definition repr_char :: "char \<Rightarrow> char \<Rightarrow> string" where
  "repr_char q c =
     (let n = of_char c :: nat in
      if c = q \<or> n = 92 then [CHR 0x5C, c]
      else if n = 9 then [CHR 0x5C, CHR 0x74]
      else if n = 10 then [CHR 0x5C, CHR 0x6E]
      else if n = 13 then [CHR 0x5C, CHR 0x72]
      else if n < 32 \<or> 127 \<le> n \<and> n \<le> 160 \<or> n = 173
        then [CHR 0x5C, CHR 0x78, hex_digit (n div 16), hex_digit (n mod 16)]
      else [c])"

definition py_repr_str :: "string \<Rightarrow> string" where
  "py_repr_str s =
     (let q = (if CHR 0x27 \<in> set s \<and> CHR 0x22 \<notin> set s then CHR 0x22 else CHR 0x27)
      in [q] @ concat (map (repr_char q) s) @ [q])"

fun py_repr :: "json \<Rightarrow> string" where
  "py_repr JNull = ''None''"
| "py_repr (JBool b) = (if b then ''True'' else ''False'')"
| "py_repr (JInt i) = int_text i"
| "py_repr (JFloat t) = t"
| "py_repr (JStr s) = py_repr_str s"
| "py_repr (JArr xs) = ''['' @ join_text '', '' (map py_repr xs) @ '']''"
| "py_repr (JObj kvs) =
     ''{'' @ join_text '', '' (map (\<lambda>(k, t). py_repr_str k @ '': '' @ t)
       (map (\<lambda>(k, v). (k, py_repr v)) kvs)) @ ''}''"

definition py_str :: "json \<Rightarrow> string" where
  "py_str j = (case j of JStr s \<Rightarrow> s | _ \<Rightarrow> py_repr j)"

lemma py_str_JStr [simp]: "py_str (JStr s) = s"
  by (simp add: py_str_def)

section \<open>Dictionary access and equality\<close>

text \<open>\<open>value.get(key, default)\<close>, and \<open>==\<close> on dictionaries, which ignores the order of the
  items at every level.  (A number is compared only after it was checked to be an \<open>int\<close>, so
  Python's \<open>1 == True == 1.0\<close> does not arise.)\<close>

definition jget :: "json dict \<Rightarrow> string \<Rightarrow> json \<Rightarrow> json" where
  "jget kvs k dflt = (case dget kvs k of Some v \<Rightarrow> v | None \<Rightarrow> dflt)"

definition same_dict :: "json dict \<Rightarrow> json dict \<Rightarrow> bool" where
  "same_dict a b \<longleftrightarrow> norm_items a = norm_items b"

lemma same_dict_refl [simp]: "same_dict a a"
  by (simp add: same_dict_def)

lemma jget_absent [simp]: "dget kvs k = None \<Longrightarrow> jget kvs k d = d"
  by (simp add: jget_def)

lemma jget_present [simp]: "dget kvs k = Some v \<Longrightarrow> jget kvs k d = v"
  by (simp add: jget_def)

end
