(* ===== verification/Json_Text.thy ===== *)
theory Json_Text
  imports Py_Text
begin

text \<open>
  The canonical text of a document determines the document.  The hash chain of the run ledger and
  every digest of the lease broker are taken over \<open>canonical_json\<close>, so a digest that is not
  repeated pins the document itself: two documents with one canonical text are equal up to the
  order of the keys.
\<close>

section \<open>Printable documents\<close>

text \<open>
  The documents \<open>json.loads\<close> returns: no repeated key, and a floating number is the text Python
  prints for it, which is never the text of an integer.
\<close>

definition is_digit :: "char \<Rightarrow> bool" where
  "is_digit c \<longleftrightarrow> 48 \<le> (of_char c :: nat) \<and> (of_char c :: nat) \<le> 57"

definition int_char :: "char \<Rightarrow> bool" where
  "int_char c \<longleftrightarrow> is_digit c \<or> c = CHR ''-''"

definition number_char :: "char \<Rightarrow> bool" where
  "number_char c \<longleftrightarrow> int_char c \<or> c \<in> set ''+.eNaInfity''"

definition float_text :: "string \<Rightarrow> bool" where
  "float_text t \<longleftrightarrow> t \<noteq> [] \<and> (int_char (hd t) \<or> hd t \<in> set ''NI'')
     \<and> list_all number_char t \<and> \<not> list_all int_char t"

fun json_printable :: "json \<Rightarrow> bool" where
  "json_printable (JFloat t) = float_text t"
| "json_printable (JArr xs) = list_all json_printable xs"
| "json_printable (JObj kvs) = (wf_dict kvs \<and> list_all (\<lambda>(k, v). json_printable v) kvs)"
| "json_printable j = True"

definition stops :: "string \<Rightarrow> bool" where
  "stops r \<longleftrightarrow> r = [] \<or> hd r \<in> {CHR '','', CHR '']'', CHR ''}'', CHR '':''}"

lemma stops_simps [simp]:
  "stops []" "stops (CHR '','' # r)" "stops (CHR '']'' # r)" "stops (CHR ''}'' # r)"
  "stops (CHR '':'' # r)"
  by (simp_all add: stops_def)

section \<open>Quoted strings\<close>

definition hex_value :: "char \<Rightarrow> nat" where
  "hex_value c = (let n = of_char c in if 97 \<le> n then n - 87 else n - 48)"

definition unescape :: "string \<Rightarrow> char \<times> string" where
  "unescape s =
     (case s of
        [] \<Rightarrow> (CHR 0x00, [])
      | c # r \<Rightarrow>
          if c \<noteq> CHR 0x5C then (c, r)
          else if hd r = CHR 0x6E then (CHR 0x0A, tl r)
          else if hd r = CHR 0x72 then (CHR 0x0D, tl r)
          else if hd r = CHR 0x74 then (CHR 0x09, tl r)
          else if hd r = CHR 0x62 then (CHR 0x08, tl r)
          else if hd r = CHR 0x66 then (CHR 0x0C, tl r)
          else if hd r = CHR 0x75
            then (char_of (16 * hex_value (r ! 3) + hex_value (r ! 4)), drop 5 r)
          else (hd r, tl r))"

lemma hex_value_digit: "n < 16 \<Longrightarrow> hex_value (hex_digit n) = n"
  by (simp add: hex_value_def hex_digit_def Let_def)

definition escaped_chars :: string where
  "escaped_chars = map char_of [34, 92, 10, 13, 9, 8, 12 :: nat]"

lemma escape_char_other:
  assumes "c \<notin> set escaped_chars"
  shows "escape_char c =
    (if (of_char c :: nat) < 32 \<or> 126 < (of_char c :: nat)
     then [CHR 0x5C, CHR 0x75, CHR 0x30, CHR 0x30,
       hex_digit (of_char c div 16), hex_digit (of_char c mod 16)]
     else [c])"
proof -
  have "set escaped_chars = char_of ` {34, 92, 10, 13, 9, 8, 12 :: nat}"
    by (simp add: escaped_chars_def)
  moreover have "c = char_of (of_char c :: nat)" by simp
  ultimately have "(of_char c :: nat) \<notin> {34, 92, 10, 13, 9, 8, 12}"
    using assms by (metis imageI)
  then show ?thesis unfolding escape_char_def Let_def by simp
qed

lemma unescape_escape: "unescape (escape_char c @ r) = (c, r)"
proof (cases "c \<in> set escaped_chars")
  case True
  then show ?thesis
    unfolding escaped_chars_def by (auto simp: escape_char_def unescape_def char_of_def bit_0)
next
  case False
  have "of_char c div 16 < (16 :: nat)" by (simp add: less_mult_imp_div_less)
  then have "16 * hex_value (hex_digit (of_char c div 16)) + hex_value (hex_digit (of_char c mod 16))
      = of_char c"
    by (simp add: hex_value_digit)
  moreover have "c \<noteq> CHR 0x5C" using False by (auto simp: escaped_chars_def char_of_def bit_0)
  ultimately show ?thesis by (simp add: escape_char_other [OF False] unescape_def)
qed

lemma escape_char_nonempty: "escape_char c \<noteq> []"
  by (simp add: escape_char_def Let_def)

lemma hd_escape_char: "hd (escape_char c) \<noteq> CHR 0x22"
  by (auto simp: escape_char_def Let_def)

lemma escape_char_code:
  "escape_char c @ r = escape_char d @ r' \<longleftrightarrow> c = d \<and> r = r'"
  by (metis unescape_escape prod.inject)

lemma escape_char_no_quote:
  "escape_char c @ r \<noteq> CHR 0x22 # r'" "CHR 0x22 # r' \<noteq> escape_char c @ r"
  by (metis hd_escape_char escape_char_nonempty hd_append2 list.sel(1))+

lemma escaped_code:
  "concat (map escape_char s) @ CHR 0x22 # r = concat (map escape_char t) @ CHR 0x22 # r'
     \<Longrightarrow> s = t \<and> r = r'"
proof (induction s arbitrary: t)
  case Nil
  then show ?case by (cases t) (auto simp: escape_char_no_quote)
next
  case (Cons c s)
  then show ?case by (cases t) (auto simp: escape_char_no_quote escape_char_code)
qed

lemma quote_text_code: "quote_text s @ r = quote_text t @ r' \<longleftrightarrow> s = t \<and> r = r'"
  using escaped_code [of s r t r'] by (auto simp: quote_text_def)

section \<open>Numbers\<close>

definition digits_value :: "string \<Rightarrow> nat" where
  "digits_value s = foldl (\<lambda>a c. 10 * a + (of_char c - 48)) 0 s"

lemma digits_value_nat: "digits_value (nat_digits n) = n"
proof (induction n rule: nat_digits.induct)
  case (1 n)
  then show ?case
    by (cases "n < 10") (simp_all add: nat_digits.simps [of n] digits_value_def)
qed

lemma nat_digits_chars: "list_all is_digit (nat_digits n)"
proof (induction n rule: nat_digits.induct)
  case (1 n)
  have "is_digit (char_of (k + 48))" if "k < 10" for k :: nat
    using that by (simp add: is_digit_def)
  from this [of n] this [of "n mod 10"] 1 show ?case
    by (cases "n < 10") (simp_all add: nat_digits.simps [of n])
qed

lemma nat_digits_nonempty: "nat_digits n \<noteq> []"
  by (simp add: nat_digits.simps [of n])

lemma nat_digits_no_sign: "nat_digits n \<noteq> CHR ''-'' # s"
  using nat_digits_chars [of n] by (auto simp: is_digit_def)

lemma nat_digits_inject: "nat_digits m = nat_digits n \<longleftrightarrow> m = n"
  by (metis digits_value_nat)

lemma int_text_inject: "int_text i = int_text j \<longleftrightarrow> i = j"
  using nat_digits_no_sign [of "nat i"] nat_digits_no_sign [of "nat j"]
  by (auto simp: int_text_def nat_digits_inject eq_commute [of "CHR ''-'' # _"])

lemma int_text_chars: "list_all int_char (int_text i)" "int_text i \<noteq> []"
proof -
  have "list_all int_char (nat_digits n)" for n
    using nat_digits_chars [of n] by (auto simp: list_all_iff int_char_def)
  then show "list_all int_char (int_text i)" by (simp add: int_text_def int_char_def)
  show "int_text i \<noteq> []" by (simp add: int_text_def nat_digits_nonempty)
qed

section \<open>Sequences\<close>

lemma join_text_Cons: "join_text sep (x # xs) = x @ concat (map (\<lambda>y. sep @ y) xs)"
  by (induction xs arbitrary: x) auto

text \<open>
  A comma-separated sequence between brackets is read back unambiguously when its elements are,
  each up to a stop character.
\<close>

definition self_delimiting :: "('a \<Rightarrow> string) \<Rightarrow> ('a \<Rightarrow> 'b) \<Rightarrow> 'a \<Rightarrow> 'a \<Rightarrow> bool" where
  "self_delimiting enc val x y \<longleftrightarrow>
     (\<forall>r r'. stops r \<longrightarrow> stops r' \<longrightarrow> enc x @ r = enc y @ r' \<longrightarrow> val x = val y \<and> r = r')"

lemma tail_code:
  assumes "close \<in> {CHR '']'', CHR ''}''}"
    and "\<And>x y. x \<in> set xs \<Longrightarrow> y \<in> set ys \<Longrightarrow> self_delimiting enc val x y"
    and "concat (map (\<lambda>x. '','' @ enc x) xs) @ close # r
       = concat (map (\<lambda>x. '','' @ enc x) ys) @ close # r'"
  shows "map val xs = map val ys \<and> r = r'"
  using assms
proof (induction xs arbitrary: ys)
  case Nil
  then show ?case by (cases ys) auto
next
  case (Cons x xs)
  then obtain y ys' where ys: "ys = y # ys'" by (cases ys) auto
  let ?t = "\<lambda>zs q. concat (map (\<lambda>x. '','' @ enc x) zs) @ close # q"
  have st: "stops (?t zs q)" for zs q
    using Cons.prems(1) by (cases zs) auto
  have "enc x @ ?t xs r = enc y @ ?t ys' r'" using Cons.prems(3) by (simp add: ys)
  moreover have "self_delimiting enc val x y" using Cons.prems(2) by (simp add: ys)
  ultimately have "val x = val y" "?t xs r = ?t ys' r'"
    using st unfolding self_delimiting_def by blast+
  moreover have "map val xs = map val ys' \<and> r = r'"
    using Cons.prems(1,2) \<open>?t xs r = ?t ys' r'\<close> by (intro Cons.IH) (auto simp: ys)
  ultimately show ?case by (simp add: ys)
qed

lemma sequence_code:
  assumes close: "close \<in> {CHR '']'', CHR ''}''}"
    and sd: "\<And>x y. x \<in> set xs \<Longrightarrow> y \<in> set ys \<Longrightarrow> self_delimiting enc val x y"
    and start: "\<And>x. x \<in> set xs \<union> set ys \<Longrightarrow> enc x \<noteq> [] \<and> hd (enc x) \<noteq> close"
    and eq: "join_text '','' (map enc xs) @ close # r = join_text '','' (map enc ys) @ close # r'"
  shows "map val xs = map val ys \<and> r = r'"
proof (cases "xs = [] \<or> ys = []")
  case True
  have "join_text '','' (map enc zs) @ close # q \<noteq> close # q'"
    if "zs \<noteq> []" "set zs \<subseteq> set xs \<union> set ys" for zs q q'
  proof -
    obtain z zs' where z: "zs = z # zs'" using \<open>zs \<noteq> []\<close> by (cases zs) auto
    with that(2) start [of z] show ?thesis by (cases "enc z") (auto simp: join_text_Cons)
  qed
  from this [of xs] this [of ys] True eq show ?thesis by (metis Un_upper1 Un_upper2 append_Nil
      join_text.simps(1) list.inject list.simps(8))
next
  case False
  then obtain x xs' y ys' where c: "xs = x # xs'" "ys = y # ys'" by (meson neq_Nil_conv)
  have "concat (map (\<lambda>x. '','' @ enc x) xs) @ close # r
       = concat (map (\<lambda>x. '','' @ enc x) ys) @ close # r'"
    using eq by (simp add: c join_text_Cons comp_def)
  with close sd show ?thesis by (intro tail_code)
qed

section \<open>Documents\<close>

lemma number_split:
  assumes "list_all number_char s" "list_all number_char t" "stops r" "stops r'" "s @ r = t @ r'"
  shows "s = t \<and> r = r'"
proof -
  have stop: "takeWhile number_char (u @ q) = u" if "list_all number_char u" "stops q" for u q
  proof -
    have "takeWhile number_char q = []"
      using that(2) by (cases q) (auto simp: stops_def number_char_def int_char_def is_digit_def)
    with that(1) show ?thesis by (simp add: list_all_iff takeWhile_append2)
  qed
  from stop [OF assms(1,3)] stop [OF assms(2,4)] assms(5) show ?thesis by (metis same_append_eq)
qed


text \<open>Texts of different constructors differ in their first character, except for numbers.\<close>

lemma number_text:
  assumes "json_printable j" and "\<exists>i t. j = JInt i \<or> j = JFloat t"
  shows "list_all number_char (canonical_json j)" "canonical_json j \<noteq> []"
    "int_char (hd (canonical_json j)) \<or> hd (canonical_json j) \<in> set ''NI''"
proof -
  have "list_all number_char (int_text i)" "int_text i \<noteq> []" "int_char (hd (int_text i))" for i
    using int_text_chars [of i] by (auto simp: list_all_iff number_char_def)
  with assms show "list_all number_char (canonical_json j)" "canonical_json j \<noteq> []"
      "int_char (hd (canonical_json j)) \<or> hd (canonical_json j) \<in> set ''NI''"
    by (auto simp: float_text_def)
qed

fun json_lead :: "json \<Rightarrow> char option" where
  "json_lead JNull = Some (CHR ''n'')"
| "json_lead (JBool b) = Some (if b then CHR ''t'' else CHR ''f'')"
| "json_lead (JInt i) = None"
| "json_lead (JFloat t) = None"
| "json_lead (JStr s) = Some (CHR 0x22)"
| "json_lead (JArr xs) = Some (CHR ''['')"
| "json_lead (JObj kvs) = Some (CHR ''{'')"

lemma canonical_lead:
  assumes "json_printable j"
  shows "canonical_json j \<noteq> []"
    and "json_lead j = (if hd (canonical_json j) \<in> set ''ntf[{'' \<union> {CHR 0x22}
                        then Some (hd (canonical_json j)) else None)"
proof -
  have "int_char c \<or> c \<in> set ''NI'' \<Longrightarrow> c \<notin> set ''ntf[{'' \<union> {CHR 0x22}" for c
    by (auto simp: int_char_def is_digit_def)
  then show "canonical_json j \<noteq> []"
    "json_lead j = (if hd (canonical_json j) \<in> set ''ntf[{'' \<union> {CHR 0x22}
                        then Some (hd (canonical_json j)) else None)"
    using number_text [OF assms] by (cases j; simp add: quote_text_def)+
qed

lemma canonical_opens:
  "json_printable j \<Longrightarrow> canonical_json j \<noteq> [] \<and> hd (canonical_json j) \<notin> {CHR '']'', CHR ''}''}"
proof -
  assume j: "json_printable j"
  have "int_char c \<or> c \<in> set ''NI'' \<Longrightarrow> c \<notin> {CHR '']'', CHR ''}''}" for c
    by (auto simp: int_char_def is_digit_def)
  with number_text [OF j] canonical_lead(1) [OF j] show ?thesis
    by (cases j) (auto simp: quote_text_def)
qed

lemma number_code:
  assumes "json_printable a" "json_printable b"
    "\<exists>i t. a = JInt i \<or> a = JFloat t" "\<exists>i t. b = JInt i \<or> b = JFloat t"
  shows "self_delimiting canonical_json json_norm a b"
  unfolding self_delimiting_def
proof (intro allI impI)
  fix r r' assume "stops r" "stops r'" "canonical_json a @ r = canonical_json b @ r'"
  then have "canonical_json a = canonical_json b" "r = r'"
    using number_split number_text(1) assms by blast+
  moreover have "json_norm a = json_norm b"
    using assms int_text_chars(1) \<open>canonical_json a = canonical_json b\<close>
    by (auto simp: int_text_inject float_text_def)
  ultimately show "json_norm a = json_norm b \<and> r = r'" by blast
qed

lemma norm_items_entries: "norm_items kvs = map (\<lambda>(k, v). (k, json_norm v)) (dsort kvs)"
  by (simp add: norm_items_def dsort_map_rows)

abbreviation item_text :: "string \<times> json \<Rightarrow> string" where
  "item_text p \<equiv> quote_text (fst p) @ '':'' @ canonical_json (snd p)"

lemma canonical_obj:
  "canonical_json (JObj kvs) = ''{'' @ join_text '','' (map item_text (dsort kvs)) @ ''}''"
  unfolding canonical_json.simps dsort_map_rows map_map comp_def by (simp add: case_prod_unfold)

lemma item_code:
  assumes "self_delimiting canonical_json json_norm (snd p) (snd q)"
  shows "self_delimiting item_text (\<lambda>p. (fst p, json_norm (snd p))) p q"
  using assms unfolding self_delimiting_def by (auto simp: quote_text_code)


lemma same_lead:
  assumes "json_printable a" "json_printable b" "canonical_json a @ r = canonical_json b @ r'"
  shows "json_lead a = json_lead b"
proof -
  have "hd (canonical_json a) = hd (canonical_json b)"
    using canonical_lead(1) [OF assms(1)] canonical_lead(1) [OF assms(2)] assms(3)
    by (metis hd_append2)
  then show ?thesis
    unfolding canonical_lead(2) [OF assms(1)] canonical_lead(2) [OF assms(2)] by simp
qed

lemma self_delimitingI:
  assumes "json_printable a" "json_printable b"
    and "\<And>r r'. json_lead a = json_lead b \<Longrightarrow> stops r \<Longrightarrow> stops r' \<Longrightarrow>
           canonical_json a @ r = canonical_json b @ r' \<Longrightarrow> json_norm a = json_norm b \<and> r = r'"
  shows "self_delimiting canonical_json json_norm a b"
  unfolding self_delimiting_def using assms same_lead by blast

lemma array_code:
  assumes "json_printable (JArr xs)" "json_printable (JArr ys)"
    and "\<And>x y. x \<in> set xs \<Longrightarrow> y \<in> set ys \<Longrightarrow> self_delimiting canonical_json json_norm x y"
    and "canonical_json (JArr xs) @ r = canonical_json (JArr ys) @ r'"
  shows "map json_norm xs = map json_norm ys \<and> r = r'"
  using assms canonical_opens
  by (intro sequence_code [where close = "CHR '']''" and enc = canonical_json]) (auto simp: list_all_iff)

lemma object_code:
  assumes "\<And>p q. p \<in> set kvs \<Longrightarrow> q \<in> set lvs \<Longrightarrow>
       self_delimiting canonical_json json_norm (snd p) (snd q)"
    and "canonical_json (JObj kvs) @ r = canonical_json (JObj lvs) @ r'"
  shows "norm_items kvs = norm_items lvs \<and> r = r'"
proof -
  have "map (\<lambda>p. (fst p, json_norm (snd p))) (dsort kvs)
      = map (\<lambda>p. (fst p, json_norm (snd p))) (dsort lvs) \<and> r = r'"
  proof (rule sequence_code [where close = "CHR ''}''" and enc = item_text])
    show "join_text '','' (map item_text (dsort kvs)) @ CHR ''}'' # r
        = join_text '','' (map item_text (dsort lvs)) @ CHR ''}'' # r'"
      using assms(2) by (simp add: canonical_obj del: canonical_json.simps)
    show "self_delimiting item_text (\<lambda>p. (fst p, json_norm (snd p))) p q"
      if "p \<in> set (dsort kvs)" "q \<in> set (dsort lvs)" for p q
      using that by (intro item_code assms(1)) simp_all
  qed (auto simp: quote_text_def)
  then show ?thesis by (simp add: norm_items_entries case_prod_unfold)
qed

lemma number_self_delimiting:
  assumes "json_printable a" and "json_printable b" and "json_lead a = None"
  shows "self_delimiting canonical_json json_norm a b"
proof (cases "json_lead b = None")
  case True
  with assms show ?thesis by (intro number_code) (cases a; cases b; auto)+
next
  case False
  with assms show ?thesis by (intro self_delimitingI) auto
qed

lemma canonical_self_delimiting:
  "json_printable a \<Longrightarrow> json_printable b \<Longrightarrow> self_delimiting canonical_json json_norm a b"
proof (induction a arbitrary: b)
  case (JArr xs)
  then show ?case
  proof (intro self_delimitingI)
    fix r r' assume r: "json_lead (JArr xs) = json_lead b"
      "canonical_json (JArr xs) @ r = canonical_json b @ r'"
    then obtain ys where b: "b = JArr ys" by (cases b) (auto split: if_splits)
    have "self_delimiting canonical_json json_norm x y" if "x \<in> set xs" "y \<in> set ys" for x y
      using that JArr.prems JArr.IH by (auto simp: b list_all_iff)
    with r(2) JArr.prems show "json_norm (JArr xs) = json_norm b \<and> r = r'"
      unfolding b json_norm.simps by (simp only: json.inject) (rule array_code)
  qed
next
  case (JObj kvs)
  then show ?case
  proof (intro self_delimitingI)
    fix r r' assume r: "json_lead (JObj kvs) = json_lead b"
      "canonical_json (JObj kvs) @ r = canonical_json b @ r'"
    then obtain lvs where b: "b = JObj lvs" by (cases b) (auto split: if_splits)
    have "self_delimiting canonical_json json_norm (snd p) (snd q)"
      if "p \<in> set kvs" "q \<in> set lvs" for p q
      using that JObj.prems JObj.IH [of p "snd p" "snd q"]
      by (auto simp: b list_all_iff snds.simps split_beta)
    with r(2) show "json_norm (JObj kvs) = json_norm b \<and> r = r'"
      unfolding b json_norm_obj by (simp only: json.inject) (rule object_code)
  qed
next
  case (JStr s)
  then show ?case
    by (intro self_delimitingI) (cases b; auto simp: quote_text_code split: if_splits)+
next
  case (JBool x)
  then show ?case by (intro self_delimitingI) (cases b; auto split: if_splits)+
next
  case JNull
  then show ?case by (intro self_delimitingI) (cases b; auto split: if_splits)+
next
  case (JInt i)
  then show ?case by (intro number_self_delimiting) simp_all
next
  case (JFloat t)
  then show ?case by (intro number_self_delimiting) simp_all
qed

text \<open>Normalising changes neither the text nor what may be printed.\<close>

declare canonical_json_norm [simp]

lemma json_printable_wf: "json_printable j \<Longrightarrow> json_wf j"
proof (induction j)
  case (JObj kvs)
  then show ?case by (auto simp: list_all_iff snds.simps)
qed (auto simp: list_all_iff)

lemma canonical_json_inject:
  assumes "json_printable a" "json_printable b"
  shows "canonical_json a = canonical_json b \<longleftrightarrow> json_norm a = json_norm b"
proof
  assume "canonical_json a = canonical_json b"
  then have "canonical_json a @ [] = canonical_json b @ []" by simp
  then show "json_norm a = json_norm b"
    using canonical_self_delimiting [OF assms] stops_simps(1) unfolding self_delimiting_def by blast
next
  assume "json_norm a = json_norm b"
  then show "canonical_json a = canonical_json b"
    using assms by (metis canonical_json_norm json_printable_wf)
qed

end
