(* ===== verification/Run_Ledger.thy ===== *)
theory Run_Ledger
  imports Json_Text Lease_Values
begin

text \<open>
  The run-fact ledger of the saga plugin, \<open>saga/scripts/run_ledger.py\<close>: an append-only file of
  JSON lines in which every record carries the hash of its predecessor.  The file is a list of
  complete lines and the unterminated fragment a crashed append may leave; every operation takes the
  file and returns it with its result, so a repair that an exception follows is still visible.
  Locks, \<open>fsync\<close> and file modes are not modelled: an operation between taking and releasing
  the lock is one step, and an absent file is an empty one.
\<close>

section \<open>Errors and stateful operations\<close>

text \<open>
  \<open>RunLedgerError\<close> and \<open>DispatchSettlementError\<close> are both \<open>ValueError\<close>s;
  \<open>ManifestExists\<close> is the settlement error whose message \<open>ensure_manifest\<close> recognises, and
  \<open>PyAttributeError\<close> the built-in exception of \<open>value.get\<close> on a value that is no mapping,
  and \<open>PyKeyError\<close> that of a missing dictionary key.
\<close>

datatype saga_error =
    RunLedgerError
  | DispatchSettlementError
  | ManifestExists
  | PyAttributeError
  | PyKeyError

section \<open>The file\<close>

text \<open>What a reader makes of one line: white space, a text that is no JSON document, a document
  that is no object, or an object.\<close>

datatype ledger_line = Blank | Garbage | Scalar | Row "json dict"

record ledger_file =
  lines :: "ledger_line list"
  torn :: "ledger_line option"

definition new_ledger :: ledger_file where
  "new_ledger = \<lparr>lines = [], torn = None\<rparr>"

type_synonym 'a ledger_op = "ledger_file \<Rightarrow> (saga_error + 'a) \<times> ledger_file"

definition op_bind :: "'a ledger_op \<Rightarrow> ('a \<Rightarrow> 'b ledger_op) \<Rightarrow> 'b ledger_op" where
  "op_bind m k f = (case m f of (Inl e, f') \<Rightarrow> (Inl e, f') | (Inr x, f') \<Rightarrow> k x f')"

definition op_result :: "saga_error + 'a \<Rightarrow> 'a ledger_op" where
  "op_result r f = (r, f)"

definition op_read :: "(ledger_file \<Rightarrow> saga_error + 'a) \<Rightarrow> 'a ledger_op" where
  "op_read g f = (g f, f)"

lemma op_simps [simp]:
  "op_bind m k f = (case m f of (Inl e, f') \<Rightarrow> (Inl e, f') | (Inr x, f') \<Rightarrow> k x f')"
  "op_result r f = (r, f)"
  "op_read g f = (g f, f)"
  by (simp_all add: op_bind_def op_result_def op_read_def)

definition heal_torn_tail :: "ledger_file \<Rightarrow> ledger_file" where
  "heal_torn_tail f = f\<lparr>torn := None\<rparr>"

text \<open>A line that is no record is tolerated in the last place only.\<close>

fun read_lines :: "ledger_line list \<Rightarrow> saga_error + json dict list" where
  "read_lines [] = Inr []"
| "read_lines (l # ls) =
     (case l of
        Blank \<Rightarrow> read_lines ls
      | Row r \<Rightarrow> bind_res (read_lines ls) (\<lambda>rs. Inr (r # rs))
      | _ \<Rightarrow> if ls = [] then Inr [] else Inl RunLedgerError)"

definition all_lines :: "ledger_file \<Rightarrow> ledger_line list" where
  "all_lines f = lines f @ (case torn f of None \<Rightarrow> [] | Some l \<Rightarrow> [l])"

definition read_unlocked :: "ledger_file \<Rightarrow> saga_error + json dict list" where
  "read_unlocked f = read_lines (all_lines f)"

section \<open>Facts\<close>

definition run_fact_schema :: string where "run_fact_schema = ''run_fact.v1''"

definition fact_kinds :: "string list" where
  "fact_kinds =
     [''spend'', ''cache'', ''engine'', ''delegation'', ''reconciliation'', ''benchmark'',
      ''dispatch-settlement'', ''liveness'', ''teardown'']"

definition chain_fields :: "string list" where
  "chain_fields = [''prev_hash'', ''this_hash'']"

definition build_fact :: "string \<Rightarrow> string \<Rightarrow> string \<Rightarrow> json dict \<Rightarrow> saga_error + json dict" where
  "build_fact kind subplot at extra =
     (if kind \<notin> set fact_kinds then Inl RunLedgerError
      else if subplot = [] then Inl RunLedgerError
      else if list_ex (\<lambda>k. k \<in> set chain_fields) (dkeys extra) then Inl RunLedgerError
      else Inr (foldl (\<lambda>d (k, v). dset k v d)
             [(''schema'', JStr run_fact_schema), (''kind'', JStr kind),
              (''subplot_id'', JStr subplot), (''at'', JStr at)] extra))"

section \<open>The hash chain\<close>

definition record_hash :: "'h host_scheme \<Rightarrow> json dict \<Rightarrow> string" where
  "record_hash h r = sha256 h (canonical_json (JObj r))"

definition without :: "string list \<Rightarrow> json dict \<Rightarrow> json dict" where
  "without keys r = filter (\<lambda>p. fst p \<notin> set keys) r"

datatype break_reason = MissingHash | HashMismatch | LinkBroken

datatype chain_report = ChainOk | ChainBreak (break_index: nat) (break_reason: break_reason)

fun verify_from :: "'h host_scheme \<Rightarrow> nat \<Rightarrow> string \<Rightarrow> json dict list \<Rightarrow> chain_report" where
  "verify_from h i prev [] = ChainOk"
| "verify_from h i prev (r # rs) =
     (case dget r ''this_hash'' of
        Some (JStr stored) \<Rightarrow>
          if stored = [] then ChainBreak i MissingHash
          else if record_hash h (without [''this_hash''] r) \<noteq> stored then ChainBreak i HashMismatch
          else if py_str (jget r ''prev_hash'' (JStr [])) \<noteq> prev then ChainBreak i LinkBroken
          else verify_from h (Suc i) stored rs
      | _ \<Rightarrow> ChainBreak i MissingHash)"

definition verify_records :: "'h host_scheme \<Rightarrow> json dict list \<Rightarrow> chain_report" where
  "verify_records h rs = verify_from h 0 [] rs"

section \<open>Snapshots\<close>

record snapshot =
  records :: "json dict list"
  report :: chain_report

definition snapshot_of :: "'h host_scheme \<Rightarrow> ledger_file \<Rightarrow> saga_error + snapshot" where
  "snapshot_of h f =
     bind_res (read_unlocked f) (\<lambda>rs. Inr \<lparr>records = rs, report = verify_records h rs\<rparr>)"

definition snapshot_unlocked :: "'h host_scheme \<Rightarrow> bool \<Rightarrow> snapshot ledger_op" where
  "snapshot_unlocked h heal f =
     (let f1 = (if heal then heal_torn_tail f else f) in (snapshot_of h f1, f1))"

definition read_snapshot :: "'h host_scheme \<Rightarrow> snapshot ledger_op" where
  "read_snapshot h = snapshot_unlocked h False"

definition tail_hash :: "json dict list \<Rightarrow> string" where
  "tail_hash rs = (if rs = [] then [] else py_str (jget (last rs) ''this_hash'' (JStr [])))"

section \<open>Appending\<close>

definition chained :: "'h host_scheme \<Rightarrow> json dict list \<Rightarrow> json dict \<Rightarrow> json dict" where
  "chained h rs payload =
     (let r = without chain_fields payload @ [(''prev_hash'', JStr (tail_hash rs))]
      in r @ [(''this_hash'', JStr (record_hash h r))])"

text \<open>The record is written as its canonical text, so the line reads back with sorted keys.\<close>

definition append_snapshot_fact_unlocked ::
    "'h host_scheme \<Rightarrow> snapshot \<Rightarrow> json dict \<Rightarrow> json dict ledger_op" where
  "append_snapshot_fact_unlocked h s payload f =
     (let r = chained h (records s) payload
      in (Inr r, f\<lparr>lines := lines f @ [Row (norm_items r)]\<rparr>))"

definition require_chain :: "saga_error \<Rightarrow> snapshot \<Rightarrow> saga_error + unit" where
  "require_chain e s = guard_res (report s = ChainOk) e"

definition append_fact_atomic ::
    "'h host_scheme \<Rightarrow> json dict \<Rightarrow> (snapshot \<Rightarrow> saga_error + unit) \<Rightarrow> json dict ledger_op" where
  "append_fact_atomic h payload validate =
     op_bind (snapshot_unlocked h True) (\<lambda>s.
     op_bind (op_result (require_chain RunLedgerError s)) (\<lambda>_.
     op_bind (op_result (validate s)) (\<lambda>_.
     append_snapshot_fact_unlocked h s payload)))"

definition append_fact_built_atomic ::
    "'h host_scheme \<Rightarrow> (snapshot \<Rightarrow> saga_error + json) \<Rightarrow> json dict ledger_op" where
  "append_fact_built_atomic h builder =
     op_bind (snapshot_unlocked h True) (\<lambda>s.
     op_bind (op_result (require_chain RunLedgerError s)) (\<lambda>_.
     op_bind (op_result (builder s)) (\<lambda>payload.
       case payload of
         JObj kvs \<Rightarrow> append_snapshot_fact_unlocked h s kvs
       | _ \<Rightarrow> op_result (Inl RunLedgerError))))"

definition append_fact :: "'h host_scheme \<Rightarrow> json dict \<Rightarrow> json dict ledger_op" where
  "append_fact h payload = append_fact_atomic h payload (\<lambda>_. Inr ())"

section \<open>Reading\<close>

definition read_facts :: "'h host_scheme \<Rightarrow> json dict list ledger_op" where
  "read_facts h = op_bind (read_snapshot h) (\<lambda>s. op_result (Inr (records s)))"

definition read_tail_hash :: "'h host_scheme \<Rightarrow> string ledger_op" where
  "read_tail_hash h = op_bind (read_snapshot h) (\<lambda>s. op_result (Inr (tail_hash (records s))))"

definition verify_chain :: "'h host_scheme \<Rightarrow> chain_report ledger_op" where
  "verify_chain h = op_bind (read_snapshot h) (\<lambda>s. op_result (Inr (report s)))"

definition facts_of_kind :: "'h host_scheme \<Rightarrow> string option \<Rightarrow> json dict list ledger_op" where
  "facts_of_kind h kind =
     op_bind (read_facts h) (\<lambda>rs. op_result (Inr
       (case kind of None \<Rightarrow> rs | Some k \<Rightarrow> filter (\<lambda>r. dget r ''kind'' = Some (JStr k)) rs)))"

text \<open>The names the roll-up aggregates: every field with a number in it, \<open>bool\<close> excluded.\<close>

definition is_number :: "json \<Rightarrow> bool" where
  "is_number j = (case j of JInt _ \<Rightarrow> True | JFloat _ \<Rightarrow> True | _ \<Rightarrow> False)"

definition numeric_fields :: "json dict list \<Rightarrow> string list" where
  "numeric_fields rs =
     sort (remdups (map fst (filter
       (\<lambda>(k, v). k \<notin> set chain_fields \<union> {''schema'', ''kind'', ''subplot_id'', ''at''} \<and> is_number v)
       (concat rs))))"

end
