(* ===== verification/Dispatch_Facts.thy ===== *)
theory Dispatch_Facts
  imports Run_Ledger
begin

text \<open>
  The typed facts of \<open>saga/scripts/dispatch_settlement.py\<close>: the field validators, the unit
  contract, the four builders (manifest, spawn, settle, late delivery) and \<open>_canonical_fact\<close>,
  which rebuilds a fact from its closed schema and refuses every difference.
\<close>

section \<open>Constants\<close>

definition fact_kind :: string where "fact_kind = ''dispatch-settlement''"
definition event_manifest :: string where "event_manifest = ''manifest''"
definition event_spawn :: string where "event_spawn = ''spawn''"
definition event_settle :: string where "event_settle = ''settle''"
definition event_late_delivery :: string where "event_late_delivery = ''late-delivery''"

definition sites :: "string list" where
  "sites = [''outcome'', ''team-execution'', ''workflow'']"

definition delivered :: string where "delivered = ''delivered''"
definition rate_killed :: string where "rate_killed = ''rate-killed''"
definition idle :: string where "idle = ''idle''"
definition silent_noop :: string where "silent_noop = ''silent-no-op''"

definition casualty_classifications :: "string list" where
  "casualty_classifications = [rate_killed, idle, silent_noop]"

definition ledger_classifications :: "string list" where
  "ledger_classifications = delivered # casualty_classifications"

definition max_attempts_limit :: int where "max_attempts_limit = 3"
definition max_id_length :: nat where "max_id_length = 200"
definition max_reason_length :: nat where "max_reason_length = 500"

text \<open>Whether \<open>datetime.fromisoformat\<close> reads a text as a time with UTC offset zero is left to
  the host, as the digest function is.\<close>

record saga_host = host +
  utc_time :: "string \<Rightarrow> bool"

section \<open>Field validators\<close>

definition is_alnum :: "char \<Rightarrow> bool" where
  "is_alnum c \<longleftrightarrow>
     (let n = of_char c :: nat in
      48 \<le> n \<and> n \<le> 57 \<or> 65 \<le> n \<and> n \<le> 90 \<or> 97 \<le> n \<and> n \<le> 122)"

text \<open>\<open>[A-Za-z0-9][A-Za-z0-9._:/@+-]*\<close>\<close>

definition id_text :: "string \<Rightarrow> bool" where
  "id_text s \<longleftrightarrow>
     (case s of
        [] \<Rightarrow> False
      | c # cs \<Rightarrow> is_alnum c \<and> list_all (\<lambda>d. is_alnum d \<or> d \<in> set ''._:/@+-'') cs)"

definition safe_identifier :: "json \<Rightarrow> saga_error + string" where
  "safe_identifier j =
     (case j of
        JStr s \<Rightarrow>
          (let t = strip s in
           if t = [] \<or> max_id_length < length t \<or> \<not> id_text t then Inl DispatchSettlementError
           else Inr t)
      | _ \<Rightarrow> Inl DispatchSettlementError)"

definition bounded_text :: "nat \<Rightarrow> json \<Rightarrow> saga_error + string" where
  "bounded_text limit j =
     (case j of
        JStr s \<Rightarrow>
          (let t = strip s in
           if t = [] \<or> limit < length t \<or> list_ex (\<lambda>c. (of_char c :: nat) < 32) t
           then Inl DispatchSettlementError else Inr t)
      | _ \<Rightarrow> Inl DispatchSettlementError)"

definition digest :: "json \<Rightarrow> saga_error + string" where
  "digest j =
     (case j of
        JStr s \<Rightarrow>
          (let t = lower (strip s) in
           if is_sha256_text t then Inr t else Inl DispatchSettlementError)
      | _ \<Rightarrow> Inl DispatchSettlementError)"

definition zone_text :: "string \<Rightarrow> string" where
  "zone_text s = concat (map (\<lambda>c. if c = CHR ''Z'' then ''+00:00'' else [c]) s)"

definition timestamp :: "'h saga_host_scheme \<Rightarrow> json \<Rightarrow> saga_error + string" where
  "timestamp h j =
     bind_res (bounded_text 100 j) (\<lambda>t.
       if utc_time h (zone_text t) then Inr t else Inl DispatchSettlementError)"

definition int_between :: "int \<Rightarrow> int option \<Rightarrow> json \<Rightarrow> saga_error + int" where
  "int_between lo hi j =
     (case j of
        JInt n \<Rightarrow>
          if lo \<le> n \<and> (case hi of None \<Rightarrow> True | Some m \<Rightarrow> n \<le> m) then Inr n
          else Inl DispatchSettlementError
      | _ \<Rightarrow> Inl DispatchSettlementError)"

definition attempt_value :: "json \<Rightarrow> saga_error + int" where
  "attempt_value = int_between 1 None"

definition threshold_value :: "json \<Rightarrow> saga_error + int" where
  "threshold_value = int_between 0 (Some 100)"

definition max_attempts_value :: "json \<Rightarrow> saga_error + int" where
  "max_attempts_value = int_between 1 (Some max_attempts_limit)"

section \<open>Units\<close>

datatype unit_spec =
  UnitSpec (unit_id: string) (idempotency_key: string) (deliverables: "string list")

definition unit_to_dict :: "unit_spec \<Rightarrow> json" where
  "unit_to_dict u = JObj
     [(''unit_id'', JStr (unit_id u)), (''idempotency_key'', JStr (idempotency_key u)),
      (''deliverables'', JArr (map JStr (deliverables u)))]"

text \<open>A unit argument is a \<open>UnitSpec\<close> or a mapping.\<close>

datatype unit_arg = Spec unit_spec | Raw json

definition raw_unit :: "json \<Rightarrow> saga_error + unit_spec" where
  "raw_unit j =
     (case j of
        JObj m \<Rightarrow>
          (case jget m ''deliverables'' (JArr []) of
             JArr items \<Rightarrow>
               bind_res (safe_identifier (jget m ''unit_id'' (JStr []))) (\<lambda>u.
               bind_res (safe_identifier (jget m ''idempotency_key'' (JStr []))) (\<lambda>k.
               bind_res (map_res safe_identifier items) (\<lambda>ds.
               Inr (UnitSpec u k ds))))
           | _ \<Rightarrow> Inl DispatchSettlementError)
      | _ \<Rightarrow> Inl PyAttributeError)"

definition check_unit :: "unit_spec \<Rightarrow> saga_error + unit_spec" where
  "check_unit c =
     bind_res (safe_identifier (JStr (unit_id c))) (\<lambda>u.
     bind_res (safe_identifier (JStr (idempotency_key c))) (\<lambda>k.
     bind_res (map_res (\<lambda>d. safe_identifier (JStr d)) (deliverables c)) (\<lambda>ds.
       if ds = [] \<or> \<not> distinct ds then Inl DispatchSettlementError
       else Inr (UnitSpec u k ds))))"

definition unit_of :: "unit_arg \<Rightarrow> saga_error + unit_spec" where
  "unit_of a =
     bind_res (case a of Spec u \<Rightarrow> Inr u | Raw j \<Rightarrow> raw_unit j) check_unit"

definition units_of :: "unit_arg list \<Rightarrow> saga_error + unit_spec list" where
  "units_of args =
     bind_res (map_res unit_of args) (\<lambda>us.
       if us = [] then Inl DispatchSettlementError
       else if \<not> distinct (map unit_id us) then Inl DispatchSettlementError
       else Inr us)"

section \<open>Building facts\<close>

definition manifest_fact ::
    "'h saga_host_scheme \<Rightarrow> json \<Rightarrow> json \<Rightarrow> json \<Rightarrow> string \<Rightarrow> unit_arg list \<Rightarrow> json \<Rightarrow> json
      \<Rightarrow> saga_error + json dict" where
  "manifest_fact h subplot at dispatch site units threshold maximum =
     (let site_name = strip site in
      if site_name \<notin> set sites then Inl DispatchSettlementError
      else
        bind_res (units_of units) (\<lambda>us.
        bind_res (safe_identifier subplot) (\<lambda>sp.
        bind_res (timestamp h at) (\<lambda>t.
        bind_res (safe_identifier dispatch) (\<lambda>d.
        bind_res (threshold_value threshold) (\<lambda>th.
        bind_res (max_attempts_value maximum) (\<lambda>mx.
        build_fact fact_kind sp t
          [(''event'', JStr event_manifest), (''dispatch_id'', JStr d), (''site'', JStr site_name),
           (''units'', JArr (map unit_to_dict us)), (''casualty_threshold_percent'', JInt th),
           (''max_attempts'', JInt mx)])))))))"

definition spawn_fact ::
    "'h saga_host_scheme \<Rightarrow> json \<Rightarrow> json \<Rightarrow> json \<Rightarrow> json \<Rightarrow> json \<Rightarrow> json \<Rightarrow> saga_error + json dict" where
  "spawn_fact h subplot at dispatch unit attempt key =
     bind_res (safe_identifier subplot) (\<lambda>sp.
     bind_res (timestamp h at) (\<lambda>t.
     bind_res (safe_identifier dispatch) (\<lambda>d.
     bind_res (safe_identifier unit) (\<lambda>u.
     bind_res (attempt_value attempt) (\<lambda>n.
     bind_res (safe_identifier key) (\<lambda>k.
     build_fact fact_kind sp t
       [(''event'', JStr event_spawn), (''dispatch_id'', JStr d), (''unit_id'', JStr u),
        (''attempt'', JInt n), (''idempotency_key'', JStr k)]))))))"

definition settle_fact ::
    "'h saga_host_scheme \<Rightarrow> json \<Rightarrow> json \<Rightarrow> json \<Rightarrow> json \<Rightarrow> json \<Rightarrow> string \<Rightarrow> json \<Rightarrow> string \<Rightarrow> string
      \<Rightarrow> saga_error + json dict" where
  "settle_fact h subplot at dispatch unit attempt classification reason evidence_ref evidence_sha =
     (let cls = strip classification in
      if cls \<notin> set ledger_classifications then Inl DispatchSettlementError
      else
        bind_res (safe_identifier dispatch) (\<lambda>d.
        bind_res (safe_identifier unit) (\<lambda>u.
        bind_res (attempt_value attempt) (\<lambda>n.
        bind_res (bounded_text max_reason_length reason) (\<lambda>why.
        bind_res
          (if cls = silent_noop then
             (if evidence_ref \<noteq> [] \<or> evidence_sha \<noteq> [] then Inl DispatchSettlementError else Inr [])
           else
             bind_res (safe_identifier (JStr evidence_ref)) (\<lambda>r.
             bind_res (digest (JStr evidence_sha)) (\<lambda>s.
             Inr [(''evidence_ref'', JStr r), (''evidence_sha256'', JStr s)])))
          (\<lambda>evidence.
        bind_res (safe_identifier subplot) (\<lambda>sp.
        bind_res (timestamp h at) (\<lambda>t.
        build_fact fact_kind sp t
          ([(''event'', JStr event_settle), (''dispatch_id'', JStr d), (''unit_id'', JStr u),
            (''attempt'', JInt n), (''classification'', JStr cls), (''reason'', JStr why)]
           @ evidence)))))))))"

definition late_delivery_fact ::
    "'h saga_host_scheme \<Rightarrow> json \<Rightarrow> json \<Rightarrow> json \<Rightarrow> json \<Rightarrow> json \<Rightarrow> json \<Rightarrow> json
      \<Rightarrow> saga_error + json dict" where
  "late_delivery_fact h subplot at dispatch unit attempt evidence_ref evidence_sha =
     bind_res (safe_identifier subplot) (\<lambda>sp.
     bind_res (timestamp h at) (\<lambda>t.
     bind_res (safe_identifier dispatch) (\<lambda>d.
     bind_res (safe_identifier unit) (\<lambda>u.
     bind_res (attempt_value attempt) (\<lambda>n.
     bind_res (safe_identifier evidence_ref) (\<lambda>r.
     bind_res (digest evidence_sha) (\<lambda>s.
     build_fact fact_kind sp t
       [(''event'', JStr event_late_delivery), (''dispatch_id'', JStr d), (''unit_id'', JStr u),
        (''attempt'', JInt n), (''evidence_ref'', JStr r), (''evidence_sha256'', JStr s)])))))))"

section \<open>The closed schema of a fact\<close>

definition unit_args_of :: "json \<Rightarrow> saga_error + unit_arg list" where
  "unit_args_of j =
     (case j of JArr items \<Rightarrow> Inr (map Raw items) | _ \<Rightarrow> Inl DispatchSettlementError)"

definition rebuild_fact :: "'h saga_host_scheme \<Rightarrow> string \<Rightarrow> json dict \<Rightarrow> saga_error + json dict" where
  "rebuild_fact h event r =
     (let get = (\<lambda>k. jget r k (JStr [])) in
      if event = event_manifest then
        bind_res (unit_args_of (jget r ''units'' (JArr []))) (\<lambda>us.
        bind_res (threshold_value (jget r ''casualty_threshold_percent'' JNull)) (\<lambda>th.
        bind_res (max_attempts_value (jget r ''max_attempts'' JNull)) (\<lambda>mx.
        manifest_fact h (get ''subplot_id'') (get ''at'') (get ''dispatch_id'')
          (py_str (get ''site'')) us (JInt th) (JInt mx))))
      else if event = event_spawn then
        bind_res (attempt_value (jget r ''attempt'' JNull)) (\<lambda>n.
        spawn_fact h (get ''subplot_id'') (get ''at'') (get ''dispatch_id'') (get ''unit_id'')
          (JInt n) (get ''idempotency_key''))
      else if event = event_settle then
        bind_res (attempt_value (jget r ''attempt'' JNull)) (\<lambda>n.
        settle_fact h (get ''subplot_id'') (get ''at'') (get ''dispatch_id'') (get ''unit_id'')
          (JInt n) (py_str (get ''classification'')) (get ''reason'')
          (py_str (get ''evidence_ref'')) (py_str (get ''evidence_sha256'')))
      else if event = event_late_delivery then
        bind_res (attempt_value (jget r ''attempt'' JNull)) (\<lambda>n.
        late_delivery_fact h (get ''subplot_id'') (get ''at'') (get ''dispatch_id'') (get ''unit_id'')
          (JInt n) (get ''evidence_ref'') (get ''evidence_sha256''))
      else Inl DispatchSettlementError)"

definition canonical_fact ::
    "'h saga_host_scheme \<Rightarrow> json dict \<Rightarrow> string option \<Rightarrow> saga_error + json dict" where
  "canonical_fact h r expected =
     (let event = strip (py_str (jget r ''event'' (JStr []))) in
      if expected \<noteq> None \<and> expected \<noteq> Some event then Inl DispatchSettlementError
      else
        bind_res (rebuild_fact h event r) (\<lambda>c.
          if same_dict r c then Inr c else Inl DispatchSettlementError))"

definition validate_stored_fact :: "'h saga_host_scheme \<Rightarrow> json dict \<Rightarrow> saga_error + unit" where
  "validate_stored_fact h r =
     bind_res (canonical_fact h (without chain_fields r) None) (\<lambda>_. Inr ())"

end
