(* ===== verification/Dispatch_Ledger.thy ===== *)
theory Dispatch_Ledger
  imports Dispatch_Facts
begin

text \<open>
  The writers of \<open>saga/scripts/dispatch_settlement.py\<close>: a manifest, a spawn, a settlement and
  a late delivery are appended after their guards held on the snapshot the same lock protects.
\<close>

section \<open>Reading the facts of one dispatch\<close>

text \<open>\<open>record.get(key) == value\<close> for a value that is not \<open>None\<close>.\<close>

definition has :: "json dict \<Rightarrow> string \<Rightarrow> json \<Rightarrow> bool" where
  "has r k v \<longleftrightarrow> dget r k = Some v"

definition is_fact :: "json dict \<Rightarrow> bool" where
  "is_fact r \<longleftrightarrow> has r ''kind'' (JStr fact_kind)"

definition validated_records :: "'h saga_host_scheme \<Rightarrow> snapshot \<Rightarrow> saga_error + json dict list" where
  "validated_records h s =
     bind_res (require_chain DispatchSettlementError s) (\<lambda>_.
     bind_res (map_res (validate_stored_fact h) (filter is_fact (records s))) (\<lambda>_.
     Inr (records s)))"

definition fact_records :: "'h saga_host_scheme \<Rightarrow> snapshot \<Rightarrow> string \<Rightarrow> saga_error + json dict list" where
  "fact_records h s dispatch =
     bind_res (validated_records h s) (\<lambda>rs.
     Inr (filter (\<lambda>r. is_fact r \<and> has r ''dispatch_id'' (JStr dispatch)) rs))"

definition verified_snapshot :: "'h saga_host_scheme \<Rightarrow> snapshot ledger_op" where
  "verified_snapshot h =
     op_bind (read_snapshot h) (\<lambda>s.
     op_bind (op_result (validated_records h s)) (\<lambda>_. op_result (Inr s)))"

definition dispatch_records :: "'h saga_host_scheme \<Rightarrow> string \<Rightarrow> json dict list ledger_op" where
  "dispatch_records h dispatch =
     op_bind (verified_snapshot h) (\<lambda>s. op_result (fact_records h s dispatch))"

definition is_event :: "string \<Rightarrow> json dict \<Rightarrow> bool" where
  "is_event e r \<longleftrightarrow> has r ''event'' (JStr e)"

definition of_unit :: "string \<Rightarrow> string \<Rightarrow> json dict \<Rightarrow> bool" where
  "of_unit e u r \<longleftrightarrow> is_event e r \<and> has r ''unit_id'' (JStr u)"

definition of_attempt :: "string \<Rightarrow> string \<Rightarrow> int \<Rightarrow> json dict \<Rightarrow> bool" where
  "of_attempt e u n r \<longleftrightarrow> of_unit e u r \<and> has r ''attempt'' (JInt n)"

text \<open>\<open>int(record["attempt"])\<close> of a record whose schema was just validated.\<close>

definition attempt_of :: "json dict \<Rightarrow> int" where
  "attempt_of r = (case dget r ''attempt'' of Some (JInt n) \<Rightarrow> n | _ \<Rightarrow> 0)"

definition text_of :: "json dict \<Rightarrow> string \<Rightarrow> string" where
  "text_of r k = py_str (jget r k (JStr []))"

section \<open>Manifests\<close>

definition find_manifest :: "json dict list \<Rightarrow> saga_error + json dict option" where
  "find_manifest rs =
     (case filter (is_event event_manifest) rs of
        [] \<Rightarrow> Inr None
      | [m] \<Rightarrow> Inr (Some m)
      | _ \<Rightarrow> Inl DispatchSettlementError)"

definition manifest_units :: "json dict \<Rightarrow> saga_error + unit_spec list" where
  "manifest_units m =
     bind_res (unit_args_of (jget m ''units'' (JArr []))) units_of"

definition unit_named :: "string \<Rightarrow> unit_spec list \<Rightarrow> unit_spec option" where
  "unit_named u us = find (\<lambda>s. unit_id s = u) us"

definition require_manifest :: "json dict list \<Rightarrow> saga_error + json dict" where
  "require_manifest rs =
     bind_res (find_manifest rs) (\<lambda>m.
       case m of None \<Rightarrow> Inl DispatchSettlementError | Some m \<Rightarrow> Inr m)"

definition check_new_manifest ::
    "'h saga_host_scheme \<Rightarrow> string \<Rightarrow> snapshot \<Rightarrow> saga_error + unit" where
  "check_new_manifest h dispatch s =
     bind_res (fact_records h s dispatch) (\<lambda>rs.
     bind_res (find_manifest rs) (\<lambda>m. guard_res (m = None) ManifestExists))"

definition append_manifest :: "'h saga_host_scheme \<Rightarrow> json dict \<Rightarrow> json dict ledger_op" where
  "append_manifest h r =
     op_bind (op_result (canonical_fact h r (Some event_manifest))) (\<lambda>c.
     append_fact_atomic h c (check_new_manifest h (text_of c ''dispatch_id'')))"

definition manifest_immutable :: "string list" where
  "manifest_immutable =
     [''schema'', ''kind'', ''subplot_id'', ''event'', ''dispatch_id'', ''site'', ''units'',
      ''casualty_threshold_percent'', ''max_attempts'']"

definition same_fields :: "string list \<Rightarrow> json dict \<Rightarrow> json dict \<Rightarrow> bool" where
  "same_fields keys a b \<longleftrightarrow>
     list_all (\<lambda>k. json_norm (jfield a k) = json_norm (jfield b k)) keys"

definition recall_manifest :: "'h saga_host_scheme \<Rightarrow> json dict \<Rightarrow> json dict ledger_op" where
  "recall_manifest h c =
     op_bind (dispatch_records h (text_of c ''dispatch_id'')) (\<lambda>rs.
     op_bind (op_result (require_manifest rs)) (\<lambda>m.
     op_result (if same_fields manifest_immutable m c then Inr m else Inl DispatchSettlementError)))"

definition ensure_manifest :: "'h saga_host_scheme \<Rightarrow> json dict \<Rightarrow> json dict ledger_op" where
  "ensure_manifest h r =
     op_bind (op_result (canonical_fact h r (Some event_manifest))) (\<lambda>c f.
       case append_manifest h c f of
         (Inl ManifestExists, f') \<Rightarrow> recall_manifest h c f'
       | res \<Rightarrow> res)"

section \<open>Spawns\<close>

definition is_casualty :: "json dict \<Rightarrow> bool" where
  "is_casualty r \<longleftrightarrow> list_ex (\<lambda>c. has r ''classification'' (JStr c)) casualty_classifications"

definition settlements :: "json dict list \<Rightarrow> string \<Rightarrow> int \<Rightarrow> json dict list" where
  "settlements rs u n = filter (of_attempt event_settle u n) rs"

definition late_seen :: "json dict list \<Rightarrow> string \<Rightarrow> int \<Rightarrow> bool" where
  "late_seen rs u n \<longleftrightarrow> list_ex (of_attempt event_late_delivery u n) rs"

definition one_casualty :: "json dict list \<Rightarrow> bool" where
  "one_casualty ss = (case ss of [s] \<Rightarrow> is_casualty s | _ \<Rightarrow> False)"

definition check_spawn_order :: "json dict list \<Rightarrow> string \<Rightarrow> int \<Rightarrow> saga_error + unit" where
  "check_spawn_order rs u n =
     (let spawns = filter (of_unit event_spawn u) rs;
          previous = sort (map attempt_of spawns);
          expected = (if previous = [] then 1 else last previous + 1)
      in if list_ex (\<lambda>r. has r ''attempt'' (JInt n)) spawns then Inl DispatchSettlementError
         else if n \<noteq> expected then Inl DispatchSettlementError
         else if n \<le> 1 then Inr ()
         else if \<not> one_casualty (settlements rs u (n - 1)) then Inl DispatchSettlementError
         else if late_seen rs u (n - 1) then Inl DispatchSettlementError
         else Inr ())"

definition check_spawn ::
    "'h saga_host_scheme \<Rightarrow> string \<Rightarrow> string \<Rightarrow> int \<Rightarrow> string \<Rightarrow> snapshot \<Rightarrow> saga_error + unit" where
  "check_spawn h dispatch u n key s =
     bind_res (fact_records h s dispatch) (\<lambda>rs.
     bind_res (require_manifest rs) (\<lambda>m.
     bind_res (manifest_units m) (\<lambda>us.
       case unit_named u us of
         None \<Rightarrow> Inl DispatchSettlementError
       | Some spec \<Rightarrow>
           if key \<noteq> idempotency_key spec then Inl DispatchSettlementError
           else bind_res (max_attempts_value (jget m ''max_attempts'' JNull)) (\<lambda>mx.
             if mx < n then Inl DispatchSettlementError
             else check_spawn_order rs u n))))"

definition append_spawn :: "'h saga_host_scheme \<Rightarrow> json dict \<Rightarrow> json dict ledger_op" where
  "append_spawn h r =
     op_bind (op_result (canonical_fact h r (Some event_spawn))) (\<lambda>c.
     append_fact_atomic h c
       (check_spawn h (text_of c ''dispatch_id'') (text_of c ''unit_id'') (attempt_of c)
         (text_of c ''idempotency_key'')))"

section \<open>Settlements and late deliveries\<close>

definition check_settlement ::
    "'h saga_host_scheme \<Rightarrow> string \<Rightarrow> string \<Rightarrow> int \<Rightarrow> snapshot \<Rightarrow> saga_error + unit" where
  "check_settlement h dispatch u n s =
     bind_res (fact_records h s dispatch) (\<lambda>rs.
     bind_res (require_manifest rs) (\<lambda>_.
       if \<not> list_ex (of_attempt event_spawn u n) rs then Inl DispatchSettlementError
       else if list_ex (of_attempt event_settle u n) rs then Inl DispatchSettlementError
       else Inr ()))"

definition append_settlement :: "'h saga_host_scheme \<Rightarrow> json dict \<Rightarrow> json dict ledger_op" where
  "append_settlement h r =
     op_bind (op_result (canonical_fact h r (Some event_settle))) (\<lambda>c.
     append_fact_atomic h c
       (check_settlement h (text_of c ''dispatch_id'') (text_of c ''unit_id'') (attempt_of c)))"

definition check_late_delivery ::
    "'h saga_host_scheme \<Rightarrow> string \<Rightarrow> string \<Rightarrow> int \<Rightarrow> snapshot \<Rightarrow> saga_error + unit" where
  "check_late_delivery h dispatch u n s =
     bind_res (fact_records h s dispatch) (\<lambda>rs.
     bind_res (require_manifest rs) (\<lambda>_.
       if \<not> one_casualty (settlements rs u n) then Inl DispatchSettlementError
       else if late_seen rs u n then Inl DispatchSettlementError
       else Inr ()))"

definition append_late_delivery :: "'h saga_host_scheme \<Rightarrow> json dict \<Rightarrow> json dict ledger_op" where
  "append_late_delivery h r =
     op_bind (op_result (canonical_fact h r (Some event_late_delivery))) (\<lambda>c.
     append_fact_atomic h c
       (check_late_delivery h (text_of c ''dispatch_id'') (text_of c ''unit_id'') (attempt_of c)))"

end
