(* ===== verification/Run_Chain.thy ===== *)
theory Run_Chain
  imports Run_Ledger
begin

text \<open>
  What the run-fact ledger promises its writers: an append extends the verified history by exactly
  the record it returns, an unterminated fragment costs nothing that was complete, and the chain
  pins the history.
\<close>

section \<open>The chain of an extended history\<close>

definition digest_host :: "'h host_scheme \<Rightarrow> bool" where
  "digest_host h \<longleftrightarrow> (\<forall>s. is_sha256_text (sha256 h s))"

lemma digest_nonempty: "digest_host h \<Longrightarrow> record_hash h r \<noteq> []"
  by (auto simp: digest_host_def record_hash_def is_sha256_text_def)
     (metis list.size(3) zero_neq_numeral)

lemma verify_from_append:
  "verify_from h i prev (rs @ ss) =
     (case verify_from h i prev rs of
        ChainOk \<Rightarrow> verify_from h (i + length rs) (if rs = [] then prev else tail_hash rs) ss
      | ChainBreak k b \<Rightarrow> ChainBreak k b)"
proof (induction rs arbitrary: i prev)
  case (Cons r rs)
  show ?case
  proof (cases "dget r ''this_hash''")
    case (Some j)
    then show ?thesis
      using Cons.IH by (cases j) (auto simp: tail_hash_def split: chain_report.splits)
  qed simp
qed simp

lemma verify_records_append:
  "verify_records h (rs @ ss) = ChainOk \<longleftrightarrow>
     verify_records h rs = ChainOk \<and> verify_from h (length rs) (tail_hash rs) ss = ChainOk"
  by (auto simp: verify_records_def verify_from_append tail_hash_def split: chain_report.splits)

lemma verify_one:
  "verify_from h i prev [r] = ChainOk \<longleftrightarrow>
     (\<exists>stored. dget r ''this_hash'' = Some (JStr stored) \<and> stored \<noteq> []
        \<and> record_hash h (without [''this_hash''] r) = stored
        \<and> py_str (jget r ''prev_hash'' (JStr [])) = prev)"
  by (auto split: option.splits json.splits)

section \<open>A chained record\<close>

lemma dget_filter_key:
  "dget (filter (\<lambda>p. P (fst p)) kvs) k = (if P k then dget kvs k else None)"
  by (induction kvs) auto

lemma dget_without: "dget (without keys r) k = (if k \<in> set keys then None else dget r k)"
  using dget_filter_key [of "\<lambda>k. k \<notin> set keys" r k] by (simp add: without_def)

lemma wf_dict_without: "wf_dict r \<Longrightarrow> wf_dict (without keys r)"
  unfolding wf_dict_def without_def by (rule distinct_map_filter)

lemma without_norm_items: "without keys (norm_items r) = norm_items (without keys r)"
  unfolding without_def by (rule filter_norm_items)

abbreviation dict_json_wf :: "json dict \<Rightarrow> bool" where
  "dict_json_wf r \<equiv> json_wf (JObj r)"

definition linked :: "json dict list \<Rightarrow> json dict \<Rightarrow> json dict" where
  "linked rs payload = without chain_fields payload @ [(''prev_hash'', JStr (tail_hash rs))]"

lemma chained_linked:
  "chained h rs payload = linked rs payload @ [(''this_hash'', JStr (record_hash h (linked rs payload)))]"
  by (simp add: chained_def linked_def Let_def)

lemma dkeys_without: "k \<in> fst ` set (without keys r) \<longleftrightarrow> k \<in> fst ` set r \<and> k \<notin> set keys"
  by (auto simp: without_def)

lemma linked_wf:
  assumes "dict_json_wf payload"
  shows "dict_json_wf (linked rs payload)" "''this_hash'' \<notin> fst ` set (linked rs payload)"
proof -
  have "wf_dict (without chain_fields payload)" using assms by (simp add: wf_dict_without)
  then show "dict_json_wf (linked rs payload)"
    using assms by (auto simp: linked_def wf_dict_def chain_fields_def list_all_iff without_def)
  show "''this_hash'' \<notin> fst ` set (linked rs payload)"
    by (simp add: linked_def dkeys_without chain_fields_def)
qed

lemma chained_wf: "dict_json_wf payload \<Longrightarrow> dict_json_wf (chained h rs payload)"
  using linked_wf [of payload rs] by (auto simp: chained_linked wf_dict_def)

lemma dget_chained:
  "dget (chained h rs payload) k =
     (if k = ''this_hash'' then Some (JStr (record_hash h (linked rs payload)))
      else if k = ''prev_hash'' then Some (JStr (tail_hash rs))
      else dget payload k)"
  by (auto simp: chained_linked linked_def map_add_def dget_without chain_fields_def
      split: option.splits)

lemma chained_link:
  assumes "digest_host h" "dict_json_wf payload"
  shows "verify_from h i (tail_hash rs) [norm_items (chained h rs payload)] = ChainOk"
proof -
  let ?r = "chained h rs payload"
  note wf = chained_wf [OF assms(2), of h rs] and lwf = linked_wf [OF assms(2), of rs]
  have "without [''this_hash''] ?r = linked rs payload"
    using lwf(2) unfolding chained_linked without_def
    by (auto simp: image_iff intro!: filter_True)
  then have "record_hash h (without [''this_hash''] (norm_items ?r)) = record_hash h (linked rs payload)"
    using canonical_json_norm [OF lwf(1)] by (simp add: without_norm_items record_hash_def)
  then show ?thesis
    using wf digest_nonempty [OF assms(1)] unfolding verify_one
    by (simp add: dget_chained jget_def)
qed

lemma verify_extended:
  assumes "digest_host h" "dict_json_wf payload" "verify_records h rs = ChainOk"
  shows "verify_records h (rs @ [norm_items (chained h rs payload)]) = ChainOk"
  using assms chained_link unfolding verify_records_append by blast

section \<open>Files\<close>

text \<open>Every line of a healed file that reads is a record or blank, except perhaps the last.\<close>

lemma read_lines_append:
  "read_lines (ls @ [Row r]) = Inr rs \<longleftrightarrow>
     (\<exists>rs'. read_lines ls = Inr rs' \<and> list_all (\<lambda>l. l \<notin> {Garbage, Scalar}) ls \<and> rs = rs' @ [r])"
  by (induction ls arbitrary: rs) (auto split: ledger_line.splits if_splits)

lemma read_lines_rows:
  "list_all (\<lambda>l. l \<notin> {Garbage, Scalar}) ls \<Longrightarrow>
     read_lines ls = Inr (concat (map (\<lambda>l. case l of Row r \<Rightarrow> [r] | _ \<Rightarrow> []) ls))"
  by (induction ls) (auto split: ledger_line.splits)

text \<open>
  The history of a file is its complete records; the fragment behind them is either unreadable or a
  record whose newline was lost, which readers already see.
\<close>

definition rows_in :: "ledger_line list \<Rightarrow> json dict list" where
  "rows_in ls = concat (map (\<lambda>l. case l of Row r \<Rightarrow> [r] | _ \<Rightarrow> []) ls)"

definition history :: "ledger_file \<Rightarrow> json dict list" where
  "history f = rows_in (lines f)"

definition visible :: "ledger_file \<Rightarrow> json dict list" where
  "visible f = rows_in (all_lines f)"

definition log_inv :: "'h host_scheme \<Rightarrow> ledger_file \<Rightarrow> bool" where
  "log_inv h f \<longleftrightarrow> list_all (\<lambda>l. l \<notin> {Garbage, Scalar}) (lines f)
     \<and> verify_records h (history f) = ChainOk \<and> list_all dict_json_wf (history f)"

definition grown :: "'h host_scheme \<Rightarrow> ledger_file \<Rightarrow> json dict \<Rightarrow> ledger_file" where
  "grown h f payload =
     f\<lparr>lines := lines f @ [Row (norm_items (chained h (history f) payload))], torn := None\<rparr>"

lemma rows_in_append [simp]: "rows_in (ls @ ls') = rows_in ls @ rows_in ls'"
  by (simp add: rows_in_def)

lemma rows_in_row [simp]: "rows_in [Row r] = [r]" "rows_in [] = []"
  by (simp_all add: rows_in_def)

lemma history_heal [simp]: "history (heal_torn_tail f) = history f" "lines (heal_torn_tail f) = lines f"
  "torn (heal_torn_tail f) = None"
  by (simp_all add: history_def heal_torn_tail_def)

lemma history_grown [simp]:
  "history (grown h f payload) = history f @ [norm_items (chained h (history f) payload)]"
  by (simp add: history_def grown_def)

lemma read_log:
  assumes "log_inv h f"
  shows "read_unlocked (heal_torn_tail f) = Inr (history f)"
  using assms by (simp add: read_unlocked_def all_lines_def log_inv_def read_lines_rows history_def
      rows_in_def)

lemma read_visible:
  assumes "log_inv h f"
  shows "read_unlocked f = Inr (visible f)"
proof (cases "torn f")
  case None
  then have "all_lines f = lines f" by (simp add: all_lines_def)
  with assms show ?thesis
    by (simp add: read_unlocked_def visible_def log_inv_def read_lines_rows rows_in_def)
next
  case (Some l)
  have "read_lines (ls @ [l]) = Inr (rows_in (ls @ [l]))"
    if "list_all (\<lambda>l. l \<notin> {Garbage, Scalar}) ls" for ls
    using that by (induction ls) (auto simp: rows_in_def split: ledger_line.splits)
  with Some assms show ?thesis
    by (simp add: read_unlocked_def visible_def all_lines_def log_inv_def)
qed

lemma log_inv_new: "log_inv h new_ledger"
  by (simp add: log_inv_def new_ledger_def history_def verify_records_def)

lemma log_inv_heal [simp]: "log_inv h (heal_torn_tail f) = log_inv h f"
  by (simp add: log_inv_def)

lemma norm_items_json_wf: "dict_json_wf r \<Longrightarrow> dict_json_wf (norm_items r)"
  using json_norm_wf [of "JObj r"] by simp

lemma log_inv_grown:
  assumes "log_inv h f" "digest_host h" "dict_json_wf payload"
  shows "log_inv h (grown h f payload)"
proof -
  have "dict_json_wf (norm_items (chained h (history f) payload))"
    using assms(3) by (intro norm_items_json_wf chained_wf)
  then show ?thesis
    using assms verify_extended [OF assms(2,3)] unfolding log_inv_def history_grown
    by (simp add: grown_def)
qed

lemma append_fact_atomic_log:
  assumes "log_inv h f"
  shows "append_fact_atomic h payload validate f =
    (case validate \<lparr>records = history f, report = ChainOk\<rparr> of
       Inl e \<Rightarrow> (Inl e, heal_torn_tail f)
     | Inr _ \<Rightarrow> (Inr (chained h (history f) payload), grown h f payload))"
  using assms read_log [OF assms]
  by (auto simp: append_fact_atomic_def snapshot_unlocked_def snapshot_of_def require_chain_def
      append_snapshot_fact_unlocked_def Let_def grown_def heal_torn_tail_def log_inv_def
      split: sum.splits)

lemma snapshot_log:
  assumes "log_inv h f"
  shows "read_snapshot h f =
    (Inr \<lparr>records = visible f, report = verify_records h (visible f)\<rparr>, f)"
  using read_visible [OF assms] by (simp add: read_snapshot_def snapshot_unlocked_def snapshot_of_def)

section \<open>The contract of the log\<close>

text \<open>
  What a client of the ledger relies on: an append adds one row behind the history when its guard
  accepts that history, and leaves the history alone otherwise.
\<close>

locale guarded_log =
  fixes hist :: "'f \<Rightarrow> 'r list"
    and sound :: "'f \<Rightarrow> bool"
    and fits :: "'q \<Rightarrow> bool"
    and passes :: "'v \<Rightarrow> 'r list \<Rightarrow> bool"
    and entry :: "'r list \<Rightarrow> 'q \<Rightarrow> 'r"
    and put :: "'q \<Rightarrow> 'v \<Rightarrow> 'f \<Rightarrow> 'f"
  assumes put_accepted: "sound f \<Longrightarrow> passes v (hist f) \<Longrightarrow> hist (put q v f) = hist f @ [entry (hist f) q]"
    and put_refused: "sound f \<Longrightarrow> \<not> passes v (hist f) \<Longrightarrow> hist (put q v f) = hist f"
    and put_sound: "sound f \<Longrightarrow> fits q \<Longrightarrow> sound (put q v f)"
begin

lemma put_keeps:
  assumes "sound f" "I (hist f)"
    and "\<And>rs. rs = hist f \<Longrightarrow> I rs \<Longrightarrow> passes v rs \<Longrightarrow> I (rs @ [entry rs q])"
  shows "I (hist (put q v f))"
  using assms put_accepted put_refused by (cases "passes v (hist f)") auto

lemma put_extends: "sound f \<Longrightarrow> \<exists>ext. hist (put q v f) = hist f @ ext"
  using put_accepted put_refused by (cases "passes v (hist f)") auto

end

interpretation ledger: guarded_log history "\<lambda>f. digest_host h \<and> log_inv h f" dict_json_wf
    "\<lambda>v rs. v \<lparr>records = rs, report = ChainOk\<rparr> = Inr ()"
    "\<lambda>rs c. norm_items (chained h rs c)" "\<lambda>c v f. snd (append_fact_atomic h c v f)"
  for h :: "'h host_scheme"
proof unfold_locales
  fix f v and c :: "json dict"
  assume hf: "digest_host h \<and> log_inv h f"
  then have h: "digest_host h" and f: "log_inv h f" by simp_all
  note step = append_fact_atomic_log [OF f, of c v]
  show "v \<lparr>records = history f, report = ChainOk\<rparr> = Inr () \<Longrightarrow>
      history (snd (append_fact_atomic h c v f)) = history f @ [norm_items (chained h (history f) c)]"
    by (simp add: step)
  show "v \<lparr>records = history f, report = ChainOk\<rparr> \<noteq> Inr () \<Longrightarrow>
      history (snd (append_fact_atomic h c v f)) = history f"
    by (simp add: step split: sum.splits)
  show "dict_json_wf c \<Longrightarrow>
      digest_host h \<and> log_inv h (snd (append_fact_atomic h c v f))"
    using h f by (simp add: step log_inv_grown split: sum.splits del: json_wf.simps)
qed

end
