(* ===== verification/Dispatch_Typed.thy ===== *)
theory Dispatch_Typed
  imports Dispatch_Ledger Run_Chain
begin

text \<open>
  A settlement fact as a value: the four shapes the closed schema admits.  A stored record validates
  exactly when it spells one of them, up to the order of its keys, so the guards of the writers,
  which read dictionaries, become conditions on these values.
\<close>

section \<open>The four shapes\<close>

datatype dispatch_fact =
    ManifestF (d_subplot: string) (d_at: string) (d_dispatch: string) (d_site: string)
      (d_units: "unit_spec list") (d_threshold: int) (d_max: int)
  | SpawnF (d_subplot: string) (d_at: string) (d_dispatch: string) (d_unit: string)
      (d_attempt: int) (d_key: string)
  | SettleF (d_subplot: string) (d_at: string) (d_dispatch: string) (d_unit: string)
      (d_attempt: int) (d_class: string) (d_reason: string) (d_evidence: "(string \<times> string) option")
  | LateF (d_subplot: string) (d_at: string) (d_dispatch: string) (d_unit: string)
      (d_attempt: int) (d_ref: string) (d_sha: string)

fun fact_event :: "dispatch_fact \<Rightarrow> string" where
  "fact_event (ManifestF _ _ _ _ _ _ _) = event_manifest"
| "fact_event (SpawnF _ _ _ _ _ _) = event_spawn"
| "fact_event (SettleF _ _ _ _ _ _ _ _) = event_settle"
| "fact_event (LateF _ _ _ _ _ _ _) = event_late_delivery"

fun fact_fields :: "dispatch_fact \<Rightarrow> json dict" where
  "fact_fields (ManifestF _ _ _ site us th mx) =
     [(''site'', JStr site), (''units'', JArr (map unit_to_dict us)),
      (''casualty_threshold_percent'', JInt th), (''max_attempts'', JInt mx)]"
| "fact_fields (SpawnF _ _ _ u n k) =
     [(''unit_id'', JStr u), (''attempt'', JInt n), (''idempotency_key'', JStr k)]"
| "fact_fields (SettleF _ _ _ u n c why ev) =
     [(''unit_id'', JStr u), (''attempt'', JInt n), (''classification'', JStr c),
      (''reason'', JStr why)]
     @ (case ev of None \<Rightarrow> [] | Some (r, s) \<Rightarrow>
          [(''evidence_ref'', JStr r), (''evidence_sha256'', JStr s)])"
| "fact_fields (LateF _ _ _ u n r s) =
     [(''unit_id'', JStr u), (''attempt'', JInt n), (''evidence_ref'', JStr r),
      (''evidence_sha256'', JStr s)]"

definition fact_items :: "dispatch_fact \<Rightarrow> json dict" where
  "fact_items f =
     [(''schema'', JStr run_fact_schema), (''kind'', JStr fact_kind),
      (''subplot_id'', JStr (d_subplot f)), (''at'', JStr (d_at f)),
      (''event'', JStr (fact_event f)), (''dispatch_id'', JStr (d_dispatch f))] @ fact_fields f"

section \<open>Well-formed values\<close>

definition id_ok :: "string \<Rightarrow> bool" where
  "id_ok s \<longleftrightarrow> s \<noteq> [] \<and> length s \<le> max_id_length \<and> id_text s"

definition line_ok :: "nat \<Rightarrow> string \<Rightarrow> bool" where
  "line_ok m s \<longleftrightarrow> strip s = s \<and> text_ok m s"

definition unit_ok :: "unit_spec \<Rightarrow> bool" where
  "unit_ok u \<longleftrightarrow> id_ok (unit_id u) \<and> id_ok (idempotency_key u) \<and> list_all id_ok (deliverables u)
     \<and> deliverables u \<noteq> [] \<and> distinct (deliverables u)"

definition units_ok :: "unit_spec list \<Rightarrow> bool" where
  "units_ok us \<longleftrightarrow> us \<noteq> [] \<and> distinct (map unit_id us) \<and> list_all unit_ok us"

definition stamp_ok :: "'h saga_host_scheme \<Rightarrow> string \<Rightarrow> bool" where
  "stamp_ok h t \<longleftrightarrow> line_ok 100 t \<and> utc_time h (zone_text t)"

fun shape_ok :: "dispatch_fact \<Rightarrow> bool" where
  "shape_ok (ManifestF _ _ _ site us th mx) \<longleftrightarrow>
     site \<in> set sites \<and> units_ok us \<and> 0 \<le> th \<and> th \<le> 100 \<and> 1 \<le> mx \<and> mx \<le> max_attempts_limit"
| "shape_ok (SpawnF _ _ _ u n k) \<longleftrightarrow> id_ok u \<and> 1 \<le> n \<and> id_ok k"
| "shape_ok (SettleF _ _ _ u n c why ev) \<longleftrightarrow> id_ok u \<and> 1 \<le> n \<and> c \<in> set ledger_classifications
     \<and> line_ok max_reason_length why
     \<and> (case ev of None \<Rightarrow> c = silent_noop
        | Some (r, s) \<Rightarrow> c \<noteq> silent_noop \<and> id_ok r \<and> is_sha256_text s)"
| "shape_ok (LateF _ _ _ u n r s) \<longleftrightarrow> id_ok u \<and> 1 \<le> n \<and> id_ok r \<and> is_sha256_text s"

definition fact_ok :: "'h saga_host_scheme \<Rightarrow> dispatch_fact \<Rightarrow> bool" where
  "fact_ok h f \<longleftrightarrow> id_ok (d_subplot f) \<and> stamp_ok h (d_at f) \<and> id_ok (d_dispatch f) \<and> shape_ok f"

section \<open>Validators accept exactly the well-formed values\<close>

lemma is_alnum_not_space: "is_alnum c \<Longrightarrow> \<not> is_space c"
  by (auto simp: is_alnum_def is_space_def Let_def)

lemma id_text_not_space: "id_text s \<Longrightarrow> list_all (\<lambda>c. \<not> is_space c) s"
proof (cases s)
  case (Cons c cs)
  have "\<not> is_space d" if "d \<in> set ''._:/@+-''" for d
    using that by (auto simp: is_space_def)
  moreover assume "id_text s"
  ultimately show ?thesis
    using is_alnum_not_space by (auto simp: Cons id_text_def list_all_iff)
qed simp

lemma id_ok_strip: "id_ok s \<Longrightarrow> strip s = s"
  by (simp add: id_ok_def id_text_not_space strip_none)

lemma safe_identifier_eq [simp]:
  "safe_identifier j = Inr t \<longleftrightarrow> (\<exists>s. j = JStr s \<and> t = strip s \<and> id_ok t)"
  by (auto simp: safe_identifier_def id_ok_def Let_def split: json.splits)

lemma safe_identifier_ok: "id_ok s \<Longrightarrow> safe_identifier (JStr s) = Inr s"
  by (simp add: id_ok_strip)

lemma bounded_text_eq [simp]:
  "bounded_text m j = Inr t \<longleftrightarrow> (\<exists>s. j = JStr s \<and> t = strip s \<and> line_ok m t)"
  by (auto simp: bounded_text_def line_ok_def text_ok_def Let_def list_ex_iff not_le [symmetric]
      split: json.splits if_splits)

lemma hex_not_space: "c \<in> set hex_chars \<Longrightarrow> \<not> is_space c \<and> lower_char c = c"
  by (auto simp: hex_chars_def is_space_def lower_char_def)

lemma sha256_text_fixed:
  assumes "is_sha256_text s"
  shows "strip s = s" "lower s = s"
proof -
  have hex: "\<forall>c \<in> set s. \<not> is_space c \<and> lower_char c = c"
    using assms hex_not_space by (auto simp: is_sha256_text_def list_all_iff)
  then show "strip s = s" by (auto intro!: strip_none simp: list_all_iff)
  from hex show "lower s = s" by (auto simp: lower_def intro: map_idI)
qed

lemma digest_eq [simp]:
  "digest j = Inr t \<longleftrightarrow> (\<exists>s. j = JStr s \<and> t = lower (strip s) \<and> is_sha256_text t)"
  by (auto simp: digest_def Let_def split: json.splits)

lemma timestamp_eq [simp]:
  "timestamp h j = Inr t \<longleftrightarrow> (\<exists>s. j = JStr s \<and> t = strip s \<and> stamp_ok h t)"
  by (auto simp: timestamp_def stamp_ok_def split: if_splits)

lemma int_values_eq [simp]:
  "attempt_value j = Inr n \<longleftrightarrow> j = JInt n \<and> 1 \<le> n"
  "threshold_value j = Inr n \<longleftrightarrow> j = JInt n \<and> 0 \<le> n \<and> n \<le> 100"
  "max_attempts_value j = Inr n \<longleftrightarrow> j = JInt n \<and> 1 \<le> n \<and> n \<le> max_attempts_limit"
  by (auto simp: attempt_value_def threshold_value_def max_attempts_value_def int_between_def
      split: json.splits if_splits)

lemma map_res_identifier:
  "map_res (\<lambda>d. safe_identifier (JStr d)) ds = Inr es \<longleftrightarrow> es = map strip ds \<and> list_all id_ok es"
proof (induction ds arbitrary: es)
  case (Cons d ds)
  show ?case
    unfolding map_res.simps bind_res_eq_Inr Cons.IH safe_identifier_eq by (cases es) auto
qed auto

lemma map_strip_ok: "list_all id_ok ds \<Longrightarrow> map strip ds = ds"
  by (rule map_idI) (auto simp: list_all_iff id_ok_strip)

lemma check_unit_sound: "check_unit c = Inr u \<Longrightarrow> unit_ok u"
  unfolding check_unit_def unit_ok_def bind_res_eq_Inr safe_identifier_eq map_res_identifier
  by (elim exE conjE) (auto split: if_splits)

lemma check_unit_ok: "unit_ok u \<Longrightarrow> check_unit u = Inr u"
  by (cases u) (simp add: check_unit_def unit_ok_def id_ok_strip map_res_identifier map_strip_ok)

lemma units_of_sound: "units_of args = Inr us \<Longrightarrow> units_ok us"
  by (fastforce simp: units_of_def units_ok_def list_all_iff unit_of_def
      dest: map_res_Inr_set check_unit_sound split: if_splits)

lemma map_res_on_map:
  "(\<And>x. x \<in> set xs \<Longrightarrow> f (g x) = Inr (e x)) \<Longrightarrow> map_res f (map g xs) = Inr (map e xs)"
  by (induction xs) auto

lemma units_of_specs: "units_ok us \<Longrightarrow> units_of (map Spec us) = Inr us"
proof -
  assume us: "units_ok us"
  then have "map_res unit_of (map Spec us) = Inr (map (\<lambda>u. u) us)"
    by (intro map_res_on_map) (auto simp: units_ok_def list_all_iff unit_of_def check_unit_ok)
  with us show ?thesis by (simp add: units_of_def units_ok_def)
qed

lemma json_norm_texts: "map json_norm items = map JStr ds \<Longrightarrow> items = map JStr ds"
  by (induction items arbitrary: ds) auto

text \<open>A mapping that spells a unit, in any order of its keys.\<close>

lemma unit_dict_norm: "json_norm (unit_to_dict u) = JObj (norm_items
    [(''unit_id'', JStr (unit_id u)), (''idempotency_key'', JStr (idempotency_key u)),
     (''deliverables'', JArr (map JStr (deliverables u)))])"
  by (simp add: unit_to_dict_def)

lemma raw_unit_spelled:
  assumes "unit_ok u" "json_wf j" "json_norm j = json_norm (unit_to_dict u)"
  shows "unit_of (Raw j) = Inr u"
proof -
  obtain m where j: "j = JObj m" using assms(3) by (cases j) (auto simp: unit_dict_norm)
  let ?d = "[(''unit_id'', JStr (unit_id u)), (''idempotency_key'', JStr (idempotency_key u)),
     (''deliverables'', JArr (map JStr (deliverables u)))]"
  have d: "wf_dict ?d" by (simp add: wf_dict_def)
  have m: "map_option json_norm (dget m k) = map_option json_norm (dget ?d k)" for k
    using assms(2,3) dget_norm_items [of m k] dget_norm_items [OF d, of k]
    by (simp add: j unit_dict_norm)
  have s: "dget m k = Some (JStr s)" if "dget ?d k = Some (JStr s)" for k s
    using m [of k] that by auto
  have "\<exists>items. dget m ''deliverables'' = Some (JArr items)
      \<and> map json_norm items = map json_norm (map JStr (deliverables u))"
  proof -
    obtain v where v: "dget m ''deliverables'' = Some v" "json_norm v = JArr (map JStr (deliverables u))"
      using m [of "''deliverables''"] by (auto simp: comp_def)
    then show ?thesis by (cases v) (auto simp: comp_def)
  qed
  moreover have "map json_norm (map JStr (deliverables u)) = map JStr (deliverables u)" by simp
  ultimately have dels: "dget m ''deliverables'' = Some (JArr (map JStr (deliverables u)))"
    using json_norm_texts by metis
  have "map_res safe_identifier (map JStr (deliverables u)) = Inr (map (\<lambda>d. d) (deliverables u))"
    using assms(1) by (intro map_res_on_map) (auto simp: unit_ok_def list_all_iff safe_identifier_ok)
  then show ?thesis
    using assms(1) s [of "''unit_id''"] s [of "''idempotency_key''"] dels check_unit_ok
    by (simp add: unit_of_def raw_unit_def j unit_ok_def safe_identifier_ok)
qed

lemma units_spelled:
  assumes "units_ok us" "json_wf j" "json_norm j = json_norm (JArr (map unit_to_dict us))"
  shows "bind_res (unit_args_of j) units_of = Inr us"
proof -
  obtain items where j: "j = JArr items" "map json_norm items = map json_norm (map unit_to_dict us)"
    using assms(3) by (cases j) auto
  have "map_res unit_of (map Raw items) = Inr us"
    unfolding map_res_eq_Inr list_all2_conv_all_nth
  proof (intro conjI allI impI)
    show "length (map Raw items) = length us" using j(2) by (metis length_map)
    fix i assume i: "i < length (map Raw items)"
    then have "i < length us" using j(2) by (metis length_map)
    moreover have "json_norm (items ! i) = json_norm (unit_to_dict (us ! i))"
      using j(2) i \<open>i < length us\<close> by (metis length_map nth_map)
    ultimately show "unit_of (map Raw items ! i) = Inr (us ! i)"
      using i assms(1,2) by (auto simp: j(1) units_ok_def list_all_length intro!: raw_unit_spelled)
  qed
  with assms(1) show ?thesis by (simp add: j(1) unit_args_of_def units_of_def units_ok_def)
qed

section \<open>Rebuilding\<close>

lemmas event_names = event_manifest_def event_spawn_def event_settle_def event_late_delivery_def

lemma event_distinct [simp]:
  "event_manifest \<noteq> event_spawn" "event_manifest \<noteq> event_settle"
  "event_manifest \<noteq> event_late_delivery" "event_spawn \<noteq> event_settle"
  "event_spawn \<noteq> event_late_delivery" "event_settle \<noteq> event_late_delivery"
  "event_spawn \<noteq> event_manifest" "event_settle \<noteq> event_manifest"
  "event_late_delivery \<noteq> event_manifest" "event_settle \<noteq> event_spawn"
  "event_late_delivery \<noteq> event_spawn" "event_late_delivery \<noteq> event_settle"
  by (simp_all add: event_names)

lemma id_ok_nonempty: "id_ok s \<Longrightarrow> s \<noteq> []"
  by (simp add: id_ok_def)

lemma build_fact_items:
  assumes "id_ok sp" "distinct (dkeys extra)"
    and "set (dkeys extra) \<inter> set (chain_fields @ [''schema'', ''kind'', ''subplot_id'', ''at'']) = {}"
  shows "build_fact fact_kind sp t extra = Inr ([(''schema'', JStr run_fact_schema),
     (''kind'', JStr fact_kind), (''subplot_id'', JStr sp), (''at'', JStr t)] @ extra)"
proof -
  have fold: "foldl (\<lambda>d (k, v). dset k v d) base xs = base @ xs"
    if "distinct (dkeys xs)" "set (dkeys xs) \<inter> set (dkeys base) = {}" for base xs :: "json dict"
    using that
  proof (induction xs arbitrary: base)
    case (Cons x xs)
    have "dset (fst x) (snd x) base = base @ [x]"
      using Cons.prems(2) by (induction base) (auto simp: case_prod_unfold)
    with Cons show ?case by (auto simp: case_prod_unfold)
  qed simp
  have "fact_kind \<in> set fact_kinds" by (simp add: fact_kind_def fact_kinds_def)
  moreover have "\<not> list_ex (\<lambda>k. k \<in> set chain_fields) (dkeys extra)"
    using assms(3) by (auto simp: list_ex_iff)
  ultimately show ?thesis
    using assms fold [of extra] unfolding build_fact_def by (simp add: id_ok_nonempty)
qed

lemma manifest_fact_eq [simp]:
  "manifest_fact h jsp jat jd site args jth jmx = Inr c \<longleftrightarrow>
     (\<exists>sp at d us th mx. jsp = JStr sp \<and> jat = JStr at \<and> jd = JStr d \<and> units_of args = Inr us
        \<and> jth = JInt th \<and> jmx = JInt mx
        \<and> (let f = ManifestF (strip sp) (strip at) (strip d) (strip site) us th mx
           in fact_ok h f \<and> c = fact_items f))"
proof -
  have b: "build_fact fact_kind sp t
      [(''event'', JStr event_manifest), (''dispatch_id'', JStr d), (''site'', JStr s),
       (''units'', JArr us), (''casualty_threshold_percent'', JInt th), (''max_attempts'', JInt mx)]
     = Inr ([(''schema'', JStr run_fact_schema), (''kind'', JStr fact_kind),
       (''subplot_id'', JStr sp), (''at'', JStr t)] @
      [(''event'', JStr event_manifest), (''dispatch_id'', JStr d), (''site'', JStr s),
       (''units'', JArr us), (''casualty_threshold_percent'', JInt th), (''max_attempts'', JInt mx)])"
    if "id_ok sp" for sp t d s us th mx
    using that by (rule build_fact_items) (simp_all add: chain_fields_def)
  show ?thesis
    unfolding manifest_fact_def Let_def
    by (auto simp: b fact_ok_def fact_items_def units_of_sound split: if_splits)
qed


lemma spawn_fact_eq [simp]:
  "spawn_fact h jsp jat jd ju jn jk = Inr c \<longleftrightarrow>
     (\<exists>sp at d u n k. jsp = JStr sp \<and> jat = JStr at \<and> jd = JStr d \<and> ju = JStr u \<and> jn = JInt n
        \<and> jk = JStr k
        \<and> (let f = SpawnF (strip sp) (strip at) (strip d) (strip u) n (strip k)
           in fact_ok h f \<and> c = fact_items f))"
proof -
  have b: "build_fact fact_kind sp t
      [(''event'', JStr event_spawn), (''dispatch_id'', JStr d), (''unit_id'', JStr u),
       (''attempt'', JInt n), (''idempotency_key'', JStr k)]
     = Inr ([(''schema'', JStr run_fact_schema), (''kind'', JStr fact_kind),
       (''subplot_id'', JStr sp), (''at'', JStr t)] @
      [(''event'', JStr event_spawn), (''dispatch_id'', JStr d), (''unit_id'', JStr u),
       (''attempt'', JInt n), (''idempotency_key'', JStr k)])"
    if "id_ok sp" for sp t d u n k
    using that by (rule build_fact_items) (simp_all add: chain_fields_def)
  show ?thesis
    unfolding spawn_fact_def Let_def
    by (auto simp: b fact_ok_def fact_items_def)
qed

lemma late_delivery_fact_eq [simp]:
  "late_delivery_fact h jsp jat jd ju jn jr js = Inr c \<longleftrightarrow>
     (\<exists>sp at d u n r s. jsp = JStr sp \<and> jat = JStr at \<and> jd = JStr d \<and> ju = JStr u \<and> jn = JInt n
        \<and> jr = JStr r \<and> js = JStr s
        \<and> (let f = LateF (strip sp) (strip at) (strip d) (strip u) n (strip r) (lower (strip s))
           in fact_ok h f \<and> c = fact_items f))"
proof -
  have b: "build_fact fact_kind sp t
      [(''event'', JStr event_late_delivery), (''dispatch_id'', JStr d), (''unit_id'', JStr u),
       (''attempt'', JInt n), (''evidence_ref'', JStr r), (''evidence_sha256'', JStr s)]
     = Inr ([(''schema'', JStr run_fact_schema), (''kind'', JStr fact_kind),
       (''subplot_id'', JStr sp), (''at'', JStr t)] @
      [(''event'', JStr event_late_delivery), (''dispatch_id'', JStr d), (''unit_id'', JStr u),
       (''attempt'', JInt n), (''evidence_ref'', JStr r), (''evidence_sha256'', JStr s)])"
    if "id_ok sp" for sp t d u n r s
    using that by (rule build_fact_items) (simp_all add: chain_fields_def)
  show ?thesis
    unfolding late_delivery_fact_def Let_def
    by (auto simp: b fact_ok_def fact_items_def)
qed

definition settle_evidence :: "string \<Rightarrow> string \<Rightarrow> string \<Rightarrow> (string \<times> string) option" where
  "settle_evidence cls r s = (if cls = silent_noop then None else Some (strip r, lower (strip s)))"

lemma settle_fact_eq [simp]:
  "settle_fact h jsp jat jd ju jn cls jwhy r s = Inr c \<longleftrightarrow>
     (\<exists>sp at d u n why. jsp = JStr sp \<and> jat = JStr at \<and> jd = JStr d \<and> ju = JStr u \<and> jn = JInt n
        \<and> jwhy = JStr why \<and> (strip cls = silent_noop \<longrightarrow> r = [] \<and> s = [])
        \<and> (let f = SettleF (strip sp) (strip at) (strip d) (strip u) n (strip cls) (strip why)
                     (settle_evidence (strip cls) r s)
           in fact_ok h f \<and> c = fact_items f))"
proof -
  have b: "build_fact fact_kind sp t
      ([(''event'', JStr event_settle), (''dispatch_id'', JStr d), (''unit_id'', JStr u),
       (''attempt'', JInt n), (''classification'', JStr cl), (''reason'', JStr why)] @ ev)
     = Inr ([(''schema'', JStr run_fact_schema), (''kind'', JStr fact_kind),
       (''subplot_id'', JStr sp), (''at'', JStr t)] @
      ([(''event'', JStr event_settle), (''dispatch_id'', JStr d), (''unit_id'', JStr u),
       (''attempt'', JInt n), (''classification'', JStr cl), (''reason'', JStr why)] @ ev))"
    if "id_ok sp" "ev \<in> {[], [(''evidence_ref'', JStr er), (''evidence_sha256'', JStr es)]}"
    for sp t d u n cl why ev er es
    using that by (intro build_fact_items) (auto simp: chain_fields_def)
  show ?thesis
    unfolding settle_fact_def Let_def
    by (cases "strip cls = silent_noop")
      (auto simp: b [where ev = "[]", simplified] b [simplified] fact_ok_def fact_items_def
         settle_evidence_def split: if_splits)
qed


section \<open>Spelling a fact\<close>

definition spells :: "json dict \<Rightarrow> dispatch_fact \<Rightarrow> bool" where
  "spells r f \<longleftrightarrow> dict_json_wf r \<and> same_dict r (fact_items f)"

lemma fact_items_wf [simp]: "dict_json_wf (fact_items f)"
proof -
  have "json_wf (unit_to_dict u)" for u
    by (simp add: unit_to_dict_def wf_dict_def list_all_iff)
  then show ?thesis
    by (cases f) (auto simp: fact_items_def wf_dict_def list_all_iff split: option.splits)
qed

lemma spells_lookup:
  assumes "spells r f"
  shows "map_option json_norm (dget r k) = map_option json_norm (dget (fact_items f) k)"
proof -
  have "wf_dict r" "wf_dict (fact_items f)"
    using assms fact_items_wf [of f] by (simp_all add: spells_def)
  then show ?thesis
    using assms dget_norm_items unfolding spells_def same_dict_def by metis
qed

lemma spells_text:
  "spells r f \<Longrightarrow> dget (fact_items f) k = Some (JStr s) \<Longrightarrow> dget r k = Some (JStr s)"
  using spells_lookup [of r f k] by auto

lemma spells_int:
  "spells r f \<Longrightarrow> dget (fact_items f) k = Some (JInt n) \<Longrightarrow> dget r k = Some (JInt n)"
  using spells_lookup [of r f k] by auto

lemma spells_absent: "spells r f \<Longrightarrow> dget (fact_items f) k = None \<Longrightarrow> dget r k = None"
  using spells_lookup [of r f k] by auto

lemma spells_head:
  assumes "spells r f"
  shows "dget r ''event'' = Some (JStr (fact_event f))"
    "dget r ''dispatch_id'' = Some (JStr (d_dispatch f))"
    "dget r ''subplot_id'' = Some (JStr (d_subplot f))"
    "dget r ''at'' = Some (JStr (d_at f))"
    "dget r ''kind'' = Some (JStr fact_kind)"
    "dget r ''schema'' = Some (JStr run_fact_schema)"
  by (rule spells_text [OF assms]; simp add: fact_items_def)+

lemma spells_event:
  assumes "spells r f" "f \<noteq> ManifestF (d_subplot f) (d_at f) (d_dispatch f) (d_site f) (d_units f)
    (d_threshold f) (d_max f)"
  shows "dget r ''unit_id'' = Some (JStr (d_unit f))" "dget r ''attempt'' = Some (JInt (d_attempt f))"
  using assms(2)
  by (cases f; auto intro!: spells_text [OF assms(1)] spells_int [OF assms(1)] simp: fact_items_def)+

lemma spells_fields:
  assumes "spells r f" "(k, v) \<in> set (fact_fields f)" "\<exists>s n. v = JStr s \<or> v = JInt n"
  shows "dget r k = Some v"
proof -
  have "wf_dict (fact_items f)" "(k, v) \<in> set (fact_items f)"
    using assms(2) fact_items_wf [of f] by (simp_all add: fact_items_def)
  then have "dget (fact_items f) k = Some v" by (simp add: dict.lookup_items)
  with assms(3) spells_text [OF assms(1)] spells_int [OF assms(1)] show ?thesis by blast
qed

lemma spells_units:
  assumes "spells r f" "f = ManifestF sp at d site us th mx" "units_ok us"
  shows "bind_res (unit_args_of (jget r ''units'' (JArr []))) units_of = Inr us"
proof -
  have "map_option json_norm (dget r ''units'') = Some (json_norm (JArr (map unit_to_dict us)))"
    using spells_lookup [OF assms(1), of "''units''"] by (simp add: assms(2) fact_items_def)
  then obtain v where v: "dget r ''units'' = Some v" "json_norm v = json_norm (JArr (map unit_to_dict us))"
    by blast
  moreover have "json_wf v"
    using v(1) assms(1) unfolding spells_def by (auto simp: list_all_iff dest: map_of_SomeD)
  ultimately show ?thesis using units_spelled [OF assms(3)] by (simp add: jget_def)
qed


section \<open>Validating is spelling\<close>

lemma shapeI:
  "fact_ok h f \<Longrightarrow> fact_event f = e \<Longrightarrow>
     \<exists>g. fact_ok h g \<and> fact_event g = e \<and> fact_items f = fact_items g"
  by blast

lemma rebuild_sound:
  assumes "rebuild_fact h e r = Inr c"
  shows "\<exists>f. fact_ok h f \<and> fact_event f = e \<and> c = fact_items f"
proof -
  have "e \<in> {event_manifest, event_spawn, event_settle, event_late_delivery}"
    using assms by (auto simp: rebuild_fact_def Let_def split: if_splits)
  then show ?thesis
    using assms by (auto simp: rebuild_fact_def Let_def intro!: shapeI)
qed

lemma canonical_sound:
  assumes "canonical_fact h r e = Inr c" "dict_json_wf r"
  obtains f where "fact_ok h f" "c = fact_items f" "spells r f" "e = None \<or> e = Some (fact_event f)"
proof -
  let ?e = "strip (py_str (jget r ''event'' (JStr [])))"
  have c: "rebuild_fact h ?e r = Inr c" "same_dict r c" "e = None \<or> e = Some ?e"
    using assms(1) by (auto simp: canonical_fact_def Let_def split: if_splits)
  from rebuild_sound [OF c(1)] obtain f where
    "fact_ok h f" "fact_event f = ?e" "c = fact_items f" by blast
  with c assms(2) show thesis by (intro that) (auto simp: spells_def)
qed

lemma rebuild_manifest:
  assumes "spells r f" "fact_ok h f" "f = ManifestF sp at d site us th mx"
  shows "rebuild_fact h event_manifest r = Inr (fact_items f)"
proof -
  have "shape_ok f" using assms(2) by (simp add: fact_ok_def)
  then have ok: "site \<in> set sites" "units_ok us" "0 \<le> th" "th \<le> 100" "1 \<le> mx"
      "mx \<le> max_attempts_limit"
    by (simp_all add: assms(3))
  obtain args where args: "unit_args_of (jget r ''units'' (JArr [])) = Inr args" "units_of args = Inr us"
    using spells_units [OF assms(1,3) ok(2)] by auto
  have site: "dget r ''site'' = Some (JStr site)"
    and th: "dget r ''casualty_threshold_percent'' = Some (JInt th)"
    and mx: "dget r ''max_attempts'' = Some (JInt mx)"
    by (rule spells_fields [OF assms(1)]; simp add: assms(3))+
  have "strip site = site" using ok(1) by (auto simp: sites_def strip_def is_space_def)
  then show ?thesis
    using args ok assms(2) spells_head [OF assms(1)]
    by (auto simp: rebuild_fact_def Let_def site th mx assms(3) fact_ok_def id_ok_strip stamp_ok_def
        line_ok_def)
qed

lemma rebuild_spawn:
  assumes "spells r f" "fact_ok h f" "f = SpawnF sp at d u n k"
  shows "rebuild_fact h event_spawn r = Inr (fact_items f)"
proof -
  have "dget r ''unit_id'' = Some (JStr u)" "dget r ''attempt'' = Some (JInt n)"
    "dget r ''idempotency_key'' = Some (JStr k)"
    by (rule spells_fields [OF assms(1)]; simp add: assms(3))+
  then show ?thesis
    using assms(2) spells_head [OF assms(1)]
    by (auto simp: rebuild_fact_def Let_def assms(3) fact_ok_def id_ok_strip stamp_ok_def line_ok_def)
qed

lemma rebuild_late:
  assumes "spells r f" "fact_ok h f" "f = LateF sp at d u n e s"
  shows "rebuild_fact h event_late_delivery r = Inr (fact_items f)"
proof -
  have "dget r ''unit_id'' = Some (JStr u)" "dget r ''attempt'' = Some (JInt n)"
    "dget r ''evidence_ref'' = Some (JStr e)" "dget r ''evidence_sha256'' = Some (JStr s)"
    by (rule spells_fields [OF assms(1)]; simp add: assms(3))+
  then show ?thesis
    using assms(2) spells_head [OF assms(1)]
    by (auto simp: rebuild_fact_def Let_def assms(3) fact_ok_def id_ok_strip stamp_ok_def line_ok_def
        sha256_text_fixed)
qed

lemma strip_classification: "c \<in> set ledger_classifications \<Longrightarrow> strip c = c"
  by (auto simp: ledger_classifications_def casualty_classifications_def delivered_def rate_killed_def
      idle_def silent_noop_def strip_def is_space_def)

lemma rebuild_settle:
  assumes "spells r f" "fact_ok h f" "f = SettleF sp at d u n c why ev"
  shows "rebuild_fact h event_settle r = Inr (fact_items f)"
proof -
  have l: "dget r ''unit_id'' = Some (JStr u)" "dget r ''attempt'' = Some (JInt n)"
    "dget r ''classification'' = Some (JStr c)" "dget r ''reason'' = Some (JStr why)"
    by (rule spells_fields [OF assms(1)]; simp add: assms(3))+
  have c: "strip c = c" using assms(2) strip_classification by (simp add: assms(3) fact_ok_def)
  show ?thesis
  proof (cases ev)
    case None
    then have "dget r ''evidence_ref'' = None" "dget r ''evidence_sha256'' = None"
      by (auto intro!: spells_absent [OF assms(1)] simp: assms(3) fact_items_def)
    then show ?thesis
      using l c None assms(2) spells_head [OF assms(1)]
      by (auto simp: rebuild_fact_def Let_def assms(3) fact_ok_def id_ok_strip stamp_ok_def line_ok_def
          settle_evidence_def)
  next
    case (Some p)
    then obtain e s where ev: "ev = Some (e, s)" by (cases p) auto
    then have "dget r ''evidence_ref'' = Some (JStr e)" "dget r ''evidence_sha256'' = Some (JStr s)"
      by (auto intro!: spells_fields [OF assms(1)] simp: assms(3))
    then show ?thesis
      using l c ev assms(2) spells_head [OF assms(1)]
      by (auto simp: rebuild_fact_def Let_def assms(3) fact_ok_def id_ok_strip stamp_ok_def line_ok_def
          settle_evidence_def sha256_text_fixed)
  qed
qed

lemma canonical_complete:
  assumes "spells r f" "fact_ok h f" "e = None \<or> e = Some (fact_event f)"
  shows "canonical_fact h r e = Inr (fact_items f)"
proof -
  have "rebuild_fact h (fact_event f) r = Inr (fact_items f)"
    using assms(1,2)
    by (cases f) (auto intro: rebuild_manifest rebuild_spawn rebuild_settle rebuild_late)
  moreover have "strip (fact_event f) = fact_event f"
    by (cases f) (simp_all add: event_names strip_def is_space_def)
  ultimately show ?thesis
    using assms spells_head [OF assms(1)] by (auto simp: canonical_fact_def Let_def spells_def)
qed

end
