(* ===== verification/Dispatch_Rows.thy ===== *)
theory Dispatch_Rows
  imports Dispatch_Typed
begin

text \<open>
  Stored rows and the facts they spell: what the dictionary queries of the writers and the views
  answer on a row that validates, and on the row an append adds.
\<close>

section \<open>A row and its fact\<close>

definition row_of :: "'h saga_host_scheme \<Rightarrow> json dict \<Rightarrow> dispatch_fact \<Rightarrow> bool" where
  "row_of h r f \<longleftrightarrow> dict_json_wf r \<and> fact_ok h f \<and> spells (without chain_fields r) f"

lemma without_dict_wf: "dict_json_wf r \<Longrightarrow> dict_json_wf (without keys r)"
  using wf_dict_without [of r keys] by (auto simp: without_def list_all_iff)

lemma validate_stored_row:
  assumes "dict_json_wf r"
  shows "validate_stored_fact h r = Inr u \<longleftrightarrow> (\<exists>f. row_of h r f)"
proof
  assume "validate_stored_fact h r = Inr u"
  then obtain c where "canonical_fact h (without chain_fields r) None = Inr c"
    by (auto simp: validate_stored_fact_def)
  from canonical_sound [OF this without_dict_wf [OF assms]] assms show "\<exists>f. row_of h r f"
    unfolding row_of_def by blast
next
  assume "\<exists>f. row_of h r f"
  then obtain f where "spells (without chain_fields r) f" "fact_ok h f"
    unfolding row_of_def by blast
  then show "validate_stored_fact h r = Inr u"
    using canonical_complete unfolding validate_stored_fact_def by fastforce
qed

lemma row_lookup:
  "k \<notin> set chain_fields \<Longrightarrow> dget (without chain_fields r) k = dget r k"
  by (simp add: dget_without)

lemma chain_fields_not [simp]:
  "''event'' \<notin> set chain_fields" "''dispatch_id'' \<notin> set chain_fields" "''kind'' \<notin> set chain_fields"
  "''unit_id'' \<notin> set chain_fields" "''attempt'' \<notin> set chain_fields" "''site'' \<notin> set chain_fields"
  "''classification'' \<notin> set chain_fields" "''units'' \<notin> set chain_fields"
  "''max_attempts'' \<notin> set chain_fields" "''idempotency_key'' \<notin> set chain_fields"
  "''reason'' \<notin> set chain_fields" "''casualty_threshold_percent'' \<notin> set chain_fields"
  "''evidence_ref'' \<notin> set chain_fields" "''evidence_sha256'' \<notin> set chain_fields"
  by (simp_all add: chain_fields_def)

lemma row_spells: "row_of h r f \<Longrightarrow> spells (without chain_fields r) f"
  and row_fact_ok: "row_of h r f \<Longrightarrow> fact_ok h f"
  by (simp_all add: row_of_def)

lemma row_is_fact: "row_of h r f \<Longrightarrow> is_fact r"
  using spells_head(5) [OF row_spells] by (simp add: is_fact_def has_def row_lookup)

lemma row_dispatch: "row_of h r f \<Longrightarrow> has r ''dispatch_id'' (JStr d) \<longleftrightarrow> d = d_dispatch f"
  using spells_head(2) [OF row_spells] by (auto simp: has_def row_lookup)

lemma row_event: "row_of h r f \<Longrightarrow> is_event e r \<longleftrightarrow> e = fact_event f"
  using spells_head(1) [OF row_spells] by (auto simp: is_event_def has_def row_lookup)

lemma row_unit:
  assumes "row_of h r f" "fact_event f \<noteq> event_manifest"
  shows "dget r ''unit_id'' = Some (JStr (d_unit f))" "dget r ''attempt'' = Some (JInt (d_attempt f))"
    "attempt_of r = d_attempt f" "text_of r ''unit_id'' = d_unit f"
proof -
  show "dget r ''unit_id'' = Some (JStr (d_unit f))" "dget r ''attempt'' = Some (JInt (d_attempt f))"
    using spells_event [OF row_spells [OF assms(1)]] assms(2) by (cases f; simp add: row_lookup)+
  then show "attempt_of r = d_attempt f" "text_of r ''unit_id'' = d_unit f"
    by (simp_all add: attempt_of_def text_of_def)
qed

lemma row_of_unit:
  assumes "row_of h r f" "e \<noteq> event_manifest"
  shows "of_unit e u r \<longleftrightarrow> e = fact_event f \<and> u = d_unit f"
proof (cases "e = fact_event f")
  case True
  with assms have "dget r ''unit_id'' = Some (JStr (d_unit f))" by (intro row_unit) simp_all
  with True row_event [OF assms(1)] show ?thesis by (auto simp: of_unit_def has_def)
next
  case False
  with row_event [OF assms(1)] show ?thesis by (simp add: of_unit_def)
qed

lemma row_of_attempt:
  assumes "row_of h r f" "e \<noteq> event_manifest"
  shows "of_attempt e u n r \<longleftrightarrow> e = fact_event f \<and> u = d_unit f \<and> n = d_attempt f"
proof (cases "e = fact_event f")
  case True
  with assms have "dget r ''attempt'' = Some (JInt (d_attempt f))" by (intro row_unit) simp_all
  with row_of_unit [OF assms] show ?thesis by (auto simp: of_attempt_def has_def)
next
  case False
  with row_of_unit [OF assms] show ?thesis by (simp add: of_attempt_def)
qed

lemma row_attempt_pos: "row_of h r f \<Longrightarrow> fact_event f \<noteq> event_manifest \<Longrightarrow> 1 \<le> d_attempt f"
  using row_fact_ok [of h r f] by (cases f) (auto simp: fact_ok_def)

lemma row_text_field:
  assumes "row_of h r f" "(k, JStr s) \<in> set (fact_fields f)" "k \<notin> set chain_fields"
  shows "dget r k = Some (JStr s)"
  using spells_fields [OF row_spells [OF assms(1)] assms(2)] assms(3) by (simp add: row_lookup)

lemma row_int_field:
  assumes "row_of h r f" "(k, JInt n) \<in> set (fact_fields f)" "k \<notin> set chain_fields"
  shows "dget r k = Some (JInt n)"
  using spells_fields [OF row_spells [OF assms(1)] assms(2)] assms(3) by (simp add: row_lookup)

lemma row_class:
  assumes "row_of h r f" "fact_event f = event_settle"
  shows "dget r ''classification'' = Some (JStr (d_class f))"
    "is_casualty r \<longleftrightarrow> d_class f \<in> set casualty_classifications"
    "d_class f \<in> set ledger_classifications"
proof -
  show "dget r ''classification'' = Some (JStr (d_class f))"
    using assms(2) by (intro row_text_field [OF assms(1)]) (cases f; simp)+
  then show "is_casualty r \<longleftrightarrow> d_class f \<in> set casualty_classifications"
    by (auto simp: is_casualty_def has_def list_ex_iff)
  show "d_class f \<in> set ledger_classifications"
    using row_fact_ok [OF assms(1)] assms(2) by (cases f) (auto simp: fact_ok_def)
qed

lemma row_manifest:
  assumes "row_of h r f" "fact_event f = event_manifest"
  shows "manifest_units r = Inr (d_units f)" "units_ok (d_units f)"
    "max_attempts_value (jget r ''max_attempts'' JNull) = Inr (d_max f)"
    "threshold_value (jget r ''casualty_threshold_percent'' JNull) = Inr (d_threshold f)"
    "1 \<le> d_max f" "d_max f \<le> max_attempts_limit" "dget r ''site'' = Some (JStr (d_site f))"
proof -
  obtain sp at d site us th mx where f: "f = ManifestF sp at d site us th mx"
    using assms(2) by (cases f) auto
  have ok: "units_ok us" "1 \<le> mx" "mx \<le> max_attempts_limit" "0 \<le> th" "th \<le> 100"
    using row_fact_ok [OF assms(1)] by (auto simp: fact_ok_def f)
  then show "units_ok (d_units f)" "1 \<le> d_max f" "d_max f \<le> max_attempts_limit"
    by (simp_all add: f)
  have "jget (without chain_fields r) ''units'' (JArr []) = jget r ''units'' (JArr [])"
    by (simp add: jget_def row_lookup)
  then show "manifest_units r = Inr (d_units f)"
    using spells_units [OF row_spells [OF assms(1)] f ok(1)] by (simp add: manifest_units_def f)
  have "dget r ''max_attempts'' = Some (JInt mx)" "dget r ''site'' = Some (JStr site)"
    "dget r ''casualty_threshold_percent'' = Some (JInt th)"
    by (intro row_int_field [OF assms(1)] row_text_field [OF assms(1)]; simp add: f)+
  with ok show "max_attempts_value (jget r ''max_attempts'' JNull) = Inr (d_max f)"
    "threshold_value (jget r ''casualty_threshold_percent'' JNull) = Inr (d_threshold f)"
    "dget r ''site'' = Some (JStr (d_site f))"
    by (simp_all add: f)
qed

lemma row_spawn_key:
  assumes "row_of h r f" "fact_event f = event_spawn"
  shows "text_of r ''idempotency_key'' = d_key f"
proof -
  have "dget r ''idempotency_key'' = Some (JStr (d_key f))"
    using assms(2) by (intro row_text_field [OF assms(1)]) (cases f; simp)+
  then show ?thesis by (simp add: text_of_def)
qed

section \<open>The row an append adds\<close>

lemma json_norm_idem: "json_wf j \<Longrightarrow> json_norm (json_norm j) = json_norm j"
proof (induction j)
  case (JObj kvs)
  have "map (\<lambda>(k, v). (k, json_norm v)) (norm_items kvs) = norm_items kvs"
    using JObj by (auto simp: norm_items_entries list_all_iff snds.simps split_beta intro!: map_idI)
  moreover have "dsort (norm_items kvs) = norm_items kvs"
    using JObj.prems by (simp add: norm_items_def)
  ultimately show ?case by (simp add: norm_items_entries)
qed (auto simp: list_all_iff)

lemma norm_items_idem: "dict_json_wf r \<Longrightarrow> norm_items (norm_items r) = norm_items r"
  using json_norm_idem [of "JObj r"] by simp

lemma new_row:
  assumes "fact_ok h f"
  shows "row_of h (norm_items (chained h rs (fact_items f))) f"
proof -
  let ?c = "chained h rs (fact_items f)"
  have plain: "without chain_fields (fact_items f) = fact_items f"
    unfolding without_def
    by (rule filter_True) (cases f; auto simp: fact_items_def chain_fields_def split: option.splits)
  have "without chain_fields ?c = fact_items f"
    using plain unfolding chained_linked linked_def
    by (simp add: without_def chain_fields_def)
  then have w: "without chain_fields (norm_items ?c) = norm_items (fact_items f)"
    by (simp add: without_norm_items)
  have "dict_json_wf (norm_items ?c)"
    by (intro norm_items_json_wf chained_wf fact_items_wf)
  moreover have "dict_json_wf (norm_items (fact_items f))"
    by (intro norm_items_json_wf fact_items_wf)
  ultimately show ?thesis
    using assms unfolding row_of_def spells_def w same_dict_def
    by (simp add: norm_items_idem [OF fact_items_wf])
qed

end
