(* ===== verification/Dispatch_Invariant.thy ===== *)
theory Dispatch_Invariant
  imports Dispatch_Rows
begin

text \<open>
  The invariant the four writers keep on the records of a ledger: every settlement fact validates, a
  dispatch has at most one manifest, and the facts of a unit tell one course of attempts.
\<close>

section \<open>The course of a unit\<close>

definition scoped :: "json dict list \<Rightarrow> string \<Rightarrow> json dict list" where
  "scoped rs d = filter (\<lambda>r. is_fact r \<and> has r ''dispatch_id'' (JStr d)) rs"

definition spawns :: "json dict list \<Rightarrow> string \<Rightarrow> json dict list" where
  "spawns S u = filter (of_unit event_spawn u) S"

definition manifests :: "json dict list \<Rightarrow> json dict list" where
  "manifests S = filter (is_event event_manifest) S"

definition rows_ok :: "'h saga_host_scheme \<Rightarrow> json dict list \<Rightarrow> bool" where
  "rows_ok h rs \<longleftrightarrow> (\<forall>r \<in> set rs. is_fact r \<longrightarrow> (\<exists>f. row_of h r f))"

definition up_to :: "nat \<Rightarrow> int list" where
  "up_to k = map int [1..<Suc k]"

lemma up_to_simps [simp]:
  "up_to 0 = []" "up_to (Suc k) = up_to k @ [int (Suc k)]" "length (up_to k) = k"
  by (simp_all add: up_to_def)

lemma set_up_to: "n \<in> set (up_to k) \<longleftrightarrow> 1 \<le> n \<and> n \<le> int k"
  by (induction k) auto

lemma sorted_up_to: "sorted (up_to k)"
  by (induction k) (auto simp: sorted_append set_up_to)

text \<open>The attempts of a unit count up from one; a settlement and a late delivery belong to a
  spawned attempt and occur once; an attempt that has a successor ended as a casualty.\<close>

definition course_ok :: "json dict list \<Rightarrow> string \<Rightarrow> bool" where
  "course_ok S u \<longleftrightarrow>
     (let k = length (spawns S u) in
      map attempt_of (spawns S u) = up_to k
      \<and> (\<forall>n. length (settlements S u n) \<le> 1)
      \<and> (\<forall>n. settlements S u n \<noteq> [] \<longrightarrow> 1 \<le> n \<and> n \<le> int k)
      \<and> (\<forall>n. length (filter (of_attempt event_late_delivery u n) S) \<le> 1)
      \<and> (\<forall>n. late_seen S u n \<longrightarrow> one_casualty (settlements S u n))
      \<and> (\<forall>n. 1 \<le> n \<longrightarrow> n < int k \<longrightarrow> one_casualty (settlements S u n)))"

definition declared :: "json dict list \<Rightarrow> string \<Rightarrow> bool" where
  "declared S u \<longleftrightarrow>
     (\<exists>m us spec mx. manifests S = [m] \<and> manifest_units m = Inr us \<and> unit_named u us = Some spec
        \<and> max_attempts_value (jget m ''max_attempts'' JNull) = Inr mx
        \<and> int (length (spawns S u)) \<le> mx
        \<and> (\<forall>r \<in> set (spawns S u). text_of r ''idempotency_key'' = idempotency_key spec))"

definition dispatch_inv :: "'h saga_host_scheme \<Rightarrow> json dict list \<Rightarrow> bool" where
  "dispatch_inv h rs \<longleftrightarrow> rows_ok h rs
     \<and> (\<forall>d. length (manifests (scoped rs d)) \<le> 1)
     \<and> (\<forall>d u. course_ok (scoped rs d) u)
     \<and> (\<forall>d u. spawns (scoped rs d) u \<noteq> [] \<longrightarrow> declared (scoped rs d) u)"

lemma dispatch_inv_Nil: "dispatch_inv h []"
  by (simp add: dispatch_inv_def rows_ok_def scoped_def manifests_def course_ok_def spawns_def
      settlements_def late_seen_def)

section \<open>What the guards read\<close>

lemma map_res_validate:
  "list_all dict_json_wf rs \<Longrightarrow>
     map_res (validate_stored_fact h) (filter is_fact rs) = Inr us \<longleftrightarrow>
       rows_ok h rs \<and> us = map (\<lambda>_. ()) (filter is_fact rs)"
  by (induction rs arbitrary: us) (auto simp: rows_ok_def validate_stored_row)

lemma validated_records_eq:
  assumes "list_all dict_json_wf (records s)"
  shows "validated_records h s = Inr rs \<longleftrightarrow>
     report s = ChainOk \<and> rows_ok h (records s) \<and> rs = records s"
  using map_res_validate [OF assms] by (auto simp: validated_records_def require_chain_def)

lemma fact_records_eq:
  assumes "list_all dict_json_wf (records s)"
  shows "fact_records h s d = Inr S \<longleftrightarrow>
     report s = ChainOk \<and> rows_ok h (records s) \<and> S = scoped (records s) d"
  using validated_records_eq [OF assms] by (auto simp: fact_records_def scoped_def)

lemma find_manifest_eq:
  "find_manifest S = Inr m \<longleftrightarrow> manifests S = (case m of None \<Rightarrow> [] | Some r \<Rightarrow> [r])"
  by (auto simp: find_manifest_def manifests_def split: list.splits option.splits)

lemma require_manifest_eq: "require_manifest S = Inr m \<longleftrightarrow> manifests S = [m]"
  by (auto simp: require_manifest_def find_manifest_eq split: option.splits)

section \<open>A row appended\<close>

lemma scoped_snoc:
  "row_of h R f \<Longrightarrow>
     scoped (rs @ [R]) d = (if d = d_dispatch f then scoped rs d @ [R] else scoped rs d)"
  by (simp add: scoped_def row_is_fact row_dispatch)

lemma scoped_foreign: "\<not> is_fact R \<Longrightarrow> scoped (rs @ [R]) d = scoped rs d"
  by (simp add: scoped_def)

lemma rows_ok_snoc: "rows_ok h (rs @ [R]) \<longleftrightarrow> rows_ok h rs \<and> (is_fact R \<longrightarrow> (\<exists>f. row_of h R f))"
  by (auto simp: rows_ok_def)

lemma spawns_snoc:
  "row_of h R f \<Longrightarrow> spawns (S @ [R]) u =
     spawns S u @ (if fact_event f = event_spawn \<and> d_unit f = u then [R] else [])"
  by (auto simp: spawns_def row_of_unit)

lemma manifests_snoc:
  "row_of h R f \<Longrightarrow> manifests (S @ [R]) =
     manifests S @ (if fact_event f = event_manifest then [R] else [])"
  by (auto simp: manifests_def row_event)

lemma settlements_snoc:
  "row_of h R f \<Longrightarrow> settlements (S @ [R]) u n =
     settlements S u n
       @ (if fact_event f = event_settle \<and> d_unit f = u \<and> d_attempt f = n then [R] else [])"
  by (auto simp: settlements_def row_of_attempt)

lemma lates_snoc:
  "row_of h R f \<Longrightarrow> filter (of_attempt event_late_delivery u n) (S @ [R]) =
     filter (of_attempt event_late_delivery u n) S
       @ (if fact_event f = event_late_delivery \<and> d_unit f = u \<and> d_attempt f = n then [R] else [])"
  by (auto simp: row_of_attempt)

lemma late_seen_filter: "late_seen S u n \<longleftrightarrow> filter (of_attempt event_late_delivery u n) S \<noteq> []"
  by (auto simp: late_seen_def list_ex_iff filter_empty_conv)

lemmas snoc_rows = scoped_snoc spawns_snoc manifests_snoc settlements_snoc lates_snoc

lemma inv_foreign:
  "dispatch_inv h rs \<Longrightarrow> \<not> is_fact R \<Longrightarrow> dispatch_inv h (rs @ [R])"
  by (simp add: dispatch_inv_def scoped_foreign rows_ok_snoc)

text \<open>It is enough to look at the one dispatch, and there at the one unit, the new fact is about.\<close>

lemma inv_snocI:
  assumes "dispatch_inv h rs" "row_of h R f"
    and S: "S = scoped rs (d_dispatch f)"
    and "length (manifests (S @ [R])) \<le> 1"
    and "\<And>u. fact_event f \<noteq> event_manifest \<Longrightarrow> u = d_unit f \<Longrightarrow> course_ok (S @ [R]) u"
    and "\<And>u. spawns (S @ [R]) u \<noteq> [] \<Longrightarrow> declared (S @ [R]) u"
  shows "dispatch_inv h (rs @ [R])"
proof -
  have "course_ok (S @ [R]) u" for u
  proof (cases "fact_event f \<noteq> event_manifest \<and> u = d_unit f")
    case False
    then have "spawns (S @ [R]) u = spawns S u" "settlements (S @ [R]) u n = settlements S u n"
      "filter (of_attempt event_late_delivery u n) (S @ [R]) =
         filter (of_attempt event_late_delivery u n) S" for n
      unfolding spawns_snoc [OF assms(2)] settlements_snoc [OF assms(2)] lates_snoc [OF assms(2)]
      by (auto simp del: filter_append)
    then have "course_ok (S @ [R]) u \<longleftrightarrow> course_ok S u"
      unfolding course_ok_def late_seen_filter by (simp only:)
    with assms(1) S show ?thesis by (simp add: dispatch_inv_def)
  qed (use assms(5) in blast)
  with assms show ?thesis
    by (auto simp: dispatch_inv_def scoped_snoc [OF assms(2)] rows_ok_snoc)
qed

section \<open>The guards and the course of a unit\<close>

lemma scoped_row:
  "rows_ok h rs \<Longrightarrow> r \<in> set (scoped rs d) \<Longrightarrow> \<exists>f. row_of h r f \<and> d_dispatch f = d"
  using row_dispatch by (fastforce simp: rows_ok_def scoped_def)

lemma spawn_row:
  assumes "rows_ok h rs" "r \<in> set (spawns (scoped rs d) u)"
  shows "\<exists>f. row_of h r f \<and> fact_event f = event_spawn \<and> d_unit f = u \<and> d_dispatch f = d"
proof -
  from assms(2) have "r \<in> set (scoped rs d)" "of_unit event_spawn u r" by (auto simp: spawns_def)
  with scoped_row [OF assms(1)] row_of_unit show ?thesis by (metis event_distinct(7))
qed

lemma spawned_attempt:
  assumes "rows_ok h rs" "course_ok (scoped rs d) u"
  shows "(\<exists>r \<in> set (spawns (scoped rs d) u). has r ''attempt'' (JInt n)) \<longleftrightarrow>
     1 \<le> n \<and> n \<le> int (length (spawns (scoped rs d) u))"
proof -
  let ?sp = "spawns (scoped rs d) u"
  have "has r ''attempt'' (JInt n) \<longleftrightarrow> attempt_of r = n" if r: "r \<in> set ?sp" for r
  proof -
    from spawn_row [OF assms(1) r] obtain f where "row_of h r f" "fact_event f = event_spawn" by blast
    then show ?thesis using row_unit [of h r f] by (auto simp: has_def)
  qed
  then have "(\<exists>r \<in> set ?sp. has r ''attempt'' (JInt n)) \<longleftrightarrow> n \<in> set (map attempt_of ?sp)"
    by auto
  also have "map attempt_of ?sp = up_to (length ?sp)"
    using assms(2) by (simp add: course_ok_def Let_def)
  finally show ?thesis by (simp only: set_up_to)
qed

lemma check_spawn_order_ok:
  assumes "rows_ok h rs" "course_ok (scoped rs d) u"
  shows "check_spawn_order (scoped rs d) u n = Inr () \<longleftrightarrow>
     n = int (length (spawns (scoped rs d) u)) + 1
     \<and> (1 < n \<longrightarrow> one_casualty (settlements (scoped rs d) u (n - 1))
                \<and> \<not> late_seen (scoped rs d) u (n - 1))"
proof -
  let ?S = "scoped rs d"
  let ?k = "length (spawns ?S u)"
  have prev: "map attempt_of (filter (of_unit event_spawn u) ?S) = up_to ?k"
    using assms(2) by (simp add: course_ok_def Let_def spawns_def)
  have sorted: "sort (up_to ?k) = up_to ?k" by (rule sorted_sort_id [OF sorted_up_to])
  have exp: "(if up_to ?k = [] then 1 else last (up_to ?k) + 1) = int ?k + 1"
    by (cases ?k) auto
  have dup: "list_ex (\<lambda>r. has r ''attempt'' (JInt n)) (filter (of_unit event_spawn u) ?S) \<longleftrightarrow>
      1 \<le> n \<and> n \<le> int ?k"
    using spawned_attempt [OF assms, of n] unfolding list_ex_iff spawns_def .
  show ?thesis
    unfolding check_spawn_order_def Let_def prev sorted exp dup by auto
qed

lemma of_attempt_split:
  "of_attempt e u n r \<longleftrightarrow> of_unit e u r \<and> has r ''attempt'' (JInt n)"
  by (simp add: of_attempt_def)

lemma spawned_ok:
  assumes "rows_ok h rs" "course_ok (scoped rs d) u"
  shows "list_ex (of_attempt event_spawn u n) (scoped rs d) \<longleftrightarrow>
     1 \<le> n \<and> n \<le> int (length (spawns (scoped rs d) u))"
  using spawned_attempt [OF assms, of n] by (auto simp: list_ex_iff of_attempt_split spawns_def)

section \<open>The writers keep the invariant\<close>

definition snap :: "json dict list \<Rightarrow> snapshot" where
  "snap rs = \<lparr>records = rs, report = ChainOk\<rparr>"

lemma fact_records_snap:
  "list_all dict_json_wf rs \<Longrightarrow>
     fact_records h (snap rs) d = Inr S \<longleftrightarrow> rows_ok h rs \<and> S = scoped rs d"
  using fact_records_eq [of "snap rs" h d S] by (simp add: snap_def)

lemma manifest_keeps:
  assumes "dispatch_inv h rs" "list_all dict_json_wf rs" "row_of h R f"
    and "fact_event f = event_manifest" "check_new_manifest h (d_dispatch f) (snap rs) = Inr ()"
  shows "dispatch_inv h (rs @ [R])"
proof (rule inv_snocI [OF assms(1,3) refl])
  let ?S = "scoped rs (d_dispatch f)"
  have none: "manifests ?S = []"
    using assms(2,5) by (auto simp: check_new_manifest_def fact_records_snap find_manifest_eq)
  then show "length (manifests (?S @ [R])) \<le> 1" by (simp add: snoc_rows [OF assms(3)])
  show "declared (?S @ [R]) u" if "spawns (?S @ [R]) u \<noteq> []" for u
  proof -
    have "spawns ?S u \<noteq> []" using that assms(4) by (simp add: snoc_rows [OF assms(3)])
    then have "declared ?S u" using assms(1) by (simp add: dispatch_inv_def)
    with none show ?thesis by (simp add: declared_def)
  qed
qed (use assms(4) in simp)

lemma course_spawn:
  assumes "course_ok S u" "row_of h R f" "fact_event f = event_spawn" "d_unit f = u"
    and n: "d_attempt f = int (length (spawns S u)) + 1"
    and prev: "1 < d_attempt f \<longrightarrow> one_casualty (settlements S u (d_attempt f - 1))"
  shows "course_ok (S @ [R]) u"
proof -
  let ?k = "length (spawns S u)"
  have sp: "spawns (S @ [R]) u = spawns S u @ [R]"
    and st: "settlements (S @ [R]) u m = settlements S u m"
    and lt: "filter (of_attempt event_late_delivery u m) (S @ [R]) =
        filter (of_attempt event_late_delivery u m) S" for m
    using assms(3,4) unfolding snoc_rows [OF assms(2)] by simp_all
  have "attempt_of R = int (Suc ?k)" using row_unit(3) [OF assms(2)] assms(3) n by simp
  moreover have "one_casualty (settlements S u m)" if "1 \<le> m" "m < int (Suc ?k)" for m
  proof (cases "m = int ?k")
    case True
    with that n prev show ?thesis by auto
  next
    case False
    with that assms(1) show ?thesis by (simp add: course_ok_def Let_def)
  qed
  ultimately show ?thesis
    using assms(1) unfolding course_ok_def late_seen_filter Let_def sp st lt
    by fastforce
qed


lemma course_settle:
  assumes "course_ok S u" "row_of h R f" "fact_event f = event_settle" "d_unit f = u"
    and n: "1 \<le> d_attempt f" "d_attempt f \<le> int (length (spawns S u))"
    and none: "settlements S u (d_attempt f) = []"
  shows "course_ok (S @ [R]) u"
proof -
  have sp: "spawns (S @ [R]) u = spawns S u"
    and st: "settlements (S @ [R]) u m =
        (if m = d_attempt f then [R] else settlements S u m)"
    and lt: "filter (of_attempt event_late_delivery u m) (S @ [R]) =
        filter (of_attempt event_late_delivery u m) S" for m
    using assms(3,4) none unfolding snoc_rows [OF assms(2)] by simp_all
  have "\<not> one_casualty (settlements S u (d_attempt f))" by (simp add: none one_casualty_def)
  with assms(1) n show ?thesis
    unfolding course_ok_def late_seen_filter Let_def sp st lt by (auto split: if_splits)
qed

lemma course_late:
  assumes "course_ok S u" "row_of h R f" "fact_event f = event_late_delivery" "d_unit f = u"
    and "one_casualty (settlements S u (d_attempt f))" "\<not> late_seen S u (d_attempt f)"
  shows "course_ok (S @ [R]) u"
proof -
  have sp: "spawns (S @ [R]) u = spawns S u"
    and st: "settlements (S @ [R]) u m = settlements S u m"
    and lt: "filter (of_attempt event_late_delivery u m) (S @ [R]) =
        filter (of_attempt event_late_delivery u m) S @ (if m = d_attempt f then [R] else [])" for m
    using assms(3,4) unfolding snoc_rows [OF assms(2)] by auto
  with assms show ?thesis
    unfolding course_ok_def late_seen_filter Let_def sp st lt by auto
qed

text \<open>A fact other than a manifest leaves the manifests alone, so its unit stays declared.\<close>

lemma declared_grow:
  assumes "declared S u" "row_of h R f" "fact_event f \<noteq> event_manifest"
    and "\<not> (fact_event f = event_spawn \<and> d_unit f = u)"
  shows "declared (S @ [R]) u"
  using assms(1,3,4) unfolding declared_def snoc_rows [OF assms(2)] by auto

lemma inv_grow:
  assumes "dispatch_inv h rs" "row_of h R f" "fact_event f \<notin> {event_manifest, event_spawn}"
    and "course_ok (scoped rs (d_dispatch f) @ [R]) (d_unit f)"
  shows "dispatch_inv h (rs @ [R])"
proof (rule inv_snocI [OF assms(1,2) refl])
  let ?S = "scoped rs (d_dispatch f)"
  show "length (manifests (?S @ [R])) \<le> 1"
    using assms(1,3) by (simp add: snoc_rows [OF assms(2)] dispatch_inv_def)
  show "declared (?S @ [R]) u" if "spawns (?S @ [R]) u \<noteq> []" for u
    using that assms(1,3) declared_grow [OF _ assms(2), of ?S u]
    by (simp add: snoc_rows [OF assms(2)] dispatch_inv_def)
qed (use assms(4) in simp)

lemma settlement_keeps:
  assumes "dispatch_inv h rs" "list_all dict_json_wf rs" "row_of h R f"
    and "fact_event f = event_settle"
    and "check_settlement h (d_dispatch f) (d_unit f) (d_attempt f) (snap rs) = Inr ()"
  shows "dispatch_inv h (rs @ [R])"
proof -
  let ?S = "scoped rs (d_dispatch f)"
  have inv: "rows_ok h rs" "course_ok ?S (d_unit f)" using assms(1) by (simp_all add: dispatch_inv_def)
  have "list_ex (of_attempt event_spawn (d_unit f) (d_attempt f)) ?S"
    "\<not> list_ex (of_attempt event_settle (d_unit f) (d_attempt f)) ?S"
    using assms(2,5) by (auto simp: check_settlement_def fact_records_snap split: if_splits)
  then have "1 \<le> d_attempt f" "d_attempt f \<le> int (length (spawns ?S (d_unit f)))"
    "settlements ?S (d_unit f) (d_attempt f) = []"
    using spawned_ok [OF inv] by (auto simp: settlements_def list_ex_iff filter_empty_conv)
  then have "course_ok (?S @ [R]) (d_unit f)"
    using course_settle [OF inv(2) assms(3,4) refl] by blast
  with assms show ?thesis by (intro inv_grow) simp_all
qed

lemma late_delivery_keeps:
  assumes "dispatch_inv h rs" "list_all dict_json_wf rs" "row_of h R f"
    and "fact_event f = event_late_delivery"
    and "check_late_delivery h (d_dispatch f) (d_unit f) (d_attempt f) (snap rs) = Inr ()"
  shows "dispatch_inv h (rs @ [R])"
proof -
  let ?S = "scoped rs (d_dispatch f)"
  have "course_ok ?S (d_unit f)" using assms(1) by (simp add: dispatch_inv_def)
  moreover have "one_casualty (settlements ?S (d_unit f) (d_attempt f))"
    "\<not> late_seen ?S (d_unit f) (d_attempt f)"
    using assms(2,5) by (auto simp: check_late_delivery_def fact_records_snap split: if_splits)
  ultimately have "course_ok (?S @ [R]) (d_unit f)"
    using course_late [OF _ assms(3,4) refl] by blast
  with assms show ?thesis by (intro inv_grow) simp_all
qed

text \<open>What a spawn that passes its guard means.\<close>

lemma check_spawn_ok:
  assumes "dispatch_inv h rs" "list_all dict_json_wf rs"
  shows "check_spawn h d u n key (snap rs) = Inr () \<longleftrightarrow>
    (\<exists>m us spec mx. manifests (scoped rs d) = [m] \<and> manifest_units m = Inr us
       \<and> unit_named u us = Some spec \<and> key = idempotency_key spec
       \<and> max_attempts_value (jget m ''max_attempts'' JNull) = Inr mx \<and> n \<le> mx
       \<and> n = int (length (spawns (scoped rs d) u)) + 1
       \<and> (1 < n \<longrightarrow> one_casualty (settlements (scoped rs d) u (n - 1))
                  \<and> \<not> late_seen (scoped rs d) u (n - 1)))"
proof -
  have inv: "rows_ok h rs" "course_ok (scoped rs d) u" using assms(1) by (simp_all add: dispatch_inv_def)
  show ?thesis
    unfolding check_spawn_def bind_res_eq_Inr fact_records_snap [OF assms(2)] require_manifest_eq
    using inv(1) check_spawn_order_ok [OF inv]
    by (fastforce split: option.splits if_splits simp del: int_values_eq)
qed

lemma spawn_keeps:
  assumes "dispatch_inv h rs" "list_all dict_json_wf rs" "row_of h R f"
    and "fact_event f = event_spawn"
    and "check_spawn h (d_dispatch f) (d_unit f) (d_attempt f) (d_key f) (snap rs) = Inr ()"
  shows "dispatch_inv h (rs @ [R])"
proof (rule inv_snocI [OF assms(1,3) refl])
  let ?S = "scoped rs (d_dispatch f)"
  have course: "course_ok ?S u" for u using assms(1) by (simp add: dispatch_inv_def)
  obtain m us spec mx where m: "manifests ?S = [m]" "manifest_units m = Inr us"
    "unit_named (d_unit f) us = Some spec" "d_key f = idempotency_key spec"
    "max_attempts_value (jget m ''max_attempts'' JNull) = Inr mx" "d_attempt f \<le> mx"
    and n: "d_attempt f = int (length (spawns ?S (d_unit f))) + 1"
    and prev: "1 < d_attempt f \<longrightarrow> one_casualty (settlements ?S (d_unit f) (d_attempt f - 1))"
    using assms(5) unfolding check_spawn_ok [OF assms(1,2)] by blast
  show "length (manifests (?S @ [R])) \<le> 1"
    using assms(1,4) by (simp add: snoc_rows [OF assms(3)] dispatch_inv_def)
  show "course_ok (?S @ [R]) u" if "u = d_unit f" for u
    using that course_spawn [OF course assms(3,4) refl n prev] by simp
  show "declared (?S @ [R]) u" if "spawns (?S @ [R]) u \<noteq> []" for u
  proof (cases "u = d_unit f")
    case False
    with that assms(1,4) have "declared ?S u"
      by (simp add: snoc_rows [OF assms(3)] dispatch_inv_def)
    with False assms(4) show ?thesis by (intro declared_grow [OF _ assms(3)]) simp_all
  next
    case True
    have "text_of r ''idempotency_key'' = idempotency_key spec" if "r \<in> set (spawns ?S u)" for r
    proof -
      have "spawns ?S u \<noteq> []" using that by auto
      then have "declared ?S u" using assms(1) by (simp add: dispatch_inv_def)
      with that m(1-3) True show ?thesis by (auto simp: declared_def)
    qed
    moreover have "text_of R ''idempotency_key'' = idempotency_key spec"
      using row_spawn_key [OF assms(3,4)] m(4) by simp
    ultimately show ?thesis
      using m n True assms(4) unfolding declared_def snoc_rows [OF assms(3)]
      by (intro exI [of _ m] exI [of _ us] exI [of _ spec] exI [of _ mx])
        (auto simp: snoc_rows [OF assms(3)])
  qed
qed

end
