(* ===== verification/Dispatch_Reachable.thy ===== *)
theory Dispatch_Reachable
  imports Dispatch_Invariant
begin

text \<open>
  Every ledger the program can leave behind: any sequence of the four writers, of facts of other
  kinds and of appends cut short by a crash, in any interleaving, since each takes one step under
  the ledger's lock.
\<close>

section \<open>Steps\<close>

inductive ledger_write :: "'h saga_host_scheme \<Rightarrow> ledger_file \<Rightarrow> ledger_file \<Rightarrow> bool"
  for h :: "'h saga_host_scheme" where
  manifest_write: "dict_json_wf r \<Longrightarrow> append_manifest h r f = (res, f') \<Longrightarrow> ledger_write h f f'"
| spawn_write: "dict_json_wf r \<Longrightarrow> append_spawn h r f = (res, f') \<Longrightarrow> ledger_write h f f'"
| settlement_write: "dict_json_wf r \<Longrightarrow> append_settlement h r f = (res, f') \<Longrightarrow> ledger_write h f f'"
| late_write: "dict_json_wf r \<Longrightarrow> append_late_delivery h r f = (res, f') \<Longrightarrow> ledger_write h f f'"
| other_write: "dict_json_wf r \<Longrightarrow> \<not> is_fact r \<Longrightarrow> append_fact h r f = (res, f') \<Longrightarrow> ledger_write h f f'"

text \<open>A crash inside the append leaves an unreadable fragment of the line, or all of it without its
  newline.\<close>

inductive ledger_step :: "'h saga_host_scheme \<Rightarrow> ledger_file \<Rightarrow> ledger_file \<Rightarrow> bool"
  for h :: "'h saga_host_scheme" where
  completed: "ledger_write h f f' \<Longrightarrow> ledger_step h f f'"
| cut_short: "ledger_write h f f' \<Longrightarrow> lines f' = lines f @ [l] \<Longrightarrow> frag \<in> {Garbage, l} \<Longrightarrow>
     ledger_step h f (f\<lparr>torn := Some frag\<rparr>)"

inductive ledger_steps :: "'h saga_host_scheme \<Rightarrow> ledger_file \<Rightarrow> ledger_file \<Rightarrow> bool"
  for h :: "'h saga_host_scheme" where
  no_step: "ledger_steps h f f"
| one_more: "ledger_steps h f g \<Longrightarrow> ledger_step h g f' \<Longrightarrow> ledger_steps h f f'"

definition ledger_reachable :: "'h saga_host_scheme \<Rightarrow> ledger_file \<Rightarrow> bool" where
  "ledger_reachable h f \<longleftrightarrow> ledger_steps h new_ledger f"

section \<open>Every write is a guarded append\<close>

definition keeps :: "'h saga_host_scheme \<Rightarrow> json dict \<Rightarrow> (snapshot \<Rightarrow> saga_error + unit) \<Rightarrow> bool" where
  "keeps h c v \<longleftrightarrow> (\<forall>rs. dispatch_inv h rs \<longrightarrow> list_all dict_json_wf rs \<longrightarrow> v (snap rs) = Inr () \<longrightarrow>
     dispatch_inv h (rs @ [norm_items (chained h rs c)]))"

lemma text_of_items [simp]:
  "text_of (fact_items f) ''dispatch_id'' = d_dispatch f"
  "fact_event f \<noteq> event_manifest \<Longrightarrow> text_of (fact_items f) ''unit_id'' = d_unit f"
  "fact_event f \<noteq> event_manifest \<Longrightarrow> attempt_of (fact_items f) = d_attempt f"
  "fact_event f = event_spawn \<Longrightarrow> text_of (fact_items f) ''idempotency_key'' = d_key f"
  by (cases f; simp add: text_of_def fact_items_def attempt_of_def)+

lemma keeps_fact:
  assumes "fact_ok h f"
  shows "fact_event f = event_manifest \<Longrightarrow> keeps h (fact_items f) (check_new_manifest h (d_dispatch f))"
    and "fact_event f = event_spawn \<Longrightarrow>
      keeps h (fact_items f) (check_spawn h (d_dispatch f) (d_unit f) (d_attempt f) (d_key f))"
    and "fact_event f = event_settle \<Longrightarrow>
      keeps h (fact_items f) (check_settlement h (d_dispatch f) (d_unit f) (d_attempt f))"
    and "fact_event f = event_late_delivery \<Longrightarrow>
      keeps h (fact_items f) (check_late_delivery h (d_dispatch f) (d_unit f) (d_attempt f))"
  using new_row [OF assms] manifest_keeps spawn_keeps settlement_keeps late_delivery_keeps
  unfolding keeps_def by blast+

lemma keeps_foreign:
  assumes "\<not> is_fact r" "dict_json_wf r"
  shows "keeps h r v"
proof -
  have "wf_dict (chained h rs r)" for rs using chained_wf [OF assms(2), of h rs] by simp
  then have "\<not> is_fact (norm_items (chained h rs r))" for rs
    using assms(1) by (auto simp: is_fact_def has_def dget_chained)
  then show ?thesis unfolding keeps_def by (blast intro: inv_foreign)
qed

text \<open>The result of a writer: the canonical form was refused and nothing happened, or a
  guarded append that keeps the invariant ran.\<close>

definition guarded :: "'h saga_host_scheme \<Rightarrow> ledger_file \<Rightarrow> ledger_file \<Rightarrow> bool" where
  "guarded h f f' \<longleftrightarrow> f' = f
     \<or> (\<exists>c v. f' = snd (append_fact_atomic h c v f) \<and> keeps h c v \<and> dict_json_wf c)"

lemma canonical_event:
  "canonical_fact h r (Some e) = Inr c \<Longrightarrow> dict_json_wf r \<Longrightarrow>
     \<exists>g. fact_ok h g \<and> c = fact_items g \<and> fact_event g = e \<and> spells r g"
  by (erule canonical_sound) auto

lemma canonical_append:
  assumes "op_bind (op_result (canonical_fact h r (Some e))) (\<lambda>c. append_fact_atomic h c (v c)) f
      = (res, f')"
    and "dict_json_wf r"
    and "\<And>g. fact_ok h g \<Longrightarrow> fact_event g = e \<Longrightarrow> keeps h (fact_items g) (v (fact_items g))"
  shows "guarded h f f'"
proof (cases "canonical_fact h r (Some e)")
  case (Inl x)
  with assms(1) show ?thesis by (simp add: guarded_def)
next
  case (Inr c)
  then obtain g where g: "fact_ok h g" "c = fact_items g" "fact_event g = e"
    using canonical_event assms(2) by blast
  have "f' = snd (append_fact_atomic h c (v c) f)" using assms(1) Inr by simp
  with g assms(3) fact_items_wf show ?thesis unfolding guarded_def by blast
qed

lemma write_is_append:
  assumes "ledger_write h f f'"
  shows "guarded h f f'"
  using assms
proof cases
  case (manifest_write r res)
  show ?thesis
    by (rule canonical_append [OF manifest_write(2)[unfolded append_manifest_def] manifest_write(1)])
      (simp add: keeps_fact)
next
  case (spawn_write r res)
  show ?thesis
    by (rule canonical_append [OF spawn_write(2)[unfolded append_spawn_def] spawn_write(1)])
      (simp add: keeps_fact)
next
  case (settlement_write r res)
  show ?thesis
    by (rule canonical_append [OF settlement_write(2)[unfolded append_settlement_def]
          settlement_write(1)]) (simp add: keeps_fact)
next
  case (late_write r res)
  show ?thesis
    by (rule canonical_append [OF late_write(2)[unfolded append_late_delivery_def] late_write(1)])
      (simp add: keeps_fact)
next
  case (other_write r res)
  then have "f' = snd (append_fact_atomic h r (\<lambda>_. Inr ()) f)"
    by (simp add: append_fact_def)
  with keeps_foreign [OF other_write(2,1)] other_write(1) show ?thesis
    unfolding guarded_def by blast
qed

section \<open>The invariant of reachable ledgers\<close>

definition sound_rows :: "'h saga_host_scheme \<Rightarrow> json dict list \<Rightarrow> bool" where
  "sound_rows h rs \<longleftrightarrow>
     verify_records h rs = ChainOk \<and> list_all dict_json_wf rs \<and> dispatch_inv h rs"

definition ledger_inv :: "'h saga_host_scheme \<Rightarrow> ledger_file \<Rightarrow> bool" where
  "ledger_inv h f \<longleftrightarrow> log_inv h f \<and> sound_rows h (history f) \<and> sound_rows h (visible f)"

lemma visible_clean: "torn f = None \<Longrightarrow> visible f = history f"
  by (simp add: visible_def history_def all_lines_def)

lemma visible_torn: "torn f = Some l \<Longrightarrow> visible f = history f @ rows_in [l]"
  by (simp add: visible_def history_def all_lines_def)

lemma ledger_inv_new: "ledger_inv h new_ledger"
proof -
  have "visible new_ledger = []" "history new_ledger = []"
    by (simp_all add: visible_def history_def all_lines_def new_ledger_def)
  then show ?thesis
    using log_inv_new by (simp add: ledger_inv_def sound_rows_def dispatch_inv_Nil log_inv_def)
qed

lemma log_inv_sound: "log_inv h f \<Longrightarrow> dispatch_inv h (history f) \<Longrightarrow> sound_rows h (history f)"
  by (simp add: log_inv_def sound_rows_def)

lemma put_inv:
  assumes "digest_host h" "ledger_inv h f" "keeps h c v" "dict_json_wf c"
  shows "ledger_inv h (snd (append_fact_atomic h c v f))"
    "torn (snd (append_fact_atomic h c v f)) = None"
proof -
  let ?f = "snd (append_fact_atomic h c v f)"
  have f: "digest_host h \<and> log_inv h f" "list_all dict_json_wf (history f)" "dispatch_inv h (history f)"
    using assms(1,2) by (simp_all add: ledger_inv_def sound_rows_def)
  have "digest_host h \<and> log_inv h ?f" by (rule ledger.put_sound [OF f(1) assms(4)])
  moreover have "dispatch_inv h (history ?f)"
    using f(2) assms(3) unfolding keeps_def snap_def
    by (intro ledger.put_keeps [where I = "dispatch_inv h", OF f(1,3)]) blast
  ultimately have "log_inv h ?f" "sound_rows h (history ?f)" by (simp_all add: log_inv_sound)
  moreover show "torn ?f = None"
    using append_fact_atomic_log [of h f c v] f(1) by (simp add: grown_def split: sum.splits)
  ultimately show "ledger_inv h ?f" by (simp add: ledger_inv_def visible_clean)
qed

lemma write_inv:
  assumes "digest_host h" "ledger_inv h f" "ledger_write h f f'"
  shows "ledger_inv h f'"
  using write_is_append [OF assms(3)] put_inv [OF assms(1,2)] assms(2) unfolding guarded_def by blast

lemma torn_inv:
  assumes "ledger_inv h f" "ledger_inv h f'" "torn f' = None" "lines f' = lines f @ [l]"
    "frag \<in> {Garbage, l}"
  shows "ledger_inv h (f\<lparr>torn := Some frag\<rparr>)"
proof -
  let ?t = "f\<lparr>torn := Some frag\<rparr>"
  have h: "history ?t = history f" "history f' = history f @ rows_in [l]"
    using assms(4) by (simp_all add: history_def)
  have "visible ?t = history f @ rows_in [frag]" by (simp add: visible_torn h(1))
  then have "visible ?t \<in> {history f, history f'}"
    using assms(5) by (auto simp: h(2) rows_in_def)
  moreover have "log_inv h ?t" using assms(1) by (simp add: ledger_inv_def log_inv_def h(1))
  ultimately show ?thesis using assms(1,2) h(1) unfolding ledger_inv_def by auto
qed

lemma step_inv:
  assumes "digest_host h" "ledger_inv h f" "ledger_step h f f'"
  shows "ledger_inv h f'"
  using assms(3)
proof cases
  case completed
  then show ?thesis using write_inv [OF assms(1,2)] by blast
next
  case (cut_short f1 l frag)
  from write_is_append [OF cut_short(2)] cut_short(3) obtain c v where
    "f1 = snd (append_fact_atomic h c v f)" "keeps h c v" "dict_json_wf c" by (auto simp: guarded_def)
  with put_inv [OF assms(1,2), of c v] have "ledger_inv h f1" "torn f1 = None" by simp_all
  with torn_inv [OF assms(2)] cut_short show ?thesis by blast
qed

lemma steps_inv:
  "ledger_steps h f f' \<Longrightarrow> digest_host h \<Longrightarrow> ledger_inv h f \<Longrightarrow> ledger_inv h f'"
  by (induction rule: ledger_steps.induct) (auto intro: step_inv)

lemma ledger_reachable_inv:
  "ledger_reachable h f \<Longrightarrow> digest_host h \<Longrightarrow> ledger_inv h f"
  unfolding ledger_reachable_def using steps_inv ledger_inv_new by blast

end
