(* ===== verification/Dispatch_Attempts.thy ===== *)
theory Dispatch_Attempts
  imports Dispatch_Ledger
begin

text \<open>
  The attempts of \<open>saga/scripts/dispatch_settlement.py\<close>: the derived dead-letter queue, the
  terminal status, and the operations a driver calls, \<open>prepare_attempt\<close>, \<open>settle_attempt\<close> and
  \<open>claim_retry\<close>.  They read one snapshot and then append, so another writer may step in between;
  what they append is guarded again by the writers of \<open>Dispatch_Ledger\<close>.
\<close>

section \<open>Dead letters\<close>

datatype dead_letter =
  DeadLetter (dl_dispatch: string) (dl_unit: string) (previous_attempt: int) (next_attempt: int)
    (dl_key: string) (dl_class: string) (dl_reason: string)

definition spawns_by_attempt :: "json dict list \<Rightarrow> string \<Rightarrow> json dict list" where
  "spawns_by_attempt S u = sort_key attempt_of (filter (of_unit event_spawn u) S)"

definition letter_for :: "json dict list \<Rightarrow> string \<Rightarrow> int \<Rightarrow> unit_spec \<Rightarrow> dead_letter option" where
  "letter_for S dispatch mx spec =
     (let u = unit_id spec; sp = spawns_by_attempt S u in
      if sp = [] then None
      else
        let n = attempt_of (last sp) in
        (case settlements S u n of
           [s] \<Rightarrow>
             if \<not> is_casualty s \<or> mx \<le> n \<or> late_seen S u n then None
             else Some (DeadLetter dispatch u n (n + 1) (idempotency_key spec)
                    (py_str (jget s ''classification'' JNull)) (text_of s ''reason''))
         | _ \<Rightarrow> None))"

definition select_some :: "'a option list \<Rightarrow> 'a list" where
  "select_some xs = concat (map (\<lambda>x. case x of None \<Rightarrow> [] | Some y \<Rightarrow> [y]) xs)"

definition letters_of :: "json dict list \<Rightarrow> string \<Rightarrow> saga_error + dead_letter list" where
  "letters_of rs dispatch =
     (let S = filter (\<lambda>r. has r ''dispatch_id'' (JStr dispatch)) rs in
      bind_res (require_manifest S) (\<lambda>m.
      bind_res (manifest_units m) (\<lambda>us.
      bind_res (max_attempts_value (jget m ''max_attempts'' JNull)) (\<lambda>mx.
      Inr (select_some (map (letter_for S dispatch mx) (sort_key unit_id us)))))))"

definition dead_letters_of ::
    "json dict list \<Rightarrow> string option \<Rightarrow> saga_error + dead_letter list" where
  "dead_letters_of all dispatch =
     (let rs = filter (\<lambda>r. is_fact r \<and>
                 (case dispatch of None \<Rightarrow> True | Some d \<Rightarrow> has r ''dispatch_id'' (JStr d))) all;
          ids = sort (remdups (map (\<lambda>r. py_str (jget r ''dispatch_id'' JNull))
                  (filter (is_event event_manifest) rs)))
      in bind_res (map_res (letters_of rs) ids) (\<lambda>ls. Inr (concat ls)))"

definition dead_letters ::
    "'h saga_host_scheme \<Rightarrow> string option \<Rightarrow> dead_letter list ledger_op" where
  "dead_letters h dispatch =
     op_bind (verified_snapshot h) (\<lambda>s. op_result (dead_letters_of (records s) dispatch))"

definition claim_retry ::
    "'h saga_host_scheme \<Rightarrow> string \<Rightarrow> string \<Rightarrow> string \<Rightarrow> string \<Rightarrow> json dict ledger_op" where
  "claim_retry h subplot at dispatch u =
     op_bind (dead_letters h (Some dispatch)) (\<lambda>ls.
       case filter (\<lambda>l. dl_unit l = u) ls of
         [l] \<Rightarrow>
           op_bind (op_result (spawn_fact h (JStr subplot) (JStr at) (JStr dispatch) (JStr u)
             (JInt (next_attempt l)) (JStr (dl_key l))))
             (append_spawn h)
       | _ \<Rightarrow> op_result (Inl DispatchSettlementError))"

section \<open>Terminal status\<close>

definition terminal_status :: "bool \<Rightarrow> string \<Rightarrow> string" where
  "terminal_status late cls =
     (if late then ''late-delivered''
      else if cls = delivered then ''already-delivered''
      else ''retry-exhausted'')"

definition terminal_of ::
    "json dict list \<Rightarrow> json dict \<Rightarrow> string \<Rightarrow> string \<Rightarrow> saga_error + json dict option" where
  "terminal_of S m dispatch u =
     (let sp = spawns_by_attempt S u in
      if sp = [] then Inr None
      else
        let n = attempt_of (last sp) in
        (case settlements S u n of
           [] \<Rightarrow> Inr None
         | [s] \<Rightarrow>
             (let cls = py_str (jget s ''classification'' JNull); late = late_seen S u n in
              bind_res (max_attempts_value (jget m ''max_attempts'' JNull)) (\<lambda>mx.
              if cls \<in> set casualty_classifications \<and> n < mx \<and> \<not> late then Inr None
              else Inr (Some
                [(''status'', JStr (terminal_status late cls)), (''dispatch_id'', JStr dispatch),
                 (''unit_id'', JStr u), (''attempt'', JInt n), (''classification'', JStr cls),
                 (''reason'', JStr (text_of s ''reason''))])))
         | _ \<Rightarrow> Inl DispatchSettlementError))"

definition terminal_attempt_status ::
    "'h saga_host_scheme \<Rightarrow> string \<Rightarrow> string \<Rightarrow> json dict option ledger_op" where
  "terminal_attempt_status h dispatch_arg unit_arg =
     op_bind (op_result (safe_identifier (JStr dispatch_arg))) (\<lambda>dispatch.
     op_bind (op_result (safe_identifier (JStr unit_arg))) (\<lambda>u.
     op_bind (dispatch_records h dispatch) (\<lambda>S.
     op_bind (op_result (require_manifest S)) (\<lambda>m.
     op_bind (op_result (manifest_units m)) (\<lambda>us.
       if unit_named u us = None then op_result (Inl DispatchSettlementError)
       else op_result (terminal_of S m dispatch u))))))"

section \<open>Preparing an attempt\<close>

text \<open>The manifest of the dispatch, appended first when there is none.\<close>

definition bind_manifest ::
    "'h saga_host_scheme \<Rightarrow> string \<Rightarrow> string \<Rightarrow> string \<Rightarrow> string \<Rightarrow> unit_spec \<Rightarrow> int \<Rightarrow> int
      \<Rightarrow> (json dict list \<times> json dict) ledger_op" where
  "bind_manifest h subplot at dispatch site spec threshold maximum =
     op_bind (dispatch_records h dispatch) (\<lambda>S.
     op_bind (op_result (find_manifest S)) (\<lambda>found.
       case found of
         Some m \<Rightarrow> op_result (Inr (S, m))
       | None \<Rightarrow>
           op_bind (op_result (manifest_fact h (JStr subplot) (JStr at) (JStr dispatch) site [Spec spec]
             (JInt threshold) (JInt maximum))) (\<lambda>c.
           op_bind (ensure_manifest h c) (\<lambda>_.
           op_bind (dispatch_records h dispatch) (\<lambda>S'.
           op_bind (op_result (require_manifest S')) (\<lambda>m. op_result (Inr (S', m))))))))"

definition spawn_attempt ::
    "'h saga_host_scheme \<Rightarrow> string \<Rightarrow> string \<Rightarrow> string \<Rightarrow> unit_spec \<Rightarrow> int \<Rightarrow> json dict ledger_op" where
  "spawn_attempt h subplot at dispatch spec n =
     op_bind (op_result (spawn_fact h (JStr subplot) (JStr at) (JStr dispatch) (JStr (unit_id spec))
       (JInt n) (JStr (idempotency_key spec)))) (append_spawn h)"

definition current_attempt ::
    "'h saga_host_scheme \<Rightarrow> string \<Rightarrow> string \<Rightarrow> string \<Rightarrow> unit_spec \<Rightarrow> json dict list
      \<Rightarrow> json dict ledger_op" where
  "current_attempt h subplot at dispatch spec S =
     (let u = unit_id spec; sp = spawns_by_attempt S u in
      if sp = [] then spawn_attempt h subplot at dispatch spec 1
      else if settlements S u (attempt_of (last sp)) = [] then op_result (Inr (last sp))
      else
        op_bind (terminal_attempt_status h dispatch u) (\<lambda>t.
          case t of
            Some d \<Rightarrow> op_result (Inr d)
          | None \<Rightarrow> claim_retry h subplot at dispatch u))"

definition prepare_attempt ::
    "'h saga_host_scheme \<Rightarrow> string \<Rightarrow> string \<Rightarrow> string \<Rightarrow> string \<Rightarrow> unit_arg \<Rightarrow> int \<Rightarrow> int
      \<Rightarrow> json dict ledger_op" where
  "prepare_attempt h subplot at dispatch site unit threshold maximum =
     op_bind (op_result (unit_of unit)) (\<lambda>spec.
     op_bind (bind_manifest h subplot at dispatch site spec threshold maximum) (\<lambda>(S, m).
     op_bind (op_result (manifest_units m)) (\<lambda>us.
       if unit_named (unit_id spec) us \<noteq> Some spec then op_result (Inl DispatchSettlementError)
       else if \<not> has m ''site'' (JStr site) then op_result (Inl DispatchSettlementError)
       else current_attempt h subplot at dispatch spec S)))"

section \<open>Settling an attempt\<close>

definition evidence_fields :: "string list" where
  "evidence_fields = [''classification'', ''reason'', ''evidence_ref'', ''evidence_sha256'']"

definition settle_again ::
    "'h saga_host_scheme \<Rightarrow> string \<Rightarrow> string \<Rightarrow> string \<Rightarrow> string \<Rightarrow> int \<Rightarrow> string \<Rightarrow> string
      \<Rightarrow> string \<Rightarrow> string \<Rightarrow> json dict list \<Rightarrow> json dict \<Rightarrow> json dict ledger_op" where
  "settle_again h subplot at dispatch u n cls reason ref sha S prior =
     (let before = py_str (jget prior ''classification'' JNull) in
      if before = cls then
        op_bind (op_result (settle_fact h (JStr subplot) (JStr at) (JStr dispatch) (JStr u) (JInt n)
          cls (JStr reason) ref sha)) (\<lambda>c.
        op_result (if same_fields evidence_fields prior c then Inr prior
                   else Inl DispatchSettlementError))
      else if cls = delivered \<and> before \<in> set casualty_classifications then
        (case find (of_attempt event_late_delivery u n) S of
           Some late \<Rightarrow>
             op_result (if has late ''evidence_ref'' (JStr ref) \<and> has late ''evidence_sha256'' (JStr sha)
                        then Inr late else Inl DispatchSettlementError)
         | None \<Rightarrow>
             op_bind (op_result (late_delivery_fact h (JStr subplot) (JStr at) (JStr dispatch) (JStr u)
               (JInt n) (JStr ref) (JStr sha))) (append_late_delivery h))
      else op_result (Inl DispatchSettlementError))"

definition settle_attempt ::
    "'h saga_host_scheme \<Rightarrow> string \<Rightarrow> string \<Rightarrow> string \<Rightarrow> string \<Rightarrow> int \<Rightarrow> string \<Rightarrow> string
      \<Rightarrow> string \<Rightarrow> string \<Rightarrow> json dict ledger_op" where
  "settle_attempt h subplot at dispatch u attempt cls reason ref sha =
     op_bind (op_result (attempt_value (JInt attempt))) (\<lambda>n.
     op_bind (verified_snapshot h) (\<lambda>s.
     op_bind (op_result (safe_identifier (JStr dispatch))) (\<lambda>d.
     op_bind (op_result (fact_records h s d)) (\<lambda>S.
       case settlements S u n of
         [] \<Rightarrow>
           op_bind (op_result (settle_fact h (JStr subplot) (JStr at) (JStr dispatch) (JStr u) (JInt n)
             cls (JStr reason) ref sha)) (append_settlement h)
       | [prior] \<Rightarrow> settle_again h subplot at dispatch u n cls reason ref sha S prior
       | _ \<Rightarrow> op_result (Inl DispatchSettlementError)))))"

definition latest_attempt ::
    "'h saga_host_scheme \<Rightarrow> string \<Rightarrow> string \<Rightarrow> int option ledger_op" where
  "latest_attempt h dispatch u =
     op_bind (dispatch_records h dispatch) (\<lambda>S.
     op_bind (op_result (map_res (\<lambda>r. attempt_value (jget r ''attempt'' JNull))
       (filter (of_unit event_spawn u) S))) (\<lambda>ns.
     op_result (Inr (if ns = [] then None else Some (Max (set ns))))))"

end
