(* ===== verification/Dispatch_Reports.thy ===== *)
theory Dispatch_Reports
  imports Dispatch_Attempts "HOL-Library.Product_Lexorder"
begin

text \<open>
  The derived views of \<open>saga/scripts/dispatch_settlement.py\<close>: the casualty report of a
  dispatch, the open positions, leak reconciliation and the identities an outcome binds its frontier
  to.  A casualty rate is kept as the two operands of its floating-point division.
\<close>

section \<open>The casualty report\<close>

record casualty_entry =
  ce_unit :: string
  ce_attempt :: int
  ce_class :: string
  ce_reason :: string
  ce_ref :: string
  ce_spawned :: bool
  ce_settled :: bool

record attempt_cohort =
  co_attempt :: int
  co_expected :: nat
  co_settled :: nat
  co_casualties :: nat
  co_rate :: "(nat \<times> nat) option"
  co_threshold :: int
  co_complete :: bool
  co_halt :: bool

record casualty_report =
  cr_dispatch :: string
  cr_site :: string
  cr_entries :: "casualty_entry list"
  cr_cohorts :: "attempt_cohort list"
  cr_halt :: bool

text \<open>A dictionary comprehension keeps the last record of a key.\<close>

definition settlement_at :: "json dict list \<Rightarrow> string \<Rightarrow> int \<Rightarrow> json dict option" where
  "settlement_at S u n = (case rev (settlements S u n) of [] \<Rightarrow> None | s # _ \<Rightarrow> Some s)"

definition spawn_rows :: "json dict list \<Rightarrow> json dict list" where
  "spawn_rows S = filter (is_event event_spawn) S"

definition spawned_in :: "json dict list \<Rightarrow> int \<Rightarrow> string list" where
  "spawned_in S n =
     map (\<lambda>r. py_str (jget r ''unit_id'' JNull))
       (filter (\<lambda>r. has r ''attempt'' (JInt n)) (spawn_rows S))"

definition report_attempts :: "json dict list \<Rightarrow> int list" where
  "report_attempts S = sort (remdups (1 # map attempt_of (spawn_rows S)))"

definition report_entry :: "json dict list \<Rightarrow> int \<Rightarrow> string \<Rightarrow> casualty_entry" where
  "report_entry S n u =
     (let spawned = u \<in> set (spawned_in S n) in
      case settlement_at S u n of
        Some s \<Rightarrow>
          \<lparr>ce_unit = u, ce_attempt = n, ce_class = py_str (jget s ''classification'' JNull),
           ce_reason = text_of s ''reason'', ce_ref = text_of s ''evidence_ref'',
           ce_spawned = spawned, ce_settled = True\<rparr>
      | None \<Rightarrow>
          \<lparr>ce_unit = u, ce_attempt = n, ce_class = (if spawned then ''open'' else ''unspawned''),
           ce_reason = [], ce_ref = [], ce_spawned = spawned, ce_settled = False\<rparr>)"

definition cohort_units :: "unit_spec list \<Rightarrow> json dict list \<Rightarrow> int \<Rightarrow> string list" where
  "cohort_units us S n =
     (if n = 1 then sort (map unit_id us) else sort (spawned_in S n))"

definition report_entries :: "unit_spec list \<Rightarrow> json dict list \<Rightarrow> casualty_entry list" where
  "report_entries us S =
     concat (map (\<lambda>n. map (report_entry S n) (cohort_units us S n)) (report_attempts S))"

definition casualty_class :: "string \<Rightarrow> bool" where
  "casualty_class c \<longleftrightarrow> c \<in> set casualty_classifications"

definition exceeds :: "int \<Rightarrow> nat \<Rightarrow> nat \<Rightarrow> bool" where
  "exceeds threshold part whole \<longleftrightarrow> threshold * int whole < int part * 100"

definition report_cohort :: "int \<Rightarrow> casualty_entry list \<Rightarrow> int \<Rightarrow> attempt_cohort" where
  "report_cohort threshold entries n =
     (let cohort = filter (\<lambda>e. ce_attempt e = n) entries;
          expected = length cohort;
          settled = length (filter ce_settled cohort);
          casualties = length (filter (\<lambda>e. casualty_class (ce_class e)) cohort);
          complete = (0 < expected \<and> settled = expected)
      in \<lparr>co_attempt = n, co_expected = expected, co_settled = settled, co_casualties = casualties,
          co_rate = (if expected = 0 then None else Some (100 * casualties, expected)),
          co_threshold = threshold, co_complete = complete,
          co_halt = (complete \<and> exceeds threshold casualties expected)\<rparr>)"

text \<open>Where a unit stands: its latest attempt and state, a late delivery counting as delivered.\<close>

definition latest_state :: "json dict list \<Rightarrow> string \<Rightarrow> int \<times> string" where
  "latest_state S u =
     (let ns = map attempt_of (filter (of_unit event_spawn u) S) in
      if ns = [] then (1, ''unspawned'')
      else
        let n = Max (set ns) in
        (case settlement_at S u n of
           None \<Rightarrow> (n, ''open'')
         | Some s \<Rightarrow>
             if late_seen S u n then (n, delivered)
             else (n, py_str (jget s ''classification'' JNull))))"

definition latest_states :: "unit_spec list \<Rightarrow> json dict list \<Rightarrow> (string \<times> int \<times> string) list" where
  "latest_states us S = map (\<lambda>u. (u, latest_state S u)) (sort (map unit_id us))"

text \<open>A casualty of an attempt whose unit is not delivered by now; a spawn of an undeclared unit
  would be a missing key.\<close>

definition unresolved ::
    "(string \<times> int \<times> string) list \<Rightarrow> json dict list \<Rightarrow> int \<Rightarrow> string \<Rightarrow> saga_error + bool" where
  "unresolved states S n u =
     (case settlement_at S u n of
        None \<Rightarrow> Inr False
      | Some s \<Rightarrow>
          if \<not> is_casualty s then Inr False
          else (case map_of states u of
                  None \<Rightarrow> Inl PyKeyError
                | Some (k, state) \<Rightarrow> Inr (state \<noteq> delivered)))"

fun threshold_breach ::
    "int \<Rightarrow> (string \<times> int \<times> string) list \<Rightarrow> json dict list \<Rightarrow> casualty_entry list \<Rightarrow> int list
      \<Rightarrow> saga_error + bool" where
  "threshold_breach threshold states S entries [] = Inr False"
| "threshold_breach threshold states S entries (n # ns) =
     (let units = remdups (map ce_unit (filter (\<lambda>e. ce_attempt e = n) entries)) in
      bind_res (map_res (unresolved states S n) units) (\<lambda>open.
        if exceeds threshold (length (filter (\<lambda>b. b) open)) (length units) then Inr True
        else threshold_breach threshold states S entries ns))"

definition report_of :: "string \<Rightarrow> json dict list \<Rightarrow> saga_error + casualty_report" where
  "report_of dispatch S =
     bind_res (require_manifest S) (\<lambda>m.
     bind_res (manifest_units m) (\<lambda>us.
     bind_res (threshold_value (jget m ''casualty_threshold_percent'' JNull)) (\<lambda>threshold.
       let ns = report_attempts S;
           entries = report_entries us S;
           states = latest_states us S;
           current = list_all (\<lambda>(u, n, state). state \<in> set ledger_classifications) states
       in bind_res (threshold_breach threshold states S entries ns) (\<lambda>breach.
          Inr \<lparr>cr_dispatch = dispatch, cr_site = py_str (jget m ''site'' JNull),
               cr_entries = entries, cr_cohorts = map (report_cohort threshold entries) ns,
               cr_halt = (\<not> current \<or> breach)\<rparr>))))"

definition settlement_report :: "'h saga_host_scheme \<Rightarrow> string \<Rightarrow> casualty_report ledger_op" where
  "settlement_report h dispatch_arg =
     op_bind (op_result (safe_identifier (JStr dispatch_arg))) (\<lambda>dispatch.
     op_bind (dispatch_records h dispatch) (\<lambda>S. op_result (report_of dispatch S)))"

section \<open>Open positions and leaks\<close>

definition position_key :: "json dict \<Rightarrow> string \<times> string \<times> int" where
  "position_key r =
     (py_str (jfield r ''dispatch_id''), py_str (jfield r ''unit_id''), attempt_of r)"

definition position_of :: "json dict \<Rightarrow> json dict" where
  "position_of r =
     map (\<lambda>k. (k, jfield r k)) [''dispatch_id'', ''unit_id'', ''attempt'', ''idempotency_key'']
       @ [(''classification'', JStr ''open'')]"

definition same_position :: "json dict \<Rightarrow> json dict \<Rightarrow> bool" where
  "same_position r s \<longleftrightarrow>
     list_all (\<lambda>k. jfield r k = jfield s k) [''dispatch_id'', ''unit_id'', ''attempt'']"

definition open_positions_of :: "json dict list \<Rightarrow> json dict list" where
  "open_positions_of all =
     (let rs = filter is_fact all;
          settled = filter (is_event event_settle) rs;
          open = filter (\<lambda>r. is_event event_spawn r \<and> \<not> list_ex (same_position r) settled) rs
      in sort_key position_key (map position_of open))"

definition open_positions :: "'h saga_host_scheme \<Rightarrow> json dict list ledger_op" where
  "open_positions h =
     op_bind (verified_snapshot h) (\<lambda>s. op_result (Inr (open_positions_of (records s))))"

definition stale_worktree :: "json dict \<Rightarrow> saga_error + json dict" where
  "stale_worktree raw =
     bind_res (safe_identifier (jget raw ''dispatch_id'' (JStr ''worktree-registry''))) (\<lambda>d.
     bind_res (safe_identifier (jget raw ''unit_id'' (JStr []))) (\<lambda>u.
     bind_res (attempt_value (jget raw ''attempt'' (JInt 1))) (\<lambda>n.
     bind_res (bounded_text max_reason_length (jget raw ''worktree'' (JStr ''unknown''))) (\<lambda>w.
     Inr [(''dispatch_id'', JStr d), (''unit_id'', JStr u), (''attempt'', JInt n),
          (''classification'', JStr ''leaked-worktree''), (''worktree'', JStr w)]))))"

definition reconcile_leaks ::
    "'h saga_host_scheme \<Rightarrow> json dict list \<Rightarrow> json dict ledger_op" where
  "reconcile_leaks h stale =
     op_bind (open_positions h) (\<lambda>positions.
     op_bind (op_result (map_res stale_worktree stale)) (\<lambda>leaks.
       let projected = sort_key (\<lambda>r. (text_of r ''dispatch_id'', text_of r ''unit_id'')) leaks
       in op_result (Inr
            [(''open_positions'', JArr (map JObj positions)),
             (''stale_worktrees'', JArr (map JObj projected)),
             (''open_count'', JInt (int (length positions + length projected)))])))"

section \<open>Metadata and outcome identities\<close>

definition settlement_metadata ::
    "string \<Rightarrow> string \<Rightarrow> unit_arg list \<Rightarrow> int \<Rightarrow> int \<Rightarrow> saga_error + json dict" where
  "settlement_metadata dispatch site units threshold maximum =
     bind_res (units_of units) (\<lambda>us.
       if site \<notin> set sites then Inl DispatchSettlementError
       else
         bind_res (safe_identifier (JStr dispatch)) (\<lambda>d.
         bind_res (threshold_value (JInt threshold)) (\<lambda>th.
         bind_res (max_attempts_value (JInt maximum)) (\<lambda>mx.
         Inr [(''schema'', JStr ''dispatch_settlement.v1''), (''dispatch_id'', JStr d),
              (''site'', JStr site), (''units'', JArr (map unit_to_dict us)),
              (''casualty_threshold_percent'', JInt th), (''max_attempts'', JInt mx)]))))"

definition evidence_digest :: "'h host_scheme \<Rightarrow> json \<Rightarrow> string" where
  "evidence_digest h payload = sha256 h (canonical_json payload)"

text \<open>\<open>re.sub(r"[^A-Za-z0-9._+-]+", "-", value)\<close>\<close>

fun squeeze_unsafe :: "bool \<Rightarrow> string \<Rightarrow> string" where
  "squeeze_unsafe dashed [] = []"
| "squeeze_unsafe dashed (c # cs) =
     (if is_alnum c \<or> c \<in> set ''._+-'' then c # squeeze_unsafe False cs
      else if dashed then squeeze_unsafe True cs
      else CHR ''-'' # squeeze_unsafe True cs)"

definition strip_chars :: "string \<Rightarrow> string \<Rightarrow> string" where
  "strip_chars cs s =
     rev (dropWhile (\<lambda>c. c \<in> set cs) (rev (dropWhile (\<lambda>c. c \<in> set cs) s)))"

definition safe_contract_identifier ::
    "'h host_scheme \<Rightarrow> string \<Rightarrow> string \<Rightarrow> saga_error + string" where
  "safe_contract_identifier h value namespace =
     (if value = [] then Inl DispatchSettlementError
      else if length value \<le> max_id_length \<and> id_text value then Inr value
      else
        bind_res (safe_identifier (JStr namespace)) (\<lambda>ns.
          let short = take 48 (strip_chars ''-.'' (squeeze_unsafe False value));
              readable = (if short = [] then ''encoded'' else short)
          in safe_identifier (JStr (ns @ '':'' @ readable @ '':'' @ sha256 h value))))"

definition outcome_unit :: "'h host_scheme \<Rightarrow> string \<Rightarrow> string \<Rightarrow> saga_error + unit_spec" where
  "outcome_unit h outcome_arg subplot_arg =
     bind_res (safe_identifier (JStr outcome_arg)) (\<lambda>outcome.
     bind_res (safe_identifier (JStr subplot_arg)) (\<lambda>subplot.
       let key = ''outcome:'' @ outcome @ '':'' @ subplot;
           short = ''outcome:'' @ take 24 (sha256 h outcome) @ '':'' @ take 24 (sha256 h subplot)
       in Inr (UnitSpec subplot (if max_id_length < length key then short else key)
            [''canonical-completion''])))"

definition outcome_frontier_identity ::
    "'h host_scheme \<Rightarrow> string \<Rightarrow> string list \<Rightarrow> saga_error + (string \<times> unit_spec list)" where
  "outcome_frontier_identity h outcome_arg subplots =
     bind_res (safe_identifier (JStr outcome_arg)) (\<lambda>outcome.
     bind_res (map_res (outcome_unit h outcome) subplots) (\<lambda>built.
     bind_res (units_of (map Spec (sort_key unit_id built))) (\<lambda>us.
       let roster = take 24 (evidence_digest h (JArr (map (\<lambda>u. JStr (unit_id u)) us)))
       in bind_res (safe_identifier (JStr (''outcome:'' @ take 32 (sha256 h outcome) @ '':frontier:'' @ roster)))
            (\<lambda>d. Inr (d, us)))))"

definition outcome_prefix :: "'h host_scheme \<Rightarrow> string \<Rightarrow> string" where
  "outcome_prefix h outcome = ''outcome:'' @ take 32 (sha256 h outcome) @ '':''"

definition outcome_manifests :: "'h host_scheme \<Rightarrow> string \<Rightarrow> json dict list \<Rightarrow> json dict list" where
  "outcome_manifests h outcome all =
     filter (\<lambda>r. is_fact r \<and> is_event event_manifest r \<and> has r ''site'' (JStr ''outcome'')
        \<and> take (length (outcome_prefix h outcome)) (text_of r ''dispatch_id'')
            = outcome_prefix h outcome) all"

type_synonym bindings = "(string \<times> string \<times> unit_spec) list"

definition bind_unit :: "string \<Rightarrow> string list \<Rightarrow> unit_spec \<Rightarrow> bindings \<Rightarrow> saga_error + bindings" where
  "bind_unit dispatch wanted u b =
     (if unit_id u \<notin> set wanted then Inr b
      else case dget b (unit_id u) of
             Some (d, v) \<Rightarrow>
               if d \<noteq> dispatch then Inl DispatchSettlementError
               else Inr (dset (unit_id u) (dispatch, u) b)
           | None \<Rightarrow> Inr (dset (unit_id u) (dispatch, u) b))"

fun bind_units :: "string \<Rightarrow> string list \<Rightarrow> unit_spec list \<Rightarrow> bindings \<Rightarrow> saga_error + bindings" where
  "bind_units dispatch wanted [] b = Inr b"
| "bind_units dispatch wanted (u # us) b =
     bind_res (bind_unit dispatch wanted u b) (bind_units dispatch wanted us)"

fun bind_manifests :: "string list \<Rightarrow> json dict list \<Rightarrow> bindings \<Rightarrow> saga_error + bindings" where
  "bind_manifests wanted [] b = Inr b"
| "bind_manifests wanted (m # ms) b =
     bind_res (manifest_units m) (\<lambda>us.
     bind_res (bind_units (text_of m ''dispatch_id'') wanted us b) (bind_manifests wanted ms))"

definition outcome_dispatch_bindings ::
    "'h saga_host_scheme \<Rightarrow> string \<Rightarrow> string list \<Rightarrow> bindings ledger_op" where
  "outcome_dispatch_bindings h outcome_arg subplots =
     op_bind (op_result (safe_identifier (JStr outcome_arg))) (\<lambda>outcome.
     op_bind (op_result (map_res (\<lambda>s. safe_identifier (JStr s)) subplots)) (\<lambda>wanted.
       if wanted = [] then op_result (Inr [])
       else op_bind (verified_snapshot h) (\<lambda>s.
            op_result (bind_manifests wanted (outcome_manifests h outcome (records s)) []))))"

fun run_reports :: "'h saga_host_scheme \<Rightarrow> string list \<Rightarrow> casualty_report list ledger_op" where
  "run_reports h [] = op_result (Inr [])"
| "run_reports h (d # ds) =
     op_bind (settlement_report h d) (\<lambda>r. op_bind (run_reports h ds) (\<lambda>rs. op_result (Inr (r # rs))))"

definition outcome_reports :: "'h saga_host_scheme \<Rightarrow> string \<Rightarrow> casualty_report list ledger_op" where
  "outcome_reports h outcome_arg =
     op_bind (op_result (safe_identifier (JStr outcome_arg))) (\<lambda>outcome.
     op_bind (verified_snapshot h) (\<lambda>s.
       run_reports h (sort (map (\<lambda>r. py_str (jfield r ''dispatch_id''))
         (outcome_manifests h outcome (records s))))))"

end
