(* ===== verification/Dispatch_Retry.thy ===== *)
theory Dispatch_Retry
  imports Dispatch_Reachable Dispatch_Reports
begin

text \<open>
  The retry queue of a dispatch: what the readers see of a reachable ledger, when a unit is a dead
  letter, and that this is exactly when the guard of a spawn admits its next attempt.
\<close>

section \<open>Reading a reachable ledger\<close>

lemma validated_sound:
  "sound_rows h rs \<Longrightarrow> validated_records h (snap rs) = Inr rs"
  using validated_records_eq [of "snap rs" h rs]
  by (simp add: sound_rows_def dispatch_inv_def snap_def)

lemma fact_records_sound:
  "sound_rows h rs \<Longrightarrow> fact_records h (snap rs) d = Inr (scoped rs d)"
  using fact_records_eq [of "snap rs" h d]
  by (simp add: sound_rows_def dispatch_inv_def snap_def)

lemma read_snapshot_inv: "ledger_inv h f \<Longrightarrow> read_snapshot h f = (Inr (snap (visible f)), f)"
  using snapshot_log [of h f] by (simp add: ledger_inv_def sound_rows_def snap_def)

lemma verified_snapshot_inv: "ledger_inv h f \<Longrightarrow> verified_snapshot h f = (Inr (snap (visible f)), f)"
  by (simp add: verified_snapshot_def read_snapshot_inv validated_sound ledger_inv_def)

lemma dispatch_records_inv:
  "ledger_inv h f \<Longrightarrow> dispatch_records h d f = (Inr (scoped (visible f) d), f)"
  by (simp add: dispatch_records_def verified_snapshot_inv fact_records_sound ledger_inv_def)

text \<open>A canonical fact is appended exactly when its guard accepts the history.\<close>

lemma append_canonical:
  assumes "ledger_inv h f" "fact_ok h g" "fact_event g = e"
  shows "op_bind (op_result (canonical_fact h (fact_items g) (Some e)))
      (\<lambda>c. append_fact_atomic h c (v c)) f =
    (case v (fact_items g) (snap (history f)) of
       Inl x \<Rightarrow> (Inl x, heal_torn_tail f)
     | Inr _ \<Rightarrow> (Inr (chained h (history f) (fact_items g)), grown h f (fact_items g)))"
proof -
  have "spells (fact_items g) g"
    by (simp only: spells_def fact_items_wf same_dict_refl simp_thms)
  then have "canonical_fact h (fact_items g) (Some e) = Inr (fact_items g)"
    using assms(2,3) by (intro canonical_complete) simp_all
  then show ?thesis
    using append_fact_atomic_log [of h f "fact_items g" "v (fact_items g)"] assms(1)
    by (simp add: ledger_inv_def snap_def)
qed

section \<open>The latest attempt of a unit\<close>

lemma spawns_sorted:
  assumes "course_ok S u"
  shows "spawns_by_attempt S u = spawns S u"
proof -
  have "sorted (map attempt_of (spawns S u))"
    using assms by (simp add: course_ok_def Let_def sorted_up_to)
  then show ?thesis
    unfolding spawns_by_attempt_def spawns_def [symmetric] by (rule sort_key_id_if_sorted)
qed

lemma last_spawn:
  assumes "course_ok S u" "spawns S u \<noteq> []"
  shows "attempt_of (last (spawns S u)) = int (length (spawns S u))"
proof -
  have "attempt_of (last (spawns S u)) = last (map attempt_of (spawns S u))"
    using assms(2) by (simp add: last_map)
  also have "\<dots> = last (up_to (length (spawns S u)))"
    using assms(1) by (simp add: course_ok_def Let_def)
  also have "\<dots> = int (length (spawns S u))"
    using assms(2) by (cases "length (spawns S u)") auto
  finally show ?thesis .
qed

definition retry_due :: "json dict list \<Rightarrow> string \<Rightarrow> bool" where
  "retry_due S u \<longleftrightarrow> spawns S u \<noteq> [] \<and> one_casualty (settlements S u (int (length (spawns S u))))
     \<and> \<not> late_seen S u (int (length (spawns S u)))"

lemma letter_for_eq:
  assumes "course_ok S (unit_id spec)"
  shows "letter_for S d mx spec = Some l \<longleftrightarrow>
     (let u = unit_id spec; k = int (length (spawns S u)) in
      retry_due S u \<and> k < mx
      \<and> l = DeadLetter d u k (k + 1) (idempotency_key spec)
              (py_str (jget (hd (settlements S u k)) ''classification'' JNull))
              (text_of (hd (settlements S u k)) ''reason''))"
  using last_spawn [OF assms] unfolding letter_for_def Let_def spawns_sorted [OF assms] retry_due_def
  by (auto simp: one_casualty_def split: list.splits)

section \<open>The dead letters of a dispatch\<close>

lemma manifest_row:
  assumes "dispatch_inv h rs" "manifests (scoped rs d) = [m]"
  obtains g where "row_of h m g" "fact_event g = event_manifest" "d_dispatch g = d"
proof -
  have "m \<in> set (manifests (scoped rs d))" using assms(2) by simp
  then have m: "m \<in> set (scoped rs d)" "is_event event_manifest m" by (auto simp: manifests_def)
  obtain g where "row_of h m g" "d_dispatch g = d"
    using scoped_row [OF _ m(1)] assms(1) by (auto simp: dispatch_inv_def)
  with m(2) row_event that show thesis by metis
qed

lemma manifest_ids:
  assumes "dispatch_inv h rs" "set R = set (scoped rs d)"
  shows "sort (remdups (map (\<lambda>r. py_str (jget r ''dispatch_id'' JNull)) (filter (is_event event_manifest) R)))
     = (if manifests (scoped rs d) = [] then [] else [d])"
proof -
  have "r \<in> set R \<Longrightarrow> py_str (jget r ''dispatch_id'' JNull) = d" for r
    using assms(2) by (auto simp: scoped_def has_def)
  then have "set (map (\<lambda>r. py_str (jget r ''dispatch_id'' JNull)) (filter (is_event event_manifest) R))
      = (if manifests (scoped rs d) = [] then {} else {d})"
    using assms(2) by (auto simp: manifests_def filter_empty_conv image_iff)
  then show ?thesis
    by (auto simp: sorted_list_of_set.sorted_key_list_of_set_unique
        sorted_list_of_set_sort_remdups [symmetric])
qed

lemma dead_letters_eq:
  assumes "dispatch_inv h rs"
  shows "dead_letters_of rs (Some d) =
    (case manifests (scoped rs d) of
       [m] \<Rightarrow>
         (case (manifest_units m, max_attempts_value (jget m ''max_attempts'' JNull)) of
            (Inr us, Inr mx) \<Rightarrow>
              Inr (select_some (map (letter_for (scoped rs d) d mx) (sort_key unit_id us)))
          | _ \<Rightarrow> Inr [])
     | _ \<Rightarrow> Inr [])"
proof -
  let ?R = "filter (\<lambda>r. is_fact r \<and> has r ''dispatch_id'' (JStr d)) rs"
  have R: "?R = scoped rs d" by (simp add: scoped_def)
  have same: "filter (\<lambda>r. has r ''dispatch_id'' (JStr d)) (scoped rs d) = scoped rs d"
    by (simp add: scoped_def conj_ac)
  have le: "length (manifests (scoped rs d)) \<le> 1" using assms by (simp add: dispatch_inv_def)
  show ?thesis
  proof (cases "manifests (scoped rs d)")
    case Nil
    then show ?thesis
      by (simp add: dead_letters_of_def R manifest_ids [OF assms])
  next
    case (Cons m ms)
    with le have m: "manifests (scoped rs d) = [m]" by simp
    obtain g where g: "row_of h m g" "fact_event g = event_manifest" by (rule manifest_row [OF assms m])
    have "require_manifest (scoped rs d) = Inr m" using m by (simp add: require_manifest_eq)
    with m row_manifest [OF g] show ?thesis
      by (simp add: dead_letters_of_def R manifest_ids [OF assms] letters_of_def same Let_def
          del: int_values_eq)
  qed
qed

lemma set_select_some: "y \<in> set (select_some xs) \<longleftrightarrow> Some y \<in> set xs"
  by (induction xs) (auto simp: select_some_def split: option.splits)


lemma unit_named_eq:
  "distinct (map unit_id us) \<Longrightarrow>
     unit_named u us = Some spec \<longleftrightarrow> spec \<in> set us \<and> unit_id spec = u"
  by (induction us) (auto simp: unit_named_def)

text \<open>The queue and the guard agree: a unit is due for attempt \<open>n\<close> exactly when a spawn of
  attempt \<open>n > 1\<close> with its key would be admitted.\<close>

lemma dead_letter_admitted:
  assumes "sound_rows h rs" "dead_letters_of rs (Some d) = Inr ls"
  shows "(\<exists>l \<in> set ls. dl_unit l = u \<and> next_attempt l = n \<and> dl_key l = key)
    \<longleftrightarrow> 1 < n \<and> check_spawn h d u n key (snap rs) = Inr ()"
proof (cases "\<exists>m. manifests (scoped rs d) = [m]")
  case False
  have inv: "dispatch_inv h rs" "list_all dict_json_wf rs" using assms(1) by (simp_all add: sound_rows_def)
  with False assms(2) have "ls = []"
    unfolding dead_letters_eq [OF inv(1)] by (auto split: list.splits)
  with False show ?thesis unfolding check_spawn_ok [OF inv] by auto
next
  case True
  then obtain m where m: "manifests (scoped rs d) = [m]" by blast
  let ?S = "scoped rs d"
  have inv: "dispatch_inv h rs" "list_all dict_json_wf rs" using assms(1) by (simp_all add: sound_rows_def)
  then have course: "course_ok ?S v" for v by (simp add: dispatch_inv_def)
  obtain g where g: "row_of h m g" "fact_event g = event_manifest" by (rule manifest_row [OF inv(1) m])
  note man = row_manifest [OF g]
  let ?us = "d_units g" and ?mx = "d_max g"
  have dist: "distinct (map unit_id ?us)" using man(2) by (simp add: units_ok_def)
  have ls: "set ls = {l. \<exists>spec \<in> set ?us. letter_for ?S d ?mx spec = Some l}"
  proof -
    have "ls = select_some (map (letter_for ?S d ?mx) (sort_key unit_id ?us))"
      using assms(2) by (simp add: dead_letters_eq [OF inv(1)] m man(1,3) del: int_values_eq)
    then show ?thesis by (auto simp: set_select_some image_iff) metis+
  qed
  show ?thesis
  proof
    assume "\<exists>l \<in> set ls. dl_unit l = u \<and> next_attempt l = n \<and> dl_key l = key"
    then obtain l spec where l: "spec \<in> set ?us" "letter_for ?S d ?mx spec = Some l"
      "dl_unit l = u" "next_attempt l = n" "dl_key l = key" unfolding ls by blast
    then have "unit_id spec = u" "retry_due ?S u" "n = int (length (spawns ?S u)) + 1" "n \<le> ?mx"
      "key = idempotency_key spec"
      using letter_for_eq [OF course, where spec = spec and d = d and mx = ?mx and l = l] by (auto simp: Let_def)
    moreover from this l(1) dist have "unit_named u ?us = Some spec" by (simp add: unit_named_eq)
    ultimately show "1 < n \<and> check_spawn h d u n key (snap rs) = Inr ()"
      unfolding check_spawn_ok [OF inv] using m man(1,3) by (auto simp: retry_due_def)
  next
    assume c: "1 < n \<and> check_spawn h d u n key (snap rs) = Inr ()"
    then obtain spec where spec: "unit_named u ?us = Some spec" "key = idempotency_key spec"
      "n \<le> ?mx" "n = int (length (spawns ?S u)) + 1" "one_casualty (settlements ?S u (n - 1))"
      "\<not> late_seen ?S u (n - 1)"
      unfolding check_spawn_ok [OF inv] m using man(1,3) by auto
    then have "spec \<in> set ?us" "unit_id spec = u" using dist by (simp_all add: unit_named_eq)
    moreover have "retry_due ?S u" "int (length (spawns ?S u)) < ?mx"
      using spec(3-6) c by (auto simp: retry_due_def)
    ultimately obtain l where "letter_for ?S d ?mx spec = Some l" "dl_unit l = u"
      "next_attempt l = int (length (spawns ?S u)) + 1" "dl_key l = idempotency_key spec"
      using letter_for_eq [OF course, where spec = spec and d = d and mx = ?mx]
      by (auto simp: Let_def)
    with \<open>spec \<in> set ?us\<close> spec(2,4) show "\<exists>l \<in> set ls. dl_unit l = u \<and> next_attempt l = n \<and> dl_key l = key"
      unfolding ls by blast
  qed
qed

end
