(* ===== verification/Dispatch_Progress.thy ===== *)
theory Dispatch_Progress
  imports Dispatch_Retry
begin

text \<open>
  A driver that prepares an attempt always gets an answer it can act on: an open attempt whose spawn
  is on the ledger, or the terminal status of the unit; asking again changes nothing.
\<close>

section \<open>Terminal or retriable\<close>

lemma settlement_row:
  assumes "dispatch_inv h rs" "settlements (scoped rs d) u n = [s]"
  shows "\<exists>g. row_of h s g \<and> fact_event g = event_settle \<and> d_unit g = u \<and> d_attempt g = n"
proof -
  have "s \<in> set (settlements (scoped rs d) u n)" using assms(2) by simp
  then have s: "s \<in> set (scoped rs d)" "of_attempt event_settle u n s" by (auto simp: settlements_def)
  then obtain g where g: "row_of h s g"
    using scoped_row [OF _ s(1), of h] assms(1) unfolding dispatch_inv_def by blast
  with s(2) row_of_attempt [OF g, of event_settle] show ?thesis by auto
qed

lemma settlements_cases:
  assumes "course_ok S u"
  obtains "settlements S u n = []" | s where "settlements S u n = [s]"
proof -
  have "length (settlements S u n) \<le> 1" using assms by (simp add: course_ok_def Let_def)
  then show thesis using that by (cases "settlements S u n") auto
qed

lemma terminal_eq:
  assumes "dispatch_inv h rs" "S = scoped rs d"
    and mx: "max_attempts_value (jget m ''max_attempts'' JNull) = Inr mx"
    and k: "k = int (length (spawns S u))"
  shows "\<exists>t. terminal_of S m d u = Inr t \<and>
    (t = None \<longleftrightarrow> spawns S u = [] \<or> settlements S u k = [] \<or> (retry_due S u \<and> k < mx))"
proof -
  have course: "course_ok S u" using assms(1,2) by (simp add: dispatch_inv_def)
  show ?thesis
  proof (cases "spawns S u = []")
    case True
    then show ?thesis by (simp add: terminal_of_def spawns_sorted [OF course])
  next
    case False
    note last = last_spawn [OF course False]
    show ?thesis
    proof (rule settlements_cases [OF course, of k])
      assume "settlements S u k = []"
      then show ?thesis
        by (simp add: terminal_of_def spawns_sorted [OF course] last k Let_def)
    next
      fix s assume s: "settlements S u k = [s]"
      then obtain g where g: "row_of h s g" "fact_event g = event_settle"
        using settlement_row [OF assms(1)] unfolding assms(2) by blast
      have "retry_due S u \<longleftrightarrow> py_str (jget s ''classification'' JNull) \<in> set casualty_classifications
          \<and> \<not> late_seen S u k"
        using row_class [OF g] False s by (simp add: retry_due_def k one_casualty_def)
      with s False mx show ?thesis
        by (auto simp: terminal_of_def spawns_sorted [OF course] last k Let_def simp del: int_values_eq)
    qed
  qed
qed

section \<open>What a unit may be asked for\<close>

definition driver_args :: "'h saga_host_scheme \<Rightarrow> string \<Rightarrow> string \<Rightarrow> string \<Rightarrow> unit_spec \<Rightarrow> bool" where
  "driver_args h subplot at d spec \<longleftrightarrow> id_ok subplot \<and> stamp_ok h at \<and> id_ok d \<and> unit_ok spec"

definition spawn_of :: "string \<Rightarrow> string \<Rightarrow> string \<Rightarrow> unit_spec \<Rightarrow> int \<Rightarrow> dispatch_fact" where
  "spawn_of subplot at d spec n = SpawnF subplot at d (unit_id spec) n (idempotency_key spec)"

lemma spawn_fact_ok:
  assumes "driver_args h subplot at d spec" "1 \<le> n"
  shows "fact_ok h (spawn_of subplot at d spec n)"
    "spawn_fact h (JStr subplot) (JStr at) (JStr d) (JStr (unit_id spec)) (JInt n)
       (JStr (idempotency_key spec)) = Inr (fact_items (spawn_of subplot at d spec n))"
  using assms
  by (auto simp: driver_args_def spawn_of_def fact_ok_def unit_ok_def id_ok_strip stamp_ok_def line_ok_def)

lemma append_spawn_inv:
  assumes "ledger_inv h f" "driver_args h subplot at d spec" "1 \<le> n"
  shows "append_spawn h (fact_items (spawn_of subplot at d spec n)) f =
    (case check_spawn h d (unit_id spec) n (idempotency_key spec) (snap (history f)) of
       Inl x \<Rightarrow> (Inl x, heal_torn_tail f)
     | Inr _ \<Rightarrow> (Inr (chained h (history f) (fact_items (spawn_of subplot at d spec n))),
                grown h f (fact_items (spawn_of subplot at d spec n))))"
  using append_canonical [OF assms(1) spawn_fact_ok(1) [OF assms(2,3)], of event_spawn
      "\<lambda>c. check_spawn h (text_of c ''dispatch_id'') (text_of c ''unit_id'') (attempt_of c)
         (text_of c ''idempotency_key'')"]
  by (simp add: append_spawn_def spawn_of_def)

text \<open>An attempt is open when its spawn is the latest of the unit and nothing settled it.\<close>

definition open_attempt :: "json dict list \<Rightarrow> string \<Rightarrow> json dict \<Rightarrow> bool" where
  "open_attempt S u r \<longleftrightarrow> spawns S u \<noteq> [] \<and> same_dict r (last (spawns S u))
     \<and> settlements S u (int (length (spawns S u))) = []"

lemma grown_reachable:
  assumes "ledger_reachable h f" "ledger_write h f f'"
  shows "ledger_reachable h f'"
  using assms unfolding ledger_reachable_def by (blast intro: ledger_steps.intros ledger_step.intros)

lemma spawn_opens:
  assumes "ledger_reachable h f" "digest_host h" "driver_args h subplot at d spec" "1 \<le> n"
    and "check_spawn h d (unit_id spec) n (idempotency_key spec) (snap (history f)) = Inr ()"
  shows "\<exists>r f'. append_spawn h (fact_items (spawn_of subplot at d spec n)) f = (Inr r, f')
    \<and> ledger_reachable h f' \<and> torn f' = None \<and> open_attempt (scoped (history f') d) (unit_id spec) r
    \<and> (\<exists>R. history f' = history f @ [R] \<and> row_of h R (spawn_of subplot at d spec n))"
proof -
  let ?g = "spawn_of subplot at d spec n"
  let ?r = "chained h (history f) (fact_items ?g)" and ?f = "grown h f (fact_items ?g)"
  let ?u = "unit_id spec" and ?S = "scoped (history f) d"
  have inv: "ledger_inv h f" using ledger_reachable_inv assms(1,2) by blast
  then have rows: "dispatch_inv h (history f)" "list_all dict_json_wf (history f)"
    by (simp_all add: ledger_inv_def sound_rows_def)
  have app: "append_spawn h (fact_items ?g) f = (Inr ?r, ?f)"
    using append_spawn_inv [OF inv assms(3,4)] assms(5) by simp
  have R: "row_of h (norm_items ?r) ?g" by (rule new_row [OF spawn_fact_ok(1) [OF assms(3,4)]])
  have S': "scoped (history ?f) d = ?S @ [norm_items ?r]"
    using scoped_snoc [OF R] by (simp add: spawn_of_def)
  have n: "n = int (length (spawns ?S ?u)) + 1"
    using assms(5) unfolding check_spawn_ok [OF rows] by blast
  have course: "course_ok ?S ?u" using rows(1) by (simp add: dispatch_inv_def)
  have "settlements ?S ?u n = []"
  proof (rule ccontr)
    assume "settlements ?S ?u n \<noteq> []"
    then have "n \<le> int (length (spawns ?S ?u))" using course by (simp add: course_ok_def Let_def)
    with n show False by simp
  qed
  then have "open_attempt (scoped (history ?f) d) ?u ?r"
    unfolding S' open_attempt_def snoc_rows [OF R] same_dict_def using n
    by (simp add: spawn_of_def add.commute norm_items_idem chained_wf del: json_wf.simps)
  moreover have "ledger_reachable h ?f"
    by (rule grown_reachable [OF assms(1) spawn_write [OF fact_items_wf app]])
  moreover have "torn ?f = None" by (simp add: grown_def)
  ultimately show ?thesis using app R history_grown by blast
qed


section \<open>The current attempt of a declared unit\<close>

definition declares :: "json dict list \<Rightarrow> string \<Rightarrow> unit_spec \<Rightarrow> bool" where
  "declares S site spec \<longleftrightarrow>
     (\<exists>m us. manifests S = [m] \<and> manifest_units m = Inr us \<and> unit_named (unit_id spec) us = Some spec
        \<and> has m ''site'' (JStr site))"

text \<open>What the driver may be told: an open attempt, or a terminal status on an unchanged ledger.\<close>

definition answered :: "string \<Rightarrow> string \<Rightarrow> ledger_file \<Rightarrow> json dict \<Rightarrow> bool" where
  "answered d u f r \<longleftrightarrow>
     (let S = scoped (history f) d in
      open_attempt S u r
      \<or> (\<exists>m. manifests S = [m] \<and> terminal_of S m d u = Inr (Some r)))"

lemma declared_manifest:
  assumes "dispatch_inv h rs" "declares (scoped rs d) site spec"
  obtains m us mx where "manifests (scoped rs d) = [m]" "manifest_units m = Inr us"
    "unit_named (unit_id spec) us = Some spec" "has m ''site'' (JStr site)"
    "max_attempts_value (jget m ''max_attempts'' JNull) = Inr mx" "1 \<le> mx" "us \<noteq> []"
proof -
  obtain m us where m: "manifests (scoped rs d) = [m]" "manifest_units m = Inr us"
    "unit_named (unit_id spec) us = Some spec" "has m ''site'' (JStr site)"
    using assms(2) by (auto simp: declares_def)
  obtain g where g: "row_of h m g" "fact_event g = event_manifest" by (rule manifest_row [OF assms(1) m(1)])
  have "us \<noteq> []" using row_manifest(1,2) [OF g] m(2) by (auto simp: units_ok_def)
  with m row_manifest(3,5) [OF g] that show thesis by blast
qed

lemma terminal_attempt_inv:
  assumes "ledger_inv h f" "visible f = history f" "id_ok d" "id_ok u"
    and "manifests (scoped (history f) d) = [m]" "manifest_units m = Inr us" "unit_named u us = Some spec"
  shows "terminal_attempt_status h d u f = (terminal_of (scoped (history f) d) m d u, f)"
proof -
  have "require_manifest (scoped (history f) d) = Inr m" using assms(5) by (simp add: require_manifest_eq)
  then show ?thesis
    using assms(2-4,6,7) dispatch_records_inv [OF assms(1)]
    by (simp add: terminal_attempt_status_def safe_identifier_ok)
qed

lemma select_none:
  "(\<And>x y. x \<in> set xs \<Longrightarrow> f x = Some y \<Longrightarrow> g y = k x) \<Longrightarrow> v \<notin> k ` set xs \<Longrightarrow>
     filter (\<lambda>y. g y = v) (select_some (map f xs)) = []"
  by (induction xs) (auto simp: select_some_def split: option.splits)

lemma select_one:
  assumes "distinct (map k xs)" "\<And>x y. x \<in> set xs \<Longrightarrow> f x = Some y \<Longrightarrow> g y = k x"
    and "y \<in> set (select_some (map f xs))"
  shows "filter (\<lambda>y'. g y' = g y) (select_some (map f xs)) = [y]"
  using assms
proof (induction xs)
  case (Cons x xs)
  have split: "select_some (map f (x # xs)) = (case f x of None \<Rightarrow> [] | Some z \<Rightarrow> [z]) @ select_some (map f xs)"
    by (simp add: select_some_def)
  show ?case
  proof (cases "f x = Some y")
    case True
    then have "g y = k x" using Cons.prems(2) by simp
    then have "g y \<notin> k ` set xs" using Cons.prems(1) by simp
    then have "filter (\<lambda>y'. g y' = g y) (select_some (map f xs)) = []"
      using Cons.prems(2) by (intro select_none) auto
    with True show ?thesis unfolding split by simp
  next
    case False
    then have y: "y \<in> set (select_some (map f xs))"
      using Cons.prems(3) unfolding split by (auto split: option.splits)
    then obtain z where "z \<in> set xs" "f z = Some y" by (auto simp: set_select_some image_iff eq_commute)
    then have "g y \<in> k ` set xs" using Cons.prems(2) by auto
    then have "g z \<noteq> g y" if "f x = Some z" for z
      using that Cons.prems(1,2) by (metis distinct.simps(2) list.set_intros(1) list.set_map list.simps(9))
    moreover have "filter (\<lambda>y'. g y' = g y) (select_some (map f xs)) = [y]"
      using Cons.prems(1,2) y by (intro Cons.IH) auto
    ultimately show ?thesis unfolding split by (auto split: option.splits)
  qed
qed (simp add: select_some_def)

lemma claim_retry_inv:
  assumes "ledger_reachable h f" "digest_host h" "visible f = history f"
    and "driver_args h subplot at d spec" "declares (scoped (history f) d) site spec"
    and n: "n = int (length (spawns (scoped (history f) d) (unit_id spec))) + 1" "1 < n"
    and c: "check_spawn h d (unit_id spec) n (idempotency_key spec) (snap (history f)) = Inr ()"
  shows "claim_retry h subplot at d (unit_id spec) f
    = append_spawn h (fact_items (spawn_of subplot at d spec n)) f"
proof -
  let ?S = "scoped (history f) d" and ?u = "unit_id spec"
  have inv: "ledger_inv h f" using ledger_reachable_inv assms(1,2) by blast
  then have rows: "dispatch_inv h (history f)" and sound: "sound_rows h (history f)"
    by (simp_all add: ledger_inv_def sound_rows_def)
  have course: "course_ok ?S v" for v using rows by (simp add: dispatch_inv_def)
  obtain m us mx where m: "manifests ?S = [m]" "manifest_units m = Inr us"
    "unit_named ?u us = Some spec" "max_attempts_value (jget m ''max_attempts'' JNull) = Inr mx"
    by (rule declared_manifest [OF rows assms(5)]) blast
  let ?letters = "select_some (map (letter_for ?S d mx) (sort_key unit_id us))"
  have ls: "dead_letters_of (history f) (Some d) = Inr ?letters"
    by (simp add: dead_letters_eq [OF rows] m del: int_values_eq)
  obtain g where g: "row_of h m g" "fact_event g = event_manifest" by (rule manifest_row [OF rows m(1)])
  have dist: "distinct (map unit_id us)"
    using row_manifest(1,2) [OF g] m(2) by (auto simp: units_ok_def)
  have "\<exists>l \<in> set ?letters. dl_unit l = ?u \<and> next_attempt l = n \<and> dl_key l = idempotency_key spec"
    using dead_letter_admitted [OF sound ls, of ?u n "idempotency_key spec"] n(2) c by blast
  then obtain l where l: "l \<in> set ?letters" "dl_unit l = ?u" "next_attempt l = n"
    "dl_key l = idempotency_key spec" by blast
  have unit: "letter_for ?S d mx s = Some l' \<Longrightarrow> dl_unit l' = unit_id s" for s l'
    using letter_for_eq [OF course, where spec = s and d = d and mx = mx and l = l']
    by (auto simp: Let_def)
  have "filter (\<lambda>l. dl_unit l = ?u) ?letters = [l]"
    using select_one [of unit_id "sort_key unit_id us" "letter_for ?S d mx" dl_unit l] unit l(1,2) dist
    by (simp add: distinct_map inj_on_def)
  then show ?thesis
    using l n(2) by (simp add: claim_retry_def dead_letters_def verified_snapshot_inv [OF inv] assms(3)
        ls snap_def spawn_fact_ok(2) [OF assms(4)] del: spawn_fact_eq)
qed


lemma check_next_spawn:
  assumes "dispatch_inv h rs" "list_all dict_json_wf rs" "declares (scoped rs d) site spec"
    and "manifests (scoped rs d) = [m]" "max_attempts_value (jget m ''max_attempts'' JNull) = Inr mx"
    and "k = int (length (spawns (scoped rs d) (unit_id spec)))" "k < mx"
    and "k = 0 \<or> retry_due (scoped rs d) (unit_id spec)"
  shows "check_spawn h d (unit_id spec) (k + 1) (idempotency_key spec) (snap rs) = Inr ()"
proof -
  obtain us where us: "manifest_units m = Inr us" "unit_named (unit_id spec) us = Some spec"
    using assms(3,4) by (auto simp: declares_def)
  have "1 < k + 1 \<longrightarrow> one_casualty (settlements (scoped rs d) (unit_id spec) (k + 1 - 1))
      \<and> \<not> late_seen (scoped rs d) (unit_id spec) (k + 1 - 1)"
    using assms(6,8) by (auto simp: retry_due_def)
  then show ?thesis
    unfolding check_spawn_ok [OF assms(1,2)]
    using assms(4-7) us by (intro exI [of _ m] exI [of _ us] exI [of _ spec] exI [of _ mx]) simp
qed

text \<open>The answer of \<open>current_attempt\<close> on a declared unit.\<close>

text \<open>The spawn of the attempt that is due opens it.\<close>

lemma due_spawn_answers:
  assumes "ledger_reachable h f" "digest_host h" "torn f = None"
    and "driver_args h subplot at d spec" "declares (scoped (history f) d) site spec"
    and "k = int (length (spawns (scoped (history f) d) (unit_id spec)))"
    and due: "check_spawn h d (unit_id spec) (k + 1) (idempotency_key spec) (snap (history f)) = Inr ()"
  shows "\<exists>r f'. append_spawn h (fact_items (spawn_of subplot at d spec (k + 1))) f = (Inr r, f')
    \<and> ledger_reachable h f' \<and> torn f' = None \<and> answered d (unit_id spec) f' r
    \<and> declares (scoped (history f') d) site spec
    \<and> open_attempt (scoped (history f') d) (unit_id spec) r"
proof -
  obtain r f' R where r: "append_spawn h (fact_items (spawn_of subplot at d spec (k + 1))) f = (Inr r, f')"
    "ledger_reachable h f'" "torn f' = None" "open_attempt (scoped (history f') d) (unit_id spec) r"
    "history f' = history f @ [R]" "row_of h R (spawn_of subplot at d spec (k + 1))"
    using spawn_opens [OF assms(1,2,4) _ due] assms(6) by auto
  have "declares (scoped (history f') d) site spec"
    using assms(5) r(5) unfolding declares_def
    by (simp add: scoped_snoc [OF r(6)] manifests_snoc [OF r(6)] spawn_of_def)
  with r show ?thesis by (auto simp: answered_def Let_def)
qed

lemma current_attempt_answers:
  assumes "ledger_reachable h f" "digest_host h" "torn f = None"
    and "driver_args h subplot at d spec" "declares (scoped (history f) d) site spec"
  shows "\<exists>r f'. current_attempt h subplot at d spec (scoped (history f) d) f = (Inr r, f')
    \<and> ledger_reachable h f' \<and> torn f' = None \<and> answered d (unit_id spec) f' r
    \<and> declares (scoped (history f') d) site spec
    \<and> (f' = f \<or> open_attempt (scoped (history f') d) (unit_id spec) r)"
proof -
  let ?S = "scoped (history f) d" and ?u = "unit_id spec"
  let ?k = "int (length (spawns ?S ?u))"
  have inv: "ledger_inv h f" using ledger_reachable_inv assms(1,2) by blast
  then have rows: "dispatch_inv h (history f)" "list_all dict_json_wf (history f)"
    by (simp_all add: ledger_inv_def sound_rows_def)
  have vis: "visible f = history f" using assms(3) by (rule visible_clean)
  have course: "course_ok ?S ?u" using rows by (simp add: dispatch_inv_def)
  obtain m us mx where m: "manifests ?S = [m]" "manifest_units m = Inr us"
    "unit_named ?u us = Some spec" "max_attempts_value (jget m ''max_attempts'' JNull) = Inr mx" "1 \<le> mx"
    by (rule declared_manifest [OF rows(1) assms(5)]) blast
  have ids: "id_ok d" "id_ok ?u" using assms(4) by (simp_all add: driver_args_def unit_ok_def)
  note next_spawn = due_spawn_answers [OF assms refl]
  note step = current_attempt_def Let_def spawns_sorted [OF course]
  show ?thesis
  proof (cases "spawns ?S ?u = []")
    case True
    have "check_spawn h d ?u (?k + 1) (idempotency_key spec) (snap (history f)) = Inr ()"
      using True m(5) by (intro check_next_spawn [OF rows assms(5) m(1,4) refl]) simp_all
    from next_spawn [OF this] True obtain r f' where
      "append_spawn h (fact_items (spawn_of subplot at d spec 1)) f = (Inr r, f')"
      "ledger_reachable h f'" "torn f' = None" "answered d ?u f' r"
      "declares (scoped (history f') d) site spec" "open_attempt (scoped (history f') d) ?u r"
      by auto
    then show ?thesis
      using True by (simp add: step spawn_attempt_def spawn_fact_ok(2) [OF assms(4)] del: spawn_fact_eq)
  next
    case False
    note last = last_spawn [OF course False]
    show ?thesis
    proof (cases "settlements ?S ?u ?k = []")
      case True
      from True False have "open_attempt ?S ?u (last (spawns ?S ?u))" by (simp add: open_attempt_def)
      with True False assms show ?thesis by (simp add: step last answered_def Let_def)
    next
      case settled: False
      obtain t where t: "terminal_of ?S m d ?u = Inr t"
        "t = None \<longleftrightarrow> spawns ?S ?u = [] \<or> settlements ?S ?u ?k = [] \<or> (retry_due ?S ?u \<and> ?k < mx)"
        using terminal_eq [OF rows(1) refl m(4) refl] by blast
      have ask: "terminal_attempt_status h d ?u f = (Inr t, f)"
        using terminal_attempt_inv [OF inv vis ids m(1-3)] t(1) by simp
      show ?thesis
      proof (cases t)
        case (Some r)
        with False settled ask assms m(1) t(1) show ?thesis
          by (auto simp: step last answered_def Let_def)
      next
        case None
        then have due: "check_spawn h d ?u (?k + 1) (idempotency_key spec) (snap (history f)) = Inr ()"
          using t(2) False settled by (intro check_next_spawn [OF rows assms(5) m(1,4) refl]) simp_all
        have "claim_retry h subplot at d ?u f
            = append_spawn h (fact_items (spawn_of subplot at d spec (?k + 1))) f"
          using False by (intro claim_retry_inv [OF assms(1,2) vis assms(4,5) refl _ due]) simp
        moreover obtain r f' where
          "append_spawn h (fact_items (spawn_of subplot at d spec (?k + 1))) f = (Inr r, f')"
          "ledger_reachable h f'" "torn f' = None" "answered d ?u f' r"
          "declares (scoped (history f') d) site spec" "open_attempt (scoped (history f') d) ?u r"
          using next_spawn [OF due] by blast
        ultimately show ?thesis using False settled ask None by (simp add: step last)
      qed
    qed
  qed
qed


section \<open>Binding the manifest\<close>

definition preparable :: "json dict list \<Rightarrow> string \<Rightarrow> unit_spec \<Rightarrow> int \<Rightarrow> int \<Rightarrow> bool" where
  "preparable S site spec threshold maximum \<longleftrightarrow>
     declares S site spec
     \<or> (manifests S = [] \<and> site \<in> set sites \<and> 0 \<le> threshold \<and> threshold \<le> 100
         \<and> 1 \<le> maximum \<and> maximum \<le> max_attempts_limit)"

lemma strip_site: "site \<in> set sites \<Longrightarrow> strip site = site"
  by (auto simp: sites_def strip_def is_space_def)

lemma first_manifest:
  assumes "ledger_reachable h f" "digest_host h" "driver_args h subplot at d spec"
    and "manifests (scoped (history f) d) = []" "site \<in> set sites" "0 \<le> th" "th \<le> 100" "1 \<le> mx"
      "mx \<le> max_attempts_limit"
  shows "\<exists>c r f' m. manifest_fact h (JStr subplot) (JStr at) (JStr d) site [Spec spec] (JInt th) (JInt mx)
      = Inr c
    \<and> ensure_manifest h c f = (Inr r, f') \<and> ledger_reachable h f' \<and> torn f' = None
    \<and> manifests (scoped (history f') d) = [m] \<and> declares (scoped (history f') d) site spec"
proof -
  define g where "g = ManifestF subplot at d site [spec] th mx"
  let ?c = "fact_items g"
  have inv: "ledger_inv h f" using ledger_reachable_inv assms(1,2) by blast
  then have sound: "sound_rows h (history f)" by (simp add: ledger_inv_def)
  have us: "units_ok [spec]" using assms(3) by (simp add: units_ok_def driver_args_def)
  have g: "fact_ok h g" "fact_event g = event_manifest" "d_dispatch g = d"
    using assms(3,5-) us by (simp_all add: g_def fact_ok_def driver_args_def)
  have c: "manifest_fact h (JStr subplot) (JStr at) (JStr d) site [Spec spec] (JInt th) (JInt mx) = Inr ?c"
    using g(1) units_of_specs [OF us] assms(3,5)
    by (simp add: g_def driver_args_def id_ok_strip stamp_ok_def line_ok_def strip_site)
  have canon: "canonical_fact h ?c (Some event_manifest) = Inr ?c"
    by (rule canonical_complete) (use g in \<open>simp_all only: spells_def fact_items_wf same_dict_refl simp_thms\<close>)
  have "check_new_manifest h d (snap (history f)) = Inr ()"
    using assms(4) by (simp add: check_new_manifest_def fact_records_sound [OF sound] find_manifest_eq)
  then have app: "append_manifest h ?c f = (Inr (chained h (history f) ?c), grown h f ?c)"
    using append_canonical [OF inv g(1,2), of "\<lambda>c. check_new_manifest h (text_of c ''dispatch_id'')"] g(3)
    by (simp add: append_manifest_def)
  then have ens: "ensure_manifest h ?c f = (Inr (chained h (history f) ?c), grown h f ?c)"
    by (simp add: ensure_manifest_def canon)
  let ?R = "norm_items (chained h (history f) ?c)"
  have R: "row_of h ?R g" by (rule new_row [OF g(1)])
  have S': "manifests (scoped (history (grown h f ?c)) d) = [?R]"
    using assms(4) g by (simp add: scoped_snoc [OF R] manifests_snoc [OF R])
  moreover have "declares (scoped (history (grown h f ?c)) d) site spec"
    using S' row_manifest(1,7) [OF R g(2)]
    by (simp add: declares_def g_def unit_named_def has_def)
  moreover have "ledger_reachable h (grown h f ?c)"
    by (rule grown_reachable [OF assms(1) manifest_write [OF fact_items_wf app]])
  moreover have "torn (grown h f ?c) = None" by (simp add: grown_def)
  ultimately show ?thesis using c ens by blast
qed

lemma bind_manifest_answers:
  assumes "ledger_reachable h f" "digest_host h" "torn f = None" "driver_args h subplot at d spec"
    and "preparable (scoped (history f) d) site spec th mx"
  shows "\<exists>m f'. bind_manifest h subplot at d site spec th mx f = (Inr (scoped (history f') d, m), f')
    \<and> ledger_reachable h f' \<and> torn f' = None \<and> manifests (scoped (history f') d) = [m]
    \<and> declares (scoped (history f') d) site spec
    \<and> (declares (scoped (history f) d) site spec \<longrightarrow> f' = f)"
proof -
  have recs: "dispatch_records h d f1 = (Inr (scoped (history f1) d), f1)"
    if "ledger_reachable h f1" "torn f1 = None" for f1
    using dispatch_records_inv [OF ledger_reachable_inv [OF that(1) assms(2)]] visible_clean [OF that(2)] by simp
  show ?thesis
  proof (cases "declares (scoped (history f) d) site spec")
    case True
    then obtain m where m: "manifests (scoped (history f) d) = [m]" by (auto simp: declares_def)
    then have "find_manifest (scoped (history f) d) = Inr (Some m)" by (simp add: find_manifest_eq)
    with True m assms(1,3) recs [OF assms(1,3)] show ?thesis by (simp add: bind_manifest_def)
  next
    case False
    then have none: "manifests (scoped (history f) d) = []" "site \<in> set sites" "0 \<le> th" "th \<le> 100"
        "1 \<le> mx" "mx \<le> max_attempts_limit"
      using assms(5) by (simp_all add: preparable_def)
    obtain c r f' m where c:
      "manifest_fact h (JStr subplot) (JStr at) (JStr d) site [Spec spec] (JInt th) (JInt mx) = Inr c"
      "ensure_manifest h c f = (Inr r, f')" "ledger_reachable h f'" "torn f' = None"
      "manifests (scoped (history f') d) = [m]" "declares (scoped (history f') d) site spec"
      using first_manifest [OF assms(1,2,4) none] by blast
    have "find_manifest (scoped (history f) d) = Inr None" "require_manifest (scoped (history f') d) = Inr m"
      using none(1) c(5) by (simp_all add: find_manifest_eq require_manifest_eq)
    with c False recs [OF assms(1,3)] recs [OF c(3,4)] show ?thesis
      by (simp add: bind_manifest_def del: manifest_fact_eq)
  qed
qed

section \<open>Preparing an attempt\<close>

lemma unit_of_ok: "unit_ok spec \<Longrightarrow> unit_of (Spec spec) = Inr spec"
  by (simp add: unit_of_def check_unit_ok)

lemma prepare_answers:
  assumes "ledger_reachable h f" "digest_host h" "torn f = None" "driver_args h subplot at d spec"
    and "preparable (scoped (history f) d) site spec th mx"
  shows "\<exists>r f'. prepare_attempt h subplot at d site (Spec spec) th mx f = (Inr r, f')
    \<and> ledger_reachable h f' \<and> torn f' = None \<and> answered d (unit_id spec) f' r
    \<and> declares (scoped (history f') d) site spec
    \<and> (declares (scoped (history f) d) site spec \<longrightarrow>
        f' = f \<or> open_attempt (scoped (history f') d) (unit_id spec) r)"
proof -
  have unit: "unit_of (Spec spec) = Inr spec" using assms(4) by (simp add: driver_args_def unit_of_ok)
  obtain m f1 where f1: "bind_manifest h subplot at d site spec th mx f = (Inr (scoped (history f1) d, m), f1)"
    "ledger_reachable h f1" "torn f1 = None" "manifests (scoped (history f1) d) = [m]"
    "declares (scoped (history f1) d) site spec"
    "declares (scoped (history f) d) site spec \<longrightarrow> f1 = f"
    using bind_manifest_answers [OF assms] by blast
  obtain us where us: "manifest_units m = Inr us" "unit_named (unit_id spec) us = Some spec"
    "has m ''site'' (JStr site)"
    using f1(4,5) by (auto simp: declares_def)
  obtain r f' where r: "current_attempt h subplot at d spec (scoped (history f1) d) f1 = (Inr r, f')"
    "ledger_reachable h f'" "torn f' = None" "answered d (unit_id spec) f' r"
    "declares (scoped (history f') d) site spec"
    "f' = f1 \<or> open_attempt (scoped (history f') d) (unit_id spec) r"
    using current_attempt_answers [OF f1(2) assms(2) f1(3) assms(4) f1(5)] by blast
  have "prepare_attempt h subplot at d site (Spec spec) th mx f = (Inr r, f')"
    using unit f1(1) us r(1) by (simp add: prepare_attempt_def)
  with r f1(6) show ?thesis by auto
qed

lemma prepare_repeats:
  assumes "ledger_reachable h f" "digest_host h" "torn f = None" "driver_args h subplot at d spec"
    and "declares (scoped (history f) d) site spec" "answered d (unit_id spec) f r"
  shows "\<exists>r'. prepare_attempt h subplot at d site (Spec spec) th mx f = (Inr r', f) \<and> same_dict r r'"
proof -
  let ?S = "scoped (history f) d" and ?u = "unit_id spec"
  let ?k = "int (length (spawns ?S ?u))"
  have inv: "ledger_inv h f" using ledger_reachable_inv assms(1,2) by blast
  then have rows: "dispatch_inv h (history f)" by (simp add: ledger_inv_def sound_rows_def)
  have vis: "visible f = history f" using assms(3) by (rule visible_clean)
  have course: "course_ok ?S ?u" using rows by (simp add: dispatch_inv_def)
  obtain m us mxa where m: "manifests ?S = [m]" "manifest_units m = Inr us"
    "unit_named ?u us = Some spec" "has m ''site'' (JStr site)"
    "max_attempts_value (jget m ''max_attempts'' JNull) = Inr mxa"
    by (rule declared_manifest [OF rows assms(5)]) blast
  have ids: "id_ok d" "id_ok ?u" and unit: "unit_of (Spec spec) = Inr spec"
    using assms(4) by (simp_all add: driver_args_def unit_ok_def unit_of_ok)
  have "find_manifest ?S = Inr (Some m)" using m(1) by (simp add: find_manifest_eq)
  then have bound: "prepare_attempt h subplot at d site (Spec spec) th mx f
      = current_attempt h subplot at d spec ?S f"
    using dispatch_records_inv [OF inv] vis m(2-4) unit
    by (simp add: prepare_attempt_def bind_manifest_def)
  obtain t where t: "terminal_of ?S m d ?u = Inr t"
    "t = None \<longleftrightarrow> spawns ?S ?u = [] \<or> settlements ?S ?u ?k = [] \<or> (retry_due ?S ?u \<and> ?k < mxa)"
    using terminal_eq [OF rows refl m(5) refl] by blast
  have ask: "terminal_attempt_status h d ?u f = (Inr t, f)"
    using terminal_attempt_inv [OF inv vis ids m(1-3)] t(1) by simp
  note step = current_attempt_def Let_def spawns_sorted [OF course]
  have "open_attempt ?S ?u r \<or> t = Some r"
    using assms(6) m(1) t(1) by (auto simp: answered_def Let_def)
  then show ?thesis
  proof
    assume "open_attempt ?S ?u r"
    then show ?thesis
      using last_spawn [OF course] by (auto simp: bound step open_attempt_def)
  next
    assume r: "t = Some r"
    then have "spawns ?S ?u \<noteq> []" "settlements ?S ?u ?k \<noteq> []" using t(2) by auto
    with r ask last_spawn [OF course] show ?thesis by (simp add: bound step)
  qed
qed

end
