(* ===== verification/Dispatch_Gate.thy ===== *)
theory Dispatch_Gate
  imports Dispatch_Progress
begin

text \<open>
  The gate of a dispatch: a casualty report that does not ask for a halt means that every declared
  unit came to an end, and at a threshold of zero that every unit delivered.
\<close>

section \<open>Reports of a sound ledger\<close>

lemma settlement_at_some:
  assumes "course_ok S u" "settlement_at S u n = Some s"
  shows "settlements S u n = [s]"
  using assms(2) by (rule_tac settlements_cases [OF assms(1), of n]) (auto simp: settlement_at_def)

lemma latest_attempt_max:
  assumes "course_ok S u" "spawns S u \<noteq> []"
  shows "Max (set (map attempt_of (spawns S u))) = int (length (spawns S u))"
proof (rule Max_eqI)
  have m: "map attempt_of (spawns S u) = up_to (length (spawns S u))"
    using assms(1) by (simp add: course_ok_def Let_def)
  show "int (length (spawns S u)) \<in> set (map attempt_of (spawns S u))"
    unfolding m set_up_to using assms(2) by (cases "spawns S u") auto
  show "y \<le> int (length (spawns S u))" if "y \<in> set (map attempt_of (spawns S u))" for y
    using that unfolding m set_up_to by simp
qed simp

lemma latest_state_eq:
  assumes "course_ok S u" "spawns S u \<noteq> []" "k = int (length (spawns S u))"
  shows "latest_state S u =
    (case settlement_at S u k of
       None \<Rightarrow> (k, ''open'')
     | Some s \<Rightarrow> if late_seen S u k then (k, delivered)
                else (k, py_str (jget s ''classification'' JNull)))"
  using latest_attempt_max [OF assms(1,2)] assms(2,3)
  by (auto simp: latest_state_def Let_def spawns_def [symmetric] split: option.splits)

text \<open>The latest attempt of a unit is one of the attempts the report goes through, and the unit is
  in its cohort.\<close>

lemma in_cohort:
  assumes "rows_ok h rs" "S = scoped rs d" "course_ok S u" "spawns S u \<noteq> []" "u \<in> unit_id ` set us"
    and k: "k = int (length (spawns S u))"
  shows "k \<in> set (report_attempts S)" "u \<in> set (cohort_units us S k)"
proof -
  have "last (spawns S u) \<in> set (spawns S u)" using assms(4) by simp
  then obtain r where r: "r \<in> set (spawns S u)" "attempt_of r = k"
    using last_spawn [OF assms(3,4)] k by blast
  then obtain g where g: "row_of h r g" "fact_event g = event_spawn" "d_unit g = u"
    using spawn_row [OF assms(1), of r d u] assms(2) by blast
  then have e: "fact_event g \<noteq> event_manifest" by simp
  have "r \<in> set (spawn_rows S)"
    using r(1) by (auto simp: spawns_def spawn_rows_def of_unit_def)
  moreover from this r(2) have "u \<in> set (spawned_in S k)"
    using row_unit [OF g(1) e] g(3) by (auto simp: spawned_in_def has_def image_iff intro!: bexI [of _ r])
  ultimately show "k \<in> set (report_attempts S)" "u \<in> set (cohort_units us S k)"
    using r(2) assms(5) by (auto simp: report_attempts_def cohort_units_def)
qed

lemma ce_report_entry [simp]: "ce_unit (report_entry S n u) = u" "ce_attempt (report_entry S n u) = n"
  by (simp_all add: report_entry_def Let_def split: option.splits)

lemma entries_units:
  assumes "n \<in> set (report_attempts S)"
  shows "set (map ce_unit (filter (\<lambda>e. ce_attempt e = n) (report_entries us S))) = set (cohort_units us S n)"
  using assms by (force simp: report_entries_def)

section \<open>No halt\<close>

lemma breach_free:
  assumes "threshold_breach th states S entries ns = Inr False" "n \<in> set ns"
    and units: "units = remdups (map ce_unit (filter (\<lambda>e. ce_attempt e = n) entries))"
  shows "\<exists>open. map_res (unresolved states S n) units = Inr open
     \<and> \<not> exceeds th (length (filter (\<lambda>b. b) open)) (length units)"
  using assms by (induction ns) (auto simp: Let_def split: if_splits)

lemma zero_threshold_resolved:
  assumes "threshold_breach 0 states S entries ns = Inr False" "n \<in> set ns"
    and "u \<in> set (map ce_unit (filter (\<lambda>e. ce_attempt e = n) entries))"
  shows "unresolved states S n u = Inr False"
proof -
  let ?units = "remdups (map ce_unit (filter (\<lambda>e. ce_attempt e = n) entries))"
  obtain op where op: "map_res (unresolved states S n) ?units = Inr op"
    "\<not> exceeds 0 (length (filter (\<lambda>b. b) op)) (length ?units)"
    using breach_free [OF assms(1,2) refl] by blast
  then have "filter (\<lambda>b. b) op = []" by (auto simp: exceeds_def)
  then have "\<forall>b \<in> set op. \<not> b" by (auto simp: filter_empty_conv)
  moreover obtain b where b: "b \<in> set op" "unresolved states S n u = Inr b"
    using map_res_Inr_set2 [OF op(1)] assms(3) by auto
  ultimately have "b = False" by blast
  with b show ?thesis by simp
qed

text \<open>A unit whose last attempt ended as a casualty breaches the threshold zero.\<close>

lemma zero_threshold_delivered:
  assumes inv: "rows_ok h rs" "course_ok S u" and S: "S = scoped rs d" and u: "u \<in> unit_id ` set us"
    and breach: "threshold_breach 0 (latest_states us S) S (report_entries us S) (report_attempts S) = Inr False"
    and final: "snd (latest_state S u) \<in> set ledger_classifications"
    and latest_of: "map_of (latest_states us S) u = Some (latest_state S u)"
  shows "snd (latest_state S u) = delivered"
proof (rule ccontr)
  assume nd: "snd (latest_state S u) \<noteq> delivered"
  have sp: "spawns S u \<noteq> []"
  proof
    assume "spawns S u = []"
    then have "snd (latest_state S u) = ''unspawned''" by (simp add: latest_state_def spawns_def)
    with final show False
      by (simp add: ledger_classifications_def casualty_classifications_def delivered_def
          rate_killed_def idle_def silent_noop_def)
  qed
  define k where "k = int (length (spawns S u))"
  note latest = latest_state_eq [OF inv(2) sp k_def]
  obtain s where s: "settlement_at S u k = Some s" "\<not> late_seen S u k"
    "snd (latest_state S u) = py_str (jget s ''classification'' JNull)"
  proof (cases "settlement_at S u k")
    case None
    then have "snd (latest_state S u) = ''open''" by (simp add: latest)
    with final show thesis
      by (simp add: ledger_classifications_def casualty_classifications_def delivered_def
          rate_killed_def idle_def silent_noop_def)
  next
    case (Some s)
    with nd that show thesis by (auto simp: latest split: if_splits)
  qed
  have one: "settlements S u k = [s]" by (rule settlement_at_some [OF inv(2) s(1)])
  obtain g where g: "row_of h s g" "fact_event g = event_settle"
    using scoped_row [OF inv(1), of s d] row_of_attempt [of h s _ event_settle u k] one S
    by (auto simp: settlements_def filter_eq_Cons_iff)
  have "is_casualty s"
    using row_class [OF g] s(3) nd by (auto simp: ledger_classifications_def)
  then have "unresolved (latest_states us S) S k u = Inr True"
    using s(1) latest_of nd by (cases "latest_state S u") (simp add: unresolved_def)
  moreover have "k \<in> set (report_attempts S)" "u \<in> set (cohort_units us S k)"
    using in_cohort [OF inv(1) S inv(2) sp u k_def] by simp_all
  ultimately show False
    using zero_threshold_resolved [OF breach, of k u] entries_units [of k S us]
    by simp
qed

lemma report_unhalted:
  assumes "dispatch_inv h rs" "S = scoped rs d" "report_of d S = Inr r" "\<not> cr_halt r"
  shows "\<exists>m us th. manifests S = [m] \<and> manifest_units m = Inr us
    \<and> threshold_value (jget m ''casualty_threshold_percent'' JNull) = Inr th
    \<and> (\<forall>u \<in> unit_id ` set us. snd (latest_state S u) \<in> set ledger_classifications
         \<and> (th = 0 \<longrightarrow> snd (latest_state S u) = delivered))"
proof -
  have inv: "rows_ok h rs" "course_ok S u" for u using assms(1,2) by (simp_all add: dispatch_inv_def)
  obtain m us th where m: "manifests S = [m]" "manifest_units m = Inr us"
    "threshold_value (jget m ''casualty_threshold_percent'' JNull) = Inr th"
    and breach: "threshold_breach th (latest_states us S) S (report_entries us S) (report_attempts S) = Inr False"
    and current: "list_all (\<lambda>(u, n, st). st \<in> set ledger_classifications) (latest_states us S)"
    using assms(3,4) by (auto simp: report_of_def Let_def require_manifest_eq simp del: int_values_eq)
  have states: "snd (latest_state S u) \<in> set ledger_classifications"
    "map_of (latest_states us S) u = Some (latest_state S u)" if "u \<in> unit_id ` set us" for u
  proof -
    have mem: "u \<in> set (sort (map unit_id us))" using that by simp
    then have "(u, latest_state S u) \<in> set (latest_states us S)" by (auto simp: latest_states_def)
    with current show "snd (latest_state S u) \<in> set ledger_classifications"
      by (auto simp: list_all_iff split_beta)
    show "map_of (latest_states us S) u = Some (latest_state S u)"
      using mem unfolding latest_states_def by (simp add: map_of_map_restrict restrict_map_def)
  qed
  have "snd (latest_state S u) = delivered" if u: "u \<in> unit_id ` set us" "th = 0" for u
    using zero_threshold_delivered [OF inv assms(2) u(1) breach [unfolded u(2)] states [OF u(1)]] .
  with m states(1) show ?thesis by blast
qed

end

