(* ===== verification/Dispatch_Refinement.thy ===== *)
theory Dispatch_Refinement
  imports Dispatch_Retry
begin

text \<open>
  The life of a unit as a small state machine, and the refinement: whatever a writer appends, the
  attempts the ledger records for a unit either stay as they are or take one step of the machine.
\<close>

section \<open>The machine\<close>

text \<open>An attempt is its classification, once settled, and whether a delivery came late.\<close>

type_synonym attempt = "string option \<times> bool"

definition failed :: "attempt \<Rightarrow> bool" where
  "failed a \<longleftrightarrow> (\<exists>c \<in> set casualty_classifications. a = (Some c, False))"

inductive unit_step :: "int \<Rightarrow> attempt list \<Rightarrow> attempt list \<Rightarrow> bool"
  for limit :: int where
  begin_first: "1 \<le> limit \<Longrightarrow> unit_step limit [] [(None, False)]"
| begin_retry: "failed a \<Longrightarrow> int (length as) + 1 < limit \<Longrightarrow>
     unit_step limit (as @ [a]) (as @ [a, (None, False)])"
| settle: "c \<in> set ledger_classifications \<Longrightarrow>
     unit_step limit (as @ [(None, False)]) (as @ [(Some c, False)])"
| deliver_late: "n < length as \<Longrightarrow> failed (as ! n) \<Longrightarrow>
     unit_step limit as (as[n := (fst (as ! n), True)])"

inductive_cases begin_from_nothingE: "unit_step limit [] as"

section \<open>The abstraction of a ledger\<close>

definition attempt_at :: "json dict list \<Rightarrow> string \<Rightarrow> int \<Rightarrow> attempt" where
  "attempt_at S u n =
     ((case settlements S u n of [] \<Rightarrow> None | s # _ \<Rightarrow> Some (text_of s ''classification'')),
      late_seen S u n)"

definition attempts :: "json dict list \<Rightarrow> string \<Rightarrow> attempt list" where
  "attempts S u = map (attempt_at S u) (up_to (length (spawns S u)))"

lemma length_attempts [simp]: "length (attempts S u) = length (spawns S u)"
  by (simp add: attempts_def)

lemma nth_up_to: "i < k \<Longrightarrow> up_to k ! i = int (Suc i)"
  by (induction k) (auto simp: nth_append less_Suc_eq)

lemma nth_attempts: "i < length (spawns S u) \<Longrightarrow> attempts S u ! i = attempt_at S u (int (Suc i))"
  by (simp add: attempts_def nth_up_to)

lemma one_casualty_class:
  assumes "dispatch_inv h rs" "S = scoped rs d" "one_casualty (settlements S u n)"
  shows "\<exists>c \<in> set casualty_classifications. attempt_at S u n = (Some c, late_seen S u n)"
proof -
  obtain s where s: "settlements S u n = [s]" "is_casualty s"
    using assms(3) by (auto simp: one_casualty_def split: list.splits)
  then obtain g where g: "row_of h s g" "fact_event g = event_settle"
    using scoped_row [of h rs s d] row_of_attempt [of h s _ event_settle u n] assms(1,2)
    by (auto simp: dispatch_inv_def settlements_def filter_eq_Cons_iff)
  then show ?thesis
    using row_class [OF g] s by (simp add: attempt_at_def text_of_def)
qed

lemma attempts_same:
  assumes "spawns S' u = spawns S u" "\<And>n. attempt_at S' u n = attempt_at S u n"
  shows "attempts S' u = attempts S u"
  unfolding attempts_def using assms by simp

section \<open>What a write adds\<close>

definition admits :: "'h saga_host_scheme \<Rightarrow> dispatch_fact \<Rightarrow> json dict list \<Rightarrow> bool" where
  "admits h g rs \<longleftrightarrow>
     (case g of
        ManifestF _ _ d _ _ _ _ \<Rightarrow> check_new_manifest h d (snap rs) = Inr ()
      | SpawnF _ _ d u n k \<Rightarrow> check_spawn h d u n k (snap rs) = Inr ()
      | SettleF _ _ d u n _ _ _ \<Rightarrow> check_settlement h d u n (snap rs) = Inr ()
      | LateF _ _ d u n _ _ \<Rightarrow> check_late_delivery h d u n (snap rs) = Inr ())"

definition adds :: "'h saga_host_scheme \<Rightarrow> json dict list \<Rightarrow> json dict list \<Rightarrow> bool" where
  "adds h rs rs' \<longleftrightarrow> rs' = rs
     \<or> (\<exists>R. rs' = rs @ [R] \<and> \<not> is_fact R)
     \<or> (\<exists>R g. rs' = rs @ [R] \<and> row_of h R g \<and> admits h g rs)"

lemma canonical_adds:
  assumes "ledger_inv h f" "dict_json_wf r"
    and "op_bind (op_result (canonical_fact h r (Some e))) (\<lambda>c. append_fact_atomic h c (v c)) f = (res, f')"
    and "\<And>g. fact_event g = e \<Longrightarrow> v (fact_items g) (snap (history f)) = Inr () \<Longrightarrow> admits h g (history f)"
  shows "adds h (history f) (history f')"
proof (cases "canonical_fact h r (Some e)")
  case (Inl x)
  with assms(3) show ?thesis by (simp add: adds_def)
next
  case (Inr c)
  then obtain g where g: "fact_ok h g" "c = fact_items g" "fact_event g = e"
    using canonical_event assms(2) by blast
  have f': "f' = snd (append_fact_atomic h c (v c) f)" using assms(3) Inr by simp
  have log: "log_inv h f" using assms(1) by (simp add: ledger_inv_def)
  show ?thesis
  proof (cases "v c (snap (history f))")
    case (Inl x)
    then show ?thesis
      using append_fact_atomic_log [OF log, of c "v c"] by (simp add: f' adds_def snap_def)
  next
    case (Inr x)
    then have "history f' = history f @ [norm_items (chained h (history f) c)]"
      using append_fact_atomic_log [OF log, of c "v c"] by (simp add: f' snap_def)
    with Inr assms(4) g new_row [OF g(1), of "history f"] show ?thesis unfolding adds_def by auto
  qed
qed

lemma write_adds:
  assumes "ledger_inv h f" "ledger_write h f f'"
  shows "adds h (history f) (history f')"
  using assms(2)
proof cases
  case (manifest_write r res)
  show ?thesis
    by (rule canonical_adds [OF assms(1) manifest_write(1) manifest_write(2)[unfolded append_manifest_def]])
      (auto simp: admits_def split: dispatch_fact.splits)
next
  case (spawn_write r res)
  show ?thesis
    by (rule canonical_adds [OF assms(1) spawn_write(1) spawn_write(2)[unfolded append_spawn_def]])
      (auto simp: admits_def split: dispatch_fact.splits)
next
  case (settlement_write r res)
  show ?thesis
    by (rule canonical_adds [OF assms(1) settlement_write(1)
          settlement_write(2)[unfolded append_settlement_def]])
      (auto simp: admits_def split: dispatch_fact.splits)
next
  case (late_write r res)
  show ?thesis
    by (rule canonical_adds [OF assms(1) late_write(1) late_write(2)[unfolded append_late_delivery_def]])
      (auto simp: admits_def split: dispatch_fact.splits)
next
  case (other_write r res)
  have log: "log_inv h f" using assms(1) by (simp add: ledger_inv_def)
  have "history f' = history f @ [norm_items (chained h (history f) r)]"
    using other_write(3) append_fact_atomic_log [OF log, of r "\<lambda>_. Inr ()"]
    by (auto simp: append_fact_def)
  moreover have "\<not> is_fact (norm_items (chained h (history f) r))"
  proof -
    have "wf_dict (chained h (history f) r)" using chained_wf [OF other_write(1), of h "history f"] by simp
    with other_write(2) show ?thesis by (auto simp: is_fact_def has_def dget_chained)
  qed
  ultimately show ?thesis by (auto simp: adds_def)
qed

section \<open>Each append is a step\<close>

lemma course_no_late:
  "course_ok S u \<Longrightarrow> settlements S u n = [] \<Longrightarrow> \<not> late_seen S u n"
  by (auto simp: course_ok_def Let_def one_casualty_def)

lemma course_beyond:
  "course_ok S u \<Longrightarrow> int (length (spawns S u)) < n \<Longrightarrow> settlements S u n = []"
  unfolding course_ok_def Let_def by fastforce

lemma attempt_at_snoc:
  assumes "row_of h R g"
  shows "attempt_at (S @ [R]) u n =
    ((case settlements S u n @ (if fact_event g = event_settle \<and> d_unit g = u \<and> d_attempt g = n then [R] else [])
      of [] \<Rightarrow> None | s # _ \<Rightarrow> Some (text_of s ''classification'')),
     late_seen S u n \<or> (fact_event g = event_late_delivery \<and> d_unit g = u \<and> d_attempt g = n))"
  unfolding attempt_at_def late_seen_filter settlements_snoc [OF assms] lates_snoc [OF assms] by auto

lemma spawn_step:
  assumes inv: "dispatch_inv h rs" "S = scoped rs d" and R: "row_of h R g" "fact_event g = event_spawn"
    and n: "d_attempt g = int (length (spawns S (d_unit g))) + 1" "d_attempt g \<le> mx"
    and prev: "1 < d_attempt g \<longrightarrow> one_casualty (settlements S (d_unit g) (d_attempt g - 1))
        \<and> \<not> late_seen S (d_unit g) (d_attempt g - 1)"
  shows "unit_step mx (attempts S (d_unit g)) (attempts (S @ [R]) (d_unit g))"
proof -
  let ?u = "d_unit g" let ?k = "length (spawns S ?u)"
  have course: "course_ok S ?u" using inv by (simp add: dispatch_inv_def)
  have same: "attempt_at (S @ [R]) ?u m = attempt_at S ?u m" for m
    unfolding attempt_at_snoc [OF R(1)] using R(2) by (simp add: attempt_at_def)
  have none: "settlements S ?u (int (Suc ?k)) = []" using course by (intro course_beyond) simp_all
  have "attempts (S @ [R]) ?u = attempts S ?u @ [attempt_at S ?u (int (Suc ?k))]"
    using R(2) by (simp add: attempts_def spawns_snoc [OF R(1)] same)
  also have "attempt_at S ?u (int (Suc ?k)) = (None, False)"
    using none course_no_late [OF course none] by (simp add: attempt_at_def)
  finally have new: "attempts (S @ [R]) ?u = attempts S ?u @ [(None, False)]" .
  show ?thesis
  proof (cases ?k)
    case 0
    then have "attempts S ?u = []" by (simp add: attempts_def)
    with new n 0 show ?thesis by (simp add: begin_first)
  next
    case (Suc j)
    then have "1 < d_attempt g" "d_attempt g - 1 = int ?k" using n by simp_all
    with prev have cas: "one_casualty (settlements S ?u (int ?k))" "\<not> late_seen S ?u (int ?k)" by simp_all
    have fail: "failed (attempt_at S ?u (int ?k))"
      using one_casualty_class [OF inv cas(1)] cas(2) by (auto simp: failed_def)
    have "attempts S ?u = map (attempt_at S ?u) (up_to j) @ [attempt_at S ?u (int ?k)]"
      by (simp add: attempts_def Suc)
    moreover from this new have "attempts (S @ [R]) ?u
        = map (attempt_at S ?u) (up_to j) @ [attempt_at S ?u (int ?k), (None, False)]" by simp
    moreover have "int (length (map (attempt_at S ?u) (up_to j))) + 1 < mx" using n Suc by simp
    ultimately show ?thesis using begin_retry [OF fail] by metis
  qed
qed

lemma settle_step:
  assumes inv: "dispatch_inv h rs" "S = scoped rs d" and R: "row_of h R g" "fact_event g = event_settle"
    and n: "1 \<le> d_attempt g" "d_attempt g \<le> int (length (spawns S (d_unit g)))"
    and none: "settlements S (d_unit g) (d_attempt g) = []"
  shows "unit_step mx (attempts S (d_unit g)) (attempts (S @ [R]) (d_unit g))"
proof -
  let ?u = "d_unit g" let ?k = "length (spawns S ?u)"
  have course: "course_ok S ?u" using inv by (simp add: dispatch_inv_def)
  have last: "d_attempt g = int ?k"
  proof (rule ccontr)
    assume "d_attempt g \<noteq> int ?k"
    with n have "one_casualty (settlements S ?u (d_attempt g))"
      using course by (simp add: course_ok_def Let_def)
    with none show False by (simp add: one_casualty_def)
  qed
  then obtain j where j: "?k = Suc j" using n by (cases ?k) auto
  let ?as = "map (attempt_at S ?u) (up_to j)"
  have other: "attempt_at (S @ [R]) ?u m = attempt_at S ?u m" if "m \<noteq> int ?k" for m
    unfolding attempt_at_snoc [OF R(1)] using R(2) that last by (simp add: attempt_at_def)
  have "attempt_at S ?u (int ?k) = (None, False)"
    using none last course_no_late [OF course none] by (simp add: attempt_at_def)
  then have old: "attempts S ?u = ?as @ [(None, False)]" by (simp add: attempts_def j)
  have "attempt_at (S @ [R]) ?u (int ?k) = (Some (d_class g), False)"
    using none last course_no_late [OF course none] row_class(1) [OF R] R(2)
    unfolding attempt_at_snoc [OF R(1)] by (simp add: text_of_def)
  moreover have "map (attempt_at (S @ [R]) ?u) (up_to j) = ?as"
    using other j by (auto simp: set_up_to)
  ultimately have "attempts (S @ [R]) ?u = ?as @ [(Some (d_class g), False)]"
    using R(2) by (simp add: attempts_def spawns_snoc [OF R(1)] j)
  with old row_class(3) [OF R] settle show ?thesis by metis
qed

lemma late_step:
  assumes inv: "dispatch_inv h rs" "S = scoped rs d" and R: "row_of h R g" "fact_event g = event_late_delivery"
    and "one_casualty (settlements S (d_unit g) (d_attempt g))" "\<not> late_seen S (d_unit g) (d_attempt g)"
  shows "unit_step mx (attempts S (d_unit g)) (attempts (S @ [R]) (d_unit g))"
proof -
  let ?u = "d_unit g" let ?k = "length (spawns S ?u)" let ?i = "nat (d_attempt g - 1)"
  have course: "course_ok S ?u" using inv by (simp add: dispatch_inv_def)
  have "settlements S ?u (d_attempt g) \<noteq> []" using assms(5) by (auto simp: one_casualty_def)
  then have n: "1 \<le> d_attempt g" "d_attempt g \<le> int ?k" using course by (simp_all add: course_ok_def Let_def)
  then have i: "?i < ?k" "int (Suc ?i) = d_attempt g" by simp_all
  have at: "attempts S ?u ! ?i = attempt_at S ?u (d_attempt g)" using nth_attempts [OF i(1)] i(2) by simp
  have fail: "failed (attempts S ?u ! ?i)"
    using one_casualty_class [OF inv assms(5)] assms(6) by (auto simp: at failed_def)
  have snoc: "attempt_at (S @ [R]) ?u m =
      (if m = d_attempt g then (fst (attempt_at S ?u m), True) else attempt_at S ?u m)" for m
    unfolding attempt_at_snoc [OF R(1)] using R(2) by (simp add: attempt_at_def)
  have "attempts (S @ [R]) ?u = (attempts S ?u)[?i := (fst (attempts S ?u ! ?i), True)]"
  proof (rule nth_equalityI)
    show "length (attempts (S @ [R]) ?u) = length ((attempts S ?u)[?i := (fst (attempts S ?u ! ?i), True)])"
      using R(2) by (simp add: spawns_snoc [OF R(1)])
    fix j assume "j < length (attempts (S @ [R]) ?u)"
    then have j: "j < ?k" "j < length (spawns (S @ [R]) ?u)" using R(2) by (simp_all add: spawns_snoc [OF R(1)])
    show "attempts (S @ [R]) ?u ! j = (attempts S ?u)[?i := (fst (attempts S ?u ! ?i), True)] ! j"
    proof (cases "j = ?i")
      case True
      then show ?thesis using nth_attempts [OF j(2)] i j(1) at snoc by simp
    next
      case False
      then have "int (Suc j) \<noteq> d_attempt g" using n by auto
      with False show ?thesis using nth_attempts [OF j(2)] nth_attempts [OF j(1)] snoc by simp
    qed
  qed
  then show ?thesis using deliver_late [OF _ fail] i(1) by simp
qed


section \<open>The refinement\<close>

lemma fact_step:
  assumes inv: "dispatch_inv h rs" "list_all dict_json_wf rs" and R: "row_of h R g" "admits h g rs"
    and d: "d = d_dispatch g" "u = d_unit g" and e: "fact_event g \<noteq> event_manifest"
  shows "\<exists>m mx. manifests (scoped rs d) = [m]
    \<and> max_attempts_value (jget m ''max_attempts'' JNull) = Inr mx
    \<and> unit_step mx (attempts (scoped rs d) u) (attempts (scoped rs d @ [R]) u)"
proof (cases "fact_event g = event_spawn")
  case True
  then have "check_spawn h d u (d_attempt g) (d_key g) (snap rs) = Inr ()"
    using R(2) d by (cases g) (auto simp: admits_def)
  then obtain m mx where "manifests (scoped rs d) = [m]"
    "max_attempts_value (jget m ''max_attempts'' JNull) = Inr mx" "d_attempt g \<le> mx"
    "d_attempt g = int (length (spawns (scoped rs d) u)) + 1"
    "1 < d_attempt g \<longrightarrow> one_casualty (settlements (scoped rs d) u (d_attempt g - 1))
        \<and> \<not> late_seen (scoped rs d) u (d_attempt g - 1)"
    unfolding check_spawn_ok [OF inv] by blast
  with spawn_step [OF inv(1) refl R(1) True] d show ?thesis by blast
next
  case False
  let ?S = "scoped rs d"
  have course: "course_ok ?S u" "rows_ok h rs" using inv(1) by (simp_all add: dispatch_inv_def)
  consider "fact_event g = event_settle" | "fact_event g = event_late_delivery"
    using False e by (cases g) auto
  then have step: "unit_step mx (attempts ?S u) (attempts (?S @ [R]) u) \<and> spawns ?S u \<noteq> []" for mx
  proof cases
    case 1
    then have "check_settlement h d u (d_attempt g) (snap rs) = Inr ()"
      using R(2) d by (cases g) (auto simp: admits_def)
    then have "1 \<le> d_attempt g" "d_attempt g \<le> int (length (spawns ?S u))" "settlements ?S u (d_attempt g) = []"
      using spawned_ok [OF course(2,1)] inv(2)
      by (auto simp: check_settlement_def fact_records_snap settlements_def list_ex_iff filter_empty_conv
          split: if_splits)
    with settle_step [OF inv(1) refl R(1) 1] d show ?thesis by auto
  next
    case 2
    then have "check_late_delivery h d u (d_attempt g) (snap rs) = Inr ()"
      using R(2) d by (cases g) (auto simp: admits_def)
    then have late: "one_casualty (settlements ?S u (d_attempt g))" "\<not> late_seen ?S u (d_attempt g)"
      using inv(2) by (auto simp: check_late_delivery_def fact_records_snap split: if_splits)
    then have "settlements ?S u (d_attempt g) \<noteq> []" by (auto simp: one_casualty_def)
    then have "spawns ?S u \<noteq> []" using course(1) by (fastforce simp: course_ok_def Let_def)
    with late_step [OF inv(1) refl R(1) 2] late d show ?thesis by simp
  qed
  then have "declared ?S u" using inv(1) by (simp add: dispatch_inv_def)
  then obtain m mx where "manifests ?S = [m]"
    "max_attempts_value (jget m ''max_attempts'' JNull) = Inr mx" by (auto simp only: declared_def)
  with step show ?thesis by blast
qed

definition refines_unit :: "json dict list \<Rightarrow> json dict list \<Rightarrow> string \<Rightarrow> bool" where
  "refines_unit S S' u \<longleftrightarrow> attempts S' u = attempts S u
     \<or> (\<exists>m mx. manifests S = [m] \<and> max_attempts_value (jget m ''max_attempts'' JNull) = Inr mx
          \<and> unit_step mx (attempts S u) (attempts S' u))"

lemma adds_refines:
  assumes "dispatch_inv h rs" "list_all dict_json_wf rs" "adds h rs rs'"
  shows "refines_unit (scoped rs d) (scoped rs' d) u"
proof -
  consider "rs' = rs" | R where "rs' = rs @ [R]" "\<not> is_fact R"
    | R g where "rs' = rs @ [R]" "row_of h R g" "admits h g rs"
    using assms(3) unfolding adds_def by blast
  then show ?thesis
  proof cases
    case (3 R g)
    show ?thesis
    proof (cases "d = d_dispatch g \<and> u = d_unit g \<and> fact_event g \<noteq> event_manifest")
      case True
      then show ?thesis
        using fact_step [OF assms(1,2) 3(2,3)] 3(1) unfolding refines_unit_def
        by (simp add: scoped_snoc [OF 3(2)])
    next
      case False
      have "attempt_at (S @ [R]) u n = attempt_at S u n" "spawns (S @ [R]) u = spawns S u"
        if "d = d_dispatch g" for S n
        using False that unfolding attempt_at_snoc [OF 3(2)] spawns_snoc [OF 3(2)]
        by (auto simp: attempt_at_def)
      then have "attempts (scoped rs' d) u = attempts (scoped rs d) u"
        unfolding 3(1) scoped_snoc [OF 3(2)] by (auto intro!: attempts_same)
      then show ?thesis by (simp add: refines_unit_def)
    qed
  qed (simp_all add: refines_unit_def scoped_foreign)
qed

end
