(* ===== verification/Dispatch_Machine.thy ===== *)
theory Dispatch_Machine
  imports Dispatch_Refinement Dispatch_Progress
begin

text \<open>
  Runs of the attempt machine and what they imply for a ledger: every step makes progress below a
  fixed bound, so the attempts of a unit stop changing, and a unit that is over stays over.
\<close>

section \<open>Progress\<close>

definition weight :: "attempt list \<Rightarrow> nat" where
  "weight as = sum_list (map (\<lambda>(c, late). 1 + of_bool (c \<noteq> None) + of_bool late) as)"

lemma weight_simps [simp]:
  "weight [] = 0" "weight (a # as) = 1 + of_bool (fst a \<noteq> None) + of_bool (snd a) + weight as"
  "weight (as @ bs) = weight as + weight bs"
  by (simp_all add: weight_def split_beta)

lemma weight_bound: "weight as \<le> 3 * length as"
  by (induction as) auto

lemma unit_step_weight:
  assumes "unit_step limit as bs"
  shows "weight as < weight bs"
  using assms
proof cases
  case (deliver_late n)
  have split: "as = take n as @ as ! n # drop (Suc n) as"
    "bs = take n as @ (fst (as ! n), True) # drop (Suc n) as"
    using deliver_late by (simp_all add: id_take_nth_drop [symmetric] upd_conv_take_nth_drop)
  have "\<not> snd (as ! n)" using deliver_late(3) by (auto simp: failed_def)
  then show ?thesis by (subst split(1), subst split(2)) simp
qed simp_all

lemma bounded_progress:
  fixes w :: "'a \<Rightarrow> nat"
  assumes "\<And>i. g (Suc i) = g i \<or> w (g i) < w (g (Suc i))" "\<And>i. w (g i) \<le> b"
  shows "\<exists>n. \<forall>i \<ge> n. g i = g n"
proof -
  have fin: "finite (range (\<lambda>i. w (g i)))"
    by (rule finite_subset [of _ "{..b}"]) (use assms(2) in auto)
  have "Max (range (\<lambda>i. w (g i))) \<in> range (\<lambda>i. w (g i))" by (rule Max_in [OF fin]) blast
  then obtain n where n: "w (g n) = Max (range (\<lambda>i. w (g i)))" by (metis (mono_tags) imageE)
  have top: "w (g i) \<le> w (g n)" for i unfolding n by (rule Max_ge [OF fin]) blast
  have "g i = g n" if "n \<le> i" for i
    using that
  proof (induction rule: dec_induct)
    case (step i)
    then show ?case using assms(1) [of i] top [of "Suc i"] by auto
  qed simp
  then show ?thesis by blast
qed

section \<open>Being over\<close>

definition over :: "int \<Rightarrow> attempt list \<Rightarrow> bool" where
  "over limit as \<longleftrightarrow> as \<noteq> [] \<and> fst (last as) \<noteq> None
     \<and> (failed (last as) \<longrightarrow> limit \<le> int (length as))"

lemma over_step:
  assumes "unit_step limit as bs" "over limit as"
  shows "over limit bs \<and> length bs = length as"
  using assms(1)
proof cases
  case (deliver_late n)
  then show ?thesis using assms(2) by (auto simp: over_def last_list_update failed_def)
qed (use assms(2) in \<open>auto simp: over_def\<close>)

section \<open>Steps of a ledger\<close>

lemma step_adds:
  assumes "ledger_inv h f" "ledger_step h f f'"
  shows "adds h (history f) (history f')"
  using assms(2)
proof cases
  case completed
  with write_adds [OF assms(1)] show ?thesis .
next
  case (cut_short f1 l frag)
  then show ?thesis by (simp add: history_def adds_def)
qed

lemma step_refines:
  assumes "ledger_inv h f" "ledger_step h f f'"
  shows "refines_unit (scoped (history f) d) (scoped (history f') d) u"
  using adds_refines [OF _ _ step_adds [OF assms]] assms(1) by (simp add: ledger_inv_def sound_rows_def)

lemma inv_rows:
  assumes "ledger_inv h f"
  shows "dispatch_inv h (history f)" "list_all dict_json_wf (history f)"
    "course_ok (scoped (history f) d) u" "length (manifests (scoped (history f) d)) \<le> 1"
    "spawns (scoped (history f) d) u \<noteq> [] \<Longrightarrow> declared (scoped (history f) d) u"
  using assms by (simp_all add: ledger_inv_def sound_rows_def dispatch_inv_def)

lemma adds_extends:
  assumes "adds h rs rs'"
  shows "\<exists>R. scoped rs' d = scoped rs d @ R"
  using assms unfolding adds_def scoped_def by (auto simp: filter_append)

lemma manifest_kept:
  assumes "ledger_inv h f" "ledger_inv h f'" "ledger_step h f f'" "manifests (scoped (history f) d) = [m]"
  shows "manifests (scoped (history f') d) = [m]"
proof -
  obtain R where "scoped (history f') d = scoped (history f) d @ R"
    using adds_extends [OF step_adds [OF assms(1,3)]] by blast
  with assms(4) inv_rows(4) [OF assms(2), of d] show ?thesis by (simp add: manifests_def)
qed

lemma over_steps:
  assumes "ledger_steps h f f'" "digest_host h" "ledger_inv h f" "manifests (scoped (history f) d) = [m]"
    and "max_attempts_value (jget m ''max_attempts'' JNull) = Inr mx"
    and "over mx (attempts (scoped (history f) d) u)"
  shows "spawns (scoped (history f') d) u = spawns (scoped (history f) d) u
    \<and> manifests (scoped (history f') d) = [m] \<and> over mx (attempts (scoped (history f') d) u)"
  using assms(1,3,4,6)
proof (induction rule: ledger_steps.induct)
  case (one_more f g f')
  let ?S = "scoped (history g) d" and ?S' = "scoped (history f') d"
  have inv: "ledger_inv h g" using steps_inv [OF one_more(1) assms(2) one_more.prems(1)] .
  have inv': "ledger_inv h f'" using step_inv [OF assms(2) inv one_more(2)] .
  have IH: "manifests ?S = [m]" "over mx (attempts ?S u)"
    "spawns ?S u = spawns (scoped (history f) d) u" using one_more.IH one_more.prems by simp_all
  have "over mx (attempts ?S' u) \<and> length (attempts ?S' u) = length (attempts ?S u)"
    using step_refines [OF inv one_more(2), of d u] over_step IH(1,2) assms(5)
    unfolding refines_unit_def by (auto simp del: length_attempts int_values_eq)
  moreover obtain R where "?S' = ?S @ R" using adds_extends [OF step_adds [OF inv one_more(2)]] by blast
  ultimately have "spawns ?S' u = spawns ?S u" "over mx (attempts ?S' u)"
    by (auto simp: spawns_def)
  then show ?case using IH manifest_kept [OF inv inv' one_more(2)] by simp
qed simp

lemma attempts_limit:
  assumes "ledger_inv h f"
  shows "length (attempts (scoped (history f) d) u) \<le> 3"
proof (cases "spawns (scoped (history f) d) u = []")
  case False
  then obtain mx where "int (length (spawns (scoped (history f) d) u)) \<le> mx" "mx \<le> 3"
    using inv_rows(5) [OF assms False] by (auto simp: declared_def max_attempts_limit_def)
  then show ?thesis by simp
qed simp

text \<open>A terminal status means that the unit is over.\<close>

lemma terminal_over:
  assumes "ledger_inv h f" "S = scoped (history f) d" "manifests S = [m]"
    and "max_attempts_value (jget m ''max_attempts'' JNull) = Inr mx"
    and "terminal_of S m d u = Inr (Some st)"
  shows "over mx (attempts S u)"
proof -
  let ?k = "int (length (spawns S u))"
  have "\<not> (spawns S u = [] \<or> settlements S u ?k = [] \<or> (retry_due S u \<and> ?k < mx))"
    using terminal_eq [OF inv_rows(1) [OF assms(1)] assms(2,4) refl, of u] assms(5) by auto
  then have sp: "spawns S u \<noteq> []" "settlements S u ?k \<noteq> []" "retry_due S u \<Longrightarrow> mx \<le> ?k"
    by linarith+
  have l: "last (attempts S u) = attempt_at S u ?k" "attempts S u \<noteq> []"
    using sp(1) by (cases "spawns S u"; simp add: attempts_def)+
  obtain s where s: "settlements S u ?k = [s]"
    using settlements_cases [OF inv_rows(3) [OF assms(1)]] sp(2) unfolding assms(2) by metis
  then obtain g where g: "row_of h s g" "fact_event g = event_settle"
    using settlement_row [OF inv_rows(1) [OF assms(1)]] unfolding assms(2) by blast
  have "attempt_at S u ?k = (Some (text_of s ''classification''), late_seen S u ?k)"
    by (simp add: attempt_at_def s)
  moreover from this have "retry_due S u" if "failed (attempt_at S u ?k)"
    using that sp(1) row_class [OF g] by (auto simp: retry_due_def failed_def s one_casualty_def text_of_def)
  ultimately show ?thesis using l sp(3) by (auto simp: over_def)
qed

end
