(* ===== verification/Run_Evidence.thy ===== *)
theory Run_Evidence
  imports Run_Chain
begin

text \<open>
  What the chain of the run-fact ledger is evidence of: the hash of the last record pins every
  record before it, and an append repairs a torn tail without losing a complete line.
\<close>

section \<open>Rows with the same entries\<close>

lemma norm_items_cong:
  assumes "wf_dict a" "wf_dict b"
    and "\<And>k. map_option json_norm (dget a k) = map_option json_norm (dget b k)"
  shows "norm_items a = norm_items b"
proof -
  let ?n = "map (\<lambda>(k, v). (k, json_norm v))"
  have wf: "wf_dict (?n a)" "wf_dict (?n b)" using assms(1,2) by simp_all
  have "(k, v) \<in> set (?n a) \<longleftrightarrow> (k, v) \<in> set (?n b)" for k v
    unfolding dict.lookup_items [OF wf(1), symmetric] dict.lookup_items [OF wf(2), symmetric]
    by (simp add: dget_norm_map assms(3))
  then have "set (?n a) = set (?n b)" by (intro set_eqI) (metis surj_pair)
  moreover have "distinct (?n a)" "distinct (?n b)"
    using wf unfolding wf_dict_def distinct_map [of fst] by (blast, blast)
  ultimately have "mset (?n a) = mset (?n b)" by (rule set_eq_iff_mset_eq_distinct [THEN iffD1, rotated -1])
  then show ?thesis unfolding norm_items_def by (rule dsort_cong [OF _ wf(1)])
qed

lemma norm_lookup:
  "wf_dict a \<Longrightarrow> wf_dict b \<Longrightarrow> norm_items a = norm_items b \<Longrightarrow>
     map_option json_norm (dget a k) = map_option json_norm (dget b k)"
  by (metis dget_norm_items)

section \<open>Tamper evidence\<close>

definition hashed_texts :: "json dict list \<Rightarrow> string set" where
  "hashed_texts rs = (\<lambda>r. canonical_json (JObj (without [''this_hash''] r))) ` set rs"

definition rows_printable :: "json dict list \<Rightarrow> bool" where
  "rows_printable rs = list_all (\<lambda>r. json_printable (JObj r)) rs"

lemma printable_without: "json_printable (JObj r) \<Longrightarrow> json_printable (JObj (without keys r))"
  using wf_dict_without [of r keys] by (auto simp: without_def list_all_iff)

text \<open>A stored digest is hexadecimal, so it is never the text of a container.\<close>

lemma py_str_norm:
  assumes "json_norm v = json_norm w" "py_str v = s" "py_str w = t"
    and "s = [] \<or> is_sha256_text s" "t = [] \<or> is_sha256_text t"
  shows "s = t"
proof -
  have hex: "hd u \<in> set hex_chars \<and> u \<noteq> []" if "is_sha256_text u" for u
    using that by (cases u) (auto simp: is_sha256_text_def)
  have "py_str v = py_str w \<or> (hd (py_str v) \<in> {CHR ''['', CHR ''{''} \<and> py_str v \<noteq> [])"
    using assms(1) by (cases v; cases w) (auto simp: py_str_def)
  moreover have "hd s \<notin> {CHR ''['', CHR ''{''}" if "s \<noteq> []"
    using assms(4) hex [of s] that by (auto simp: hex_chars_def)
  ultimately show ?thesis using assms(2,3) by auto
qed

lemma tail_hash_snoc: "tail_hash (rs @ [r]) = py_str (jget r ''this_hash'' (JStr []))"
  by (simp add: tail_hash_def)

lemma tail_hash_digest:
  assumes "digest_host h" "verify_records h rs = ChainOk"
  shows "tail_hash rs = [] \<or> is_sha256_text (tail_hash rs)" "tail_hash rs = [] \<longleftrightarrow> rs = []"
proof -
  have "tail_hash (ys @ [r]) \<noteq> [] \<and> is_sha256_text (tail_hash (ys @ [r]))"
    if "verify_records h (ys @ [r]) = ChainOk" for ys r
    using that assms(1) unfolding verify_records_append verify_one tail_hash_snoc
    by (auto simp: digest_host_def record_hash_def jget_def)
  with assms(2) show "tail_hash rs = [] \<or> is_sha256_text (tail_hash rs)" "tail_hash rs = [] \<longleftrightarrow> rs = []"
    by (cases rs rule: rev_cases; auto simp: tail_hash_def)+
qed

lemma same_last_row:
  assumes "json_printable (JObj r)" "json_printable (JObj s)"
    and "dget r ''this_hash'' = Some (JStr d)" "dget s ''this_hash'' = Some (JStr d)"
    and "canonical_json (JObj (without [''this_hash''] r)) = canonical_json (JObj (without [''this_hash''] s))"
  shows "norm_items r = norm_items s"
    "json_norm (jget r ''prev_hash'' (JStr [])) = json_norm (jget s ''prev_hash'' (JStr []))"
proof -
  let ?w = "without [''this_hash'']"
  have wf: "wf_dict r" "wf_dict s" "wf_dict (?w r)" "wf_dict (?w s)"
    using assms(1,2) by (auto intro: wf_dict_without)
  have "norm_items (?w r) = norm_items (?w s)"
    using assms(5) canonical_json_inject [OF printable_without [OF assms(1)] printable_without [OF assms(2)]]
    by simp
  then have w: "map_option json_norm (dget (?w r) k) = map_option json_norm (dget (?w s) k)" for k
    by (rule norm_lookup [OF wf(3,4)])
  have l: "map_option json_norm (dget r k) = map_option json_norm (dget s k)" for k
    using w [of k] assms(3,4) by (cases "k = ''this_hash''") (auto simp: dget_without)
  show "norm_items r = norm_items s" by (rule norm_items_cong [OF wf(1,2) l])
  show "json_norm (jget r ''prev_hash'' (JStr [])) = json_norm (jget s ''prev_hash'' (JStr []))"
    using l [of "''prev_hash''"] by (auto simp: jget_def split: option.splits)
qed

lemma chain_determined:
  assumes "digest_host h" "verify_records h rs = ChainOk" "verify_records h rs' = ChainOk"
    and "rows_printable rs" "rows_printable rs'" "tail_hash rs = tail_hash rs'"
    and "inj_on (sha256 h) (hashed_texts rs \<union> hashed_texts rs')"
  shows "map norm_items rs = map norm_items rs'"
  using assms(2-)
proof (induction rs arbitrary: rs' rule: rev_induct)
  case Nil
  then have "rs' = []" using tail_hash_digest(2) [OF assms(1)] by (metis tail_hash_def)
  then show ?case by simp
next
  case (snoc r rs)
  have "rs' \<noteq> []" using snoc.prems tail_hash_digest(2) [OF assms(1)]
    by (metis append_is_Nil_conv list.distinct(1))
  then obtain ss s where rs': "rs' = ss @ [s]" by (meson rev_exhaust)
  let ?w = "without [''this_hash'']"
  obtain d where d: "dget r ''this_hash'' = Some (JStr d)" "record_hash h (?w r) = d"
      "py_str (jget r ''prev_hash'' (JStr [])) = tail_hash rs" "verify_records h rs = ChainOk"
    using snoc.prems(1) unfolding verify_records_append verify_one by blast
  obtain e where e: "dget s ''this_hash'' = Some (JStr e)" "record_hash h (?w s) = e"
      "py_str (jget s ''prev_hash'' (JStr [])) = tail_hash ss" "verify_records h ss = ChainOk"
    using snoc.prems(2) unfolding rs' verify_records_append verify_one by blast
  have de: "d = e" using snoc.prems(5) d(1) e(1) by (simp add: rs' tail_hash_snoc)
  have pr: "json_printable (JObj r)" "json_printable (JObj s)" "rows_printable rs" "rows_printable ss"
    using snoc.prems(3,4) by (simp_all add: rs' rows_printable_def)
  have "canonical_json (JObj (?w r)) = canonical_json (JObj (?w s))"
  proof (rule inj_onD [OF snoc.prems(6)])
    show "sha256 h (canonical_json (JObj (?w r))) = sha256 h (canonical_json (JObj (?w s)))"
      using d(2) e(2) de unfolding record_hash_def by (simp only:)
  qed (simp_all only: hashed_texts_def rs' set_append list.set image_Un image_insert
      insert_iff Un_iff image_empty simp_thms)
  note last = same_last_row [OF pr(1,2) d(1) e(1) [folded de] this]
  have "tail_hash rs = tail_hash ss"
    using py_str_norm [OF last(2) d(3) e(3)] tail_hash_digest(1) [OF assms(1)] d(4) e(4) by blast
  moreover have "inj_on (sha256 h) (hashed_texts rs \<union> hashed_texts ss)"
    using snoc.prems(6) by (rule inj_on_subset) (auto simp: hashed_texts_def rs')
  ultimately have "map norm_items rs = map norm_items ss"
    by (intro snoc.IH d(4) e(4) pr)
  with last(1) show ?case by (simp add: rs')
qed

end
