(* ===== verification/Dispatch_Demo.thy ===== *)
theory Dispatch_Demo
  imports Dispatch_Gate Dispatch_Machine Run_Evidence
begin

text \<open>A concrete host and a short ledger, on which the theorems about the ledger are applied.\<close>

definition demo_saga :: saga_host where
  "demo_saga =
     \<lparr>sha256 = (\<lambda>s. replicate 63 CHR ''0'' @ [hex_chars ! (length s mod 16)]), iso_utc = (\<lambda>s. True),
      utc_time = (\<lambda>s. True)\<rparr>"

lemma demo_saga_ok: "digest_host demo_saga"
proof -
  have "hex_chars ! (n mod 16) \<in> set hex_chars" for n
    by (rule nth_mem) (simp add: hex_chars_def)
  moreover have "CHR ''0'' \<in> set hex_chars" by (simp add: hex_chars_def)
  ultimately show ?thesis
    by (simp add: digest_host_def demo_saga_def is_sha256_text_def list_all_iff)
qed

definition demo_unit :: unit_spec where
  "demo_unit = UnitSpec ''u'' ''key'' [''out'']"

definition demo_manifest :: dispatch_fact where
  "demo_manifest = ManifestF ''s'' ''t'' ''d'' ''outcome'' [demo_unit] 0 3"

definition demo_spawn :: "int \<Rightarrow> dispatch_fact" where
  "demo_spawn n = SpawnF ''s'' ''t'' ''d'' ''u'' n ''key''"

definition demo_settle :: "int \<Rightarrow> dispatch_fact" where
  "demo_settle n = SettleF ''s'' ''t'' ''d'' ''u'' n silent_noop ''why'' None"

lemma demo_texts: "id_ok ''s''" "id_ok ''d''" "id_ok ''u''" "id_ok ''key''" "id_ok ''out''"
  "stamp_ok demo_saga ''t''" "line_ok max_reason_length ''why''"
  by (simp_all add: id_ok_def id_text_def is_alnum_def max_id_length_def stamp_ok_def line_ok_def
      text_ok_def demo_saga_def strip_def is_space_def max_reason_length_def)

lemma demo_units_ok: "unit_ok demo_unit" "units_ok [demo_unit]"
  by (simp_all add: units_ok_def unit_ok_def demo_unit_def demo_texts)

lemma demo_fact_ok:
  "fact_ok demo_saga demo_manifest" "1 \<le> n \<Longrightarrow> fact_ok demo_saga (demo_spawn n)"
  "1 \<le> n \<Longrightarrow> fact_ok demo_saga (demo_settle n)"
  by (simp_all add: fact_ok_def demo_manifest_def demo_spawn_def demo_settle_def demo_texts demo_units_ok
      sites_def max_attempts_limit_def ledger_classifications_def casualty_classifications_def)

definition demo_file1 :: ledger_file where
  "demo_file1 = snd (append_manifest demo_saga (fact_items demo_manifest) new_ledger)"
definition demo_file2 :: ledger_file where
  "demo_file2 = snd (append_spawn demo_saga (fact_items (demo_spawn 1)) demo_file1)"
definition demo_file3 :: ledger_file where
  "demo_file3 = snd (append_settlement demo_saga (fact_items (demo_settle 1)) demo_file2)"

lemma demo_written:
  "ledger_reachable demo_saga new_ledger" "ledger_reachable demo_saga demo_file1"
  "ledger_reachable demo_saga demo_file2" "ledger_reachable demo_saga demo_file3"
proof -
  show 0: "ledger_reachable demo_saga new_ledger" by (simp add: ledger_reachable_def no_step)
  show 1: "ledger_reachable demo_saga demo_file1"
    unfolding demo_file1_def
    by (rule grown_reachable [OF 0 manifest_write [OF fact_items_wf prod.collapse [symmetric]]])
  show 2: "ledger_reachable demo_saga demo_file2"
    unfolding demo_file2_def
    by (rule grown_reachable [OF 1 spawn_write [OF fact_items_wf prod.collapse [symmetric]]])
  show "ledger_reachable demo_saga demo_file3"
    unfolding demo_file3_def
    by (rule grown_reachable [OF 2 settlement_write [OF fact_items_wf prod.collapse [symmetric]]])
qed

text \<open>The rows of the three files and what the guards saw.\<close>

definition demo_rows :: "json dict list \<Rightarrow> dispatch_fact list \<Rightarrow> bool" where
  "demo_rows rs fs \<longleftrightarrow> list_all2 (row_of demo_saga) rs fs"

lemma demo_inv:
  "ledger_reachable demo_saga f \<Longrightarrow> sound_rows demo_saga (history f)"
  using ledger_reachable_inv [OF _ demo_saga_ok] by (simp add: ledger_inv_def)

lemma new_ledger_history [simp]: "history new_ledger = []" "torn new_ledger = None"
  by (simp_all add: history_def new_ledger_def)

lemma demo_extends:
  assumes "ledger_reachable demo_saga f" "fact_ok demo_saga g" "demo_rows (history f) gs"
    and "v (fact_items g) (snap (history f)) = Inr ()"
    and "f' = snd (op_bind (op_result (canonical_fact demo_saga (fact_items g) (Some (fact_event g))))
      (\<lambda>c. append_fact_atomic demo_saga c (v c)) f)"
  shows "demo_rows (history f') (gs @ [g])" "torn f' = None"
proof -
  have "f' = grown demo_saga f (fact_items g)"
    using append_canonical [OF ledger_reachable_inv [OF assms(1) demo_saga_ok] assms(2) refl, of v] assms(4,5)
    by simp
  moreover have "list_all2 (row_of demo_saga) (history (grown demo_saga f (fact_items g))) (gs @ [g])"
    using assms(3) new_row [OF assms(2)] unfolding history_grown demo_rows_def
    by (simp add: list_all2_appendI)
  ultimately show "demo_rows (history f') (gs @ [g])" "torn f' = None"
    by (simp_all add: demo_rows_def grown_def)
qed

lemma demo_history1: "demo_rows (history demo_file1) [demo_manifest]" "torn demo_file1 = None"
proof -
  have "check_new_manifest demo_saga ''d'' (snap []) = Inr ()"
    using fact_records_sound [OF demo_inv [OF demo_written(1)], of "''d''"]
    by (simp add: check_new_manifest_def scoped_def find_manifest_eq manifests_def)
  then show "demo_rows (history demo_file1) [demo_manifest]" "torn demo_file1 = None"
    using demo_extends [OF demo_written(1) demo_fact_ok(1), of "[]"
        "\<lambda>c. check_new_manifest demo_saga (text_of c ''dispatch_id'')" demo_file1]
    by (simp_all add: demo_rows_def demo_file1_def append_manifest_def demo_manifest_def)
qed

lemma demo_scoped:
  assumes "demo_rows rs fs" "list_all (\<lambda>f. d_dispatch f = ''d'') fs"
  shows "scoped rs ''d'' = rs"
  using assms(1)[unfolded demo_rows_def] assms(2)
  by (induction rule: list_all2_induct) (auto simp: scoped_def row_is_fact row_dispatch)

lemma demo_history2: "demo_rows (history demo_file2) [demo_manifest, demo_spawn 1]" "torn demo_file2 = None"
proof -
  obtain R where R: "history demo_file1 = [R]" "row_of demo_saga R demo_manifest"
    using demo_history1(1) by (auto simp: demo_rows_def list_all2_Cons2)
  have m: "fact_event demo_manifest = event_manifest" "d_max demo_manifest = 3"
    "d_units demo_manifest = [demo_unit]" by (simp_all add: demo_manifest_def)
  have "scoped [R] ''d'' = [R]" using R(2) by (simp add: scoped_def row_is_fact row_dispatch demo_manifest_def)
  moreover have "manifests [R] = [R]" "spawns [R] ''u'' = []"
    using R(2) m(1) by (simp_all add: manifests_def spawns_def row_event row_of_unit)
  ultimately have "check_spawn demo_saga ''d'' ''u'' 1 ''key'' (snap [R]) = Inr ()"
    using demo_inv [OF demo_written(2)] row_manifest(1,3) [OF R(2) m(1)] R(1) m
    by (subst check_spawn_ok) (auto simp: sound_rows_def unit_named_def demo_unit_def simp del: int_values_eq)
  then show "demo_rows (history demo_file2) [demo_manifest, demo_spawn 1]" "torn demo_file2 = None"
    using demo_extends [OF demo_written(2) demo_fact_ok(2) demo_history1(1), of 1
        "\<lambda>c. check_spawn demo_saga (text_of c ''dispatch_id'') (text_of c ''unit_id'') (attempt_of c)
         (text_of c ''idempotency_key'')" demo_file2]
    by (simp_all add: demo_file2_def append_spawn_def demo_spawn_def R(1))
qed

lemma demo_history3:
  "demo_rows (history demo_file3) [demo_manifest, demo_spawn 1, demo_settle 1]" "torn demo_file3 = None"
proof -
  obtain R Q where R: "history demo_file2 = [R, Q]" "row_of demo_saga R demo_manifest"
    "row_of demo_saga Q (demo_spawn 1)"
    using demo_history2(1) by (auto simp: demo_rows_def list_all2_Cons2)
  have m: "fact_event demo_manifest = event_manifest" "fact_event (demo_spawn 1) = event_spawn"
    "d_unit (demo_spawn 1) = ''u''" "d_attempt (demo_spawn 1) = 1"
    by (simp_all add: demo_manifest_def demo_spawn_def)
  have s: "scoped [R, Q] ''d'' = [R, Q]"
    using R(2,3) by (simp add: scoped_def row_is_fact row_dispatch demo_manifest_def demo_spawn_def)
  have "manifests [R, Q] = [R]" "list_ex (of_attempt event_spawn ''u'' 1) [R, Q]"
    "\<not> list_ex (of_attempt event_settle ''u'' 1) [R, Q]"
    using R(2,3) m by (simp_all add: manifests_def row_event row_of_attempt)
  then have "check_settlement demo_saga ''d'' ''u'' 1 (snap [R, Q]) = Inr ()"
    using fact_records_sound [OF demo_inv [OF demo_written(3)], of "''d''"] R(1) s
    by (simp add: check_settlement_def require_manifest_eq [THEN iffD2])
  then show "demo_rows (history demo_file3) [demo_manifest, demo_spawn 1, demo_settle 1]" "torn demo_file3 = None"
    using demo_extends [OF demo_written(3) demo_fact_ok(3) demo_history2(1), of 1
        "\<lambda>c. check_settlement demo_saga (text_of c ''dispatch_id'') (text_of c ''unit_id'') (attempt_of c)"
        demo_file3]
    by (simp_all add: demo_file3_def append_settlement_def demo_settle_def R(1))
qed

lemma demo_retry_due:
  "\<exists>m. require_manifest (scoped (history demo_file3) ''d'') = Inr m \<and> manifest_units m = Inr [demo_unit]
     \<and> max_attempts_value (jget m ''max_attempts'' JNull) = Inr 3
     \<and> length (spawns (scoped (history demo_file3) ''d'') ''u'') = 1
     \<and> one_casualty (settlements (scoped (history demo_file3) ''d'') ''u'' 1)
     \<and> \<not> late_seen (scoped (history demo_file3) ''d'') ''u'' 1"
proof -
  obtain R Q T where R: "history demo_file3 = [R, Q, T]" "row_of demo_saga R demo_manifest"
    "row_of demo_saga Q (demo_spawn 1)" "row_of demo_saga T (demo_settle 1)"
    using demo_history3(1) by (auto simp: demo_rows_def list_all2_Cons2)
  have m: "fact_event demo_manifest = event_manifest" "d_max demo_manifest = 3"
    "d_units demo_manifest = [demo_unit]" by (simp_all add: demo_manifest_def)
  have t: "fact_event (demo_settle 1) = event_settle" "d_class (demo_settle 1) = silent_noop"
    "d_unit (demo_settle 1) = ''u''" "d_attempt (demo_settle 1) = 1"
    "fact_event (demo_spawn 1) = event_spawn" "d_unit (demo_spawn 1) = ''u''" "d_attempt (demo_spawn 1) = 1"
    by (simp_all add: demo_settle_def demo_spawn_def)
  have s: "scoped [R, Q, T] ''d'' = [R, Q, T]"
    using R(2-4) by (simp add: scoped_def row_is_fact row_dispatch demo_manifest_def demo_spawn_def demo_settle_def)
  have "settlements [R, Q, T] ''u'' 1 = [T]" "\<not> late_seen [R, Q, T] ''u'' 1"
    "length (spawns [R, Q, T] ''u'') = 1" "manifests [R, Q, T] = [R]"
    using R(2-4) m(1) t
    by (simp_all add: settlements_def late_seen_def spawns_def manifests_def row_of_attempt row_of_unit row_event)
  moreover have "is_casualty T" using row_class [OF R(4) t(1)] t(2) by (simp add: casualty_classifications_def)
  ultimately show ?thesis
    using row_manifest(1,3) [OF R(2) m(1)] m(2,3) R(1) s
    by (intro exI [of _ R]) (simp add: require_manifest_eq one_casualty_def del: int_values_eq)
qed

text \<open>A late delivery ends the unit; a fifth file is what a refused spawn makes of it.\<close>

definition demo_late :: dispatch_fact where
  "demo_late = LateF ''s'' ''t'' ''d'' ''u'' 1 ''ref'' (replicate 64 CHR ''0'')"

definition demo_file4 :: ledger_file where
  "demo_file4 = snd (append_late_delivery demo_saga (fact_items demo_late) demo_file3)"

lemma demo_late_ok: "fact_ok demo_saga demo_late"
proof -
  have "is_sha256_text (replicate 64 CHR ''0'')"
    by (simp add: is_sha256_text_def hex_chars_def list_all_iff)
  moreover have "id_ok ''ref''" by (simp add: id_ok_def id_text_def is_alnum_def max_id_length_def)
  ultimately show ?thesis by (simp add: fact_ok_def demo_late_def demo_texts)
qed

lemma demo_reachable4: "ledger_reachable demo_saga demo_file4"
  unfolding demo_file4_def
  by (rule grown_reachable [OF demo_written(4) late_write [OF fact_items_wf prod.collapse [symmetric]]])

lemma demo_history4:
  "demo_rows (history demo_file4) [demo_manifest, demo_spawn 1, demo_settle 1, demo_late]"
  "torn demo_file4 = None"
proof -
  obtain m where m: "manifests (scoped (history demo_file3) ''d'') = [m]"
    "one_casualty (settlements (scoped (history demo_file3) ''d'') ''u'' 1)"
    "\<not> late_seen (scoped (history demo_file3) ''d'') ''u'' 1"
    using demo_retry_due by (auto simp: require_manifest_eq)
  then have "check_late_delivery demo_saga ''d'' ''u'' 1 (snap (history demo_file3)) = Inr ()"
    using fact_records_sound [OF demo_inv [OF demo_written(4)], of "''d''"]
    by (simp add: check_late_delivery_def require_manifest_eq [THEN iffD2])
  then show "demo_rows (history demo_file4) [demo_manifest, demo_spawn 1, demo_settle 1, demo_late]"
    "torn demo_file4 = None"
    using demo_extends [OF demo_written(4) demo_late_ok demo_history3(1), of
        "\<lambda>c. check_late_delivery demo_saga (text_of c ''dispatch_id'') (text_of c ''unit_id'') (attempt_of c)"
        demo_file4]
    by (simp_all add: demo_file4_def append_late_delivery_def demo_late_def)
qed

text \<open>What the queries answer on the fourth file.\<close>

definition demo_view :: "json dict \<Rightarrow> json dict \<Rightarrow> json dict \<Rightarrow> json dict \<Rightarrow> bool" where
  "demo_view R Q T L \<longleftrightarrow> (let S = [R, Q, T, L] in
     settlements S ''u'' 1 = [T] \<and> late_seen S ''u'' 1 \<and> spawns S ''u'' = [Q] \<and> manifests S = [R]
     \<and> spawn_rows S = [Q] \<and> manifest_units R = Inr [demo_unit]
     \<and> max_attempts_value (jget R ''max_attempts'' JNull) = Inr 3
     \<and> threshold_value (jget R ''casualty_threshold_percent'' JNull) = Inr 0 \<and> attempt_of Q = 1)"

lemma demo_scope4:
  "\<exists>R Q T L. scoped (history demo_file4) ''d'' = [R, Q, T, L] \<and> demo_view R Q T L"
proof -
  note d = demo_manifest_def demo_spawn_def demo_settle_def demo_late_def
  obtain R Q T L where R: "history demo_file4 = [R, Q, T, L]" "row_of demo_saga R demo_manifest"
    "row_of demo_saga Q (demo_spawn 1)" "row_of demo_saga T (demo_settle 1)" "row_of demo_saga L demo_late"
    using demo_history4(1) by (auto simp: demo_rows_def list_all2_Cons2)
  have t: "fact_event demo_manifest = event_manifest" "d_max demo_manifest = 3" "d_units demo_manifest = [demo_unit]"
    "d_threshold demo_manifest = 0" "fact_event (demo_settle 1) = event_settle" "fact_event (demo_spawn 1) = event_spawn"
    "fact_event demo_late = event_late_delivery" "d_unit (demo_settle 1) = ''u''" "d_attempt (demo_settle 1) = 1"
    "d_unit (demo_spawn 1) = ''u''" "d_attempt (demo_spawn 1) = 1" "d_unit demo_late = ''u''" "d_attempt demo_late = 1"
    by (simp_all add: d)
  have Q: "dget Q ''attempt'' = Some (JInt 1)"
    by (rule row_int_field [OF R(3)]; simp add: d)
  have "scoped (history demo_file4) ''d'' = [R, Q, T, L]"
    using R by (simp add: scoped_def row_is_fact row_dispatch d)
  moreover have "settlements [R, Q, T, L] ''u'' 1 = [T]" "late_seen [R, Q, T, L] ''u'' 1"
    "spawns [R, Q, T, L] ''u'' = [Q]" "manifests [R, Q, T, L] = [R]" "spawn_rows [R, Q, T, L] = [Q]"
    using R(2-5) t
    by (simp_all add: settlements_def late_seen_def spawns_def manifests_def spawn_rows_def row_of_attempt
        row_of_unit row_event)
  moreover have "attempt_of Q = 1" by (simp add: attempt_of_def Q)
  ultimately show ?thesis
    using row_manifest(1,3,4) [OF R(2) t(1)] unfolding demo_view_def Let_def t(2-4) by blast
qed

lemma demo_over: "\<exists>st. terminal_attempt_status demo_saga ''d'' ''u'' demo_file4 = (Inr (Some st), demo_file4)"
proof -
  obtain R Q T L where S: "scoped (history demo_file4) ''d'' = [R, Q, T, L]"
    and q: "settlements [R, Q, T, L] ''u'' 1 = [T]" "late_seen [R, Q, T, L] ''u'' 1"
      "spawns [R, Q, T, L] ''u'' = [Q]" "manifests [R, Q, T, L] = [R]" "manifest_units R = Inr [demo_unit]"
      "max_attempts_value (jget R ''max_attempts'' JNull) = Inr 3"
    using demo_scope4 unfolding demo_view_def Let_def by (elim exE conjE)
  have inv: "ledger_inv demo_saga demo_file4"
    by (rule ledger_reachable_inv [OF demo_reachable4 demo_saga_ok])
  have "\<exists>t. terminal_of [R, Q, T, L] R ''d'' ''u'' = Inr t \<and> (t = None \<longleftrightarrow> spawns [R, Q, T, L] ''u'' = []
      \<or> settlements [R, Q, T, L] ''u'' (int (length (spawns [R, Q, T, L] ''u''))) = []
      \<or> (retry_due [R, Q, T, L] ''u'' \<and> int (length (spawns [R, Q, T, L] ''u'')) < 3))"
    by (rule terminal_eq [OF inv_rows(1) [OF inv] S [symmetric] q(6) refl])
  with q obtain st where "terminal_of [R, Q, T, L] R ''d'' ''u'' = Inr (Some st)"
    by (auto simp: retry_due_def simp del: int_values_eq)
  then show ?thesis
    using dispatch_records_inv [OF inv, of "''d''"] visible_clean [OF demo_history4(2)] S q(4,5)
    by (simp add: terminal_attempt_status_def safe_identifier_ok demo_texts require_manifest_eq [THEN iffD2]
        unit_named_def demo_unit_def)
qed

lemma demo_report: "\<exists>r. settlement_report demo_saga ''d'' demo_file4 = (Inr r, demo_file4) \<and> \<not> cr_halt r"
proof -
  obtain R Q T L where S: "scoped (history demo_file4) ''d'' = [R, Q, T, L]"
    and q: "settlements [R, Q, T, L] ''u'' 1 = [T]" "late_seen [R, Q, T, L] ''u'' 1"
      "spawns [R, Q, T, L] ''u'' = [Q]" "manifests [R, Q, T, L] = [R]" "manifest_units R = Inr [demo_unit]"
      "threshold_value (jget R ''casualty_threshold_percent'' JNull) = Inr 0" "spawn_rows [R, Q, T, L] = [Q]"
      "attempt_of Q = 1"
    using demo_scope4 unfolding demo_view_def Let_def by (elim exE conjE)
  let ?S = "[R, Q, T, L]"
  have inv: "ledger_inv demo_saga demo_file4"
    by (rule ledger_reachable_inv [OF demo_reachable4 demo_saga_ok])
  have at: "settlement_at ?S ''u'' 1 = Some T" using q(1) by (simp add: settlement_at_def)
  have "latest_state ?S ''u'' = (1, delivered)"
    unfolding latest_state_def Let_def spawns_def [symmetric] q(3) by (simp add: at q(2,8))
  then have latest: "latest_states [demo_unit] ?S = [(''u'', 1, delivered)]"
    by (simp add: latest_states_def demo_unit_def)
  have "report_attempts ?S = [1]" using q(8) unfolding report_attempts_def q(7) by simp
  moreover have "report_entries [demo_unit] ?S = [report_entry ?S 1 ''u'']"
    unfolding report_entries_def \<open>report_attempts ?S = [1]\<close> by (simp add: cohort_units_def demo_unit_def)
  moreover have "unresolved [(''u'', 1, delivered)] ?S 1 ''u'' = Inr False"
    unfolding unresolved_def at by simp
  ultimately have "threshold_breach 0 (latest_states [demo_unit] ?S) ?S (report_entries [demo_unit] ?S)
      (report_attempts ?S) = Inr False"
    unfolding latest by (simp add: exceeds_def)
  moreover have "require_manifest ?S = Inr R" using q(4) by (simp only: require_manifest_eq)
  ultimately have "\<exists>r. report_of ''d'' ?S = Inr r \<and> \<not> cr_halt r"
    using q(5,6) latest by (simp add: report_of_def Let_def ledger_classifications_def del: int_values_eq)
  then show ?thesis
    using dispatch_records_inv [OF inv, of "''d''"] visible_clean [OF demo_history4(2)] S
    by (simp add: settlement_report_def safe_identifier_ok demo_texts)
qed

text \<open>The run through the files, which then stays at the third under refused writes.\<close>

definition demo_run :: "nat \<Rightarrow> ledger_file" where
  "demo_run i = (if i = 0 then new_ledger else if i = 1 then demo_file1 else if i = 2 then demo_file2
     else demo_file3)"

lemma demo_refused: "append_manifest h [] f = (Inl DispatchSettlementError, f)"
  by (simp add: append_manifest_def canonical_fact_def Let_def jget_def rebuild_fact_def
      event_manifest_def event_spawn_def event_settle_def event_late_delivery_def)

lemma demo_run_steps: "ledger_step demo_saga (demo_run i) (demo_run (Suc i))"
proof -
  consider "i = 0" | "i = 1" | "i = 2" | "3 \<le> i" by linarith
  then show ?thesis
  proof cases
    case 1
    then show ?thesis
      using completed [OF manifest_write [OF fact_items_wf prod.collapse [symmetric]]]
      by (simp add: demo_run_def demo_file1_def)
  next
    case 2
    then show ?thesis
      using completed [OF spawn_write [OF fact_items_wf prod.collapse [symmetric]]]
      by (simp add: demo_run_def demo_file2_def)
  next
    case 3
    then show ?thesis
      using completed [OF settlement_write [OF fact_items_wf prod.collapse [symmetric]]]
      by (simp add: demo_run_def demo_file3_def)
  next
    case 4
    then show ?thesis
      using completed [OF manifest_write [OF _ demo_refused, of demo_saga demo_file3]]
      by (simp add: demo_run_def wf_dict_def)
  qed
qed

end
