(* ===== verification/Dispatch_Laws.thy ===== *)
theory Dispatch_Laws
  imports Dispatch_Demo
begin

text \<open>
  What the writers of the dispatch ledger guarantee for the attempts of a unit, whatever the order
  of the calls, their arguments and the crashes between them.
\<close>

text \<open>Whether a spawn is accepted is up to the guard alone.\<close>

lemma append_spawn_result:
  assumes "ledger_inv h f" "fact_ok h (SpawnF s at d u n key)"
  shows "fst (append_spawn h (fact_items (SpawnF s at d u n key)) f) \<in> range Inr \<longleftrightarrow>
      check_spawn h d u n key (snap (history f)) = Inr ()"
    and "fst (append_spawn h (fact_items (SpawnF s at d u n key)) f) \<notin> range Inr \<Longrightarrow>
      history (snd (append_spawn h (fact_items (SpawnF s at d u n key)) f)) = history f"
  using append_canonical [OF assms(1,2), of event_spawn "\<lambda>c. check_spawn h (text_of c ''dispatch_id'')
      (text_of c ''unit_id'') (attempt_of c) (text_of c ''idempotency_key'')"]
  by (auto simp: append_spawn_def heal_torn_tail_def history_def split: sum.splits)

text \<open>C15: On every ledger the program can leave behind the facts of a dispatch read without error, and
  the attempts of a unit are numbered 1 to k with k at most three; an attempt is settled at most
  once and only if it was spawned, one late delivery is noted at most once and only after a
  casualty, and every attempt but the last ended as a casualty.\<close>

theorem attempts_bounded:
  assumes "ledger_reachable h f" "digest_host h"
  shows "\<exists>S k. dispatch_records h d f = (Inr S, f) \<and> k \<le> 3
    \<and> map attempt_of (filter (of_unit event_spawn u) S) = up_to k
    \<and> (\<forall>n. length (settlements S u n) \<le> 1)
    \<and> (\<forall>n. settlements S u n \<noteq> [] \<longrightarrow> 1 \<le> n \<and> n \<le> int k)
    \<and> (\<forall>n. length (filter (of_attempt event_late_delivery u n) S) \<le> 1)
    \<and> (\<forall>n. late_seen S u n \<longrightarrow> one_casualty (settlements S u n))
    \<and> (\<forall>n. 1 \<le> n \<longrightarrow> n < int k \<longrightarrow> one_casualty (settlements S u n))"
proof -
  let ?S = "scoped (visible f) d"
  have inv: "ledger_inv h f" by (rule ledger_reachable_inv [OF assms])
  then have vis: "dispatch_inv h (visible f)" by (simp add: ledger_inv_def sound_rows_def)
  then have course: "course_ok ?S u" by (simp add: dispatch_inv_def)
  have "length (spawns ?S u) \<le> 3"
  proof (cases "spawns ?S u = []")
    case False
    then have "declared ?S u" using vis by (simp add: dispatch_inv_def)
    then show ?thesis by (auto simp: declared_def max_attempts_limit_def)
  qed simp
  with course dispatch_records_inv [OF inv, of d] show ?thesis
    by (intro exI [of _ ?S] exI [of _ "length (spawns ?S u)"])
       (simp add: course_ok_def Let_def spawns_def)
qed

theorem attempts_bounded_witness:
  "\<exists>S k. dispatch_records demo_saga ''d'' demo_file3 = (Inr S, demo_file3) \<and> k \<le> 3
    \<and> map attempt_of (filter (of_unit event_spawn ''u'') S) = up_to k"
  using attempts_bounded [OF demo_written(4) demo_saga_ok, of "''d''" "''u''"] by blast

text \<open>What the guard of a spawn asks for.\<close>

definition spawn_due :: "json dict list \<Rightarrow> string \<Rightarrow> int \<Rightarrow> string \<Rightarrow> bool" where
  "spawn_due S u n key \<longleftrightarrow>
    (\<exists>m us spec mx. require_manifest S = Inr m \<and> manifest_units m = Inr us
       \<and> unit_named u us = Some spec \<and> key = idempotency_key spec
       \<and> max_attempts_value (jget m ''max_attempts'' JNull) = Inr mx \<and> n \<le> mx
       \<and> n = int (length (spawns S u)) + 1
       \<and> (n = 1 \<or> one_casualty (settlements S u (n - 1)) \<and> \<not> late_seen S u (n - 1)))"

lemma spawn_accepted_due:
  assumes "ledger_inv h f" "fact_ok h (SpawnF s at d u n key)"
  shows "fst (append_spawn h (fact_items (SpawnF s at d u n key)) f) \<in> range Inr
    \<longleftrightarrow> spawn_due (scoped (history f) d) u n key"
proof -
  have one: "1 \<le> n" using assms(2) by (simp add: fact_ok_def)
  have "check_spawn h d u n key (snap (history f)) = Inr () \<longleftrightarrow> spawn_due (scoped (history f) d) u n key"
    using one unfolding check_spawn_ok [OF inv_rows(1,2) [OF assms(1)]] require_manifest_eq spawn_due_def
    by (auto simp del: int_values_eq)
  then show ?thesis unfolding append_spawn_result(1) [OF assms] .
qed

text \<open>C23: A spawn is accepted exactly when the manifest of its dispatch declares its unit with that
  key, its attempt is the next one and within the manifest's limit, and the attempt before it ended
  as one casualty that no late delivery has answered; a refused spawn leaves the records alone.\<close>

theorem spawn_accepted_iff:
  assumes "ledger_reachable h f" "digest_host h" "fact_ok h (SpawnF s at d u n key)"
    and "append_spawn h (fact_items (SpawnF s at d u n key)) f = (res, f')"
  shows "(res \<in> range Inr \<longleftrightarrow>
    (\<exists>m us spec mx. require_manifest (scoped (history f) d) = Inr m \<and> manifest_units m = Inr us
       \<and> unit_named u us = Some spec \<and> key = idempotency_key spec
       \<and> max_attempts_value (jget m ''max_attempts'' JNull) = Inr mx \<and> n \<le> mx
       \<and> n = int (length (spawns (scoped (history f) d) u)) + 1
       \<and> (n = 1 \<or> one_casualty (settlements (scoped (history f) d) u (n - 1))
                    \<and> \<not> late_seen (scoped (history f) d) u (n - 1))))
    \<and> (res \<notin> range Inr \<longrightarrow> history f' = history f)"
proof (intro conjI impI)
  have inv: "ledger_inv h f" by (rule ledger_reachable_inv [OF assms(1,2)])
  show "res \<in> range Inr \<longleftrightarrow>
    (\<exists>m us spec mx. require_manifest (scoped (history f) d) = Inr m \<and> manifest_units m = Inr us
       \<and> unit_named u us = Some spec \<and> key = idempotency_key spec
       \<and> max_attempts_value (jget m ''max_attempts'' JNull) = Inr mx \<and> n \<le> mx
       \<and> n = int (length (spawns (scoped (history f) d) u)) + 1
       \<and> (n = 1 \<or> one_casualty (settlements (scoped (history f) d) u (n - 1))
                    \<and> \<not> late_seen (scoped (history f) d) u (n - 1)))"
    using spawn_accepted_due [OF inv assms(3)] unfolding assms(4) fst_conv spawn_due_def .
  show "history f' = history f" if "res \<notin> range Inr"
    using append_spawn_result(2) [OF inv assms(3)] that unfolding assms(4) by simp
qed

lemma demo_respawn_ok: "fact_ok demo_saga (SpawnF ''s'' ''t'' ''d'' ''u'' 2 ''key'')"
  using demo_fact_ok(2) [of 2] by (simp add: demo_spawn_def)

theorem spawn_accepted_iff_witness:
  "fst (append_spawn demo_saga (fact_items (SpawnF ''s'' ''t'' ''d'' ''u'' 2 ''key'')) demo_file3) \<in> range Inr"
proof -
  have "unit_named ''u'' [demo_unit] = Some demo_unit" "idempotency_key demo_unit = ''key''"
    by (simp_all add: unit_named_def demo_unit_def)
  with demo_retry_due show ?thesis
    unfolding conjunct1 [OF spawn_accepted_iff [OF demo_written(4) demo_saga_ok demo_respawn_ok prod.collapse [symmetric]]]
    by (elim exE conjE, intro exI conjI) (assumption | simp)+
qed

text \<open>
  A status is read from the visible records.  A record that lacks only its newline is visible, but the
  next append drops it: the status of the healed ledger is the one that lasts.
\<close>

lemma terminal_attempt_visible:
  assumes "ledger_inv h f" "ledger_inv h g" "visible g = visible f" "id_ok d" "id_ok u"
    and "terminal_attempt_status h d u f = (r, f)"
  shows "terminal_attempt_status h d u g = (r, g)"
proof -
  have "terminal_attempt_status h d u k =
      (bind_res (require_manifest (scoped (visible f) d)) (\<lambda>m.
       bind_res (manifest_units m) (\<lambda>us.
       if unit_named u us = None then Inl DispatchSettlementError
       else terminal_of (scoped (visible f) d) m d u)), k)"
    if "ledger_inv h k" "visible k = visible f" for k
    using dispatch_records_inv [OF that(1), of d] assms(4,5)
    by (simp add: terminal_attempt_status_def safe_identifier_ok that(2) bind_res_def split: sum.splits)
  with assms show ?thesis by simp
qed

lemma ledger_inv_heal:
  assumes "ledger_inv h f"
  shows "ledger_inv h (heal_torn_tail f)" "visible (heal_torn_tail f) = history f"
proof -
  show "visible (heal_torn_tail f) = history f" using visible_clean by fastforce
  with assms show "ledger_inv h (heal_torn_tail f)" by (simp add: ledger_inv_def)
qed

text \<open>C17: A terminal status is final: once the complete lines of the ledger, those that the next
  append keeps, report a unit as delivered, delivered late or out of attempts, no sequence of later
  writes, refused calls and crashes adds an attempt of it.  (A last line without its newline is not
  complete: the status it gives is lost with it.)\<close>

theorem terminal_forever:
  assumes "ledger_reachable h f" "digest_host h"
    and "terminal_attempt_status h d u (heal_torn_tail f) = (Inr (Some st), heal_torn_tail f)"
    and "id_ok d" "id_ok u" "ledger_steps h f f'"
  shows "filter (of_unit event_spawn u) (scoped (history f') d)
    = filter (of_unit event_spawn u) (scoped (history f) d)"
proof -
  have inv: "ledger_inv h f" by (rule ledger_reachable_inv [OF assms(1,2)])
  note healed = ledger_inv_heal [OF inv]
  obtain m where m: "manifests (scoped (history f) d) = [m]" "terminal_of (scoped (history f) d) m d u = Inr (Some st)"
    using assms(3-5) dispatch_records_inv [OF healed(1), of d]
    by (auto simp: terminal_attempt_status_def healed(2) require_manifest_eq safe_identifier_ok
        split: sum.splits if_splits)
  obtain g where g: "row_of h m g" "fact_event g = event_manifest" by (rule manifest_row [OF inv_rows(1) [OF inv] m(1)])
  from over_steps [OF assms(6,2) inv m(1) row_manifest(3) [OF g]]
    terminal_over [OF inv refl m(1) row_manifest(3) [OF g] m(2)]
  show ?thesis by (simp add: spawns_def)
qed

theorem terminal_forever_witness:
  "filter (of_unit event_spawn ''u'')
      (scoped (history (snd (append_spawn demo_saga (fact_items (demo_spawn 2)) demo_file4))) ''d'')
    = filter (of_unit event_spawn ''u'') (scoped (history demo_file4) ''d'')"
proof -
  have heal: "heal_torn_tail demo_file4 = demo_file4"
    using demo_history4(2) by (simp add: heal_torn_tail_def)
  obtain st where st: "terminal_attempt_status demo_saga ''d'' ''u'' demo_file4 = (Inr (Some st), demo_file4)"
    using demo_over by blast
  have "ledger_steps demo_saga demo_file4 (snd (append_spawn demo_saga (fact_items (demo_spawn 2)) demo_file4))"
    by (rule one_more [OF no_step completed [OF spawn_write [OF fact_items_wf prod.collapse [symmetric]]]])
  with terminal_forever [OF demo_reachable4 demo_saga_ok _ demo_texts(2,3)] st show ?thesis
    by (simp add: heal)
qed

text \<open>
  The condition is needed: the late delivery of the fourth file, written up to its newline, ends the
  unit for every reader, and the next spawn drops it and starts the second attempt.
\<close>

lemma torn_status_not_final:
  "\<exists>f st. ledger_reachable demo_saga f
    \<and> terminal_attempt_status demo_saga ''d'' ''u'' f = (Inr (Some st), f)
    \<and> fst (append_spawn demo_saga (fact_items (SpawnF ''s'' ''t'' ''d'' ''u'' 2 ''key'')) f) \<in> range Inr"
proof -
  have "demo_file4 \<in> {heal_torn_tail demo_file3, grown demo_saga demo_file3 (fact_items demo_late)}"
    using append_canonical [OF ledger_reachable_inv [OF demo_written(4) demo_saga_ok] demo_late_ok refl,
        of "\<lambda>c. check_late_delivery demo_saga (text_of c ''dispatch_id'') (text_of c ''unit_id'') (attempt_of c)"]
    by (simp add: demo_file4_def append_late_delivery_def demo_late_def split: sum.splits)
  moreover have "history demo_file4 \<noteq> history demo_file3"
    using demo_history3(1) demo_history4(1) by (fastforce simp: demo_rows_def dest: list_all2_lengthD)
  then have "demo_file4 \<noteq> heal_torn_tail demo_file3" using history_heal(1) by metis
  ultimately have new: "demo_file4 = grown demo_saga demo_file3 (fact_items demo_late)" by blast
  obtain l where l: "lines demo_file4 = lines demo_file3 @ [l]"
    by (rule that [of "Row (norm_items (chained demo_saga (history demo_file3) (fact_items demo_late)))"])
      (simp add: new grown_def)
  define f where "f = demo_file3\<lparr>torn := Some l\<rparr>"
  have "ledger_step demo_saga demo_file3 f"
    unfolding f_def
    by (rule cut_short [OF late_write [OF fact_items_wf prod.collapse [symmetric]] l [unfolded demo_file4_def]]) simp
  then have reach: "ledger_reachable demo_saga f"
    using demo_written(4) one_more unfolding ledger_reachable_def by blast
  have "all_lines f = lines demo_file4" by (simp add: f_def all_lines_def l)
  then have "visible f = visible demo_file4"
    using visible_clean [OF demo_history4(2)] by (simp add: visible_def history_def)
  then obtain st where "terminal_attempt_status demo_saga ''d'' ''u'' f = (Inr (Some st), f)"
    using demo_over terminal_attempt_visible [OF _ _ _ demo_texts(2,3)]
      ledger_reachable_inv [OF _ demo_saga_ok] demo_reachable4 reach by blast
  moreover have "history f = history demo_file3" by (simp add: f_def history_def)
  moreover have "spawn_due (scoped (history demo_file3) ''d'') ''u'' 2 ''key''"
  proof -
    have "unit_named ''u'' [demo_unit] = Some demo_unit" "idempotency_key demo_unit = ''key''"
      by (simp_all add: unit_named_def demo_unit_def)
    with demo_retry_due show ?thesis
      unfolding spawn_due_def by (elim exE conjE, intro exI conjI) (assumption | simp)+
  qed
  ultimately show ?thesis
    using reach spawn_accepted_due [OF ledger_reachable_inv [OF reach demo_saga_ok] demo_respawn_ok]
    by auto
qed

text \<open>C16: The ledger implements the attempt machine: under every step, a completed write of any kind
  or one that a crash cut short, the attempts of every unit of every dispatch either stay as they
  are or take one step of the machine with the manifest's attempt limit.\<close>

theorem ledger_refines_machine:
  assumes "ledger_reachable h f" "digest_host h" "ledger_step h f f'"
  shows "attempts (scoped (history f') d) u = attempts (scoped (history f) d) u
    \<or> (\<exists>m mx. require_manifest (scoped (history f) d) = Inr m
         \<and> max_attempts_value (jget m ''max_attempts'' JNull) = Inr mx
         \<and> unit_step mx (attempts (scoped (history f) d) u) (attempts (scoped (history f') d) u))"
  using step_refines [OF ledger_reachable_inv [OF assms(1,2)] assms(3), of d u]
  unfolding refines_unit_def require_manifest_eq .

theorem ledger_refines_machine_witness:
  "attempts (scoped (history demo_file3) ''d'') ''u'' = attempts (scoped (history demo_file2) ''d'') ''u''
    \<or> (\<exists>m mx. require_manifest (scoped (history demo_file2) ''d'') = Inr m
         \<and> max_attempts_value (jget m ''max_attempts'' JNull) = Inr mx
         \<and> unit_step mx (attempts (scoped (history demo_file2) ''d'') ''u'')
             (attempts (scoped (history demo_file3) ''d'') ''u''))"
proof -
  have "ledger_step demo_saga demo_file2 demo_file3"
    using demo_run_steps [of 2] by (simp add: demo_run_def)
  from ledger_refines_machine [OF demo_written(3) demo_saga_ok this] show ?thesis .
qed

text \<open>C18: The attempts of a unit settle down: along any infinite run of ledger steps, from some point
  on the attempts of the unit, their classifications and late deliveries never change again.\<close>

theorem attempts_settle_down:
  assumes "ledger_reachable h (run 0)" "digest_host h" "\<And>i. ledger_step h (run i) (run (Suc i))"
  shows "\<exists>n. \<forall>i \<ge> n. attempts (scoped (history (run i)) d) u = attempts (scoped (history (run n)) d) u"
proof (rule bounded_progress [of _ weight 9])
  fix i
  have inv: "ledger_inv h (run i)"
    by (induction i) (auto intro: ledger_reachable_inv [OF assms(1,2)] step_inv [OF assms(2)] assms(3))
  show "attempts (scoped (history (run (Suc i))) d) u = attempts (scoped (history (run i)) d) u
      \<or> weight (attempts (scoped (history (run i)) d) u) < weight (attempts (scoped (history (run (Suc i))) d) u)"
    using step_refines [OF inv assms(3), of d u] unit_step_weight unfolding refines_unit_def by blast
  show "weight (attempts (scoped (history (run i)) d) u) \<le> 9"
    using weight_bound [of "attempts (scoped (history (run i)) d) u"] attempts_limit [OF inv, of d u]
    by linarith
qed

theorem attempts_settle_down_witness:
  "\<exists>n. \<forall>i \<ge> n. attempts (scoped (history (demo_run i)) ''d'') ''u''
    = attempts (scoped (history (demo_run n)) ''d'') ''u''"
proof -
  have "ledger_reachable demo_saga (demo_run 0)" using demo_written(1) by (simp add: demo_run_def)
  from attempts_settle_down [OF this demo_saga_ok demo_run_steps] show ?thesis .
qed

end
