(* ===== verification/Dispatch_Settling.thy ===== *)
theory Dispatch_Settling
  imports Dispatch_Laws
begin

text \<open>
  Settling an attempt: the first settlement is recorded, a delivery after a casualty is noted as late,
  and asking again with the same evidence answers with the record that is already there.
\<close>

section \<open>The facts a settlement proposes\<close>

definition evidence_args :: "(string \<times> string) option \<Rightarrow> string \<times> string" where
  "evidence_args ev = (case ev of None \<Rightarrow> ([], []) | Some e \<Rightarrow> e)"

lemma settle_proposes:
  assumes "fact_ok h g" "g = SettleF s at d u n cls why ev" "evidence_args ev = (ref, sha)"
  shows "settle_fact h (JStr s) (JStr at) (JStr d) (JStr u) (JInt n) cls (JStr why) ref sha = Inr (fact_items g)"
    and "cls = delivered \<Longrightarrow> late_delivery_fact h (JStr s) (JStr at) (JStr d) (JStr u) (JInt n) (JStr ref) (JStr sha)
      = Inr (fact_items (LateF s at d u n ref sha)) \<and> fact_ok h (LateF s at d u n ref sha)"
proof -
  have ok: "strip s = s" "strip at = at" "strip d = d" "strip u = u" "strip why = why" "strip cls = cls"
    using assms(1,2) by (auto simp: fact_ok_def id_ok_strip stamp_ok_def line_ok_def strip_classification)
  show "settle_fact h (JStr s) (JStr at) (JStr d) (JStr u) (JInt n) cls (JStr why) ref sha = Inr (fact_items g)"
    using assms by (auto simp: ok Let_def evidence_args_def settle_evidence_def fact_ok_def id_ok_strip
        sha256_text_fixed split: option.splits)
  show "late_delivery_fact h (JStr s) (JStr at) (JStr d) (JStr u) (JInt n) (JStr ref) (JStr sha)
      = Inr (fact_items (LateF s at d u n ref sha)) \<and> fact_ok h (LateF s at d u n ref sha)" if "cls = delivered"
    using assms that by (auto simp: ok Let_def evidence_args_def fact_ok_def id_ok_strip
        sha256_text_fixed delivered_def silent_noop_def split: option.splits)
qed

lemma chained_again:
  "norm_items (norm_items (chained h rs (fact_items g))) = norm_items (chained h rs (fact_items g))"
  by (rule norm_items_idem [OF chained_wf [OF fact_items_wf]])

lemma find_last: "find P xs = None \<Longrightarrow> find P (xs @ [x]) = (if P x then Some x else None)"
  by (induction xs) (auto split: if_splits)

lemma row_fields:
  assumes "row_of h R g" "set keys \<inter> set chain_fields = {}"
  shows "same_fields keys R (fact_items g)"
proof -
  have "json_norm (jfield R k) = json_norm (jfield (fact_items g) k)" if "k \<in> set keys" for k
  proof -
    have "k \<notin> set chain_fields" using assms(2) that by blast
    then show ?thesis
      using spells_lookup [OF row_spells [OF assms(1)], of k]
      by (auto simp: jfield_def row_lookup split: option.splits)
  qed
  then show ?thesis by (simp add: same_fields_def list_all_iff)
qed

section \<open>Asking again\<close>

lemma settle_cases:
  assumes "ledger_inv h f" "torn f = None" "fact_ok h g" "g = SettleF s at d u n cls why ev"
    and "evidence_args ev = (ref, sha)"
  shows "settle_attempt h s at d u n cls why ref sha f =
    (case settlements (scoped (history f) d) u n of
       [] \<Rightarrow> append_settlement h (fact_items g) f
     | [p] \<Rightarrow> settle_again h s at d u n cls why ref sha (scoped (history f) d) p f
     | _ \<Rightarrow> (Inl DispatchSettlementError, f))"
proof -
  have "attempt_value (JInt n) = Inr n" "id_ok d" using assms(3,4) by (simp_all add: fact_ok_def)
  moreover have "sound_rows h (history f)" using assms(1) by (simp add: ledger_inv_def)
  ultimately show ?thesis
    using verified_snapshot_inv [OF assms(1)] visible_clean [OF assms(2)] fact_records_sound [of h "history f" d]
      settle_proposes(1) [OF assms(3-5)]
    by (auto simp: settle_attempt_def safe_identifier_ok split: list.splits simp del: settle_fact_eq int_values_eq)
qed


lemma settled_repeats:
  assumes "ledger_reachable h f" "digest_host h" "torn f = None"
    and g: "fact_ok h g" "g = SettleF s at d u n cls why ev" "evidence_args ev = (ref, sha)"
    and none: "settlements (scoped (history f) d) u n = []"
    and r: "append_settlement h (fact_items g) f = (Inr r, f')"
  shows "\<exists>r'. settle_attempt h s at d u n cls why ref sha f' = (Inr r', f') \<and> same_dict r r'"
proof -
  let ?R = "norm_items (chained h (history f) (fact_items g))"
  let ?v = "\<lambda>c. check_settlement h (text_of c ''dispatch_id'') (text_of c ''unit_id'') (attempt_of c)"
  have inv: "ledger_inv h f" by (rule ledger_reachable_inv [OF assms(1,2)])
  have "ledger_reachable h f'" by (rule grown_reachable [OF assms(1) settlement_write [OF fact_items_wf r]])
  then have inv': "ledger_inv h f'" by (rule ledger_reachable_inv [OF _ assms(2)])
  have res: "r = chained h (history f) (fact_items g)" "f' = grown h f (fact_items g)"
    using r append_canonical [OF inv g(1), of event_settle ?v] g(2)
    by (auto simp: append_settlement_def split: sum.splits)
  have torn: "torn f' = None" by (simp add: res(2) grown_def)
  have dims: "d_dispatch g = d" "fact_event g = event_settle" "d_unit g = u" "d_attempt g = n"
    by (simp_all add: g(2))
  have row: "row_of h ?R g" by (rule new_row [OF g(1)])
  have "settlements (scoped (history f') d) u n = [?R]"
    using none unfolding res(2) history_grown scoped_snoc [OF row]
    by (simp add: dims settlements_snoc [OF row])
  then have "settle_attempt h s at d u n cls why ref sha f' =
      settle_again h s at d u n cls why ref sha (scoped (history f') d) ?R f'"
    by (simp add: settle_cases [OF inv' torn g])
  also have "\<dots> = (Inr ?R, f')"
    using row_class(1) [OF row] settle_proposes(1) [OF g] row_fields [OF row, of evidence_fields]
    by (simp add: settle_again_def Let_def g(2) jget_def evidence_fields_def chain_fields_def del: settle_fact_eq)
  finally show ?thesis
    by (simp add: res(1) same_dict_def chained_again)
qed

lemma late_repeats:
  assumes "ledger_reachable h f" "digest_host h" "torn f = None"
    and g: "fact_ok h g" "g = SettleF s at d u n cls why ev" "evidence_args ev = (ref, sha)"
    and prior: "settlements (scoped (history f) d) u n = [p]"
    and r: "settle_again h s at d u n cls why ref sha (scoped (history f) d) p f = (Inr r, f')" "f' \<noteq> f"
  shows "\<exists>r'. settle_attempt h s at d u n cls why ref sha f' = (Inr r', f') \<and> same_dict r r'"
proof -
  let ?S = "scoped (history f) d" and ?l = "LateF s at d u n ref sha"
  have late: "cls = delivered" "py_str (jget p ''classification'' JNull) \<noteq> cls"
    "py_str (jget p ''classification'' JNull) \<in> set casualty_classifications"
    "find (of_attempt event_late_delivery u n) ?S = None"
    using r by (auto simp: settle_again_def Let_def split: if_splits sum.splits option.splits)
  note l = settle_proposes(2) [OF g late(1)]
  have app: "append_late_delivery h (fact_items ?l) f = (Inr r, f')"
    using r(1) late l by (simp add: settle_again_def Let_def del: late_delivery_fact_eq)
  let ?R = "norm_items (chained h (history f) (fact_items ?l))"
  let ?v = "\<lambda>c. check_late_delivery h (text_of c ''dispatch_id'') (text_of c ''unit_id'') (attempt_of c)"
  have inv: "ledger_inv h f" by (rule ledger_reachable_inv [OF assms(1,2)])
  have "ledger_reachable h f'" by (rule grown_reachable [OF assms(1) late_write [OF fact_items_wf app]])
  then have inv': "ledger_inv h f'" by (rule ledger_reachable_inv [OF _ assms(2)])
  have res: "r = chained h (history f) (fact_items ?l)" "f' = grown h f (fact_items ?l)"
    using app append_canonical [OF inv conjunct2 [OF l], of event_late_delivery ?v]
    by (auto simp: append_late_delivery_def split: sum.splits)
  have torn: "torn f' = None" by (simp add: res(2) grown_def)
  have row: "row_of h ?R ?l" by (rule new_row [OF conjunct2 [OF l]])
  have S': "scoped (history f') d = ?S @ [?R]"
    unfolding res(2) history_grown scoped_snoc [OF row] by simp
  have "settlements (?S @ [?R]) u n = [p]" using prior by (simp add: settlements_snoc [OF row])
  then have "settle_attempt h s at d u n cls why ref sha f' =
      settle_again h s at d u n cls why ref sha (?S @ [?R]) p f'"
    by (simp add: settle_cases [OF inv' torn g] S')
  also have "\<dots> = (Inr ?R, f')"
  proof -
    have "find (of_attempt event_late_delivery u n) (?S @ [?R]) = Some ?R"
      using late(4) row_of_attempt [OF row, of event_late_delivery u n]
      by (simp add: find_last)
    moreover have "has ?R ''evidence_ref'' (JStr ref)" "has ?R ''evidence_sha256'' (JStr sha)"
      unfolding has_def by (rule row_text_field [OF row]; simp)+
    ultimately show ?thesis using late(1-3) by (simp add: settle_again_def Let_def)
  qed
  finally show ?thesis
    by (simp add: res(1) same_dict_def chained_again)
qed


text \<open>C21: Settling is idempotent: when settling an attempt succeeds, with the canonical values of a
  settlement, doing it again with the same values succeeds, writes nothing and answers with the
  record the first call wrote or found, be it the settlement or the note of a late delivery.\<close>

theorem settle_attempt_repeats:
  assumes "ledger_reachable h f" "digest_host h" "torn f = None"
    and "fact_ok h (SettleF s at d u n cls why ev)" "evidence_args ev = (ref, sha)"
    and "settle_attempt h s at d u n cls why ref sha f = (Inr r, f')"
  shows "\<exists>r'. settle_attempt h s at d u n cls why ref sha f' = (Inr r', f') \<and> same_dict r r'"
proof (cases "f' = f")
  case True
  then show ?thesis using assms(6) by auto
next
  case False
  have inv: "ledger_inv h f" by (rule ledger_reachable_inv [OF assms(1,2)])
  note first = settle_cases [OF inv assms(3,4) refl assms(5), unfolded assms(6)]
  show ?thesis
  proof (rule settlements_cases [OF inv_rows(3) [OF inv, of d u], of n])
    assume none: "settlements (scoped (history f) d) u n = []"
    with first show ?thesis
      using settled_repeats [OF assms(1-4) refl assms(5)] by simp
  next
    fix p assume p: "settlements (scoped (history f) d) u n = [p]"
    with first show ?thesis
      using late_repeats [OF assms(1-4) refl assms(5)] False by simp
  qed
qed

lemma demo_settled:
  "\<exists>r. settle_attempt demo_saga ''s'' ''t'' ''d'' ''u'' 1 silent_noop ''why'' [] [] demo_file2
    = (Inr r, demo_file3)"
proof -
  let ?v = "\<lambda>c. check_settlement demo_saga (text_of c ''dispatch_id'') (text_of c ''unit_id'') (attempt_of c)"
  have g: "fact_ok demo_saga (demo_settle 1)" "fact_event (demo_settle 1) = event_settle"
    using demo_fact_ok(3) [of 1] by (simp_all add: demo_settle_def)
  have inv: "ledger_inv demo_saga demo_file2"
    by (rule ledger_reachable_inv [OF demo_written(3) demo_saga_ok])
  obtain R Q where R: "history demo_file2 = [R, Q]" "row_of demo_saga R demo_manifest"
    "row_of demo_saga Q (demo_spawn 1)"
    using demo_history2(1) by (auto simp: demo_rows_def list_all2_Cons2)
  have "settlements (scoped (history demo_file2) ''d'') ''u'' 1 = []"
    using R by (simp add: settlements_def scoped_def row_of_attempt row_is_fact row_dispatch demo_manifest_def
        demo_spawn_def)
  then have "settle_attempt demo_saga ''s'' ''t'' ''d'' ''u'' 1 silent_noop ''why'' [] [] demo_file2
      = append_settlement demo_saga (fact_items (demo_settle 1)) demo_file2"
    using settle_cases [OF inv demo_history2(2) g(1) demo_settle_def] by (simp add: evidence_args_def)
  moreover have "length (history demo_file3) \<noteq> length (history demo_file2)"
    using demo_history2(1) demo_history3(1) by (simp add: demo_rows_def list_all2_lengthD)
  ultimately show ?thesis
    using append_canonical [OF inv g, of ?v] unfolding append_settlement_def demo_file3_def
    by (auto simp: heal_torn_tail_def history_def split: sum.splits)
qed

theorem settle_attempt_repeats_witness:
  "\<exists>r r'. settle_attempt demo_saga ''s'' ''t'' ''d'' ''u'' 1 silent_noop ''why'' [] [] demo_file2 = (Inr r, demo_file3)
    \<and> settle_attempt demo_saga ''s'' ''t'' ''d'' ''u'' 1 silent_noop ''why'' [] [] demo_file3 = (Inr r', demo_file3)
    \<and> same_dict r r'"
proof -
  obtain r where r: "settle_attempt demo_saga ''s'' ''t'' ''d'' ''u'' 1 silent_noop ''why'' [] [] demo_file2
    = (Inr r, demo_file3)"
    using demo_settled by blast
  have "fact_ok demo_saga (SettleF ''s'' ''t'' ''d'' ''u'' 1 silent_noop ''why'' None)"
    using demo_fact_ok(3) [of 1] by (simp add: demo_settle_def)
  from settle_attempt_repeats [OF demo_written(3) demo_saga_ok demo_history2(2) this _ r] r show ?thesis
    by (auto simp: evidence_args_def)
qed

end
