(* ===== verification/Dispatch_Driver.thy ===== *)
theory Dispatch_Driver
  imports Dispatch_Settling
begin

text \<open>
  What the operations a driver calls promise: the retry queue, preparing an attempt, and the gate
  the settlement report keeps.
\<close>

text \<open>C22: The retry queue and the guard of the writer agree: on a clean reachable ledger a unit is listed
  as a dead letter for its next attempt exactly when appending the spawn of that attempt, which is
  never a first one, would be accepted.\<close>

theorem dead_letters_are_admissible:
  assumes "ledger_reachable h f" "digest_host h" "torn f = None"
    and "fact_ok h (SpawnF s at d u n key)" "dead_letters h (Some d) f = (Inr ls, f)"
  shows "(\<exists>l \<in> set ls. dl_unit l = u \<and> next_attempt l = n \<and> dl_key l = key)
    \<longleftrightarrow> 1 < n \<and> fst (append_spawn h (fact_items (SpawnF s at d u n key)) f) \<in> range Inr"
proof -
  have inv: "ledger_inv h f" by (rule ledger_reachable_inv [OF assms(1,2)])
  then have "sound_rows h (history f)" by (simp add: ledger_inv_def)
  moreover have "dead_letters_of (history f) (Some d) = Inr ls"
    using assms(5) verified_snapshot_inv [OF inv] visible_clean [OF assms(3)]
    by (simp add: dead_letters_def snap_def)
  ultimately show ?thesis
    unfolding append_spawn_result(1) [OF inv assms(4)] by (rule dead_letter_admitted)
qed

theorem dead_letters_are_admissible_witness:
  "\<exists>ls. dead_letters demo_saga (Some ''d'') demo_file3 = (Inr ls, demo_file3)
    \<and> ((\<exists>l \<in> set ls. dl_unit l = ''u'' \<and> next_attempt l = 2 \<and> dl_key l = ''key'')
      \<longleftrightarrow> 1 < (2 :: int) \<and> fst (append_spawn demo_saga
            (fact_items (SpawnF ''s'' ''t'' ''d'' ''u'' 2 ''key'')) demo_file3) \<in> range Inr)"
proof -
  have inv: "ledger_inv demo_saga demo_file3"
    by (rule ledger_reachable_inv [OF demo_written(4) demo_saga_ok])
  have "\<exists>ls. dead_letters_of (history demo_file3) (Some ''d'') = Inr ls"
    unfolding dead_letters_eq [OF inv_rows(1) [OF inv]] by (auto split: list.splits sum.splits)
  then obtain ls where "dead_letters_of (history demo_file3) (Some ''d'') = Inr ls" ..
  then have ls: "dead_letters demo_saga (Some ''d'') demo_file3 = (Inr ls, demo_file3)"
    using verified_snapshot_inv [OF inv] visible_clean [OF demo_history3(2)]
    by (simp add: dead_letters_def snap_def)
  with dead_letters_are_admissible [OF demo_written(4) demo_saga_ok demo_history3(2) demo_respawn_ok ls]
  show ?thesis by blast
qed

text \<open>C20: Preparing an attempt always answers.  On a clean reachable ledger, with canonical arguments and
  a dispatch that declares the unit at this site or is not begun yet, it returns an open attempt,
  reused or newly spawned, or the terminal status of the unit, and leaves a clean reachable ledger
  that declares the unit; a dispatch already begun grows only by the attempt it opens.\<close>

theorem prepare_attempt_answers:
  assumes "ledger_reachable h f" "digest_host h" "torn f = None" "driver_args h s at d spec"
    and "preparable (scoped (history f) d) site spec th mx"
  shows "\<exists>r f'. prepare_attempt h s at d site (Spec spec) th mx f = (Inr r, f')
    \<and> ledger_reachable h f' \<and> torn f' = None \<and> answered d (unit_id spec) f' r
    \<and> declares (scoped (history f') d) site spec
    \<and> (declares (scoped (history f) d) site spec \<longrightarrow>
        f' = f \<or> open_attempt (scoped (history f') d) (unit_id spec) r)"
  by (rule prepare_answers [OF assms])

lemma demo_driver: "driver_args demo_saga ''s'' ''t'' ''d'' demo_unit"
  "preparable (scoped (history new_ledger) ''d'') ''outcome'' demo_unit 0 3"
  by (simp_all add: driver_args_def demo_texts demo_units_ok preparable_def sites_def manifests_def scoped_def
      max_attempts_limit_def)

theorem prepare_attempt_answers_witness:
  "\<exists>r f'. prepare_attempt demo_saga ''s'' ''t'' ''d'' ''outcome'' (Spec demo_unit) 0 3 new_ledger = (Inr r, f')
    \<and> answered ''d'' ''u'' f' r"
  using prepare_attempt_answers [OF demo_written(1) demo_saga_ok new_ledger_history(2) demo_driver]
  by (auto simp: demo_unit_def)

text \<open>Preparing an attempt is idempotent: while what it answered stands, an open attempt or a terminal
  status, calling it again with the same unit and any limits answers the same and writes nothing.\<close>

lemma prepare_attempt_repeats:
  assumes "ledger_reachable h f" "digest_host h" "torn f = None" "driver_args h s at d spec"
    and "preparable (scoped (history f) d) site spec th mx"
    and "prepare_attempt h s at d site (Spec spec) th mx f = (Inr r, f')"
  shows "\<exists>r'. prepare_attempt h s at d site (Spec spec) th' mx' f' = (Inr r', f') \<and> same_dict r r'"
proof -
  have f': "ledger_reachable h f'" "torn f' = None" "answered d (unit_id spec) f' r"
    "declares (scoped (history f') d) site spec"
    using prepare_answers [OF assms(1-5)] assms(6) by auto
  show ?thesis by (rule prepare_repeats [OF f'(1) assms(2) f'(2) assms(4) f'(4,3)])
qed

theorem prepare_attempt_repeats_witness:
  "\<exists>r f' r'. prepare_attempt demo_saga ''s'' ''t'' ''d'' ''outcome'' (Spec demo_unit) 0 3 new_ledger = (Inr r, f')
    \<and> prepare_attempt demo_saga ''s'' ''t'' ''d'' ''outcome'' (Spec demo_unit) 100 1 f' = (Inr r', f')
    \<and> same_dict r r'"
proof -
  note at = demo_written(1) demo_saga_ok new_ledger_history(2) demo_driver
  obtain r f' where r: "prepare_attempt demo_saga ''s'' ''t'' ''d'' ''outcome'' (Spec demo_unit) 0 3 new_ledger
    = (Inr r, f')"
    using prepare_answers [OF at] by blast
  from prepare_attempt_repeats [OF at r, of 100 1] r show ?thesis by blast
qed

text \<open>C19: The settlement gate opens only on a finished dispatch: when the report of a reachable ledger
  does not halt, there is one manifest and the latest attempt of every unit it declares has a final
  classification; at a threshold of zero, the latest attempt of every unit was delivered.\<close>

theorem gate_opens_when_settled:
  assumes "ledger_reachable h f" "digest_host h" "id_ok d"
    and "settlement_report h d f = (Inr r, f)" "\<not> cr_halt r"
  shows "\<exists>m us th. require_manifest (scoped (visible f) d) = Inr m \<and> manifest_units m = Inr us
    \<and> threshold_value (jget m ''casualty_threshold_percent'' JNull) = Inr th
    \<and> (\<forall>u \<in> unit_id ` set us. snd (latest_state (scoped (visible f) d) u) \<in> set ledger_classifications
         \<and> (th = 0 \<longrightarrow> snd (latest_state (scoped (visible f) d) u) = delivered))"
proof -
  have inv: "ledger_inv h f" by (rule ledger_reachable_inv [OF assms(1,2)])
  have "report_of d (scoped (visible f) d) = Inr r"
    using assms(3,4) dispatch_records_inv [OF inv, of d]
    by (simp add: settlement_report_def safe_identifier_ok)
  moreover have "dispatch_inv h (visible f)" using inv by (simp add: ledger_inv_def sound_rows_def)
  ultimately show ?thesis
    using report_unhalted [of h "visible f" _ d r] assms(5) unfolding require_manifest_eq by blast
qed

theorem gate_opens_when_settled_witness:
  "\<exists>m us. require_manifest (scoped (visible demo_file4) ''d'') = Inr m \<and> manifest_units m = Inr us"
proof -
  obtain r where "settlement_report demo_saga ''d'' demo_file4 = (Inr r, demo_file4)" "\<not> cr_halt r"
    using demo_report by blast
  from gate_opens_when_settled [OF demo_reachable4 demo_saga_ok demo_texts(2) this] show ?thesis by blast
qed

end
