(* ===== verification/Run_Laws.thy ===== *)
theory Run_Laws
  imports Dispatch_Laws
begin

text \<open>What the run-fact ledger and the fact validator promise their callers.\<close>

text \<open>C24: The hash chain pins the history.  Two ledgers that verify and end in the same hash hold the
  same records, record by record, unless two of the canonical texts they hash collide.\<close>

theorem chain_pins_history:
  assumes "digest_host h" "verify_records h rs = ChainOk" "verify_records h rs' = ChainOk"
    and "rows_printable rs" "rows_printable rs'" "tail_hash rs = tail_hash rs'"
    and "inj_on (sha256 h) (hashed_texts rs \<union> hashed_texts rs')"
  shows "map norm_items rs = map norm_items rs'"
  by (rule chain_determined [OF assms])

text \<open>A record as an append returns it, and as a reader gets it back.\<close>

definition demo_record :: "json dict" where
  "demo_record = chained demo_saga [] [(''k'', JInt 1)]"

lemma demo_record_wf: "wf_dict demo_record" "json_printable (JObj demo_record)"
  "list_all (\<lambda>(k, v). json_norm v = v) demo_record"
  by (simp_all add: demo_record_def chained_linked linked_def without_def chain_fields_def wf_dict_def)

lemma demo_record_rest: "without [''this_hash''] demo_record = [(''k'', JInt 1), (''prev_hash'', JStr [])]"
  by (simp add: demo_record_def chained_linked linked_def without_def chain_fields_def tail_hash_def)

lemma demo_record_links:
  "verify_records demo_saga [demo_record] = ChainOk"
  "verify_records demo_saga [norm_items demo_record] = ChainOk"
  "tail_hash [norm_items demo_record] = tail_hash [demo_record]"
proof -
  have get: "dget demo_record ''this_hash'' = Some (JStr (record_hash demo_saga (without [''this_hash''] demo_record)))"
    "dget demo_record ''prev_hash'' = Some (JStr [])"
    by (simp_all add: demo_record_def chained_linked linked_def without_def chain_fields_def tail_hash_def)
  show "verify_records demo_saga [demo_record] = ChainOk"
    unfolding verify_records_def verify_one using get digest_nonempty [OF demo_saga_ok] by (simp add: jget_def)
  show "verify_records demo_saga [norm_items demo_record] = ChainOk"
    using chained_link [OF demo_saga_ok, of "[(''k'', JInt 1)]" 0 "[]"]
    by (simp add: verify_records_def demo_record_def tail_hash_def wf_dict_def)
  show "tail_hash [norm_items demo_record] = tail_hash [demo_record]"
    using get demo_record_wf(1) by (simp add: tail_hash_def jget_def dget_norm_items)
qed

theorem chain_pins_history_witness:
  "map norm_items [demo_record] = map norm_items [norm_items demo_record]"
proof -
  have wf: "json_wf (JObj (without [''this_hash''] demo_record))"
    unfolding demo_record_rest by (simp add: wf_dict_def)
  have "hashed_texts [norm_items demo_record] = hashed_texts [demo_record]"
    using canonical_json_norm [OF wf] by (simp add: hashed_texts_def without_norm_items del: canonical_json.simps)
  then have inj: "inj_on (sha256 demo_saga) (hashed_texts [demo_record] \<union> hashed_texts [norm_items demo_record])"
    by (simp add: hashed_texts_def)
  have "json_printable (JObj (norm_items demo_record))"
    using demo_record_wf by (fastforce simp: norm_items_entries list_all_iff)
  then have "rows_printable [demo_record]" "rows_printable [norm_items demo_record]"
    using demo_record_wf(2) unfolding rows_printable_def by (simp_all del: json_printable.simps)
  from chain_pins_history [OF demo_saga_ok demo_record_links(1,2) this demo_record_links(3) [symmetric] inj]
  show ?thesis .
qed

text \<open>C25: An append reads back: whatever its guard, a successful append to an intact ledger drops an
  unterminated fragment, keeps every complete record and adds the returned one, and afterwards the
  ledger reads as the old records with the new one behind them, with an unbroken chain and its hash
  as the tail hash.\<close>

theorem append_reads_back:
  assumes "digest_host h" "log_inv h f" "json_wf (JObj payload)"
    and "append_fact_atomic h payload guard f = (Inr r, f')"
  shows "read_facts h f' = (Inr (history f @ [norm_items r]), f')
    \<and> verify_chain h f' = (Inr ChainOk, f')
    \<and> read_tail_hash h f' = (Inr (py_str (jget r ''this_hash'' JNull)), f')
    \<and> without chain_fields (norm_items r) = norm_items (without chain_fields payload)"
proof (intro conjI)
  have r: "r = chained h (history f) payload" "f' = grown h f payload"
    using append_fact_atomic_log [OF assms(2), of payload guard] assms(4) by (auto split: sum.splits)
  have inv: "log_inv h f'" unfolding r(2) by (rule log_inv_grown [OF assms(2,1,3)])
  have "torn f' = None" by (simp add: r(2) grown_def)
  then have vis: "visible f' = history f @ [norm_items r]"
    by (simp add: visible_clean r history_grown del: json_wf.simps)
  have ok: "verify_records h (visible f') = ChainOk"
    using inv unfolding log_inv_def visible_clean [OF \<open>torn f' = None\<close>] by blast
  note snap = snapshot_log [OF inv, unfolded ok]
  show "read_facts h f' = (Inr (history f @ [norm_items r]), f')"
    and "verify_chain h f' = (Inr ChainOk, f')"
    by (simp_all add: read_facts_def verify_chain_def snap vis)
  have "jget (norm_items r) ''this_hash'' (JStr []) = jget r ''this_hash'' JNull"
    using chained_wf [OF assms(3), of h "history f"] by (simp add: r(1) jget_def dget_chained)
  then show "read_tail_hash h f' = (Inr (py_str (jget r ''this_hash'' JNull)), f')"
    by (simp add: read_tail_hash_def snap vis tail_hash_def)
  show "without chain_fields (norm_items r) = norm_items (without chain_fields payload)"
    unfolding without_norm_items r(1) chained_linked linked_def by (simp add: without_def chain_fields_def)
qed

theorem append_reads_back_witness:
  "\<exists>r f'. append_fact demo_saga (fact_items (demo_spawn 1)) new_ledger = (Inr r, f')
    \<and> read_facts demo_saga f' = (Inr (history new_ledger @ [norm_items r]), f')"
proof -
  have log: "log_inv demo_saga new_ledger" by (rule log_inv_new)
  obtain r f' where r: "append_fact_atomic demo_saga (fact_items (demo_spawn 1)) (\<lambda>_. Inr ()) new_ledger = (Inr r, f')"
    using append_fact_atomic_log [OF log] by simp
  from append_reads_back [OF demo_saga_ok log fact_items_wf r] r show ?thesis
    unfolding append_fact_def by blast
qed

section \<open>Crashes\<close>

text \<open>
  Calls of the append, each with its guard: one that runs to its end, and one that a crash ends
  before the line is written, inside it, or behind it but before its newline.  Beside the file, the
  records that the completed appends returned.
\<close>

datatype crash_point = BeforeWrite | InsideLine | BeforeNewline

datatype log_call =
    Append "json dict" "snapshot \<Rightarrow> saga_error + unit"
  | CutAppend "json dict" "snapshot \<Rightarrow> saga_error + unit" crash_point

fun log_step :: "'h host_scheme \<Rightarrow> log_call \<Rightarrow> ledger_file \<times> json dict list \<Rightarrow> ledger_file \<times> json dict list"
where
  "log_step h (Append p v) (f, acc) =
     (case append_fact_atomic h p v f of (Inl e, f') \<Rightarrow> (f', acc) | (Inr r, f') \<Rightarrow> (f', acc @ [r]))"
| "log_step h (CutAppend p v c) (f, acc) =
     (case append_fact_atomic h p v f of
        (Inl e, f') \<Rightarrow> (f', acc)
      | (Inr r, f') \<Rightarrow>
          ((heal_torn_tail f)\<lparr>torn := (case c of BeforeWrite \<Rightarrow> None | InsideLine \<Rightarrow> Some Garbage
             | BeforeNewline \<Rightarrow> Some (Row (norm_items r)))\<rparr>, acc))"

definition log_run :: "'h host_scheme \<Rightarrow> log_call list \<Rightarrow> ledger_file \<times> json dict list \<Rightarrow> ledger_file \<times> json dict list"
where "log_run h cs s = foldl (\<lambda>s c. log_step h c s) s cs"

definition call_payload :: "log_call \<Rightarrow> json dict" where
  "call_payload c = (case c of Append p v \<Rightarrow> p | CutAppend p v _ \<Rightarrow> p)"

definition survives :: "'h host_scheme \<Rightarrow> json dict list \<Rightarrow> ledger_file \<times> json dict list \<Rightarrow> bool" where
  "survives h old = (\<lambda>(f, acc). log_inv h f \<and> history f = old @ map norm_items acc
     \<and> verify_records h (visible f) = ChainOk
     \<and> (\<exists>rest. visible f = history f @ rest \<and> length rest \<le> 1))"

lemma survives_clean:
  assumes "log_inv h f" "torn f = None" "history f = old @ map norm_items acc"
  shows "survives h old (f, acc)"
  using assms by (simp add: survives_def visible_clean log_inv_def)

lemma log_step_survives:
  assumes "digest_host h" "survives h old s" "json_wf (JObj (call_payload c))"
  shows "survives h old (log_step h c s)"
proof (cases s)
  case (Pair f acc)
  with assms(2) have f: "log_inv h f" "history f = old @ map norm_items acc"
    by (simp_all add: survives_def)
  show ?thesis
  proof (cases c)
    case (Append p v)
    with assms(3) have "log_inv h (grown h f p)"
      by (intro log_inv_grown [OF f(1) assms(1)]) (simp add: call_payload_def)
    then show ?thesis
      using f unfolding Pair Append
      by (auto simp: append_fact_atomic_log [OF f(1)] grown_def history_def split: sum.splits
          intro!: survives_clean)
  next
    case (CutAppend p v k)
    let ?r = "norm_items (chained h (history f) p)"
    have "log_inv h (f\<lparr>torn := t\<rparr>)" for t using f(1) by (simp add: log_inv_def history_def)
    moreover have "verify_records h (history f @ [?r]) = ChainOk" "verify_records h (history f) = ChainOk"
      using f(1) verify_extended [OF assms(1)] assms(3) CutAppend
      by (simp_all add: log_inv_def call_payload_def)
    moreover have "visible (f\<lparr>torn := t\<rparr>) = history f @ (case t of None \<Rightarrow> [] | Some l \<Rightarrow> rows_in [l])"
      "history (f\<lparr>torn := t\<rparr>) = history f" for t
      by (cases t; simp add: visible_def history_def all_lines_def)+
    ultimately show ?thesis
      using f unfolding Pair CutAppend
      by (cases k) (auto simp: append_fact_atomic_log [OF f(1)] survives_def heal_torn_tail_def rows_in_def
          split: sum.splits)
  qed
qed

text \<open>C26: A crash never bricks the ledger and costs no completed record.  After any sequence of
  appends to an intact ledger, with any payloads and guards, refused or not, and of appends that a
  crash cut short before, inside or just behind their line, the complete lines hold the old records
  and those the completed appends returned, in their order; every read succeeds with these records
  and at most one more, of a cut append, and an unbroken chain; and the next append succeeds, after
  which the ledger reads as the completed records alone, the new one last.\<close>

theorem appends_survive_crashes:
  assumes "digest_host h" "log_inv h f0" "torn f0 = None"
    and "\<forall>c \<in> set cs. json_wf (JObj (call_payload c))" "json_wf (JObj payload)"
    and "log_run h cs (f0, []) = (f, acc)"
  shows "(\<exists>rest. read_facts h f = (Inr (history f0 @ map norm_items acc @ rest), f) \<and> length rest \<le> 1)
    \<and> verify_chain h f = (Inr ChainOk, f)
    \<and> (\<exists>r f'. append_fact h payload f = (Inr r, f')
         \<and> read_facts h f' = (Inr (history f0 @ map norm_items (acc @ [r])), f')
         \<and> verify_chain h f' = (Inr ChainOk, f'))"
proof -
  have "survives h (history f0) (log_run h cs (f0, []))"
    using assms(4)
  proof (induction cs rule: rev_induct)
    case Nil
    then show ?case by (simp add: log_run_def survives_clean assms(2,3))
  next
    case (snoc c cs)
    then show ?case using log_step_survives [OF assms(1)] by (simp add: log_run_def)
  qed
  then have f: "log_inv h f" "history f = history f0 @ map norm_items acc"
      "verify_records h (visible f) = ChainOk" "\<exists>rest. visible f = history f @ rest \<and> length rest \<le> 1"
    unfolding assms(6) survives_def by auto
  define g where "g = grown h f payload"
  have g: "log_inv h g" "torn g = None" unfolding g_def
    using log_inv_grown [OF f(1) assms(1,5)] by (simp_all add: grown_def)
  have "append_fact h payload f = (Inr (chained h (history f) payload), g)"
    using append_fact_atomic_log [OF f(1), of payload "\<lambda>_. Inr ()"] by (simp add: append_fact_def g_def)
  moreover have "visible g = history f0 @ map norm_items (acc @ [chained h (history f) payload])"
    unfolding visible_clean [OF g(2)] by (simp add: g_def f(2))
  ultimately show ?thesis
    using f(2-4) g(1) snapshot_log [OF f(1)] snapshot_log [OF g(1)] visible_clean [OF g(2)]
    by (auto simp: read_facts_def verify_chain_def log_inv_def)
qed

theorem appends_survive_crashes_witness:
  "case log_run demo_saga [Append [(''k'', JInt 1)] (\<lambda>_. Inr ()),
       CutAppend [(''k'', JInt 2)] (\<lambda>_. Inr ()) InsideLine,
       CutAppend [(''k'', JInt 3)] (\<lambda>_. Inr ()) BeforeNewline] (new_ledger, []) of
     (f, acc) \<Rightarrow> length acc = 1 \<and> torn f \<noteq> None
       \<and> (\<exists>r f'. append_fact demo_saga [(''k'', JInt 4)] f = (Inr r, f')
           \<and> read_facts demo_saga f' = (Inr (map norm_items (acc @ [r])), f'))"
proof -
  define cs where "cs = [Append [(''k'', JInt 1)] (\<lambda>_. Inr ()),
       CutAppend [(''k'', JInt 2)] (\<lambda>_. Inr ()) InsideLine,
       CutAppend [(''k'', JInt 3)] (\<lambda>_. Inr ()) BeforeNewline]"
  obtain f acc where run: "log_run demo_saga cs (new_ledger, []) = (f, acc)" by fastforce
  have "case log_run demo_saga cs (new_ledger, []) of (f, acc) \<Rightarrow> length acc = 1 \<and> torn f \<noteq> None"
    unfolding cs_def by code_simp
  moreover have "\<forall>c \<in> set cs. json_wf (JObj (call_payload c))" "json_wf (JObj [(''k'', JInt 4)])"
    by (simp_all add: cs_def call_payload_def wf_dict_def)
  from appends_survive_crashes [OF demo_saga_ok log_inv_new new_ledger_history(2) this run] run
  show ?thesis using calculation unfolding cs_def [symmetric] by auto
qed

text \<open>
  What bricks a ledger is no crash but a complete line that is no record.  Readers tolerate it while
  it is the last, so an append behind it succeeds, and after that one reads and appends are refused.
\<close>

lemma garbage_line_bricks:
  assumes "log_inv h f" "l \<in> {Garbage, Scalar}"
  shows "\<exists>r f'. append_fact h payload (f\<lparr>lines := lines f @ [l], torn := None\<rparr>) = (Inr r, f')
    \<and> fst (read_facts h f') = Inl RunLedgerError
    \<and> fst (append_fact h payload' f') = Inl RunLedgerError"
proof -
  have clean: "list_all (\<lambda>l. l \<notin> {Garbage, Scalar}) (lines f)" using assms(1) by (simp add: log_inv_def)
  have two: "read_lines (ls @ [l]) = Inr (rows_in ls)" "read_lines (ls @ [l, Row r]) = Inl RunLedgerError"
    if "list_all (\<lambda>l. l \<notin> {Garbage, Scalar}) ls" for ls r
    using that assms(2) by (induction ls) (auto simp: rows_in_def split: ledger_line.splits)
  show ?thesis
    using assms(1) two [OF clean]
    by (simp add: append_fact_def append_fact_atomic_def snapshot_unlocked_def snapshot_of_def heal_torn_tail_def
        read_unlocked_def all_lines_def require_chain_def append_snapshot_fact_unlocked_def Let_def
        log_inv_def history_def read_facts_def read_snapshot_def)
qed

text \<open>C27: The fact validator is a typed parser: a mapping passes exactly when it spells a well-formed
  manifest, spawn, settlement or late delivery, of the kind asked for if one was, and what it returns
  is the canonical form of that fact.\<close>

theorem canonical_fact_iff:
  assumes "json_wf (JObj r)"
  shows "canonical_fact h r e = Inr c \<longleftrightarrow>
    (\<exists>g. fact_ok h g \<and> c = fact_items g \<and> same_dict r (fact_items g) \<and> e \<in> {None, Some (fact_event g)})"
proof
  assume "canonical_fact h r e = Inr c"
  from canonical_sound [OF this assms] show "\<exists>g. fact_ok h g \<and> c = fact_items g
      \<and> same_dict r (fact_items g) \<and> e \<in> {None, Some (fact_event g)}"
    unfolding spells_def by blast
next
  assume "\<exists>g. fact_ok h g \<and> c = fact_items g \<and> same_dict r (fact_items g) \<and> e \<in> {None, Some (fact_event g)}"
  then show "canonical_fact h r e = Inr c"
    using canonical_complete [of r _ h e] assms unfolding spells_def by blast
qed

theorem canonical_fact_iff_witness:
  "canonical_fact demo_saga (fact_items (demo_spawn 1)) None = Inr (fact_items (demo_spawn 1))"
  using demo_fact_ok(2) [of 1] unfolding canonical_fact_iff [OF fact_items_wf] by auto

end
