(* ===== verification/Outcome_Spec.thy ===== *)
theory Outcome_Spec
  imports Json_Text Py_Text Lease_Values "HOL-Library.Log_Nat"
begin

text \<open>
  The canonical outcome document of the saga plugin, \<open>saga/scripts/outcome_spec.py\<close>: the
  subplot nodes with their dependency barriers, the readers and writers of the JSON document, the
  validation that precedes every dispatch, and the frontier engine (Kahn layers, ready frontier,
  weakly connected components) that the reconcile loop reads.  A raise is an \<open>Inl\<close>; the
  text of its message is not modelled, the rule it reports and the names it carries are.
\<close>

section \<open>Errors\<close>

text \<open>
  One \<open>spec_fault\<close> per \<open>raise OutcomeSpecError\<close>.  \<open>DecomposeError\<close>,
  \<open>OutcomeStoreError\<close>, \<open>OutcomeError\<close> and \<open>DispatcherError\<close> belong to the modules over this
  one, and \<open>PythonError\<close> is a built-in
  exception that none of them converts (\<open>data.get\<close> on a value that is no dictionary,
  \<open>dict(value)\<close> of a scalar).
\<close>

datatype spec_fault =
    NoSubplotId
  | NotSlug string
  | UnknownKind string
  | UnknownState string
  | UnknownBackend string
  | UnknownDegradePolicy string
  | BadTimeout string
  | BadHeartbeat string
  | SelfDependency string
  | ChildIsParent string
  | ChildIsSelf string
  | NoOutcomeId
  | NoObjective
  | NoNodes
  | DuplicateSubplot string
  | ChildIsSibling string
  | UndeclaredDependency string string
  | DependencyCycle "string list"
  | NoNodesList
  | NotAnInteger
  | NotAList
  | NotPositive
  | RedirectUndeclared string
  | RedirectNoEdge string string

datatype outcome_error =
    OutcomeSpecError spec_fault
  | DecomposeError
  | OutcomeStoreError
  | OutcomeError
  | DispatcherError
  | PythonError

text \<open>A sequence of guards raises at the first that fails.\<close>

fun check_all :: "(bool \<times> 'e) list \<Rightarrow> 'e + unit" where
  "check_all [] = Inr ()"
| "check_all ((ok, e) # cs) = (if ok then check_all cs else Inl e)"

lemma check_all_eq_Inr [simp]: "check_all cs = Inr u \<longleftrightarrow> list_all fst cs"
  by (induction cs rule: check_all.induct) auto

section \<open>Vocabularies\<close>

definition schema_version_now :: int where "schema_version_now = 1"

definition node_kinds :: "string list" where
  "node_kinds = [''code'', ''non-code'']"

definition node_states :: "string list" where
  "node_states =
     [''pending'', ''ready'', ''dispatched'', ''running'', ''blocked'', ''merging'', ''done'',
      ''failed'', ''rejected'', ''stalled'', ''paused'']"

definition terminal_states :: "string list" where
  "terminal_states = [''done'', ''failed'', ''rejected'', ''stalled'']"

definition success_states :: "string list" where
  "success_states = [''done'']"

definition node_backends :: "string list" where
  "node_backends = [''inline'', ''verified-workflow'', ''manual'']"

definition legacy_node_backends :: "string list" where
  "legacy_node_backends =
     [''team-execution'', ''fork'', ''subagent'', ''cc-workflows-ultracode'', ''goal'']"

definition degrade_policies :: "string list" where
  "degrade_policies = [''halt'', ''operator_away_one_rung'', ''none'']"

text \<open>\<open>[A-Za-z0-9._-]+\<close>\<close>

definition slug_char :: "char \<Rightarrow> bool" where
  "slug_char c \<longleftrightarrow>
     (let n = of_char c :: nat in
      48 \<le> n \<and> n \<le> 57 \<or> 65 \<le> n \<and> n \<le> 90 \<or> 97 \<le> n \<and> n \<le> 122 \<or> c \<in> set ''._-'')"

definition is_slug :: "string \<Rightarrow> bool" where
  "is_slug s \<longleftrightarrow> s \<noteq> [] \<and> list_all slug_char s"

section \<open>The document\<close>

text \<open>
  \<open>Node\<close> and \<open>OutcomeSpec\<close>.  The open pass-through maps \<open>github\<close>, \<open>worktree\<close>,
  \<open>evidence\<close> and \<open>cost\<close> are JSON objects; the deep copies of the source, which keep a document
  and a node from sharing structure, have no counterpart for immutable values.
\<close>

record node =
  subplot_id :: string
  title :: string
  node_kind :: string
  node_state :: string
  backend :: string
  gated :: bool
  risky :: bool
  destructive :: bool
  guarantee_tags :: "string list"
  degrade_policy :: string
  timeout_seconds :: "int option"
  heartbeat_seconds :: "int option"
  depends_on :: "string list"
  leaf_saga_id :: string
  child_spec_ref :: string
  github :: "json dict"
  node_worktree :: "json dict"
  node_evidence :: "json dict"
  node_cost :: "json dict"

record outcome_spec =
  outcome_id :: string
  objective :: string
  nodes :: "node list"
  spec_revision :: int
  schema_version :: int
  decision_trail :: "json dict list"
  cost_rollup :: "json dict"
  created_at :: string
  updated_at :: string

definition is_terminal :: "node \<Rightarrow> bool" where
  "is_terminal n \<longleftrightarrow> node_state n \<in> set terminal_states"

definition is_outcome :: "node \<Rightarrow> bool" where
  "is_outcome n \<longleftrightarrow> child_spec_ref n \<noteq> []"

abbreviation node_ids :: "node list \<Rightarrow> string list" where
  "node_ids ns \<equiv> map subplot_id ns"

definition node_by_id :: "outcome_spec \<Rightarrow> string \<Rightarrow> node option" where
  "node_by_id sp s = find (\<lambda>n. subplot_id n = s) (nodes sp)"

section \<open>Reading values\<close>

text \<open>\<open>bool(value)\<close>: the text of a float is false only when it is a zero.\<close>

definition zero_text :: "string \<Rightarrow> bool" where
  "zero_text t \<longleftrightarrow> t = ''0.0'' \<or> t = ''-0.0''"

fun truthy :: "json \<Rightarrow> bool" where
  "truthy JNull = False"
| "truthy (JBool b) = b"
| "truthy (JInt n) = (n \<noteq> 0)"
| "truthy (JFloat t) = (\<not> zero_text t)"
| "truthy (JStr s) = (s \<noteq> [])"
| "truthy (JArr xs) = (xs \<noteq> [])"
| "truthy (JObj kvs) = (kvs \<noteq> [])"

definition opt_int :: "json \<Rightarrow> outcome_error + int option" where
  "opt_int j =
     (case j of
        JNull \<Rightarrow> Inr None
      | JInt n \<Rightarrow> Inr (Some n)
      | _ \<Rightarrow> Inl (OutcomeSpecError NotAnInteger))"

definition str_list :: "json \<Rightarrow> outcome_error + string list" where
  "str_list j =
     (case j of
        JNull \<Rightarrow> Inr []
      | JArr xs \<Rightarrow> Inr (map py_str xs)
      | _ \<Rightarrow> Inl (OutcomeSpecError NotAList))"

text \<open>\<open>dict(value)\<close>, whose exceptions are built-in ones.\<close>

definition dict_value :: "json \<Rightarrow> outcome_error + json dict" where
  "dict_value j = (case py_dict_of j of Inr d \<Rightarrow> Inr d | Inl _ \<Rightarrow> Inl PythonError)"

section \<open>\<open>int(value)\<close>\<close>

text \<open>
  The decimal text \<open>int\<close> accepts: white space around, one sign, digits with single underscores
  between them, and at most 4300 digits.
\<close>

fun digit_groups :: "bool \<Rightarrow> string \<Rightarrow> string option" where
  "digit_groups after [] = (if after then Some [] else None)"
| "digit_groups after (c # cs) =
     (if is_digit c then map_option (\<lambda>ds. c # ds) (digit_groups True cs)
      else if c = CHR ''_'' \<and> after then digit_groups False cs
      else None)"

definition int_of_text :: "string \<Rightarrow> int option" where
  "int_of_text s =
     (let t = strip s;
          (neg, body) = (case t of
             c # cs \<Rightarrow> if c = CHR ''-'' then (True, cs) else if c = CHR ''+'' then (False, cs)
                       else (False, t)
           | [] \<Rightarrow> (False, []))
      in case digit_groups False body of
           None \<Rightarrow> None
         | Some ds \<Rightarrow>
             if 4300 < int (length ds) then None
             else Some (if neg then - int (digits_value ds) else int (digits_value ds)))"

text \<open>
  \<open>int(x)\<close> of a float, from the text \<open>repr\<close> gives it.  Up to \<open>10 ^ 16\<close> the text is in
  positional notation and its integer part is the truncation.  Above, the text is
  \<open>d.ddde+XX\<close>: a whole number whose nearest 53-bit value (ties to even) is the float.
  A negative exponent means a value below one.
\<close>

definition nearest_double :: "int \<Rightarrow> int" where
  "nearest_double m =
     (if m < 2 ^ 53 then m
      else let k = nat (bitlen m) - 53; q = m div 2 ^ k; r = m mod 2 ^ k; h = 2 ^ (k - 1)
           in (if r < h \<or> r = h \<and> even q then q else q + 1) * 2 ^ k)"

definition int_of_float :: "string \<Rightarrow> int option" where
  "int_of_float t =
     (let neg = (take 1 t = ''-''); u = (if neg then drop 1 t else t);
          mant = takeWhile (\<lambda>c. c \<noteq> CHR ''e'') u; ex = drop (length mant + 1) u;
          whole = takeWhile is_digit mant; frac = drop (length whole + 1) mant;
          sgn = (\<lambda>n. if neg then - n else n)
      in if whole = [] then None
         else if ex = [] then Some (sgn (int (digits_value whole)))
         else if take 1 ex = ''-'' then Some 0
         else let e = digits_value (drop 1 ex) in
              if e < length frac then None
              else Some (sgn (nearest_double
                     (int (digits_value (whole @ frac)) * 10 ^ (e - length frac)))))"

text \<open>
  \<open>int\<close> of an infinity raises an \<open>OverflowError\<close>, of a NaN or a bad text a
  \<open>ValueError\<close>, of a container or of null a \<open>TypeError\<close>.
\<close>

datatype int_failure = BadNumber | Overflow

definition py_int :: "json \<Rightarrow> int_failure + int" where
  "py_int j =
     (case j of
        JInt n \<Rightarrow> Inr n
      | JBool b \<Rightarrow> Inr (if b then 1 else 0)
      | JStr s \<Rightarrow> (case int_of_text s of Some n \<Rightarrow> Inr n | None \<Rightarrow> Inl BadNumber)
      | JFloat t \<Rightarrow>
          (case int_of_float t of
             Some n \<Rightarrow> Inr n
           | None \<Rightarrow> Inl (if t \<in> {''nan'', ''NaN''} then BadNumber else Overflow))
      | _ \<Rightarrow> Inl BadNumber)"

text \<open>\<open>_positive_int\<close>: the clause \<open>except (TypeError, ValueError)\<close> lets an
  \<open>OverflowError\<close> through.\<close>

definition positive_int :: "json \<Rightarrow> outcome_error + int" where
  "positive_int j =
     (case j of
        JBool _ \<Rightarrow> Inl (OutcomeSpecError NotPositive)
      | _ \<Rightarrow>
          (case py_int j of
             Inl BadNumber \<Rightarrow> Inl (OutcomeSpecError NotPositive)
           | Inl Overflow \<Rightarrow> Inl PythonError
           | Inr n \<Rightarrow> if n < 1 then Inl (OutcomeSpecError NotPositive) else Inr n))"

section \<open>Reading and writing the document\<close>

definition current_backend :: "string \<Rightarrow> string" where
  "current_backend b = (if b = ''team-execution'' then ''verified-workflow'' else b)"

definition node_from_items :: "json dict \<Rightarrow> outcome_error + node" where
  "node_from_items d =
     (let text = (\<lambda>k dflt. py_str (jget d k (JStr dflt)));
          flag = (\<lambda>k. truthy (jget d k (JBool False)));
          sid = text ''subplot_id'' []
      in bind_res (str_list (jget d ''guarantee_tags'' JNull)) (\<lambda>tags.
         bind_res (opt_int (jget d ''timeout_seconds'' JNull)) (\<lambda>timeout.
         bind_res (opt_int (jget d ''heartbeat_seconds'' JNull)) (\<lambda>heartbeat.
         bind_res (str_list (jget d ''depends_on'' JNull)) (\<lambda>deps.
         bind_res (dict_value (jget d ''github'' (JObj []))) (\<lambda>gh.
         bind_res (dict_value (jget d ''worktree'' (JObj []))) (\<lambda>wt.
         bind_res (dict_value (jget d ''evidence'' (JObj []))) (\<lambda>ev.
         bind_res (dict_value (jget d ''cost'' (JObj []))) (\<lambda>co.
         Inr \<lparr>subplot_id = sid, title = text ''title'' sid, node_kind = text ''kind'' ''code'',
              node_state = text ''state'' ''pending'',
              backend = current_backend (text ''backend'' ''inline''),
              gated = flag ''gated'', risky = flag ''risky'', destructive = flag ''destructive'',
              guarantee_tags = tags, degrade_policy = text ''degrade_policy'' ''none'',
              timeout_seconds = timeout, heartbeat_seconds = heartbeat, depends_on = deps,
              leaf_saga_id = text ''leaf_saga_id'' [], child_spec_ref = text ''child_spec_ref'' [],
              github = gh, node_worktree = wt, node_evidence = ev, node_cost = co\<rparr>)))))))))"

definition node_from_dict :: "json \<Rightarrow> outcome_error + node" where
  "node_from_dict j = (case j of JObj d \<Rightarrow> node_from_items d | _ \<Rightarrow> Inl PythonError)"

definition node_to_dict :: "node \<Rightarrow> json" where
  "node_to_dict n =
     JObj [(''subplot_id'', JStr (subplot_id n)),
           (''title'', JStr (title n)),
           (''kind'', JStr (node_kind n)),
           (''state'', JStr (node_state n)),
           (''backend'', JStr (current_backend (backend n))),
           (''gated'', JBool (gated n)),
           (''risky'', JBool (risky n)),
           (''destructive'', JBool (destructive n)),
           (''guarantee_tags'', JArr (map JStr (guarantee_tags n))),
           (''degrade_policy'', JStr (degrade_policy n)),
           (''timeout_seconds'', jopt_int (timeout_seconds n)),
           (''heartbeat_seconds'', jopt_int (heartbeat_seconds n)),
           (''depends_on'', JArr (map JStr (depends_on n))),
           (''leaf_saga_id'', JStr (leaf_saga_id n)),
           (''child_spec_ref'', JStr (child_spec_ref n)),
           (''github'', JObj (github n)),
           (''worktree'', JObj (node_worktree n)),
           (''evidence'', JObj (node_evidence n)),
           (''cost'', JObj (node_cost n))]"

text \<open>Iterating a decision trail that is a dictionary gives its keys, a text its characters.\<close>

definition iterate :: "json \<Rightarrow> outcome_error + json list" where
  "iterate j =
     (case j of
        JArr xs \<Rightarrow> Inr xs
      | JObj kvs \<Rightarrow> Inr (map JStr (dkeys kvs))
      | JStr s \<Rightarrow> Inr (map (\<lambda>c. JStr [c]) s)
      | _ \<Rightarrow> Inl PythonError)"

definition spec_from_items :: "json dict \<Rightarrow> outcome_error + outcome_spec" where
  "spec_from_items d =
     (case dget d ''nodes'' of
        Some (JArr raw) \<Rightarrow>
          (let text = (\<lambda>k. py_str (jget d k (JStr [])))
           in bind_res (map_res node_from_dict raw) (\<lambda>ns.
              bind_res (positive_int (jget d ''spec_revision'' (JInt 1))) (\<lambda>rev.
              bind_res (positive_int (jget d ''schema_version'' (JInt schema_version_now))) (\<lambda>schema.
              bind_res (iterate (jget d ''decision_trail'' (JArr []))) (\<lambda>entries.
              bind_res (map_res dict_value entries) (\<lambda>trail.
              bind_res (dict_value (jget d ''cost_rollup'' (JObj []))) (\<lambda>rollup.
              Inr \<lparr>outcome_id = text ''outcome_id'', objective = text ''objective'', nodes = ns,
                   spec_revision = rev, schema_version = schema, decision_trail = trail,
                   cost_rollup = rollup, created_at = text ''created_at'',
                   updated_at = text ''updated_at''\<rparr>)))))))
      | _ \<Rightarrow> Inl (OutcomeSpecError NoNodesList))"

text \<open>
  \<open>OutcomeSpec.from_dict\<close> on any document: \<open>"nodes" not in data\<close> is also defined on lists
  and on texts, where \<open>data["nodes"]\<close> then raises.
\<close>

definition spec_from_dict :: "json \<Rightarrow> outcome_error + outcome_spec" where
  "spec_from_dict j =
     (case j of
        JObj d \<Rightarrow> spec_from_items d
      | JArr xs \<Rightarrow> Inl (if JStr ''nodes'' \<in> set xs then PythonError else OutcomeSpecError NoNodesList)
      | JStr s \<Rightarrow> Inl (if list_ex (\<lambda>i. take 5 (drop i s) = ''nodes'') [0..<length s] then PythonError
                      else OutcomeSpecError NoNodesList)
      | _ \<Rightarrow> Inl PythonError)"

definition spec_to_dict :: "outcome_spec \<Rightarrow> json" where
  "spec_to_dict sp =
     JObj [(''schema_version'', JInt (schema_version sp)),
           (''outcome_id'', JStr (outcome_id sp)),
           (''spec_revision'', JInt (spec_revision sp)),
           (''objective'', JStr (objective sp)),
           (''nodes'', JArr (map node_to_dict (nodes sp))),
           (''decision_trail'', JArr (map JObj (decision_trail sp))),
           (''cost_rollup'', JObj (cost_rollup sp)),
           (''created_at'', JStr (created_at sp)),
           (''updated_at'', JStr (updated_at sp))]"

section \<open>The frontier engine\<close>

text \<open>\<open>preds[sid]\<close>: nodes that share an identifier pool their dependencies.\<close>

definition preds :: "node list \<Rightarrow> string \<Rightarrow> string list" where
  "preds ns s = concat (map depends_on (filter (\<lambda>n. subplot_id n = s) ns))"

function kahn :: "(string \<Rightarrow> string list) \<Rightarrow> string list \<Rightarrow> string list \<Rightarrow>
    outcome_error + string list list" where
  "kahn pr placed remaining =
     (if remaining = [] then Inr []
      else let ready = filter (\<lambda>s. list_all (\<lambda>d. d \<in> set placed) (pr s)) remaining
           in if ready = [] then Inl (OutcomeSpecError (DependencyCycle (sort remaining)))
              else bind_res
                     (kahn pr (placed @ ready) (filter (\<lambda>s. s \<notin> set (placed @ ready)) remaining))
                     (\<lambda>layers. Inr (ready # layers)))"
  by pat_completeness auto
termination
proof (relation "measure (\<lambda>(pr, placed, remaining). length remaining)", goal_cases)
  case (2 pr placed remaining ready)
  then obtain s where "s \<in> set remaining" and "s \<in> set ready"
    by (metis filter_is_subset list.set_intros(1) neq_Nil_conv subsetD)
  then show ?case
    by (auto intro!: length_filter_less [of s])
qed simp

declare kahn.simps [simp del]

definition undeclared :: "node list \<Rightarrow> (string \<times> string) option" where
  "undeclared ns =
     find (\<lambda>(s, d). d \<notin> set (node_ids ns))
       (concat (map (\<lambda>n. map (\<lambda>d. (subplot_id n, d)) (depends_on n)) ns))"

definition dependency_layers :: "outcome_spec \<Rightarrow> outcome_error + string list list" where
  "dependency_layers sp =
     (case undeclared (nodes sp) of
        Some (s, d) \<Rightarrow> Inl (OutcomeSpecError (UndeclaredDependency s d))
      | None \<Rightarrow> kahn (preds (nodes sp)) [] (node_ids (nodes sp)))"

definition ready_frontier :: "outcome_spec \<Rightarrow> string list \<Rightarrow> string list" where
  "ready_frontier sp completed =
     node_ids (filter (\<lambda>n. subplot_id n \<notin> set completed
       \<and> list_all (\<lambda>d. d \<in> set completed) (depends_on n)) (nodes sp))"

section \<open>Validation\<close>

definition validate_node :: "string \<Rightarrow> node \<Rightarrow> outcome_error + unit" where
  "validate_node oid n =
     (let s = subplot_id n; positive = (\<lambda>v. case v of None \<Rightarrow> True | Some i \<Rightarrow> 0 < i) in
      check_all
       [(s \<noteq> [], OutcomeSpecError NoSubplotId),
        (is_slug s, OutcomeSpecError (NotSlug s)),
        (node_kind n \<in> set node_kinds, OutcomeSpecError (UnknownKind s)),
        (node_state n \<in> set node_states, OutcomeSpecError (UnknownState s)),
        (backend n \<in> set (node_backends @ legacy_node_backends),
           OutcomeSpecError (UnknownBackend s)),
        (degrade_policy n \<in> set degrade_policies, OutcomeSpecError (UnknownDegradePolicy s)),
        (positive (timeout_seconds n), OutcomeSpecError (BadTimeout s)),
        (positive (heartbeat_seconds n), OutcomeSpecError (BadHeartbeat s)),
        (s \<notin> set (depends_on n), OutcomeSpecError (SelfDependency s)),
        (child_spec_ref n = [] \<or> child_spec_ref n \<noteq> oid, OutcomeSpecError (ChildIsParent s)),
        (child_spec_ref n = [] \<or> child_spec_ref n \<noteq> s, OutcomeSpecError (ChildIsSelf s))])"

fun validate_nodes :: "string \<Rightarrow> string list \<Rightarrow> node list \<Rightarrow> outcome_error + unit" where
  "validate_nodes oid seen [] = Inr ()"
| "validate_nodes oid seen (n # ns) =
     bind_res (validate_node oid n) (\<lambda>_.
     if subplot_id n \<in> set seen then Inl (OutcomeSpecError (DuplicateSubplot (subplot_id n)))
     else validate_nodes oid (subplot_id n # seen) ns)"

fun validate_links :: "string list \<Rightarrow> node list \<Rightarrow> outcome_error + unit" where
  "validate_links ids [] = Inr ()"
| "validate_links ids (n # ns) =
     (if child_spec_ref n \<noteq> [] \<and> child_spec_ref n \<in> set ids
      then Inl (OutcomeSpecError (ChildIsSibling (subplot_id n)))
      else case find (\<lambda>d. d \<notin> set ids) (depends_on n) of
             Some d \<Rightarrow> Inl (OutcomeSpecError (UndeclaredDependency (subplot_id n) d))
           | None \<Rightarrow> validate_links ids ns)"

definition validate_spec :: "outcome_spec \<Rightarrow> outcome_error + unit" where
  "validate_spec sp =
     bind_res (check_all
       [(outcome_id sp \<noteq> [], OutcomeSpecError NoOutcomeId),
        (objective sp \<noteq> [], OutcomeSpecError NoObjective),
        (nodes sp \<noteq> [], OutcomeSpecError NoNodes)]) (\<lambda>_.
     bind_res (validate_nodes (outcome_id sp) [] (nodes sp)) (\<lambda>_.
     bind_res (validate_links (node_ids (nodes sp)) (nodes sp)) (\<lambda>_.
     bind_res (dependency_layers sp) (\<lambda>_. Inr ()))))"

section \<open>Revisions\<close>

definition bump_revision :: "string \<Rightarrow> string \<Rightarrow> outcome_spec \<Rightarrow> outcome_spec" where
  "bump_revision reason stamp sp =
     sp\<lparr>spec_revision := spec_revision sp + 1,
        decision_trail := decision_trail sp
          @ [[(''revision'', JInt (spec_revision sp + 1)), (''reason'', JStr reason)]
             @ (if stamp = [] then [] else [(''at'', JStr stamp)])]\<rparr>"

text \<open>Assigning a field of \<open>node_by_id\<close> changes the first node with the identifier.\<close>

fun update_node :: "string \<Rightarrow> (node \<Rightarrow> node) \<Rightarrow> node list \<Rightarrow> node list" where
  "update_node s f [] = []"
| "update_node s f (n # ns) = (if subplot_id n = s then f n # ns else n # update_node s f ns)"

definition redirect_dependency ::
    "string \<Rightarrow> string \<Rightarrow> string \<Rightarrow> string \<Rightarrow> outcome_spec \<Rightarrow> (outcome_error + int) \<times> outcome_spec" where
  "redirect_dependency s old_dep new_dep stamp sp =
     (case node_by_id sp s of
        None \<Rightarrow> (Inl (OutcomeSpecError (RedirectUndeclared s)), sp)
      | Some n \<Rightarrow>
          if old_dep \<notin> set (depends_on n) then (Inl (OutcomeSpecError (RedirectNoEdge s old_dep)), sp)
          else
            let deps = map (\<lambda>d. if d = old_dep then new_dep else d) (depends_on n);
                sp' = sp\<lparr>nodes := update_node s (\<lambda>m. m\<lparr>depends_on := deps\<rparr>) (nodes sp)\<rparr>
            in case validate_spec sp' of
                 Inl e \<Rightarrow>
                   (Inl e, sp'\<lparr>nodes := update_node s (\<lambda>m. m\<lparr>depends_on := depends_on n\<rparr>) (nodes sp')\<rparr>)
               | Inr _ \<Rightarrow>
                   let sp'' = bump_revision
                         (''redirect '' @ s @ '':'' @ old_dep @ ''->'' @ new_dep) stamp sp'
                   in (Inr (spec_revision sp''), sp''))"

section \<open>Structural warnings\<close>

definition adj :: "node list \<Rightarrow> string \<Rightarrow> string list" where
  "adj ns s =
     filter (\<lambda>d. d \<in> set (node_ids ns)) (preds ns s)
     @ (if s \<in> set (node_ids ns)
        then node_ids (filter (\<lambda>n. s \<in> set (depends_on n)) ns) else [])"

text \<open>
  The inner loop: a popped identifier that is still unvisited joins the component and its
  neighbours are pushed.  \<open>adj[cur]\<close> is a set there, so the order in which the stack grows is
  unspecified; the component is a set, and does not depend on it.
\<close>

function flood :: "(string \<Rightarrow> string list) \<Rightarrow> string list \<Rightarrow> string list \<Rightarrow> string list
    \<Rightarrow> string list \<times> string list" where
  "flood nb [] unvisited part = (part, unvisited)"
| "flood nb (cur # stack) unvisited part =
     (if cur \<in> set unvisited
      then flood nb (nb cur @ stack) (filter (\<lambda>s. s \<noteq> cur) unvisited) (part @ [cur])
      else flood nb stack unvisited part)"
  by pat_completeness auto
termination
proof (relation "measures [\<lambda>(nb, stack, unvisited, part). length unvisited,
    \<lambda>(nb, stack, unvisited, part). length stack]", goal_cases)
  case (2 nb cur stack unvisited part)
  then show ?case by (auto intro!: length_filter_less [of cur])
qed simp_all

fun components_from :: "(string \<Rightarrow> string list) \<Rightarrow> string list \<Rightarrow> string list \<Rightarrow> string list list" where
  "components_from nb unvisited [] = []"
| "components_from nb unvisited (s # ss) =
     (if s \<notin> set unvisited then components_from nb unvisited ss
      else let (part, rest) = flood nb [s] unvisited []
           in part # components_from nb rest ss)"

definition weakly_connected_components :: "outcome_spec \<Rightarrow> string list list" where
  "weakly_connected_components sp =
     (let ids = node_ids (nodes sp) in components_from (adj (nodes sp)) (remdups ids) ids)"

text \<open>The advisory, as the sorted groups it lists; one component gives none.\<close>

definition structural_warnings :: "outcome_spec \<Rightarrow> string list list" where
  "structural_warnings sp =
     (let cs = weakly_connected_components sp in if length cs \<le> 1 then [] else map sort cs)"

end
