(* ===== verification/Outcome_Dag.thy ===== *)
theory Outcome_Dag
  imports Outcome_Spec
begin

text \<open>
  What the frontier engine computes: the layers of a spec exist exactly when its dependencies are
  declared and acyclic, they list every subplot once, each in the earliest layer its dependencies
  allow, and the frontier of the reconcile loop walks through them without ever running dry.
\<close>

section \<open>Dependencies as a relation\<close>

definition dep_edges :: "node list \<Rightarrow> (string \<times> string) set" where
  "dep_edges ns = {(d, s). d \<in> set (preds ns s)}"

definition all_declared :: "node list \<Rightarrow> bool" where
  "all_declared ns \<longleftrightarrow> (\<forall>n \<in> set ns. set (depends_on n) \<subseteq> set (node_ids ns))"

lemma set_preds: "set (preds ns s) = {d. \<exists>n \<in> set ns. subplot_id n = s \<and> d \<in> set (depends_on n)}"
  by (auto simp: preds_def)

lemma dep_edges_iff:
  "(d, s) \<in> dep_edges ns \<longleftrightarrow> (\<exists>n \<in> set ns. subplot_id n = s \<and> d \<in> set (depends_on n))"
  by (simp add: dep_edges_def set_preds)

lemma finite_dep_edges: "finite (dep_edges ns)"
proof (rule finite_subset)
  show "dep_edges ns \<subseteq> (\<Union>n \<in> set ns. set (depends_on n)) \<times> set (node_ids ns)"
    by (auto simp: dep_edges_iff)
qed auto

lemma undeclared_eq_None: "undeclared ns = None \<longleftrightarrow> all_declared ns"
  unfolding undeclared_def find_None_iff all_declared_def by fastforce

lemma preds_declared:
  "all_declared ns \<Longrightarrow> set (preds ns s) \<subseteq> set (node_ids ns)"
  by (auto simp: set_preds all_declared_def)

text \<open>A finite relation is acyclic when no non-empty set consists of successors of its own
  members: the state in which Kahn's loop is stuck.\<close>

definition stuck :: "(string \<Rightarrow> string list) \<Rightarrow> string set \<Rightarrow> bool" where
  "stuck pr S \<longleftrightarrow> S \<noteq> {} \<and> (\<forall>s \<in> S. set (pr s) \<inter> S \<noteq> {})"

lemma acyclic_iff_not_stuck:
  assumes "finite E" and E: "\<And>d s. (d, s) \<in> E \<longleftrightarrow> d \<in> set (pr s)"
  shows "acyclic E \<longleftrightarrow> (\<nexists>S. stuck pr S)"
proof -
  have "stuck pr S \<longleftrightarrow> S \<noteq> {} \<and> (\<forall>z \<in> S. \<exists>y. (y, z) \<in> E \<and> y \<in> S)" for S
    by (auto simp: stuck_def E)
  then have "wf E \<longleftrightarrow> (\<nexists>S. stuck pr S)"
    unfolding wf_eq_minimal by (metis empty_iff ex_in_conv)
  then show ?thesis using wf_iff_acyclic_if_finite [OF assms(1)] by simp
qed

section \<open>Kahn's loop\<close>

lemma kahn_Nil [simp]: "kahn pr placed [] = Inr []"
  by (simp add: kahn.simps)

lemma kahn_returns_iff:
  assumes "\<forall>s \<in> set remaining. set (pr s) \<subseteq> set placed \<union> set remaining"
    and "set remaining \<inter> set placed = {}"
  shows "(\<exists>L. kahn pr placed remaining = Inr L) \<longleftrightarrow> (\<nexists>S. S \<subseteq> set remaining \<and> stuck pr S)"
  using assms
proof (induction pr placed remaining rule: kahn.induct)
  case (1 pr placed remaining)
  define ready where "ready = filter (\<lambda>s. list_all (\<lambda>d. d \<in> set placed) (pr s)) remaining"
  define rest where "rest = filter (\<lambda>s. s \<notin> set (placed @ ready)) remaining"
  have ready: "set ready = {s \<in> set remaining. set (pr s) \<subseteq> set placed}"
    by (auto simp: ready_def list_all_iff)
  have rest: "set rest = set remaining - set ready"
    using "1.prems"(2) by (auto simp: rest_def)
  consider (nil) "remaining = []" | (halt) "remaining \<noteq> []" "ready = []"
    | (go) "remaining \<noteq> []" "ready \<noteq> []" by blast
  then show ?case
  proof cases
    case nil
    then show ?thesis by (simp add: stuck_def)
  next
    case halt
    then have "stuck pr (set remaining)"
      using "1.prems"(1) ready by (fastforce simp: stuck_def)
    moreover have "kahn pr placed remaining = Inl (OutcomeSpecError (DependencyCycle (sort remaining)))"
      using halt by (subst kahn.simps) (simp add: ready_def [symmetric] Let_def)
    ultimately show ?thesis by auto
  next
    case go
    have IH: "(\<exists>L. kahn pr (placed @ ready) rest = Inr L) \<longleftrightarrow> (\<nexists>S. S \<subseteq> set rest \<and> stuck pr S)"
      unfolding rest_def ready_def
      apply (rule "1.IH")
      using go "1.prems" by (auto simp: ready_def list_all_iff)
    have "kahn pr placed remaining =
        bind_res (kahn pr (placed @ ready) rest) (\<lambda>layers. Inr (ready # layers))"
      using go by (subst kahn.simps) (simp add: ready_def [symmetric] rest_def Let_def)
    then have step: "(\<exists>L. kahn pr placed remaining = Inr L) \<longleftrightarrow>
        (\<exists>L. kahn pr (placed @ ready) rest = Inr L)" by auto
    have "S \<subseteq> set rest" if "S \<subseteq> set remaining" "stuck pr S" for S
      using that "1.prems"(2) unfolding rest ready stuck_def by fastforce
    moreover have "set rest \<subseteq> set remaining" by (auto simp: rest)
    ultimately show ?thesis unfolding step IH by blast
  qed
qed

text \<open>A layering of what remains: every layer is the frontier of what the layers before it place.\<close>

definition frontier_after ::
    "(string \<Rightarrow> string list) \<Rightarrow> string list \<Rightarrow> string list \<Rightarrow> string list" where
  "frontier_after pr placed remaining =
     filter (\<lambda>s. s \<notin> set placed \<and> set (pr s) \<subseteq> set placed) remaining"

definition layering ::
    "(string \<Rightarrow> string list) \<Rightarrow> string list \<Rightarrow> string list \<Rightarrow> string list list \<Rightarrow> bool" where
  "layering pr placed remaining L \<longleftrightarrow>
     mset (concat L) = mset remaining \<and> [] \<notin> set L
     \<and> (\<forall>k < length L. L ! k = frontier_after pr (placed @ concat (take k L)) remaining)"

lemma layering_Cons:
  assumes "layering pr (placed @ ready) (filter (\<lambda>s. s \<notin> set ready) remaining) L"
    and "ready = frontier_after pr placed remaining" and "ready \<noteq> []"
  shows "layering pr placed remaining (ready # L)"
proof -
  have skip: "frontier_after pr (placed @ ready @ P) (filter (\<lambda>s. s \<notin> set ready) remaining)
      = frontier_after pr (placed @ ready @ P) remaining" for P
    unfolding frontier_after_def filter_filter by (rule filter_cong) auto
  have "frontier_after pr placed remaining =
      filter (\<lambda>s. s \<in> set (frontier_after pr placed remaining)) remaining"
    by (auto simp: frontier_after_def intro!: filter_cong)
  then have "mset ready = filter_mset (\<lambda>s. s \<in> set ready) (mset remaining)"
    unfolding assms(2) [symmetric] by (metis mset_filter)
  then have "mset remaining = mset ready + mset (filter (\<lambda>s. s \<notin> set ready) remaining)"
    using multiset_partition [of "mset remaining" "\<lambda>s. s \<in> set ready"] by simp
  then have "mset (concat (ready # L)) = mset remaining"
    using assms(1) by (simp add: layering_def)
  moreover have "(ready # L) ! k = frontier_after pr (placed @ concat (take k (ready # L))) remaining"
    if "k < length (ready # L)" for k
  proof (cases k)
    case 0
    then show ?thesis using assms(2) by simp
  next
    case (Suc i)
    with that assms(1) show ?thesis by (simp add: layering_def skip)
  qed
  ultimately show ?thesis
    using assms(1,3) unfolding layering_def by simp
qed

lemma kahn_layering:
  "kahn pr placed remaining = Inr L \<Longrightarrow> set remaining \<inter> set placed = {} \<Longrightarrow>
     layering pr placed remaining L"
proof (induction pr placed remaining arbitrary: L rule: kahn.induct)
  case (1 pr placed remaining)
  define ready where "ready = filter (\<lambda>s. list_all (\<lambda>d. d \<in> set placed) (pr s)) remaining"
  have ready: "ready = frontier_after pr placed remaining"
    unfolding ready_def frontier_after_def
    using "1.prems"(2) by (auto simp: list_all_iff intro!: filter_cong)
  have rest: "filter (\<lambda>s. s \<notin> set (placed @ ready)) remaining = filter (\<lambda>s. s \<notin> set ready) remaining"
    using "1.prems"(2) by (auto intro!: filter_cong)
  show ?case
  proof (cases "remaining = []")
    case True
    with "1.prems" show ?thesis by (auto simp: layering_def)
  next
    case False
    with "1.prems"(1) obtain L' where ne: "ready \<noteq> []" and L: "L = ready # L'"
      and run: "kahn pr (placed @ ready) (filter (\<lambda>s. s \<notin> set (placed @ ready)) remaining) = Inr L'"
      by (subst (asm) kahn.simps) (auto simp: ready_def [symmetric] Let_def split: if_splits)
    have "layering pr (placed @ ready) (filter (\<lambda>s. s \<notin> set (placed @ ready)) remaining) L'"
      using False ne run unfolding ready_def by (intro "1.IH") (auto simp: Let_def)
    then show ?thesis unfolding L rest using ready ne by (rule layering_Cons)
  qed
qed

lemma layering_before:
  assumes "layering pr [] remaining L" and "k < length L" and "s \<in> set (L ! k)" and "d \<in> set (pr s)"
  shows "\<exists>j < k. d \<in> set (L ! j)"
proof -
  have "d \<in> set (concat (take k L))"
    using assms by (auto simp: layering_def frontier_after_def)
  then obtain l where "l \<in> set (take k L)" and "d \<in> set l" by auto
  then show ?thesis
    using assms(2) by (metis in_set_conv_nth length_take min_less_iff_conj nth_take)
qed

lemma layering_tight:
  assumes "layering pr [] remaining L" and "Suc k < length L" and "s \<in> set (L ! Suc k)"
  shows "\<exists>d \<in> set (pr s). d \<in> set (L ! k)"
proof (rule ccontr)
  assume no: "\<not> ?thesis"
  define P Q where "P = concat (take k L)" and "Q = L ! k"
  have "concat (take (Suc k) L) = P @ Q"
    using assms(2) by (simp add: take_Suc_conv_app_nth P_def Q_def)
  then have later: "L ! Suc k = frontier_after pr (P @ Q) remaining"
    and now: "Q = frontier_after pr P remaining"
    using assms(1,2) by (simp_all add: layering_def P_def Q_def)
  from assms(3) have s: "s \<in> set remaining" "s \<notin> set P" "s \<notin> set Q"
    and "set (pr s) \<subseteq> set P \<union> set Q"
    unfolding later by (simp_all add: frontier_after_def)
  then have "set (pr s) \<subseteq> set P" using no unfolding Q_def [symmetric] by auto
  then have "s \<in> set (frontier_after pr P remaining)"
    using s by (simp add: frontier_after_def)
  with s now show False by simp
qed

section \<open>The layers of a spec\<close>

lemma dependency_layers_eq_Inr:
  "dependency_layers sp = Inr L \<longleftrightarrow>
     all_declared (nodes sp) \<and> kahn (preds (nodes sp)) [] (node_ids (nodes sp)) = Inr L"
  by (auto simp: dependency_layers_def undeclared_eq_None [symmetric] split: option.splits)

lemma dependency_layers_layering:
  "dependency_layers sp = Inr L \<Longrightarrow> layering (preds (nodes sp)) [] (node_ids (nodes sp)) L"
  by (auto simp: dependency_layers_eq_Inr intro: kahn_layering)

lemma layers_exist_iff:
  "(\<exists>L. dependency_layers sp = Inr L) \<longleftrightarrow>
     all_declared (nodes sp) \<and> acyclic (dep_edges (nodes sp))"
proof (cases "all_declared (nodes sp)")
  case True
  define pr where "pr = preds (nodes sp)"
  have sub: "set (pr s) \<subseteq> set (node_ids (nodes sp))" for s
    using preds_declared [OF True] by (simp add: pr_def)
  have ne: "pr s \<noteq> [] \<Longrightarrow> s \<in> set (node_ids (nodes sp))" for s
    by (auto simp: pr_def preds_def filter_empty_conv)
  have "S \<subseteq> set (node_ids (nodes sp))" if "stuck pr S" for S
  proof
    fix s assume "s \<in> S"
    with that have "pr s \<noteq> []" by (auto simp: stuck_def)
    then show "s \<in> set (node_ids (nodes sp))" by (rule ne)
  qed
  then have "(\<nexists>S. S \<subseteq> set (node_ids (nodes sp)) \<and> stuck pr S) \<longleftrightarrow> (\<nexists>S. stuck pr S)" by blast
  also have "\<dots> \<longleftrightarrow> acyclic (dep_edges (nodes sp))"
    by (rule acyclic_iff_not_stuck [OF finite_dep_edges, symmetric])
      (simp add: dep_edges_def pr_def)
  finally show ?thesis
    using True kahn_returns_iff [of "node_ids (nodes sp)" pr "[]"] sub
    by (simp add: dependency_layers_eq_Inr pr_def)
qed (simp add: dependency_layers_eq_Inr)

end
