(* ===== verification/Outcome_Valid.thy ===== *)
theory Outcome_Valid
  imports Outcome_Dag
begin

text \<open>
  What \<open>OutcomeSpec.validate\<close> accepts, stated without its order of checks; the completion runs
  a valid spec allows, which all end with every subplot complete; and the round trip of the
  document through its reader and writer.
\<close>

section \<open>Valid documents\<close>

definition node_ok :: "node \<Rightarrow> bool" where
  "node_ok n \<longleftrightarrow>
     is_slug (subplot_id n) \<and> node_kind n \<in> set node_kinds \<and> node_state n \<in> set node_states
     \<and> backend n \<in> set (node_backends @ legacy_node_backends)
     \<and> degrade_policy n \<in> set degrade_policies
     \<and> (\<forall>i. timeout_seconds n = Some i \<longrightarrow> 0 < i) \<and> (\<forall>i. heartbeat_seconds n = Some i \<longrightarrow> 0 < i)"

definition spec_ok :: "outcome_spec \<Rightarrow> bool" where
  "spec_ok sp \<longleftrightarrow>
     outcome_id sp \<noteq> [] \<and> objective sp \<noteq> [] \<and> nodes sp \<noteq> []
     \<and> list_all node_ok (nodes sp) \<and> distinct (node_ids (nodes sp))
     \<and> (\<forall>n \<in> set (nodes sp). is_outcome n \<longrightarrow>
          child_spec_ref n \<noteq> outcome_id sp \<and> child_spec_ref n \<notin> set (node_ids (nodes sp)))
     \<and> all_declared (nodes sp) \<and> acyclic (dep_edges (nodes sp))"

lemma validate_node_eq_Inr:
  "validate_node oid n = Inr u \<longleftrightarrow>
     node_ok n \<and> subplot_id n \<notin> set (depends_on n)
     \<and> (is_outcome n \<longrightarrow> child_spec_ref n \<noteq> oid \<and> child_spec_ref n \<noteq> subplot_id n)"
  by (auto simp: validate_node_def Let_def node_ok_def is_outcome_def is_slug_def
      split: option.splits)

lemma validate_nodes_eq_Inr:
  "validate_nodes oid seen ns = Inr u \<longleftrightarrow>
     (\<forall>n \<in> set ns. validate_node oid n = Inr ()) \<and> distinct (node_ids ns)
     \<and> set (node_ids ns) \<inter> set seen = {}"
  by (induction oid seen ns rule: validate_nodes.induct) auto

lemma find_Some_set: "find P xs = Some x \<Longrightarrow> x \<in> set xs \<and> P x"
  by (auto simp: find_Some_iff)

lemma validate_links_eq_Inr:
  "validate_links ids ns = Inr u \<longleftrightarrow>
     (\<forall>n \<in> set ns. (is_outcome n \<longrightarrow> child_spec_ref n \<notin> set ids) \<and> set (depends_on n) \<subseteq> set ids)"
  by (induction ids ns rule: validate_links.induct)
    (auto simp: is_outcome_def find_None_iff dest!: find_Some_set split: option.splits)

lemma self_edge: "n \<in> set ns \<Longrightarrow> subplot_id n \<in> set (depends_on n) \<Longrightarrow> \<not> acyclic (dep_edges ns)"
  by (auto simp: acyclic_def dep_edges_iff intro!: exI [of _ "subplot_id n"] r_into_trancl)

lemma validate_iff: "validate_spec sp = Inr () \<longleftrightarrow> spec_ok sp"
proof -
  have "validate_spec sp = Inr () \<longleftrightarrow>
      outcome_id sp \<noteq> [] \<and> objective sp \<noteq> [] \<and> nodes sp \<noteq> []
      \<and> validate_nodes (outcome_id sp) [] (nodes sp) = Inr ()
      \<and> validate_links (node_ids (nodes sp)) (nodes sp) = Inr ()
      \<and> (\<exists>L. dependency_layers sp = Inr L)"
    by (auto simp: validate_spec_def)
  also have "\<dots> \<longleftrightarrow> spec_ok sp"
    unfolding layers_exist_iff validate_nodes_eq_Inr validate_links_eq_Inr validate_node_eq_Inr
    using self_edge [of _ "nodes sp"]
    by (auto simp: spec_ok_def list_all_iff all_declared_def)
  finally show ?thesis .
qed

text \<open>C28: The validation of an outcome spec, field by field and with its layering of the graph,
  accepts exactly the specs that satisfy the declarative conditions: named and with an objective,
  every subplot well-formed, identifiers distinct, dependencies declared, child
  references outside the outcome, no dependency cycle.\<close>

theorem validate_iff_spec_ok: "validate_spec sp = Inr () \<longleftrightarrow> spec_ok sp"
  by (rule validate_iff)

section \<open>Completion runs\<close>

text \<open>
  One step of the reconcile loop, as far as the frontier is concerned: some subplot of the
  frontier completes.
\<close>

inductive complete_step :: "outcome_spec \<Rightarrow> string list \<Rightarrow> string list \<Rightarrow> bool" for sp where
  complete: "s \<in> set (ready_frontier sp completed) \<Longrightarrow> complete_step sp completed (s # completed)"


inductive_cases complete_stepE [elim!]: "complete_step sp completed completed'"

lemma ready_frontier_iff:
  "s \<in> set (ready_frontier sp completed) \<longleftrightarrow>
     s \<notin> set completed
     \<and> (\<exists>n \<in> set (nodes sp). subplot_id n = s \<and> set (depends_on n) \<subseteq> set completed)"
  by (auto simp: ready_frontier_def list_all_iff)

lemma frontier_never_dry:
  assumes "spec_ok sp" and "\<not> set (node_ids (nodes sp)) \<subseteq> set completed"
  shows "ready_frontier sp completed \<noteq> []"
proof -
  define S where "S = set (node_ids (nodes sp)) - set completed"
  have "wf (dep_edges (nodes sp))"
    using assms(1) by (simp add: spec_ok_def finite_dep_edges wf_iff_acyclic_if_finite)
  moreover have "S \<noteq> {}" using assms(2) by (auto simp: S_def)
  ultimately obtain s where s: "s \<in> S" and first: "\<And>d. (d, s) \<in> dep_edges (nodes sp) \<Longrightarrow> d \<notin> S"
    by (metis ex_in_conv wfE_min)
  then obtain n where n: "n \<in> set (nodes sp)" "subplot_id n = s" by (auto simp: S_def)
  have "set (depends_on n) \<subseteq> set completed"
  proof
    fix d assume "d \<in> set (depends_on n)"
    with n have "(d, s) \<in> dep_edges (nodes sp)" by (auto simp: dep_edges_iff)
    moreover have "d \<in> set (node_ids (nodes sp))"
      using assms(1) n \<open>d \<in> set (depends_on n)\<close> by (auto simp: spec_ok_def all_declared_def)
    ultimately show "d \<in> set completed" using first by (auto simp: S_def)
  qed
  then have "s \<in> set (ready_frontier sp completed)"
    using n s by (auto simp: ready_frontier_iff S_def)
  then show ?thesis by auto
qed

lemma completion_run:
  assumes "(complete_step sp ^^ m) [] completed"
  shows "length completed = m \<and> distinct completed \<and> set completed \<subseteq> set (node_ids (nodes sp))"
  using assms
proof (induction m arbitrary: completed)
  case (Suc m)
  then obtain before s where "(complete_step sp ^^ m) [] before"
    and "s \<in> set (ready_frontier sp before)" and "completed = s # before"
    by auto
  then show ?case
    using Suc.IH [of before] by (auto simp: ready_frontier_iff)
qed simp

lemma complete_more:
  "(complete_step sp ^^ m) [] completed \<Longrightarrow> s \<in> set (ready_frontier sp completed) \<Longrightarrow>
     (complete_step sp ^^ Suc m) [] (s # completed)"
  by (simp add: relcompp.relcompI complete)

lemma completion_order:
  assumes "(complete_step sp ^^ m) [] (later @ s # earlier)" and "spec_ok sp"
    and "(d, s) \<in> dep_edges (nodes sp)"
  shows "d \<in> set earlier"
  using assms(1)
proof (induction later arbitrary: m)
  case Nil
  then have "s \<in> set (ready_frontier sp earlier)" by (cases m) auto
  then show ?case
    using assms(2,3)
    by (auto simp: ready_frontier_iff dep_edges_iff spec_ok_def distinct_map inj_on_def)
next
  case (Cons x later)
  then obtain k where "(complete_step sp ^^ k) [] (later @ s # earlier)"
    by (cases m) auto
  then show ?case by (rule Cons.IH)
qed

text \<open>C29: Whatever order the subplots of a valid outcome complete in, one of the ready
  frontier at a time, a run has at most as many steps as there are subplots, it is stuck only
  when every subplot is completed (so the frontier never dries up before), and every subplot in
  it completes after all the subplots it depends on.\<close>

theorem completion_runs_finish:
  assumes "validate_spec sp = Inr ()" and "(complete_step sp ^^ m) [] completed"
  shows "m \<le> length (nodes sp)
    \<and> ((\<nexists>completed'. complete_step sp completed completed')
        \<longleftrightarrow> set completed = set (node_ids (nodes sp)))
    \<and> (\<forall>later s earlier. completed = later @ s # earlier
        \<longrightarrow> set (preds (nodes sp) s) \<subseteq> set earlier)"
proof -
  have ok: "spec_ok sp" using assms(1) by (simp add: validate_iff)
  note run = completion_run [OF assms(2)]
  have "m \<le> length (nodes sp)"
    using run by (metis card_mono distinct_card finite_set length_map ok spec_ok_def)
  moreover have "(\<nexists>completed'. complete_step sp completed completed')
      \<longleftrightarrow> set completed = set (node_ids (nodes sp))"
  proof
    assume "\<nexists>completed'. complete_step sp completed completed'"
    then have "ready_frontier sp completed = []"
      by (metis complete_step.complete ex_in_conv set_empty2)
    then show "set completed = set (node_ids (nodes sp))"
      using frontier_never_dry [OF ok] run by blast
  next
    assume "set completed = set (node_ids (nodes sp))"
    then show "\<nexists>completed'. complete_step sp completed completed'"
      by (auto simp: ready_frontier_iff)
  qed
  moreover have "set (preds (nodes sp) s) \<subseteq> set earlier" if "completed = later @ s # earlier"
    for later s earlier
    using completion_order [of m sp later s earlier] assms(2) ok that
    by (auto simp: dep_edges_def)
  ultimately show ?thesis by blast
qed

section \<open>Layers and frontiers\<close>

lemma preds_unique:
  assumes "distinct (node_ids ns)" and "n \<in> set ns"
  shows "preds ns (subplot_id n) = depends_on n"
proof -
  have "filter (\<lambda>m. subplot_id m = subplot_id n) ns = [n]"
    using assms by (induction ns) (auto simp: filter_empty_conv, metis image_eqI)
  then show ?thesis by (simp add: preds_def)
qed

lemma ready_frontier_layer:
  assumes "distinct (node_ids (nodes sp))"
  shows "ready_frontier sp placed = frontier_after (preds (nodes sp)) placed (node_ids (nodes sp))"
proof -
  have "frontier_after (preds (nodes sp)) placed (node_ids (nodes sp)) =
      node_ids (filter (\<lambda>n. subplot_id n \<notin> set placed
        \<and> set (preds (nodes sp) (subplot_id n)) \<subseteq> set placed) (nodes sp))"
    by (simp add: frontier_after_def filter_map comp_def)
  also have "\<dots> = ready_frontier sp placed"
    unfolding ready_frontier_def
    by (auto simp: preds_unique [OF assms] list_all_iff intro!: arg_cong [of _ _ node_ids] filter_cong)
  finally show ?thesis by simp
qed

text \<open>C30: The layers of a valid outcome list each subplot exactly once; every layer is the
  ready frontier once the layers before it are completed; each dependency of a subplot stands in
  an earlier layer, and a subplot beyond the first layer has one in the layer directly before it,
  so that no subplot waits longer than it has to.\<close>

theorem layers_sound:
  assumes "validate_spec sp = Inr ()"
  shows "\<exists>L. dependency_layers sp = Inr L \<and> mset (concat L) = mset (node_ids (nodes sp))
    \<and> (\<forall>k < length L. L ! k = ready_frontier sp (concat (take k L))
        \<and> (\<forall>s \<in> set (L ! k). (\<forall>d \<in> set (preds (nodes sp) s). \<exists>j < k. d \<in> set (L ! j))
            \<and> (0 < k \<longrightarrow> (\<exists>d \<in> set (preds (nodes sp) s). d \<in> set (L ! (k - 1))))))"
proof -
  have ok: "spec_ok sp" using assms by (simp add: validate_iff)
  then obtain L where L: "dependency_layers sp = Inr L"
    using layers_exist_iff unfolding spec_ok_def by blast
  note lay = dependency_layers_layering [OF L]
  have "L ! k = ready_frontier sp (concat (take k L))" if "k < length L" for k
    using that lay ok by (simp add: layering_def ready_frontier_layer spec_ok_def)
  moreover have "\<exists>d \<in> set (preds (nodes sp) s). d \<in> set (L ! (k - 1))"
    if "k < length L" "s \<in> set (L ! k)" "0 < k" for k s
    using that layering_tight [OF lay, of "k - 1" s] by simp
  moreover have "mset (concat L) = mset (node_ids (nodes sp))"
    using lay by (simp add: layering_def)
  ultimately show ?thesis
    using L layering_before [OF lay] by (intro exI [of _ L] conjI allI impI ballI) simp_all
qed

section \<open>The document round trip\<close>

lemma current_backend_idem [simp]: "current_backend (current_backend b) = current_backend b"
  by (simp add: current_backend_def)

lemma opt_int_jopt [simp]: "opt_int (jopt_int v) = Inr v"
  by (cases v) (simp_all add: opt_int_def)

lemma str_list_strings [simp]: "str_list (JArr (map JStr xs)) = Inr xs"
  by (simp add: str_list_def comp_def)

lemma dict_value_obj [simp]: "dict_value (JObj d) = Inr d"
  by (simp add: dict_value_def py_dict_of_def)

lemma node_round_trip:
  "node_from_dict (node_to_dict n) = Inr (n\<lparr>backend := current_backend (backend n)\<rparr>)"
  by (simp add: node_from_dict_def node_from_items_def node_to_dict_def jget_def)

lemma node_from_dict_current:
  "node_from_dict j = Inr n \<Longrightarrow> n\<lparr>backend := current_backend (backend n)\<rparr> = n"
  by (auto simp: node_from_dict_def node_from_items_def Let_def split: json.splits)

lemma positive_int_pos: "positive_int j = Inr n \<Longrightarrow> 1 \<le> n"
  by (auto simp: positive_int_def split: if_splits json.splits sum.splits int_failure.splits)

lemma positive_int_int: "1 \<le> n \<Longrightarrow> positive_int (JInt n) = Inr n"
  by (simp add: positive_int_def py_int_def)

lemma spec_from_dict_written:
  assumes "1 \<le> spec_revision sp" and "1 \<le> schema_version sp"
    and "\<forall>n \<in> set (nodes sp). n\<lparr>backend := current_backend (backend n)\<rparr> = n"
  shows "spec_from_dict (spec_to_dict sp) = Inr sp"
proof -
  have "map_res node_from_dict (map node_to_dict (nodes sp)) = Inr (nodes sp)"
    using assms(3) by (simp add: map_res_eq_Inr list_all2_map1 node_round_trip list_all2_same)
  moreover have "map_res dict_value (map JObj (decision_trail sp)) = Inr (decision_trail sp)"
    by (simp add: map_res_eq_Inr list_all2_map1 list_all2_same)
  ultimately show ?thesis
    using assms(1,2)
    by (simp add: spec_from_dict_def spec_from_items_def spec_to_dict_def jget_def positive_int_int
        iterate_def)
qed

text \<open>C31: A spec document that reads, whatever legacy or malformed optional fields it had,
  is written back as a document that reads as the same spec.\<close>

theorem spec_round_trip:
  assumes "spec_from_dict j = Inr sp"
  shows "spec_from_dict (spec_to_dict sp) = Inr sp"
proof -
  obtain d raw where d: "j = JObj d" "dget d ''nodes'' = Some (JArr raw)"
    using assms by (auto simp: spec_from_dict_def spec_from_items_def split: json.splits option.splits)
  have run: "spec_from_items d = Inr sp" using assms d(1) by (simp add: spec_from_dict_def)
  have "map_res node_from_dict raw = Inr (nodes sp)"
    and "\<exists>a. positive_int a = Inr (spec_revision sp)" and "\<exists>a. positive_int a = Inr (schema_version sp)"
    using run d(2) by (auto simp: spec_from_items_def)
  then show ?thesis
    using positive_int_pos node_from_dict_current
    by (intro spec_from_dict_written) (auto dest!: map_res_Inr_set)
qed

section \<open>A spec that exercises every rule\<close>

text \<open>A diamond of four subplots, the last of which is a child outcome.\<close>

definition demo_node :: "string \<Rightarrow> string list \<Rightarrow> node" where
  "demo_node s deps =
     \<lparr>subplot_id = s, title = s, node_kind = ''code'', node_state = ''pending'', backend = ''inline'',
      gated = False, risky = False, destructive = False, guarantee_tags = [],
      degrade_policy = ''none'', timeout_seconds = Some 60, heartbeat_seconds = None,
      depends_on = deps, leaf_saga_id = [], child_spec_ref = [], github = [], node_worktree = [],
      node_evidence = [], node_cost = []\<rparr>"

definition demo_spec :: outcome_spec where
  "demo_spec =
     \<lparr>outcome_id = ''o'', objective = ''ship'',
      nodes = [demo_node ''d'' [''b'', ''c''], demo_node ''b'' [''a''], demo_node ''c'' [''a''],
               (demo_node ''a'' [])\<lparr>child_spec_ref := ''other''\<rparr>],
      spec_revision = 1, schema_version = 1, decision_trail = [], cost_rollup = [],
      created_at = [], updated_at = []\<rparr>"

lemma demo_spec_valid: "validate_spec demo_spec = Inr ()"
  by code_simp

lemma demo_layers: "dependency_layers demo_spec = Inr [[''a''], [''b'', ''c''], [''d'']]"
  by code_simp

theorem layers_sound_witness:
  "\<exists>L. dependency_layers demo_spec = Inr L \<and> mset (concat L) = {#''a'', ''b'', ''c'', ''d''#}
    \<and> L ! 2 = ready_frontier demo_spec (concat (take 2 L))"
  using layers_sound [OF demo_spec_valid] unfolding demo_layers
  by (auto simp: demo_spec_def demo_node_def)

theorem completion_runs_finish_witness:
  "(4::nat) \<le> length (nodes demo_spec)
    \<and> ((\<nexists>c. complete_step demo_spec [''d'', ''b'', ''c'', ''a''] c)
        \<longleftrightarrow> set [''d'', ''b'', ''c'', ''a''] = set (node_ids (nodes demo_spec)))"
proof -
  have a: "''a'' \<in> set (ready_frontier demo_spec [])" by code_simp
  have c: "''c'' \<in> set (ready_frontier demo_spec [''a''])" by code_simp
  have b: "''b'' \<in> set (ready_frontier demo_spec [''c'', ''a''])" by code_simp
  have d: "''d'' \<in> set (ready_frontier demo_spec [''b'', ''c'', ''a''])" by code_simp
  have "(complete_step demo_spec ^^ Suc (Suc (Suc (Suc 0)))) [] [''d'', ''b'', ''c'', ''a'']"
    by (intro complete_more a b c d) simp
  from completion_runs_finish [OF demo_spec_valid this] show ?thesis by simp
qed

text \<open>A document of an older writer: a retired backend name and a revision written as text.\<close>

definition legacy_doc :: json where
  "legacy_doc =
     JObj [(''outcome_id'', JStr ''o''), (''objective'', JStr ''ship''),
           (''nodes'', JArr [JObj [(''subplot_id'', JStr ''a''), (''backend'', JStr ''team-execution'')]]),
           (''spec_revision'', JStr '' 3 '')]"

lemma legacy_revision:
  "case spec_from_dict legacy_doc of Inl _ \<Rightarrow> False | Inr sp \<Rightarrow> spec_revision sp = 3"
  by code_simp

lemma legacy_backend:
  "case spec_from_dict legacy_doc of Inl _ \<Rightarrow> False
    | Inr sp \<Rightarrow> map backend (nodes sp) = [''verified-workflow'']"
  by code_simp

theorem spec_round_trip_witness:
  "\<exists>sp. spec_from_dict legacy_doc = Inr sp \<and> spec_revision sp = 3
    \<and> map backend (nodes sp) = [''verified-workflow''] \<and> spec_from_dict (spec_to_dict sp) = Inr sp"
proof -
  obtain sp where sp: "spec_from_dict legacy_doc = Inr sp"
    using legacy_revision by (cases "spec_from_dict legacy_doc") simp_all
  show ?thesis
    using sp legacy_revision legacy_backend spec_round_trip [OF sp]
    by (intro exI [of _ sp] conjI) simp_all
qed

end
