(* ===== verification/Outcome_Store.thy ===== *)
theory Outcome_Store
  imports Outcome_Valid Run_Ledger
begin

text \<open>
  The cache of one outcome, \<open>saga/scripts/outcome_store.py\<close>: the completion events (one
  write-once file per subplot and attempt), the append-only replay ledger with its reduction to a
  dispatch state per subplot, and the leases that serialise coordinators.  A directory is a
  dictionary from file names to contents; reading a malformed file moves it to quarantine, so a read
  is an operation on the store too.  Calls are sequential: a call between its first and last file
  access is one step.
\<close>

section \<open>The cache\<close>

datatype file_content = Malformed | Doc json

text \<open>
  A lock file holds the holder and the expiry that \<open>acquire_lease\<close> wrote, or a text it cannot
  read.  Times are whole ticks of the clock.
\<close>

datatype lock_content = BrokenLock | Lock string int

record outcome_store =
  event_files :: "file_content dict"
  quarantine :: "(string \<times> file_content) list"
  replay_ledger :: ledger_file
  locks :: "(string \<times> lock_content) list"
  approvals :: "int list"

definition empty_store :: outcome_store where
  "empty_store = \<lparr>event_files = [], quarantine = [], replay_ledger = new_ledger, locks = [],
     approvals = []\<rparr>"

text \<open>Operations: the store changes even when an exception leaves the call.\<close>

type_synonym 'a store_op = "outcome_store \<Rightarrow> (outcome_error + 'a) \<times> outcome_store"

definition st_bind :: "'a store_op \<Rightarrow> ('a \<Rightarrow> 'b store_op) \<Rightarrow> 'b store_op" where
  "st_bind m k st = (case m st of (Inl e, st') \<Rightarrow> (Inl e, st') | (Inr x, st') \<Rightarrow> k x st')"

definition st_lift :: "outcome_error + 'a \<Rightarrow> 'a store_op" where
  "st_lift r st = (r, st)"

definition st_read :: "(outcome_store \<Rightarrow> outcome_error + 'a) \<Rightarrow> 'a store_op" where
  "st_read f st = (f st, st)"

lemma st_simps [simp]:
  "st_bind m k st = (case m st of (Inl e, st') \<Rightarrow> (Inl e, st') | (Inr x, st') \<Rightarrow> k x st')"
  "st_lift r st = (r, st)"
  "st_read f st = (f st, st)"
  by (simp_all add: st_bind_def st_lift_def st_read_def)

definition safe_name :: "string \<Rightarrow> outcome_error + string" where
  "safe_name s =
     (if s = [] \<or> CHR ''/'' \<in> set s \<or> CHR 0x5C \<in> set s \<or> s = ''.'' \<or> s = ''..'' \<or> CHR 0x00 \<in> set s
      then Inl OutcomeStoreError else Inr s)"

section \<open>Completion events\<close>

record completion_event =
  ev_subplot :: string
  ev_state :: string
  ev_key :: string
  ev_attempt :: int
  ev_at :: string
  ev_payload :: "json dict"

definition is_success :: "completion_event \<Rightarrow> bool" where
  "is_success ev \<longleftrightarrow> ev_state ev \<in> set success_states"

definition validate_event :: "completion_event \<Rightarrow> outcome_error + unit" where
  "validate_event ev =
     bind_res (safe_name (ev_subplot ev)) (\<lambda>_.
     check_all
       [(ev_state ev \<in> set terminal_states, OutcomeStoreError),
        (ev_key ev \<noteq> [], OutcomeStoreError),
        (1 \<le> ev_attempt ev, OutcomeStoreError)])"

definition event_to_dict :: "completion_event \<Rightarrow> json" where
  "event_to_dict ev =
     JObj [(''subplot_id'', JStr (ev_subplot ev)), (''state'', JStr (ev_state ev)),
           (''idempotency_key'', JStr (ev_key ev)), (''attempt'', JInt (ev_attempt ev)),
           (''at'', JStr (ev_at ev)), (''payload'', JObj (ev_payload ev))]"

definition event_from_items :: "json dict \<Rightarrow> outcome_error + completion_event" where
  "event_from_items d =
     (let text = (\<lambda>k. py_str (jget d k (JStr []))) in
      case py_int (jget d ''attempt'' (JInt 1)) of
        Inl _ \<Rightarrow> Inl PythonError
      | Inr n \<Rightarrow>
          bind_res (dict_value (jget d ''payload'' (JObj []))) (\<lambda>payload.
          Inr \<lparr>ev_subplot = text ''subplot_id'', ev_state = text ''state'',
               ev_key = text ''idempotency_key'', ev_attempt = n, ev_at = text ''at'',
               ev_payload = payload\<rparr>))"

definition event_file :: "string \<Rightarrow> int \<Rightarrow> string" where
  "event_file s attempt = s @ ''.a'' @ int_text attempt @ ''.json''"

text \<open>
  The names that \<open>glob(f"{safe}.a*.json")\<close> and \<open>glob("*.a*.json")\<close> give.  A validated identifier
  is a slug, in which the meta characters of a pattern do not occur.
\<close>

definition ends_json :: "string \<Rightarrow> bool" where
  "ends_json t \<longleftrightarrow> drop (length t - 5) t = ''.json'' \<and> 5 \<le> length t"

definition of_subplot :: "string \<Rightarrow> string \<Rightarrow> bool" where
  "of_subplot s name \<longleftrightarrow>
     take (length s + 2) name = s @ ''.a'' \<and> ends_json (drop (length s + 2) name)"

definition is_event_file :: "string \<Rightarrow> bool" where
  "is_event_file name \<longleftrightarrow> list_ex (\<lambda>i. of_subplot (take i name) name) [0..<length name]"

definition quarantine_file :: "string \<Rightarrow> outcome_store \<Rightarrow> outcome_store" where
  "quarantine_file name st =
     st\<lparr>event_files := ddel name (event_files st),
        quarantine := quarantine st @ [(name, Malformed)]\<rparr>"

text \<open>The loop of the two readers over the sorted names: a malformed file is set aside, a
  document that is no object is skipped.\<close>

fun read_events :: "string list \<Rightarrow> completion_event list store_op" where
  "read_events [] st = (Inr [], st)"
| "read_events (name # names) st =
     (case dget (event_files st) name of
        Some Malformed \<Rightarrow> read_events names (quarantine_file name st)
      | Some (Doc (JObj d)) \<Rightarrow>
          (case event_from_items d of
             Inl e \<Rightarrow> (Inl e, st)
           | Inr ev \<Rightarrow> st_bind (read_events names) (\<lambda>evs. st_lift (Inr (ev # evs))) st)
      | _ \<Rightarrow> read_events names st)"

definition read_completion_events :: "string \<Rightarrow> completion_event list store_op" where
  "read_completion_events s =
     st_bind (st_lift (safe_name s)) (\<lambda>safe.
     st_bind (\<lambda>st. read_events (sort (filter (of_subplot safe) (dkeys (event_files st)))) st) (\<lambda>evs.
     st_lift (Inr (sort_key ev_attempt evs))))"

datatype write_result = Written | Skipped

definition write_completion_event :: "completion_event \<Rightarrow> write_result store_op" where
  "write_completion_event ev =
     st_bind (st_lift (validate_event ev)) (\<lambda>_.
     st_bind (read_completion_events (ev_subplot ev)) (\<lambda>evs.
     if list_ex (\<lambda>x. ev_key x = ev_key ev) evs then st_lift (Inr Skipped)
     else (\<lambda>st.
       let name = event_file (ev_subplot ev) (ev_attempt ev) in
       case dget (event_files st) name of
         None \<Rightarrow>
           (Inr Written, st\<lparr>event_files := dset name (Doc (event_to_dict ev)) (event_files st)\<rparr>)
       | Some Malformed \<Rightarrow> (Inl OutcomeStoreError, quarantine_file name st)
       | Some (Doc (JObj d)) \<Rightarrow>
           (if dget d ''idempotency_key'' = Some (JStr (ev_key ev)) then Inr Skipped
            else Inl OutcomeStoreError, st)
       | Some (Doc _) \<Rightarrow> (Inl OutcomeStoreError, st))))"

definition completed_subplots :: "bool \<Rightarrow> string list store_op" where
  "completed_subplots successful_only =
     st_bind (\<lambda>st. read_events (sort (filter is_event_file (dkeys (event_files st)))) st) (\<lambda>evs.
     st_lift (Inr (remdups (map ev_subplot
       (filter (\<lambda>ev. is_success ev \<or> \<not> successful_only) evs)))))"

section \<open>The replay ledger\<close>

definition store_ledger :: "outcome_store \<Rightarrow> outcome_error + json dict list" where
  "store_ledger st =
     (case read_lines (all_lines (replay_ledger st)) of
        Inl _ \<Rightarrow> Inl OutcomeStoreError
      | Inr rs \<Rightarrow> Inr rs)"

definition append_ledger :: "json dict \<Rightarrow> outcome_store \<Rightarrow> outcome_store" where
  "append_ledger record st =
     (let f = heal_torn_tail (replay_ledger st)
      in st\<lparr>replay_ledger := f\<lparr>lines := lines f @ [Row record]\<rparr>\<rparr>)"

definition field_text :: "json dict \<Rightarrow> string \<Rightarrow> string" where
  "field_text d k = py_str (jget d k (JStr []))"

definition append_ledger_once :: "json dict \<Rightarrow> bool store_op" where
  "append_ledger_once record =
     (let phase = field_text record ''phase''; key = field_text record ''key'' in
      if phase = [] \<or> key = [] then st_lift (Inl OutcomeStoreError)
      else
        st_bind (st_read store_ledger) (\<lambda>rs.
        if list_ex (\<lambda>r. field_text r ''phase'' = phase \<and> field_text r ''key'' = key) rs
        then st_lift (Inr False)
        else (\<lambda>st. (Inr True, append_ledger record st))))"

record reduced_dispatch =
  red_state :: string
  red_record :: "json dict"
  red_settled :: bool
  red_halted :: bool

definition v2_kind :: string where "v2_kind = ''outcome.dispatch.v2''"

text \<open>A set membership hashes its left operand: a list or a dictionary raises.\<close>

definition hashable :: "json \<Rightarrow> bool" where
  "hashable j = (case j of JArr _ \<Rightarrow> False | JObj _ \<Rightarrow> False | _ \<Rightarrow> True)"

definition has_text :: "json dict \<Rightarrow> string \<Rightarrow> string \<Rightarrow> bool" where
  "has_text d k s \<longleftrightarrow> dget d k = Some (JStr s)"

definition is_ack :: "json dict \<Rightarrow> bool" where
  "is_ack d \<longleftrightarrow> has_text d ''phase'' ''ack'' \<or> has_text d ''phase'' ''authority-ack''"

definition launched :: "json dict \<Rightarrow> bool" where
  "launched d \<longleftrightarrow>
     has_text d ''ack_kind'' ''launched'' \<and> has_text d ''receipt_authority'' ''owner-user-state-v1''"

definition handed_off :: "json dict \<Rightarrow> bool" where
  "handed_off d \<longleftrightarrow>
     has_text d ''ack_kind'' ''handed-off''
     \<and> has_text d ''receipt_authority'' ''operator-confirmed-v1''"

definition confirmed :: "reduced_dispatch option \<Rightarrow> bool" where
  "confirmed cur \<longleftrightarrow> (case cur of None \<Rightarrow> False
     | Some c \<Rightarrow> red_state c = ''dispatched'' \<or> red_state c = ''handed-off'')"

definition was_settled :: "reduced_dispatch option \<Rightarrow> bool" where
  "was_settled cur \<longleftrightarrow> (case cur of None \<Rightarrow> False | Some c \<Rightarrow> red_settled c)"

text \<open>What one record makes of the entry of its subplot; \<open>None\<close> leaves the entry as it is.\<close>

definition reduce_entry ::
    "json dict \<Rightarrow> reduced_dispatch option \<Rightarrow> outcome_error + reduced_dispatch option" where
  "reduce_entry r cur =
     (if has_text r ''kind'' ''dispatch'' \<and> has_text r ''phase'' ''halt'' then
        Inr (if confirmed cur then None
             else Some \<lparr>red_state = (case cur of Some c \<Rightarrow> red_state c | None \<Rightarrow> ''ready''),
                        red_record = (case cur of Some c \<Rightarrow> red_record c | None \<Rightarrow> r),
                        red_settled = was_settled cur, red_halted = True\<rparr>)
      else if has_text r ''kind'' ''dispatch'' \<and> has_text r ''phase'' ''commit'' then
        Inr (if confirmed cur then None
             else Some \<lparr>red_state = ''legacy-unverified'', red_record = r, red_settled = True,
                        red_halted = False\<rparr>)
      else if has_text r ''kind'' v2_kind \<and> has_text r ''phase'' ''intent'' then
        Inr (if (case cur of None \<Rightarrow> True | Some c \<Rightarrow> red_state c = ''legacy-unverified'')
             then Some \<lparr>red_state = ''intent-created'', red_record = r,
                        red_settled = was_settled cur, red_halted = False\<rparr>
             else None)
      else if has_text r ''kind'' v2_kind \<and> \<not> hashable (jget r ''phase'' JNull) then Inl PythonError
      else if has_text r ''kind'' v2_kind \<and> is_ack r \<and> (launched r \<or> handed_off r) then
        Inr (Some \<lparr>red_state = (if has_text r ''ack_kind'' ''launched'' then ''dispatched''
                               else ''handed-off''),
                   red_record = r, red_settled = True, red_halted = False\<rparr>)
      else if has_text r ''kind'' v2_kind \<and> is_ack r then
        Inr (Some \<lparr>red_state = ''legacy-unverified'', red_record = r, red_settled = True,
                   red_halted = False\<rparr>)
      else Inr None)"

fun reduce_records :: "json dict list \<Rightarrow> reduced_dispatch dict \<Rightarrow> outcome_error + reduced_dispatch dict"
where
  "reduce_records [] reduced = Inr reduced"
| "reduce_records (r # rs) reduced =
     (let s = field_text r ''subplot_id'' in
      if s = [] then reduce_records rs reduced
      else bind_res (reduce_entry r (dget reduced s)) (\<lambda>new.
        reduce_records rs (case new of None \<Rightarrow> reduced | Some e \<Rightarrow> dset s e reduced)))"

definition reduce_dispatch_ledger :: "outcome_store \<Rightarrow> outcome_error + reduced_dispatch dict" where
  "reduce_dispatch_ledger st = bind_res (store_ledger st) (\<lambda>rs. reduce_records rs [])"

text \<open>\<open>intents.setdefault(key, rec)\<close>\<close>

definition set_default :: "string \<Rightarrow> 'v \<Rightarrow> 'v dict \<Rightarrow> 'v dict" where
  "set_default k v d = (if dget d k = None then dset k v d else d)"

fun replay_from :: "reduced_dispatch dict \<Rightarrow> json dict list \<Rightarrow> string list \<times> json dict dict
    \<Rightarrow> outcome_error + string list \<times> json dict dict" where
  "replay_from reduced [] acc = Inr acc"
| "replay_from reduced (r # rs) (committed, intents) =
     (let key = field_text r ''key''; entry = dget reduced (field_text r ''subplot_id'') in
      if key = [] then replay_from reduced rs (committed, intents)
      else if has_text r ''phase'' ''commit''
      then replay_from reduced rs (key # committed, intents)
      else if \<not> hashable (jget r ''phase'' JNull) then Inl PythonError
      else if is_ack r \<and> has_text r ''kind'' v2_kind
      then replay_from reduced rs
             (if was_settled entry then key # committed else committed, intents)
      else if has_text r ''phase'' ''intent'' \<and> has_text r ''kind'' v2_kind
      then replay_from reduced rs
             (committed,
              if (case entry of None \<Rightarrow> False
                  | Some e \<Rightarrow> red_state e = ''intent-created'' \<and> \<not> red_settled e)
              then set_default key r intents else intents)
      else if has_text r ''phase'' ''intent''
      then replay_from reduced rs (committed, set_default key r intents)
      else replay_from reduced rs (committed, intents))"

definition replay_pending :: "outcome_store \<Rightarrow> outcome_error + json dict list" where
  "replay_pending st =
     bind_res (reduce_dispatch_ledger st) (\<lambda>reduced.
     bind_res (store_ledger st) (\<lambda>rs.
     bind_res (replay_from reduced rs ([], [])) (\<lambda>(committed, intents).
     Inr (dvalues (filter (\<lambda>(key, r). key \<notin> set committed) intents)))))"

section \<open>Leases\<close>

text \<open>\<open>acquire_lease\<close> with the instant its clock gives; the guard file makes it one step.\<close>

definition acquire_lease :: "string \<Rightarrow> string \<Rightarrow> int \<Rightarrow> int \<Rightarrow> bool store_op" where
  "acquire_lease name holder ttl now =
     st_bind (st_lift (if ttl \<le> 0 then Inl OutcomeStoreError else safe_name name)) (\<lambda>safe st.
       let mine = st\<lparr>locks := dset safe (Lock holder (now + ttl)) (locks st)\<rparr> in
       case dget (locks st) safe of
         None \<Rightarrow> (Inr True, mine)
       | Some BrokenLock \<Rightarrow>
           (Inr True, mine\<lparr>quarantine := quarantine st @ [(safe @ ''.lock'', Malformed)]\<rparr>)
       | Some (Lock held_by expires) \<Rightarrow>
           if held_by = holder \<or> expires \<le> now then (Inr True, mine) else (Inr False, st))"

definition read_lease :: "string \<Rightarrow> (string \<times> int) option store_op" where
  "read_lease name =
     st_bind (st_lift (safe_name name)) (\<lambda>safe st.
       case dget (locks st) safe of
         None \<Rightarrow> (Inr None, st)
       | Some BrokenLock \<Rightarrow>
           (Inr None, st\<lparr>locks := ddel safe (locks st),
              quarantine := quarantine st @ [(safe @ ''.lock'', Malformed)]\<rparr>)
       | Some (Lock held_by expires) \<Rightarrow> (Inr (Some (held_by, expires)), st))"

definition release_lease :: "string \<Rightarrow> string \<Rightarrow> bool store_op" where
  "release_lease name holder =
     st_bind (read_lease name) (\<lambda>lease st.
       case lease of
         Some (held_by, expires) \<Rightarrow>
           if held_by = holder then (Inr True, st\<lparr>locks := ddel name (locks st)\<rparr>) else (Inr False, st)
       | None \<Rightarrow> (Inr False, st))"

definition acquire_coordinator :: "string \<Rightarrow> int \<Rightarrow> int \<Rightarrow> bool store_op" where
  "acquire_coordinator = acquire_lease ''coordinator''"

definition acquire_dispatch :: "string \<Rightarrow> string \<Rightarrow> int \<Rightarrow> int \<Rightarrow> bool store_op" where
  "acquire_dispatch s holder ttl now =
     st_bind (st_lift (safe_name s)) (\<lambda>safe. acquire_lease (''dispatch-'' @ safe) holder ttl now)"

section \<open>Approvals\<close>

text \<open>
  \<open>approve_frontier\<close>, \<open>frontier_approved\<close> and the gate of \<open>outcome_decompose.py\<close>: one
  write-once file per approved revision.
\<close>

definition approve_frontier :: "outcome_spec \<Rightarrow> outcome_store \<Rightarrow> int \<times> outcome_store" where
  "approve_frontier sp st =
     (spec_revision sp,
      if spec_revision sp \<in> set (approvals st) then st
      else st\<lparr>approvals := approvals st @ [spec_revision sp]\<rparr>)"

definition frontier_approved :: "outcome_store \<Rightarrow> int \<Rightarrow> bool" where
  "frontier_approved st r \<longleftrightarrow> r \<in> set (approvals st)"

definition dispatch_gate :: "outcome_store \<Rightarrow> outcome_spec \<Rightarrow> string \<Rightarrow> bool" where
  "dispatch_gate st sp s = frontier_approved st (spec_revision sp)"

end
