(* ===== verification/Outcome_Live.thy ===== *)
theory Outcome_Live
  imports Outcome_Store
begin

text \<open>
  What the reconcile loop knows about an outcome: the live states derived from the spec and the
  cache (\<open>derive_states\<close> and \<open>status\<close> of \<open>saga/scripts/outcome.py\<close>), the completion barrier and
  its harvest and the cascade of a block (\<open>saga/scripts/outcome_orchestrator.py\<close>) with the
  GitHub reads under them (\<open>saga/scripts/outcome_github.py\<close>).
\<close>

section \<open>Live states\<close>

definition dispatched_leaves :: "reduced_dispatch dict \<Rightarrow> string dict" where
  "dispatched_leaves reduced =
     map (\<lambda>(s, e). (s, field_text (red_record e) ''leaf_saga_id''))
       (filter (\<lambda>(s, e). red_state e = ''dispatched''
          \<and> truthy (jget (red_record e) ''leaf_saga_id'' JNull)) reduced)"

fun last_states :: "string list \<Rightarrow> string dict \<Rightarrow> string dict store_op" where
  "last_states [] acc st = (Inr acc, st)"
| "last_states (s # ss) acc st =
     st_bind (read_completion_events s) (\<lambda>evs.
       last_states ss (if evs = [] then acc else dset s (ev_state (last evs)) acc)) st"

definition terminal_state_map :: "string dict store_op" where
  "terminal_state_map = st_bind (completed_subplots False) (\<lambda>ss. last_states ss [])"

definition node_state_of :: "string list \<Rightarrow> string dict \<Rightarrow> string dict \<Rightarrow> reduced_dispatch dict
    \<Rightarrow> string list \<Rightarrow> string \<Rightarrow> string" where
  "node_state_of success terminals dispatched reduced frontier s =
     (if s \<in> set success then ''done''
      else case dget terminals s of
        Some t \<Rightarrow> t
      | None \<Rightarrow>
          if dget dispatched s \<noteq> None then ''dispatched''
          else case dget reduced s of
            Some e \<Rightarrow> red_state e
          | None \<Rightarrow> if s \<in> set frontier then ''ready'' else ''blocked'')"

definition derive_states :: "outcome_spec \<Rightarrow> string dict store_op" where
  "derive_states sp =
     st_bind (completed_subplots True) (\<lambda>success.
     st_bind terminal_state_map (\<lambda>terminals.
     st_bind (st_read reduce_dispatch_ledger) (\<lambda>reduced.
     st_lift (Inr (foldl (\<lambda>acc n. dset (subplot_id n)
         (node_state_of success terminals (dispatched_leaves reduced) reduced
            (ready_frontier sp success) (subplot_id n)) acc) [] (nodes sp))))))"

text \<open>\<open>_live_state\<close>\<close>

definition live_state :: "outcome_spec \<Rightarrow> string \<Rightarrow> string store_op" where
  "live_state sp s =
     st_bind (derive_states sp) (\<lambda>states.
     st_lift (Inr (case dget states s of Some t \<Rightarrow> t | None \<Rightarrow> [])))"

record status_view =
  sv_states :: "string dict"
  sv_counts :: "(string \<times> nat) list"
  sv_frontier :: "string list"
  sv_complete :: bool

definition outcome_status :: "outcome_spec \<Rightarrow> status_view store_op" where
  "outcome_status sp =
     st_bind (derive_states sp) (\<lambda>states.
     st_lift (Inr
       \<lparr>sv_states = states,
        sv_counts = foldl (\<lambda>acc t. dset t ((case dget acc t of None \<Rightarrow> 0 | Some k \<Rightarrow> k) + 1) acc)
          [] (dvalues states),
        sv_frontier = sort (dkeys (filter (\<lambda>(s, t). t = ''ready'') states)),
        sv_complete = (length (filter (\<lambda>(s, t). t = ''done'') states) = length (nodes sp))\<rparr>))"

section \<open>GitHub reads\<close>

text \<open>
  The parameter is \<open>gh\<close>: the document that \<open>gh pr view\<close> or \<open>gh issue view\<close> prints for a
  reference, none when the command fails, prints nothing or prints no JSON.
\<close>

type_synonym gh_runner = "string \<Rightarrow> string \<Rightarrow> json option"

definition ref_char :: "char \<Rightarrow> bool" where
  "ref_char c \<longleftrightarrow> c \<noteq> CHR ''/'' \<and> c \<noteq> CHR ''#'' \<and> \<not> is_space c"

text \<open>\<open>owner/repo#N\<close>\<close>

definition owner_repo_number :: "string \<Rightarrow> (string \<times> string \<times> string) option" where
  "owner_repo_number s =
     (let owner = takeWhile ref_char s; r1 = dropWhile ref_char s;
          repo = takeWhile ref_char (drop 1 r1); r2 = dropWhile ref_char (drop 1 r1);
          num = drop 1 r2
      in if owner \<noteq> [] \<and> repo \<noteq> [] \<and> take 1 r1 = ''/'' \<and> take 1 r2 = ''#''
            \<and> num \<noteq> [] \<and> list_all is_digit num
         then Some (owner, repo, num) else None)"

definition gh_ref :: "string \<Rightarrow> string \<Rightarrow> string" where
  "gh_ref ref kind =
     (let s = strip ref in
      if take 7 (lower s) = ''http://'' \<or> take 8 (lower s) = ''https://'' then s
      else case owner_repo_number s of
        None \<Rightarrow> s
      | Some (owner, repo, num) \<Rightarrow>
          ''https://github.com/'' @ owner @ ''/'' @ repo @ ''/'' @ kind @ ''/'' @ num)"

definition upper :: "string \<Rightarrow> string" where
  "upper = map (\<lambda>c. let n = of_char c :: nat in if 97 \<le> n \<and> n \<le> 122 then char_of (n - 32) else c)"

definition pr_state :: "gh_runner \<Rightarrow> string \<Rightarrow> string" where
  "pr_state gh ref =
     (case gh ''pr'' (gh_ref ref ''pull'') of
        Some (JObj d) \<Rightarrow>
          (let state = upper (field_text d ''state'') in
           if truthy (jget d ''mergedAt'' JNull) \<or> state = ''MERGED'' then ''merged''
           else if state = ''CLOSED'' then ''closed''
           else if state = ''OPEN'' then ''open'' else ''unknown'')
      | _ \<Rightarrow> ''unknown'')"

definition issue_state :: "gh_runner \<Rightarrow> string \<Rightarrow> string" where
  "issue_state gh ref =
     (case gh ''issue'' (gh_ref ref ''issues'') of
        Some (JObj d) \<Rightarrow>
          (let state = upper (field_text d ''state'') in
           if state = ''CLOSED'' then ''closed'' else if state = ''OPEN'' then ''open''
           else ''unknown'')
      | _ \<Rightarrow> ''unknown'')"

section \<open>The barrier\<close>

text \<open>
  The readers of a harvest: GitHub, the terminal state of a child outcome when a reader is given,
  and the provenance manifests beside a store in the canonical layout (with the outcome's name).
\<close>

record readers =
  rd_gh :: gh_runner
  rd_child :: "(string \<Rightarrow> string) option"
  rd_outcome :: "string option"
  rd_manifest :: "string \<Rightarrow> bool"

definition contract_code :: string where "contract_code = ''code:pr-merged''"
definition contract_noncode :: string where "contract_noncode = ''non-code:tick+canonical-marker''"
definition contract_child :: string where "contract_child = ''child-outcome:terminal-success''"

record verdict =
  vd_subplot :: string
  vd_satisfied :: bool
  vd_contract :: string
  vd_state :: string
  vd_evidence :: "json dict"

definition barrier_satisfied :: "readers \<Rightarrow> node \<Rightarrow> verdict store_op" where
  "barrier_satisfied rd n =
     (let s = subplot_id n;
          give = (\<lambda>ok contract state evidence. st_lift (Inr
            \<lparr>vd_subplot = s, vd_satisfied = ok, vd_contract = contract, vd_state = state,
             vd_evidence = evidence\<rparr>))
      in if is_outcome n then
           (let child = child_spec_ref n;
                state = (case rd_child rd of None \<Rightarrow> ''unknown'' | Some f \<Rightarrow> f child)
            in give (state \<in> set success_states) contract_child state
                 [(''child_spec_ref'', JStr child), (''child_state'', JStr state)])
         else if node_kind n = ''code'' then
           (let pr = field_text (github n) ''pr'' in
            if pr = [] then give False contract_code ''open'' []
            else let state = pr_state (rd_gh rd) pr
                 in give (state = ''merged'') contract_code state
                      [(''pr'', JStr pr), (''pr_state'', JStr state)])
         else
           (let issue = field_text (github n) ''issue'' in
            if issue \<noteq> [] then
              (let marker = issue_state (rd_gh rd) issue
               in give (marker = ''closed'') contract_noncode marker
                    [(''issue'', JStr issue), (''issue_state'', JStr marker)])
            else
              st_bind (read_completion_events s) (\<lambda>evs.
              let canonical = list_ex (\<lambda>ev. is_success ev
                    \<and> truthy (jget (ev_payload ev) ''canonical'' JNull)) evs
              in give canonical contract_noncode (if canonical then ''done'' else ''open'')
                   [(''has_canonical_event'', JBool canonical)])))"

section \<open>Harvest\<close>

definition manifest_ref :: "string \<Rightarrow> string \<Rightarrow> string" where
  "manifest_ref outcome s = ''saga-manifests/'' @ outcome @ ''/'' @ s @ ''.json''"

definition harvest_payload :: "readers \<Rightarrow> string \<Rightarrow> verdict \<Rightarrow> json dict" where
  "harvest_payload rd s v =
     (let payload = [(''contract'', JStr (vd_contract v)), (''evidence'', JObj (vd_evidence v)),
                     (''canonical'', JBool True)]
      in case rd_outcome rd of
           Some outcome \<Rightarrow>
             if isl (safe_name s) \<or> \<not> rd_manifest rd s then payload
             else dset ''manifest_ref'' (JStr (manifest_ref outcome s)) payload
         | None \<Rightarrow> payload)"

definition next_attempt :: "completion_event list \<Rightarrow> int" where
  "next_attempt evs = (if evs = [] then 0 else Max (set (map ev_attempt evs))) + 1"

definition harvest_event ::
    "readers \<Rightarrow> string \<Rightarrow> string \<Rightarrow> verdict \<Rightarrow> completion_event list \<Rightarrow> completion_event" where
  "harvest_event rd stamp s v existing =
     \<lparr>ev_subplot = s, ev_state = ''done'', ev_key = ''harvest:'' @ s @ '':'' @ vd_contract v,
      ev_attempt = next_attempt existing, ev_at = stamp, ev_payload = harvest_payload rd s v\<rparr>"

definition harvest_node :: "readers \<Rightarrow> string \<Rightarrow> string list \<Rightarrow> node \<Rightarrow> bool store_op" where
  "harvest_node rd stamp already n =
     (let s = subplot_id n in
      if s \<in> set already then st_lift (Inr False)
      else st_bind (barrier_satisfied rd n) (\<lambda>v.
        if \<not> vd_satisfied v then st_lift (Inr False)
        else st_bind (read_completion_events s) (\<lambda>existing.
             st_bind (write_completion_event (harvest_event rd stamp s v existing)) (\<lambda>_.
             st_lift (Inr True)))))"

fun harvest_nodes :: "readers \<Rightarrow> string \<Rightarrow> string list \<Rightarrow> node list \<Rightarrow> string list store_op" where
  "harvest_nodes rd stamp already [] st = (Inr [], st)"
| "harvest_nodes rd stamp already (n # ns) st =
     st_bind (harvest_node rd stamp already n) (\<lambda>new.
     st_bind (harvest_nodes rd stamp already ns) (\<lambda>rest.
     st_lift (Inr (if new then subplot_id n # rest else rest)))) st"

definition harvest :: "readers \<Rightarrow> string \<Rightarrow> outcome_spec \<Rightarrow> string list store_op" where
  "harvest rd stamp sp =
     st_bind (completed_subplots True) (\<lambda>already. harvest_nodes rd stamp already (nodes sp))"

fun barrier_report :: "readers \<Rightarrow> node list \<Rightarrow> verdict dict \<Rightarrow> verdict dict store_op" where
  "barrier_report rd [] acc st = (Inr acc, st)"
| "barrier_report rd (n # ns) acc st =
     st_bind (barrier_satisfied rd n) (\<lambda>v. barrier_report rd ns (dset (subplot_id n) v acc)) st"

section \<open>The cascade\<close>

text \<open>The dependents of a declared subplot, and the worklist over them.\<close>

definition dependents :: "node list \<Rightarrow> string \<Rightarrow> string list" where
  "dependents ns d =
     (if d \<in> set (node_ids ns)
      then concat (map (\<lambda>n. map (\<lambda>_. subplot_id n) (filter (\<lambda>x. x = d) (depends_on n))) ns)
      else [])"

lemma dependents_declared: "set (dependents ns d) \<subseteq> set (node_ids ns)"
  by (auto simp: dependents_def)

function cascade :: "node list \<Rightarrow> string list \<Rightarrow> string list \<Rightarrow> string list" where
  "cascade ns [] paused = paused"
| "cascade ns (cur # stack) paused =
     (let new = remdups (filter (\<lambda>s. s \<notin> set paused) (dependents ns cur))
      in cascade ns (rev new @ stack) (paused @ new))"
  by pat_completeness auto
termination
proof (relation "measures [\<lambda>(ns, stack, paused). card (set (node_ids ns) - set paused),
    \<lambda>(ns, stack, paused). length stack]", goal_cases)
  case (2 ns cur stack paused new)
  show ?case
  proof (cases "new = []")
    case False
    then obtain s where "s \<in> set new" by (metis list.set_intros(1) neq_Nil_conv)
    then have "s \<in> set (node_ids ns) - set paused"
      using 2 dependents_declared [of ns cur] by auto
    with \<open>s \<in> set new\<close> have "set (node_ids ns) - set (paused @ new) \<subset> set (node_ids ns) - set paused"
      by auto
    then have "card (set (node_ids ns) - set (paused @ new)) < card (set (node_ids ns) - set paused)"
      by (intro psubset_card_mono) auto
    then show ?thesis by simp
  qed simp
qed simp

definition blocked_subtree :: "outcome_spec \<Rightarrow> string list \<Rightarrow> string list" where
  "blocked_subtree sp blocked =
     cascade (nodes sp) (rev (filter (\<lambda>b. b \<in> set (node_ids (nodes sp))) blocked)) []"

end
