(* ===== verification/Outcome_Edits.thy ===== *)
theory Outcome_Edits
  imports Outcome_Live
begin

text \<open>
  The edits of an outcome in flight, \<open>saga/scripts/outcome_decompose.py\<close>: add, rewire, grow,
  promote, elaborate and prune.  Every edit changes the spec in place, validates it, and either
  advances the revision with an entry of the decision trail or undoes its change; the undo is
  written out as the source does it.
\<close>

section \<open>Committing\<close>

text \<open>\<open>_commit\<close>, and the handler around it: \<open>undo\<close> is what the \<open>except\<close> clause leaves.\<close>

definition commit_edit ::
    "string \<Rightarrow> string \<Rightarrow> outcome_spec \<Rightarrow> outcome_spec \<Rightarrow> (outcome_error + int) \<times> outcome_spec" where
  "commit_edit reason stamp sp' undo =
     (case validate_spec sp' of
        Inl e \<Rightarrow> (Inl e, undo)
      | Inr _ \<Rightarrow> (let sp'' = bump_revision reason stamp sp' in (Inr (spec_revision sp''), sp'')))"

section \<open>Nodes and edges\<close>

definition add_node :: "json \<Rightarrow> string \<Rightarrow> outcome_spec \<Rightarrow> (outcome_error + int) \<times> outcome_spec" where
  "add_node j stamp sp =
     (case node_from_dict j of
        Inl e \<Rightarrow> (Inl e, sp)
      | Inr n \<Rightarrow>
          if node_by_id sp (subplot_id n) \<noteq> None then (Inl DecomposeError, sp)
          else let sp' = sp\<lparr>nodes := nodes sp @ [n]\<rparr>
               in commit_edit (''add node '' @ subplot_id n) stamp sp'
                    (sp'\<lparr>nodes := butlast (nodes sp')\<rparr>))"

text \<open>Assigning \<open>depends_on\<close> of a node, with the undo that assigns the prior list.\<close>

definition edit_deps :: "string \<Rightarrow> node \<Rightarrow> string list \<Rightarrow> string \<Rightarrow> string \<Rightarrow> outcome_spec
    \<Rightarrow> (outcome_error + int) \<times> outcome_spec" where
  "edit_deps s n deps reason stamp sp =
     (let sp' = sp\<lparr>nodes := update_node s (\<lambda>m. m\<lparr>depends_on := deps\<rparr>) (nodes sp)\<rparr>
      in commit_edit reason stamp sp'
           (sp'\<lparr>nodes := update_node s (\<lambda>m. m\<lparr>depends_on := depends_on n\<rparr>) (nodes sp')\<rparr>))"

definition add_dependency ::
    "string \<Rightarrow> string \<Rightarrow> string \<Rightarrow> outcome_spec \<Rightarrow> (outcome_error + int) \<times> outcome_spec" where
  "add_dependency s d stamp sp =
     (case node_by_id sp s of
        None \<Rightarrow> (Inl DecomposeError, sp)
      | Some n \<Rightarrow>
          if d \<in> set (depends_on n) then (Inl DecomposeError, sp)
          else edit_deps s n (depends_on n @ [d]) (''add edge '' @ s @ ''->'' @ d) stamp sp)"

definition remove_dependency ::
    "string \<Rightarrow> string \<Rightarrow> string \<Rightarrow> outcome_spec \<Rightarrow> (outcome_error + int) \<times> outcome_spec" where
  "remove_dependency s d stamp sp =
     (case node_by_id sp s of
        None \<Rightarrow> (Inl DecomposeError, sp)
      | Some n \<Rightarrow>
          if d \<notin> set (depends_on n) then (Inl DecomposeError, sp)
          else edit_deps s n (filter (\<lambda>x. x \<noteq> d) (depends_on n))
                 (''remove edge '' @ s @ ''->'' @ d) stamp sp)"

text \<open>The identifiers of a batch must be new to the spec and to the batch.\<close>

fun batch_clash :: "string list \<Rightarrow> node list \<Rightarrow> bool" where
  "batch_clash ids [] = False"
| "batch_clash ids (n # ns) = (subplot_id n \<in> set ids \<or> batch_clash (subplot_id n # ids) ns)"

definition lazy_grow ::
    "json list \<Rightarrow> string \<Rightarrow> outcome_spec \<Rightarrow> (outcome_error + int) \<times> outcome_spec" where
  "lazy_grow js stamp sp =
     (case map_res node_from_dict js of
        Inl e \<Rightarrow> (Inl e, sp)
      | Inr new \<Rightarrow>
          if batch_clash (node_ids (nodes sp)) new then (Inl DecomposeError, sp)
          else let sp' = sp\<lparr>nodes := nodes sp @ new\<rparr>
               in commit_edit (''lazy-grow +'' @ int_text (int (length new)) @ '' nodes'') stamp sp'
                    (sp'\<lparr>nodes := nodes sp\<rparr>))"

definition promote :: "string \<Rightarrow> string \<Rightarrow> string list \<Rightarrow> string \<Rightarrow> outcome_spec
    \<Rightarrow> (outcome_error + int) \<times> outcome_spec" where
  "promote s child ancestors stamp sp =
     (case node_by_id sp s of
        None \<Rightarrow> (Inl DecomposeError, sp)
      | Some n \<Rightarrow>
          if child = [] \<or> child \<in> set ancestors \<or> child = outcome_id sp then (Inl DecomposeError, sp)
          else let sp' = sp\<lparr>nodes := update_node s (\<lambda>m. m\<lparr>child_spec_ref := child\<rparr>) (nodes sp)\<rparr>
               in commit_edit (''promote '' @ s @ '' -> child '' @ child) stamp sp'
                    (sp'\<lparr>nodes := update_node s (\<lambda>m. m\<lparr>child_spec_ref := child_spec_ref n\<rparr>)
                       (nodes sp')\<rparr>))"

section \<open>Elaborate\<close>

definition sorted_list_text :: "string list \<Rightarrow> string" where
  "sorted_list_text ss = ''['' @ join_text '', '' (map py_repr_str (sort (remdups ss))) @ '']''"

text \<open>A sub-node without a predecessor among the sub-nodes inherits the upstream.\<close>

definition inherit_upstream :: "string list \<Rightarrow> string list \<Rightarrow> node \<Rightarrow> node" where
  "inherit_upstream upstream sub_ids n =
     (if list_ex (\<lambda>d. d \<in> set sub_ids) (depends_on n) then n
      else n\<lparr>depends_on := upstream @ filter (\<lambda>d. d \<notin> set upstream) (depends_on n)\<rparr>)"

definition sinks :: "node list \<Rightarrow> string list" where
  "sinks subs =
     filter (\<lambda>s. \<not> list_ex (\<lambda>n. s \<in> set (depends_on n)) subs) (node_ids subs)"

fun append_new :: "string list \<Rightarrow> string list \<Rightarrow> string list" where
  "append_new acc [] = acc"
| "append_new acc (s # ss) = append_new (if s \<in> set acc then acc else acc @ [s]) ss"

definition rewire :: "string \<Rightarrow> string list \<Rightarrow> node \<Rightarrow> node" where
  "rewire s ends n =
     (if s \<in> set (depends_on n)
      then n\<lparr>depends_on := append_new (filter (\<lambda>d. d \<noteq> s) (depends_on n)) ends\<rparr>
      else n)"

text \<open>
  The undo of an edit that removes a node: the list of node objects comes back, objects whose
  edges were changed in place included, and every edge list is then assigned from the dictionary
  \<open>before_edges\<close>, in which the last of several equal identifiers counts.
\<close>

definition edges_before :: "node list \<Rightarrow> (string \<times> string list) list" where
  "edges_before ns = foldl (\<lambda>d n. dset (subplot_id n) (depends_on n) d) [] ns"

definition restore_edges :: "node list \<Rightarrow> node list \<Rightarrow> node list" where
  "restore_edges before objects =
     map (\<lambda>n. n\<lparr>depends_on := (case dget (edges_before before) (subplot_id n) of
          Some ds \<Rightarrow> ds | None \<Rightarrow> depends_on n)\<rparr>) objects"

definition remove_and_rewire :: "string \<Rightarrow> (node \<Rightarrow> node) \<Rightarrow> node list \<Rightarrow> node list" where
  "remove_and_rewire s f ns = map f (filter (\<lambda>n. subplot_id n \<noteq> s) ns)"

definition undo_removal :: "string \<Rightarrow> (node \<Rightarrow> node) \<Rightarrow> node list \<Rightarrow> node list" where
  "undo_removal s f ns = restore_edges ns (map (\<lambda>n. if subplot_id n \<noteq> s then f n else n) ns)"

definition splice_nodes :: "string \<Rightarrow> node \<Rightarrow> node list \<Rightarrow> string \<Rightarrow> outcome_spec
    \<Rightarrow> (outcome_error + int) \<times> outcome_spec" where
  "splice_nodes s n raw stamp sp =
     (let sub_ids = node_ids raw;
          subs = map (inherit_upstream (depends_on n) sub_ids) raw;
          f = rewire s (sinks subs);
          sp' = sp\<lparr>nodes := remove_and_rewire s f (nodes sp) @ subs\<rparr>
      in commit_edit (''elaborate '' @ s @ '' -> '' @ sorted_list_text sub_ids) stamp sp'
           (sp'\<lparr>nodes := undo_removal s f (nodes sp)\<rparr>))"

definition elaborate :: "string \<Rightarrow> json list \<Rightarrow> string \<Rightarrow> outcome_spec \<times> outcome_store
    \<Rightarrow> (outcome_error + int) \<times> outcome_spec \<times> outcome_store" where
  "elaborate s js stamp = (\<lambda>(sp, st).
     case node_by_id sp s of
       None \<Rightarrow> (Inl DecomposeError, sp, st)
     | Some n \<Rightarrow>
         (case live_state sp s st of
            (Inl e, st') \<Rightarrow> (Inl e, sp, st')
          | (Inr state, st') \<Rightarrow>
              if state = ''dispatched'' \<or> state \<in> set terminal_states
              then (Inl DecomposeError, sp, st')
              else case map_res node_from_dict js of
                Inl e \<Rightarrow> (Inl e, sp, st')
              | Inr raw \<Rightarrow>
                  if raw = [] then (Inl DecomposeError, sp, st')
                  else (case splice_nodes s n raw stamp sp of (r, sp') \<Rightarrow> (r, sp', st'))))"

section \<open>Prune\<close>

text \<open>
  The graph half of \<open>prune\<close>.  \<open>refused\<close> is the answer of the worktree registry, which is asked
  before anything changes (\<open>prevalidate_reap_authority\<close> raised, or the worktree is bound to a
  lease and no authority was given); reaping the worktree after the commit is not modelled.
\<close>

definition drop_edge :: "string \<Rightarrow> node \<Rightarrow> node" where
  "drop_edge s n =
     (if s \<in> set (depends_on n) then n\<lparr>depends_on := filter (\<lambda>d. d \<noteq> s) (depends_on n)\<rparr> else n)"

definition prune_graph :: "string \<Rightarrow> bool \<Rightarrow> string \<Rightarrow> outcome_spec \<times> outcome_store
    \<Rightarrow> (outcome_error + int) \<times> outcome_spec \<times> outcome_store" where
  "prune_graph s refused stamp = (\<lambda>(sp, st).
     case node_by_id sp s of
       None \<Rightarrow> (Inl DecomposeError, sp, st)
     | Some n \<Rightarrow>
         if refused then (Inl DecomposeError, sp, st)
         else (case live_state sp s st of
            (Inl e, st') \<Rightarrow> (Inl e, sp, st')
          | (Inr state, st') \<Rightarrow>
              if state = ''dispatched'' then (Inl DecomposeError, sp, st')
              else
                let f = drop_edge s;
                    sp' = sp\<lparr>nodes := remove_and_rewire s f (nodes sp)\<rparr>
                in case commit_edit (''prune '' @ s) stamp sp'
                          (sp'\<lparr>nodes := undo_removal s f (nodes sp)\<rparr>) of
                     (r, sp'') \<Rightarrow> (r, sp'', st')))"

text \<open>What the summary of a committed prune says: the dependents whose edge was dropped, and the
  tracking issue when the adapter closed it.\<close>

definition orphaned :: "outcome_spec \<Rightarrow> string \<Rightarrow> string list" where
  "orphaned sp s = sort (node_ids (filter (\<lambda>n. s \<in> set (depends_on n)) (nodes sp)))"

definition closed_issue :: "(string \<Rightarrow> bool) option \<Rightarrow> node \<Rightarrow> string option" where
  "closed_issue issue_close n =
     (let issue = jget (github n) ''issue'' (JStr []);
          ref = py_str (if truthy issue then issue else jget (github n) ''sub_issue'' (JStr []))
      in case issue_close of
           Some close \<Rightarrow> if ref \<noteq> [] \<and> close ref then Some ref else None
         | None \<Rightarrow> None)"

section \<open>All edits\<close>

datatype spec_edit =
    AddNode json
  | AddDependency string string
  | RemoveDependency string string
  | RedirectDependency string string string
  | LazyGrow "json list"
  | Promote string string "string list"
  | Elaborate string "json list"
  | Prune string bool

definition on_spec :: "(outcome_spec \<Rightarrow> (outcome_error + int) \<times> outcome_spec)
    \<Rightarrow> outcome_spec \<times> outcome_store \<Rightarrow> (outcome_error + int) \<times> outcome_spec \<times> outcome_store" where
  "on_spec f = (\<lambda>(sp, st). case f sp of (r, sp') \<Rightarrow> (r, sp', st))"

fun apply_edit :: "spec_edit \<Rightarrow> string \<Rightarrow> outcome_spec \<times> outcome_store
    \<Rightarrow> (outcome_error + int) \<times> outcome_spec \<times> outcome_store" where
  "apply_edit (AddNode j) stamp = on_spec (add_node j stamp)"
| "apply_edit (AddDependency s d) stamp = on_spec (add_dependency s d stamp)"
| "apply_edit (RemoveDependency s d) stamp = on_spec (remove_dependency s d stamp)"
| "apply_edit (RedirectDependency s a b) stamp = on_spec (redirect_dependency s a b stamp)"
| "apply_edit (LazyGrow js) stamp = on_spec (lazy_grow js stamp)"
| "apply_edit (Promote s c anc) stamp = on_spec (promote s c anc stamp)"
| "apply_edit (Elaborate s js) stamp = elaborate s js stamp"
| "apply_edit (Prune s refused) stamp = prune_graph s refused stamp"

end
