(* ===== verification/Outcome_Edit_Laws.thy ===== *)
theory Outcome_Edit_Laws
  imports Outcome_Edits "HOL-Library.Sublist"
begin

text \<open>
  Edits of a spec are atomic: each raises and leaves it alone or ends in a valid spec of the next
  revision.  Approvals are of revisions, so an edit closes the dispatch gate.
\<close>

section \<open>Every edit is atomic\<close>

text \<open>
  An edit on a spec either raises and leaves it as it was, or leaves a valid spec whose revision
  and trail are one ahead.
\<close>

definition atomic_edit ::
    "outcome_spec \<Rightarrow> (outcome_error + int) \<Rightarrow> outcome_spec \<Rightarrow> bool" where
  "atomic_edit sp r sp' \<longleftrightarrow>
     (case r of
        Inl _ \<Rightarrow> sp' = sp
      | Inr rev' \<Rightarrow>
          validate_spec sp' = Inr () \<and> rev' = spec_revision sp + 1 \<and> spec_revision sp' = rev'
          \<and> outcome_id sp' = outcome_id sp \<and> objective sp' = objective sp
          \<and> (\<exists>entry. decision_trail sp' = decision_trail sp @ [entry]
               \<and> dget entry ''revision'' = Some (JInt rev')))"

lemma bump_keeps [simp]:
  "nodes (bump_revision reason stamp sp) = nodes sp"
  "outcome_id (bump_revision reason stamp sp) = outcome_id sp"
  "objective (bump_revision reason stamp sp) = objective sp"
  "spec_revision (bump_revision reason stamp sp) = spec_revision sp + 1"
  by (simp_all add: bump_revision_def)

lemma validate_bump [simp]: "validate_spec (bump_revision reason stamp sp) = validate_spec sp"
proof -
  have "dependency_layers (bump_revision reason stamp sp) = dependency_layers sp"
    by (simp only: dependency_layers_def bump_keeps)
  then show ?thesis by (simp only: validate_spec_def bump_keeps)
qed

lemma commit_atomic:
  assumes "undo = sp" and "sp' = sp\<lparr>nodes := ns\<rparr>" and "commit_edit reason stamp sp' undo = (r, sp'')"
  shows "atomic_edit sp r sp''"
proof (cases "validate_spec sp'")
  case (Inl e)
  then show ?thesis using assms by (auto simp: commit_edit_def atomic_edit_def)
next
  case (Inr u)
  then have "r = Inr (spec_revision sp + 1)" and "sp'' = bump_revision reason stamp sp'"
    using assms by (simp_all add: commit_edit_def bump_revision_def Let_def)
  moreover have "validate_spec sp'' = Inr ()"
    using Inr \<open>sp'' = _\<close> by simp
  moreover have "\<exists>entry. decision_trail sp'' = decision_trail sp @ [entry]
      \<and> dget entry ''revision'' = Some (JInt (spec_revision sp + 1))"
    using \<open>sp'' = _\<close> by (simp add: bump_revision_def assms(2))
  ultimately show ?thesis by (simp add: atomic_edit_def assms(2))
qed

lemma update_node_again:
  "(\<And>m. subplot_id (f m) = subplot_id m) \<Longrightarrow>
     update_node s g (update_node s f ns) = update_node s (\<lambda>m. g (f m)) ns"
  by (induction ns) auto

lemma update_node_same: "find (\<lambda>n. subplot_id n = s) ns = Some n \<Longrightarrow> f n = n \<Longrightarrow> update_node s f ns = ns"
  by (induction ns) (auto split: if_splits)

lemma undo_deps:
  assumes "node_by_id sp s = Some n"
  shows "update_node s (\<lambda>m. m\<lparr>depends_on := depends_on n\<rparr>)
    (update_node s (\<lambda>m. m\<lparr>depends_on := deps\<rparr>) (nodes sp)) = nodes sp"
  using assms by (simp add: update_node_again node_by_id_def update_node_same)

lemma edit_deps_atomic:
  "node_by_id sp s = Some n \<Longrightarrow> edit_deps s n deps reason stamp sp = (r, sp') \<Longrightarrow> atomic_edit sp r sp'"
  unfolding edit_deps_def Let_def by (erule commit_atomic [rotated 2]) (simp_all add: undo_deps)

lemma atomic_raise [simp]: "atomic_edit sp (Inl e) sp"
  by (simp add: atomic_edit_def)

lemma edges_before_lookup:
  assumes "distinct (node_ids ns)" and "n \<in> set ns"
  shows "dget (edges_before ns) (subplot_id n) = Some (depends_on n)"
proof -
  have "dget (foldl (\<lambda>d n. dset (subplot_id n) (depends_on n) d) acc ns) (subplot_id n) = Some (depends_on n)"
    for acc
    using assms
  proof (induction ns arbitrary: acc)
    case (Cons m ns)
    have keep: "dget (foldl (\<lambda>d n. dset (subplot_id n) (depends_on n) d) acc ns) k = dget acc k"
      if "k \<notin> set (node_ids ns)" for k and acc
      using that by (induction ns arbitrary: acc) auto
    show ?case using Cons by (cases "n = m") (auto simp: keep)
  qed simp
  then show ?thesis by (simp add: edges_before_def)
qed

lemma undo_removal_same:
  assumes "distinct (node_ids ns)" and "\<And>n. \<exists>ds. f n = n\<lparr>depends_on := ds\<rparr>"
  shows "undo_removal s f ns = ns"
proof -
  have "(if subplot_id n \<noteq> s then f n else n)\<lparr>depends_on := (case dget (edges_before ns)
      (subplot_id (if subplot_id n \<noteq> s then f n else n)) of Some ds \<Rightarrow> ds
      | None \<Rightarrow> depends_on (if subplot_id n \<noteq> s then f n else n))\<rparr> = n" if "n \<in> set ns" for n
  proof -
    obtain ds where "f n = n\<lparr>depends_on := ds\<rparr>" using assms(2) by blast
    then show ?thesis using edges_before_lookup [OF assms(1) that] by auto
  qed
  then show ?thesis unfolding undo_removal_def restore_edges_def map_map comp_def by (rule map_idI)
qed

lemma rewire_shape: "\<exists>ds. rewire s ends n = n\<lparr>depends_on := ds\<rparr>"
  by (cases "s \<in> set (depends_on n)") (auto simp: rewire_def intro: exI [of _ "depends_on n"])

lemma drop_edge_shape: "\<exists>ds. drop_edge s n = n\<lparr>depends_on := ds\<rparr>"
  by (cases "s \<in> set (depends_on n)") (auto simp: drop_edge_def intro: exI [of _ "depends_on n"])

lemma splice_nodes_atomic:
  assumes "distinct (node_ids (nodes sp))" and "splice_nodes s n raw stamp sp = (r, sp')"
  shows "atomic_edit sp r sp'"
  using assms(2) unfolding splice_nodes_def Let_def
  by (rule commit_atomic [rotated 2]) (simp_all add: undo_removal_same [OF assms(1) rewire_shape])

lemma elaborate_atomic:
  assumes "distinct (node_ids (nodes sp))" and "elaborate s js stamp (sp, st) = (r, sp', st')"
  shows "atomic_edit sp r sp'"
  using assms(2) splice_nodes_atomic [OF assms(1)]
  by (auto simp: elaborate_def split: option.splits prod.splits sum.splits if_splits)

lemma prune_atomic:
  assumes "distinct (node_ids (nodes sp))" and "prune_graph s refused stamp (sp, st) = (r, sp', st')"
  shows "atomic_edit sp r sp'"
proof -
  have "atomic_edit sp q sq" if "commit_edit (''prune '' @ s) stamp
      (sp\<lparr>nodes := remove_and_rewire s (drop_edge s) (nodes sp)\<rparr>)
      (sp\<lparr>nodes := undo_removal s (drop_edge s) (nodes sp)\<rparr>) = (q, sq)" for q sq
    using that
    by (rule commit_atomic [rotated 2]) (simp_all add: undo_removal_same [OF assms(1) drop_edge_shape])
  then show ?thesis
    using assms(2)
    by (auto simp: prune_graph_def Let_def split: option.splits prod.splits sum.splits if_splits)
qed

lemma add_node_atomic: "add_node j stamp sp = (r, sp') \<Longrightarrow> atomic_edit sp r sp'"
  by (auto simp: add_node_def Let_def split: sum.splits if_splits intro: commit_atomic [rotated 2])

lemma lazy_grow_atomic: "lazy_grow js stamp sp = (r, sp') \<Longrightarrow> atomic_edit sp r sp'"
  by (auto simp: lazy_grow_def Let_def split: sum.splits if_splits intro: commit_atomic [rotated 2])

lemma promote_atomic:
  assumes "promote s child anc stamp sp = (r, sp')"
  shows "atomic_edit sp r sp'"
proof (cases "node_by_id sp s")
  case (Some n)
  then have "update_node s (\<lambda>m. m\<lparr>child_spec_ref := child_spec_ref n\<rparr>)
      (update_node s (\<lambda>m. m\<lparr>child_spec_ref := child\<rparr>) (nodes sp)) = nodes sp"
    by (simp add: update_node_again node_by_id_def update_node_same)
  with assms Some show ?thesis
    by (auto simp: promote_def Let_def split: if_splits intro: commit_atomic [rotated 2])
qed (use assms in \<open>auto simp: promote_def\<close>)

lemma redirect_atomic:
  assumes "redirect_dependency s a b stamp sp = (r, sp')"
  shows "atomic_edit sp r sp'"
proof (cases "node_by_id sp s")
  case (Some n)
  show ?thesis
  proof (cases "a \<in> set (depends_on n)")
    case True
    with assms Some have "edit_deps s n (map (\<lambda>d. if d = a then b else d) (depends_on n))
        (''redirect '' @ s @ '':'' @ a @ ''->'' @ b) stamp sp = (r, sp')"
      unfolding redirect_dependency_def edit_deps_def commit_edit_def Let_def by simp
    then show ?thesis by (rule edit_deps_atomic [OF Some])
  qed (use assms Some in \<open>auto simp: redirect_dependency_def\<close>)
qed (use assms in \<open>auto simp: redirect_dependency_def\<close>)

lemma edge_edits_atomic:
  "add_dependency s d stamp sp = (r, sp') \<Longrightarrow> atomic_edit sp r sp'"
  "remove_dependency s d stamp sp = (r, sp') \<Longrightarrow> atomic_edit sp r sp'"
  by (auto simp: add_dependency_def remove_dependency_def split: option.splits if_splits
      intro: edit_deps_atomic)

lemma apply_edit_atomic:
  assumes "distinct (node_ids (nodes sp))" and "apply_edit e stamp (sp, st) = (r, sp', st')"
  shows "atomic_edit sp r sp'"
  using assms(2)
  by (cases e) (auto simp: on_spec_def split: prod.splits
      intro: add_node_atomic edge_edits_atomic redirect_atomic lazy_grow_atomic promote_atomic
        elaborate_atomic [OF assms(1)] prune_atomic [OF assms(1)])

section \<open>The gate\<close>

text \<open>
  What every operation but an approval does to the store: the approvals stay, and the replay ledger
  keeps its complete lines and gets new ones only behind them.
\<close>

definition store_later :: "outcome_store \<Rightarrow> outcome_store \<Rightarrow> bool" where
  "store_later st st' \<longleftrightarrow>
     approvals st' = approvals st
     \<and> prefix (lines (replay_ledger st)) (lines (replay_ledger st'))"

lemma store_later_refl [simp]: "store_later st st"
  by (simp add: store_later_def)

lemma store_later_trans: "store_later st st' \<Longrightarrow> store_later st' st'' \<Longrightarrow> store_later st st''"
  by (auto simp: store_later_def)

lemma store_later_lines:
  "store_later st st' \<Longrightarrow> set (lines (replay_ledger st)) \<subseteq> set (lines (replay_ledger st'))"
  by (auto simp: store_later_def dest: set_mono_prefix)

definition keeps :: "'a store_op \<Rightarrow> bool" where
  "keeps act \<longleftrightarrow> (\<forall>st. store_later st (snd (act st)))"

named_theorems keeping \<open>operations that keep the approvals and the lines of the ledger\<close>

lemma keepsI: "(\<And>st. store_later st (snd (act st))) \<Longrightarrow> keeps act"
  by (simp add: keeps_def)

lemma keepsD: "keeps act \<Longrightarrow> act st = (r, st') \<Longrightarrow> store_later st st'"
  by (auto simp: keeps_def dest: spec [of _ st])

lemma keeps_bind [keeping]:
  assumes "keeps m" and "\<And>x. keeps (k x)"
  shows "keeps (st_bind m k)"
proof (rule keepsI)
  show "store_later st (snd (st_bind m k st))" for st
    using keepsD [OF assms(1), of st] keepsD [OF assms(2)]
    by (auto split: prod.splits sum.splits) (meson store_later_trans surjective_pairing)
qed

lemma keeps_pure [keeping]: "keeps (st_lift r)" "keeps (st_read f)"
  by (simp_all add: keeps_def)

lemma quarantine_later [simp]: "store_later st (quarantine_file name st)"
  by (simp add: store_later_def quarantine_file_def)

lemma keeps_read_events [keeping]: "keeps (read_events names)"
proof -
  have "read_events names st = (r, st') \<Longrightarrow> store_later st st'" for r st st'
    by (induction names arbitrary: r st)
      (auto split: option.splits file_content.splits json.splits sum.splits prod.splits
        intro: store_later_trans [OF quarantine_later])
  then show ?thesis by (metis keepsI prod.collapse)
qed

lemma keeps_read_sorted [keeping]: "keeps (\<lambda>st. read_events (names st) st)"
  using keeps_read_events by (simp add: keeps_def)

lemma keeps_readers [keeping]:
  "keeps (read_completion_events s)" "keeps (completed_subplots b)"
  unfolding read_completion_events_def completed_subplots_def
  by (intro keeping)+

lemma keeps_last_states [keeping]: "keeps (last_states ss acc)"
proof (rule keepsI)
  show "store_later st (snd (last_states ss acc st))" for st
    by (induction ss arbitrary: acc st)
      (auto split: prod.splits sum.splits dest: keepsD [OF keeps_readers(1)]
        intro: store_later_trans)
qed

lemma keeps_live_state [keeping]: "keeps (live_state sp s)"
  unfolding live_state_def derive_states_def terminal_state_map_def
  by (intro keeping)

lemma apply_edit_later: "apply_edit e stamp (sp, st) = (r, sp', st') \<Longrightarrow> store_later st st'"
  by (cases e) (auto simp: on_spec_def elaborate_def prune_graph_def Let_def
      split: prod.splits sum.splits option.splits if_splits dest: keepsD [OF keeps_live_state])

text \<open>C35: Every edit of a valid outcome either raises and leaves the spec as it was, or ends
  in a valid spec with the next revision, the same identifier and objective and one more entry of
  the decision trail, which names that revision. Approvals are of revisions up to the current one,
  so after a successful edit the dispatch gate is closed for every subplot until the new revision
  is approved.\<close>

theorem edits_atomic:
  assumes "validate_spec sp = Inr ()" and "apply_edit e stamp (sp, st) = (r, sp', st')"
    and "list_all (\<lambda>k. k \<le> spec_revision sp) (approvals st)"
  shows "case r of
      Inl _ \<Rightarrow> sp' = sp
    | Inr k \<Rightarrow> validate_spec sp' = Inr () \<and> k = spec_revision sp + 1 \<and> spec_revision sp' = k
        \<and> outcome_id sp' = outcome_id sp \<and> objective sp' = objective sp
        \<and> (\<exists>entry. decision_trail sp' = decision_trail sp @ [entry]
             \<and> dget entry ''revision'' = Some (JInt k))
        \<and> (\<forall>s. \<not> dispatch_gate st' sp' s)"
proof -
  have "distinct (node_ids (nodes sp))" using assms(1) by (simp add: validate_iff spec_ok_def)
  then have at: "atomic_edit sp r sp'" using assms(2) by (rule apply_edit_atomic)
  have "\<not> dispatch_gate st' sp' s" if "spec_revision sp' = spec_revision sp + 1" for s
    using that assms(3) apply_edit_later [OF assms(2)]
    by (auto simp: store_later_def dispatch_gate_def frontier_approved_def list_all_iff)
  with at show ?thesis by (auto simp: atomic_edit_def split: sum.splits)
qed

theorem edits_atomic_witness:
  "case apply_edit (AddDependency ''b'' ''c'') ''now'' (demo_spec, empty_store) of
     (r, sp', st') \<Rightarrow> r = Inr 2 \<and> validate_spec sp' = Inr () \<and> \<not> dispatch_gate st' sp' ''b''"
proof -
  obtain r sp' st' where run: "apply_edit (AddDependency ''b'' ''c'') ''now'' (demo_spec, empty_store) = (r, sp', st')"
    by (metis prod_cases3)
  have "fst (apply_edit (AddDependency ''b'' ''c'') ''now'' (demo_spec, empty_store)) = Inr 2"
    by code_simp
  with run have "r = Inr 2" by simp
  moreover have "list_all (\<lambda>k. k \<le> spec_revision demo_spec) (approvals empty_store)"
    by (simp add: empty_store_def)
  from edits_atomic [OF demo_spec_valid run this] \<open>r = Inr 2\<close>
  have "validate_spec sp' = Inr ()" and "\<not> dispatch_gate st' sp' ''b''" by simp_all
  ultimately show ?thesis using run by simp
qed

end
