(* ===== verification/Outcome_Elaborate.thy ===== *)
theory Outcome_Elaborate
  imports Outcome_Live Outcome_Edit_Laws
begin

text \<open>
  Elaborating a subplot in place keeps the order of the outcome: the sub-nodes together stand where
  the subplot stood, after everything it waited for and before everything that waited for it.
\<close>

section \<open>The spliced graph\<close>

lemma set_append_new [simp]: "set (append_new acc ss) = set acc \<union> set ss"
  by (induction acc ss rule: append_new.induct) auto

lemma rewire_id [simp]: "subplot_id (rewire s ends n) = subplot_id n"
  by (simp add: rewire_def)

lemma inherit_id [simp]: "subplot_id (inherit_upstream up ids n) = subplot_id n"
  by (simp add: inherit_upstream_def)

lemma rewire_deps:
  "d \<in> set (depends_on (rewire s ends n)) \<longleftrightarrow>
     d \<in> set (depends_on n) \<and> d \<noteq> s \<or> s \<in> set (depends_on n) \<and> d \<in> set ends"
  by (auto simp: rewire_def)

text \<open>Every sub-node waits for the upstream or for another sub-node, and is a sink or awaited by
  another sub-node.\<close>

lemma inherit_upstream_entry:
  "set up \<subseteq> set (depends_on (inherit_upstream up ids n))
    \<or> (\<exists>d \<in> set (depends_on (inherit_upstream up ids n)). d \<in> set ids)"
  by (auto simp: inherit_upstream_def list_ex_iff)

lemma sinks_or_awaited:
  "t \<in> set (node_ids subs) \<Longrightarrow> t \<in> set (sinks subs) \<or> (\<exists>n \<in> set subs. t \<in> set (depends_on n))"
  by (auto simp: sinks_def list_ex_iff)

lemma sinks_sub: "set (sinks subs) \<subseteq> set (node_ids subs)"
  by (auto simp: sinks_def)

text \<open>In a finite acyclic relation, walking back from a member of a set ends at one without a
  predecessor in the set.\<close>

lemma back_to_entry:
  assumes "wf E" and "t \<in> T"
    and entry: "\<And>t. t \<in> T \<Longrightarrow> (u, t) \<in> E \<or> (\<exists>t' \<in> T. (t', t) \<in> E)"
  shows "(u, t) \<in> E\<^sup>+"
  using assms(1,2)
proof (induction t rule: wf_induct_rule)
  case (less t)
  from entry [OF less.prems] show ?case
  proof
    assume "\<exists>t' \<in> T. (t', t) \<in> E"
    then obtain t' where "t' \<in> T" and "(t', t) \<in> E" by blast
    with less.IH show ?case by (meson trancl_into_trancl)
  qed auto
qed

lemma forth_to_exit:
  assumes "wf (E\<inverse>)" and "t \<in> T"
    and exit: "\<And>t. t \<in> T \<Longrightarrow> (t, x) \<in> E \<or> (\<exists>t' \<in> T. (t, t') \<in> E)"
  shows "(t, x) \<in> E\<^sup>+"
  using back_to_entry [of "E\<inverse>" t T x] assms by (simp add: trancl_converse)

section \<open>Order\<close>

text \<open>The edges \<open>E'\<close> put the members of \<open>T\<close> in the place that \<open>s\<close> has in \<open>E\<close>.\<close>

definition spliced ::
    "(string \<times> string) set \<Rightarrow> (string \<times> string) set \<Rightarrow> string \<Rightarrow> string set \<Rightarrow> bool" where
  "spliced E E' s T \<longleftrightarrow>
     acyclic E \<and> T \<noteq> {}
     \<and> (\<forall>a b. (a, b) \<in> E \<longrightarrow> a \<noteq> s \<longrightarrow> b \<noteq> s \<longrightarrow> (a, b) \<in> E')
     \<and> (\<forall>a t. (a, s) \<in> E \<longrightarrow> t \<in> T \<longrightarrow> (a, t) \<in> E'\<^sup>+)
     \<and> (\<forall>b t. (s, b) \<in> E \<longrightarrow> t \<in> T \<longrightarrow> (t, b) \<in> E'\<^sup>+)"

lemma spliced_order_from:
  assumes "spliced E E' s T" and "(a, b) \<in> E\<^sup>+" and "a \<noteq> s"
  shows "if b = s then \<forall>t \<in> T. (a, t) \<in> E'\<^sup>+ else (a, b) \<in> E'\<^sup>+"
  using assms(2)
proof (induction rule: trancl_induct)
  case (base b)
  then show ?case using assms(1,3) by (auto simp: spliced_def)
next
  case (step b c)
  show ?case
  proof (cases "b = s")
    case True
    obtain t where "t \<in> T" using assms(1) by (auto simp: spliced_def)
    moreover have "c \<noteq> s" using step.hyps(2) True assms(1) by (auto simp: spliced_def acyclic_def)
    moreover have "(t, c) \<in> E'\<^sup>+" using assms(1) step.hyps(2) True \<open>t \<in> T\<close> by (auto simp: spliced_def)
    ultimately show ?thesis using step.IH True by (auto intro: trancl_trans)
  next
    case False
    with step.IH have ab: "(a, b) \<in> E'\<^sup>+" by simp
    show ?thesis
    proof (cases "c = s")
      case True
      then have "\<forall>t \<in> T. (b, t) \<in> E'\<^sup>+" using assms(1) step.hyps(2) by (simp add: spliced_def)
      with ab True show ?thesis by (auto intro: trancl_trans)
    next
      case other: False
      then have "(b, c) \<in> E'" using assms(1) step.hyps(2) False by (simp add: spliced_def)
      with ab other show ?thesis by (auto intro: trancl_into_trancl)
    qed
  qed
qed

lemma spliced_order_to:
  assumes "spliced E E' s T" and "(s, b) \<in> E\<^sup>+" and "t \<in> T"
  shows "(t, b) \<in> E'\<^sup>+"
proof -
  from assms(2) obtain c where c: "(s, c) \<in> E" "(c, b) \<in> E\<^sup>*" by (meson tranclD)
  then have "c \<noteq> s" "b \<noteq> s" using assms(1,2) by (auto simp: spliced_def acyclic_def)
  with c(2) spliced_order_from [OF assms(1), of c b] have "b = c \<or> (c, b) \<in> E'\<^sup>+"
    by (auto simp: rtrancl_eq_or_trancl)
  moreover have "(t, c) \<in> E'\<^sup>+" using assms(1,3) c(1) by (simp add: spliced_def)
  ultimately show ?thesis by (auto intro: trancl_trans)
qed

lemma splice_is_spliced:
  assumes ok: "spec_ok sp" and n: "node_by_id sp s = Some n" and raw: "raw \<noteq> []"
    and ns: "ns = remove_and_rewire s (rewire s (sinks subs)) (nodes sp) @ subs"
    and subs: "subs = map (inherit_upstream (depends_on n) (node_ids raw)) raw"
    and acyc: "acyclic (dep_edges ns)"
  shows "spliced (dep_edges (nodes sp)) (dep_edges ns) s (set (node_ids raw))"
  unfolding spliced_def
proof (intro conjI allI impI)
  have ids: "node_ids subs = node_ids raw" by (simp add: subs comp_def)
  have wf: "wf (dep_edges ns)" and wf': "wf ((dep_edges ns)\<inverse>)"
    using acyc finite_dep_edges by (simp_all add: wf_iff_acyclic_if_finite)
  have uniq: "distinct (node_ids (nodes sp))" using ok by (simp add: spec_ok_def)
  have n': "n \<in> set (nodes sp)" "subplot_id n = s"
    using n find_Some_set [of "\<lambda>n. subplot_id n = s"] by (auto simp: node_by_id_def)
  have sub_edge: "(d, t) \<in> dep_edges ns" if "m \<in> set subs" "subplot_id m = t" "d \<in> set (depends_on m)" for d t m
    using that by (auto simp: dep_edges_iff ns)
  have rest_edge: "(d, b) \<in> dep_edges ns"
    if "m \<in> set (nodes sp)" "subplot_id m = b" "b \<noteq> s" "d \<in> set (depends_on (rewire s (sinks subs) m))" for d b m
  proof -
    have "rewire s (sinks subs) m \<in> set ns" using that(1-3) by (auto simp: ns remove_and_rewire_def)
    with that(2,4) show ?thesis unfolding dep_edges_iff by (intro bexI conjI) auto
  qed
  show "acyclic (dep_edges (nodes sp))" using ok by (simp add: spec_ok_def)
  show "set (node_ids raw) \<noteq> {}" using raw by simp
  show "(a, b) \<in> dep_edges ns" if edge: "(a, b) \<in> dep_edges (nodes sp)" and "a \<noteq> s" "b \<noteq> s" for a b
  proof -
    from edge obtain m where "m \<in> set (nodes sp)" "subplot_id m = b" "a \<in> set (depends_on m)"
      by (auto simp: dep_edges_iff)
    with that show ?thesis by (intro rest_edge [of m]) (simp_all add: rewire_deps)
  qed
  show "(a, t) \<in> (dep_edges ns)\<^sup>+" if "(a, s) \<in> dep_edges (nodes sp)" and "t \<in> set (node_ids raw)" for a t
  proof (rule back_to_entry [OF wf that(2)])
    have up: "a \<in> set (depends_on n)"
      using that(1) n' uniq by (auto simp: dep_edges_iff distinct_map inj_on_def)
    fix t assume "t \<in> set (node_ids raw)"
    then have "t \<in> set (node_ids subs)" by (simp only: ids)
    then obtain m where m: "m \<in> set subs" "subplot_id m = t" by auto
    then obtain m0 where "m = inherit_upstream (depends_on n) (node_ids raw) m0" by (auto simp: subs)
    with inherit_upstream_entry [of "depends_on n" "node_ids raw" m0] up
    have "a \<in> set (depends_on m) \<or> (\<exists>d \<in> set (depends_on m). d \<in> set (node_ids raw))" by auto
    with sub_edge [OF m] show "(a, t) \<in> dep_edges ns \<or> (\<exists>t' \<in> set (node_ids raw). (t', t) \<in> dep_edges ns)"
      by blast
  qed
  show "(t, b) \<in> (dep_edges ns)\<^sup>+" if "(s, b) \<in> dep_edges (nodes sp)" and "t \<in> set (node_ids raw)" for b t
  proof (rule forth_to_exit [OF wf' that(2)])
    from that(1) obtain m where m: "m \<in> set (nodes sp)" "subplot_id m = b" "s \<in> set (depends_on m)"
      by (auto simp: dep_edges_iff)
    have "b \<noteq> s" using that(1) ok by (auto simp: spec_ok_def acyclic_def)
    fix t assume "t \<in> set (node_ids raw)"
    with sinks_or_awaited [of t subs] ids
    consider "t \<in> set (sinks subs)" | x where "x \<in> set subs" "t \<in> set (depends_on x)" by auto
    then show "(t, b) \<in> dep_edges ns \<or> (\<exists>t' \<in> set (node_ids raw). (t, t') \<in> dep_edges ns)"
    proof cases
      case 1
      then show ?thesis using rest_edge [OF m(1,2) \<open>b \<noteq> s\<close>] m(3) by (simp add: rewire_deps)
    next
      case (2 x)
      then have "subplot_id x \<in> set (node_ids raw)" unfolding ids [symmetric] by simp
      with 2 sub_edge [of x] show ?thesis by blast
    qed
  qed
qed

text \<open>C40: Replacing a subplot by the subplots of its elaboration keeps the order of the outcome:
  the other subplots stay before and behind each other as they were, all that was before the
  replaced subplot is before every subplot that replaces it, and every one of these is before all
  that was behind it.\<close>

theorem elaborate_keeps_order:
  assumes "validate_spec sp = Inr ()" and "apply_edit (Elaborate s js) stamp (sp, st) = (Inr k, sp', st')"
  shows "\<exists>raw. map_res node_from_dict js = Inr raw \<and> raw \<noteq> []
    \<and> set (node_ids (nodes sp')) = set (node_ids (nodes sp)) - {s} \<union> set (node_ids raw)
    \<and> (\<forall>a b. (a, b) \<in> (dep_edges (nodes sp))\<^sup>+ \<longrightarrow>
         (a \<noteq> s \<and> b \<noteq> s \<longrightarrow> (a, b) \<in> (dep_edges (nodes sp'))\<^sup>+)
         \<and> (b = s \<longrightarrow> (\<forall>t \<in> set (node_ids raw). (a, t) \<in> (dep_edges (nodes sp'))\<^sup>+))
         \<and> (a = s \<longrightarrow> (\<forall>t \<in> set (node_ids raw). (t, b) \<in> (dep_edges (nodes sp'))\<^sup>+)))"
proof -
  have ok: "spec_ok sp" using assms(1) by (simp add: validate_iff)
  obtain n raw where n: "node_by_id sp s = Some n" and raw: "map_res node_from_dict js = Inr raw" "raw \<noteq> []"
    and run: "splice_nodes s n raw stamp sp = (Inr k, sp')"
    using assms(2)
    by (auto simp: elaborate_def split: option.splits prod.splits sum.splits if_splits)
  define subs where "subs = map (inherit_upstream (depends_on n) (node_ids raw)) raw"
  define ns where "ns = remove_and_rewire s (rewire s (sinks subs)) (nodes sp) @ subs"
  have sp': "nodes sp' = ns" and "validate_spec sp' = Inr ()"
    using run splice_nodes_atomic [OF _ run] ok
    by (auto simp: splice_nodes_def commit_edit_def Let_def subs_def ns_def atomic_edit_def spec_ok_def
        split: sum.splits)
  then have acyc: "acyclic (dep_edges ns)" by (simp add: validate_iff spec_ok_def)
  have spl: "spliced (dep_edges (nodes sp)) (dep_edges ns) s (set (node_ids raw))"
    by (rule splice_is_spliced [OF ok n raw(2) ns_def subs_def acyc])
  have ids: "set (node_ids ns) = set (node_ids (nodes sp)) - {s} \<union> set (node_ids raw)"
    by (auto simp: ns_def subs_def remove_and_rewire_def)
  have around: "(a, b) \<in> (dep_edges ns)\<^sup>+"
    if "(a, b) \<in> (dep_edges (nodes sp))\<^sup>+" "a \<noteq> s \<and> b \<noteq> s" for a b
    using spliced_order_from [OF spl that(1)] that(2) by simp
  have into: "(a, t) \<in> (dep_edges ns)\<^sup>+"
    if "(a, b) \<in> (dep_edges (nodes sp))\<^sup>+" "b = s" "t \<in> set (node_ids raw)" for a b t
  proof -
    have "a \<noteq> s" using that(1,2) ok by (auto simp: spec_ok_def acyclic_def)
    then show ?thesis using spliced_order_from [OF spl that(1)] that(2,3) by auto
  qed
  have out: "(t, b) \<in> (dep_edges ns)\<^sup>+"
    if "(a, b) \<in> (dep_edges (nodes sp))\<^sup>+" "a = s" "t \<in> set (node_ids raw)" for a b t
    using spliced_order_to [OF spl] that by simp
  show ?thesis
    unfolding sp'
  proof (intro exI [of _ raw] conjI)
    show "\<forall>a b. (a, b) \<in> (dep_edges (nodes sp))\<^sup>+ \<longrightarrow>
         (a \<noteq> s \<and> b \<noteq> s \<longrightarrow> (a, b) \<in> (dep_edges ns)\<^sup>+)
         \<and> (b = s \<longrightarrow> (\<forall>t \<in> set (node_ids raw). (a, t) \<in> (dep_edges ns)\<^sup>+))
         \<and> (a = s \<longrightarrow> (\<forall>t \<in> set (node_ids raw). (t, b) \<in> (dep_edges ns)\<^sup>+))"
      using around into out by blast
  qed (fact raw ids)+
qed

definition demo_parts :: "json list" where
  "demo_parts = [node_to_dict (demo_node ''b1'' []), node_to_dict (demo_node ''b2'' [''b1''])]"

theorem elaborate_keeps_order_witness:
  "\<exists>sp' st'. apply_edit (Elaborate ''b'' demo_parts) ''now'' (demo_spec, empty_store) = (Inr 2, sp', st')
    \<and> (''a'', ''b2'') \<in> (dep_edges (nodes sp'))\<^sup>+ \<and> (''b1'', ''d'') \<in> (dep_edges (nodes sp'))\<^sup>+"
proof -
  obtain r sp' st' where run: "apply_edit (Elaborate ''b'' demo_parts) ''now'' (demo_spec, empty_store) = (r, sp', st')"
    by (metis prod_cases3)
  have "fst (apply_edit (Elaborate ''b'' demo_parts) ''now'' (demo_spec, empty_store)) = Inr 2"
    by code_simp
  with run have run2: "apply_edit (Elaborate ''b'' demo_parts) ''now'' (demo_spec, empty_store) = (Inr 2, sp', st')"
    by simp
  have parts: "map_res node_from_dict demo_parts = Inr [demo_node ''b1'' [], demo_node ''b2'' [''b1'']]"
    by (simp add: demo_parts_def node_round_trip demo_node_def current_backend_def)
  have "(''a'', ''b'') \<in> (dep_edges (nodes demo_spec))\<^sup>+" and "(''b'', ''d'') \<in> (dep_edges (nodes demo_spec))\<^sup>+"
    by (auto intro!: r_into_trancl simp: dep_edges_iff demo_spec_def demo_node_def)
  with elaborate_keeps_order [OF demo_spec_valid run2] parts
  have "(''a'', ''b2'') \<in> (dep_edges (nodes sp'))\<^sup>+" and "(''b1'', ''d'') \<in> (dep_edges (nodes sp'))\<^sup>+"
    by (auto simp: demo_node_def)
  with run2 show ?thesis by blast
qed

end
