(* ===== verification/Outcome_Edges.thy ===== *)
theory Outcome_Edges
  imports Outcome_Valid Dispatch_Reports
begin

text \<open>
  Edge inference for the ingestion of an objective, \<open>saga/scripts/outcome_edges.py\<close>: GitHub's
  blocked-by relationships among the ingested sub-issues become dependencies among their subplots,
  and every edge that cannot be kept is reported with its reason.
\<close>

section \<open>Identifiers of the ingested sub-issues\<close>

text \<open>A sub-issue is the dictionary of its discovery record, a key its repository and number.\<close>

type_synonym issue_key = "string \<times> int"

definition py_number :: "json \<Rightarrow> outcome_error + int" where
  "py_number j = (case py_int j of Inr n \<Rightarrow> Inr n | Inl _ \<Rightarrow> Inl PythonError)"

definition repo_text :: "json \<Rightarrow> string" where
  "repo_text j = (if truthy j then py_str j else [])"

definition issue_key_of :: "json dict \<Rightarrow> outcome_error + issue_key" where
  "issue_key_of sub =
     (case dget sub ''number'' of
        None \<Rightarrow> Inl PythonError
      | Some v \<Rightarrow> bind_res (py_number v) (\<lambda>n. Inr (repo_text (jget sub ''repo'' JNull), n)))"

text \<open>\<open>re.sub(r"[^A-Za-z0-9._-]+", "-", repo)\<close>\<close>

fun squeeze_repo :: "bool \<Rightarrow> string \<Rightarrow> string" where
  "squeeze_repo dashed [] = []"
| "squeeze_repo dashed (c # cs) =
     (if slug_char c then c # squeeze_repo False cs
      else if dashed then squeeze_repo True cs
      else CHR ''-'' # squeeze_repo True cs)"

definition repo_slug :: "string \<Rightarrow> string" where
  "repo_slug repo =
     (let slug = lower (strip_chars ''-'' (squeeze_repo False repo))
      in if slug = [] then ''unknown-repo'' else slug)"

definition sub_id :: "'h host_scheme \<Rightarrow> int \<Rightarrow> string \<Rightarrow> bool \<Rightarrow> string" where
  "sub_id h number repo qualified =
     (if qualified
      then ''sub-'' @ repo_slug repo @ ''-'' @ take 10 (sha256 h repo) @ ''-'' @ int_text number
      else ''sub-'' @ int_text number)"

text \<open>The loop of \<open>subplot_ids_for_subissues\<close>: a number that occurs twice qualifies all its
  sub-issues by repository, and a repeated key takes an ordinal.\<close>

fun assign_ids :: "'h host_scheme \<Rightarrow> int list \<Rightarrow> (issue_key \<times> string) list \<Rightarrow> (int \<times> int) list
    \<Rightarrow> issue_key list \<Rightarrow> (issue_key \<times> string) list" where
  "assign_ids h numbers ids ordinals [] = ids"
| "assign_ids h numbers ids ordinals ((repo, number) # ks) =
     (let sid = sub_id h number repo (1 < length (filter (\<lambda>n. n = number) numbers))
      in if dget ids (repo, number) = None
         then assign_ids h numbers (dset (repo, number) sid ids) ordinals ks
         else let k = (case dget ordinals number of Some m \<Rightarrow> m | None \<Rightarrow> 1) + 1
              in assign_ids h numbers (dset (repo, number) (sid @ ''-'' @ int_text k) ids)
                   (dset number k ordinals) ks)"

definition subplot_ids_for_subissues ::
    "'h host_scheme \<Rightarrow> json dict list \<Rightarrow> outcome_error + (issue_key \<times> string) list" where
  "subplot_ids_for_subissues h subs =
     bind_res (map_res issue_key_of subs) (\<lambda>ks. Inr (assign_ids h (map snd ks) [] [] ks))"

section \<open>References\<close>

definition blocked_ref :: "json \<Rightarrow> outcome_error + issue_key" where
  "blocked_ref j =
     (case j of
        JObj d \<Rightarrow>
          bind_res (py_number (jget d ''number'' JNull)) (\<lambda>n. Inr (repo_text (jget d ''repo'' JNull), n))
      | _ \<Rightarrow> bind_res (py_number j) (\<lambda>n. Inr ([], n)))"

datatype drop_reason = Dangling | Ambiguous | SelfBlock | CycleEdge

text \<open>\<open>_resolve_ref\<close>, on a reference that is already read: a repository-qualified key, or a
  bare number that one ingested sub-issue carries.\<close>

definition resolve_ref :: "(issue_key \<times> string) list \<Rightarrow> issue_key \<Rightarrow> drop_reason + issue_key" where
  "resolve_ref ids ref =
     (if fst ref \<noteq> []
      then if dget ids ref \<noteq> None then Inr ref else Inl Dangling
      else case filter (\<lambda>key. snd key = snd ref) (dkeys ids) of
             [] \<Rightarrow> Inl Dangling
           | [key] \<Rightarrow> Inr key
           | _ \<Rightarrow> Inl Ambiguous)"

section \<open>The edges\<close>

type_synonym dep_map = "(string \<times> string list) list"

abbreviation targets :: "dep_map \<Rightarrow> string \<Rightarrow> string list" where
  "targets deps s \<equiv> (case dget deps s of Some ts \<Rightarrow> ts | None \<Rightarrow> [])"

text \<open>\<open>_reachable\<close>: the dependency sets are pushed in an order the source leaves open.\<close>

function reach :: "dep_map \<Rightarrow> string \<Rightarrow> string list \<Rightarrow> string list \<Rightarrow> bool" where
  "reach deps target [] seen = False"
| "reach deps target (s # stack) seen =
     (if s = target then True
      else if s \<in> set seen then reach deps target stack seen
      else reach deps target (targets deps s @ stack) (s # seen))"
  by pat_completeness auto
termination
proof (relation "measures [\<lambda>(deps, target, stack, seen). card (set (dkeys deps) - set seen),
    \<lambda>(deps, target, stack, seen). length stack]", goal_cases)
  case (3 deps target s stack seen)
  show ?case
  proof (cases "dget deps s")
    case None
    then have "set (dkeys deps) - set (s # seen) = set (dkeys deps) - set seen"
      by (auto simp: map_of_eq_None_iff)
    with None show ?thesis by simp
  next
    case (Some ts)
    then have "s \<in> set (dkeys deps) - set seen" using 3 by (force dest: map_of_SomeD)
    then have "set (dkeys deps) - set (s # seen) \<subset> set (dkeys deps) - set seen" by auto
    then have "card (set (dkeys deps) - set (s # seen)) < card (set (dkeys deps) - set seen)"
      by (intro psubset_card_mono) auto
    then show ?thesis by simp
  qed
qed simp_all

text \<open>\<open>deps.setdefault(fa, set()).add(fb)\<close>\<close>

definition add_edge :: "string \<Rightarrow> string \<Rightarrow> dep_map \<Rightarrow> dep_map" where
  "add_edge fa fb deps =
     dset fa (if fb \<in> set (targets deps fa) then targets deps fa else targets deps fa @ [fb]) deps"

type_synonym dropped_edge = "drop_reason \<times> string \<times> string"

text \<open>The body of the inner loop, on a reference that was read.\<close>

fun infer_edge :: "'h host_scheme \<Rightarrow> (issue_key \<times> string) list \<Rightarrow> issue_key \<Rightarrow> issue_key
    \<Rightarrow> dep_map \<times> dropped_edge list \<Rightarrow> dep_map \<times> dropped_edge list" where
  "infer_edge h ids a ref (deps, dropped) =
     (let fa = the (dget ids a);
          to = (case dget ids ref of Some s \<Rightarrow> s | None \<Rightarrow> sub_id h (snd ref) [] False)
      in case resolve_ref ids ref of
           Inl reason \<Rightarrow> (deps, dropped @ [(reason, fa, to)])
         | Inr key \<Rightarrow>
             let fb = the (dget ids key)
             in if key = a then (deps, dropped @ [(SelfBlock, fa, fb)])
                else if reach deps fa [fb] [] then (deps, dropped @ [(CycleEdge, fa, fb)])
                else (add_edge fa fb deps, dropped))"

fun infer_from :: "'h host_scheme \<Rightarrow> (issue_key \<times> string) list \<Rightarrow> issue_key \<Rightarrow> json list
    \<Rightarrow> dep_map \<times> dropped_edge list \<Rightarrow> outcome_error + dep_map \<times> dropped_edge list" where
  "infer_from h ids a [] acc = Inr acc"
| "infer_from h ids a (b # bs) acc =
     bind_res (blocked_ref b) (\<lambda>ref. infer_from h ids a bs (infer_edge h ids a ref acc))"

text \<open>\<open>sub.get("blocked_by", []) or []\<close>\<close>

definition blocked_by :: "json dict \<Rightarrow> outcome_error + json list" where
  "blocked_by sub =
     (let j = jget sub ''blocked_by'' (JArr []) in if truthy j then iterate j else Inr [])"

fun infer_all :: "'h host_scheme \<Rightarrow> (issue_key \<times> string) list \<Rightarrow> json dict list
    \<Rightarrow> dep_map \<times> dropped_edge list \<Rightarrow> outcome_error + dep_map \<times> dropped_edge list" where
  "infer_all h ids [] acc = Inr acc"
| "infer_all h ids (sub # subs) acc =
     bind_res (issue_key_of sub) (\<lambda>a.
     bind_res (blocked_by sub) (\<lambda>bs.
     bind_res (infer_from h ids a bs acc) (\<lambda>acc'. infer_all h ids subs acc')))"

definition edges_from_relationships ::
    "'h host_scheme \<Rightarrow> json dict list \<Rightarrow> outcome_error + dep_map \<times> dropped_edge list" where
  "edges_from_relationships h subs =
     bind_res (subplot_ids_for_subissues h subs) (\<lambda>ids.
     bind_res (infer_all h ids subs ([], [])) (\<lambda>(deps, dropped).
     Inr (map (\<lambda>(s, ts). (s, sort ts)) deps, dropped)))"

section \<open>The inferred graph is acyclic\<close>

definition edge_rel :: "dep_map \<Rightarrow> (string \<times> string) set" where
  "edge_rel deps = {(s, d). d \<in> set (targets deps s)}"

lemma edge_rel_Nil [simp]: "edge_rel [] = {}"
  by (simp add: edge_rel_def)

lemma edge_rel_add [simp]: "edge_rel (add_edge fa fb deps) = insert (fa, fb) (edge_rel deps)"
  by (auto simp: edge_rel_def add_edge_def split: option.splits if_splits)

lemma reach_sound:
  "reach deps target stack seen \<Longrightarrow> \<exists>s \<in> set stack. (s, target) \<in> (edge_rel deps)\<^sup>*"
proof (induction deps target stack seen rule: reach.induct)
  case (2 deps target s stack seen)
  consider "s = target" | "s \<noteq> target" "s \<in> set seen" | "s \<noteq> target" "s \<notin> set seen" by blast
  then show ?case
  proof cases
    case 3
    with "2.prems" "2.IH"(2) obtain u
      where "u \<in> set (targets deps s @ stack)" and u: "(u, target) \<in> (edge_rel deps)\<^sup>*" by auto
    then consider "(s, u) \<in> edge_rel deps" | "u \<in> set stack" by (auto simp: edge_rel_def)
    then show ?thesis using u by cases (auto intro: converse_rtrancl_into_rtrancl)
  qed (use "2.prems" "2.IH" in auto)
qed simp

text \<open>The search fails only when what it has seen is closed under dependencies.\<close>

lemma reach_complete:
  assumes "\<not> reach deps target stack seen" and "target \<notin> set seen"
    and "edge_rel deps `` set seen \<subseteq> set seen \<union> set stack"
  shows "(s, target) \<in> (edge_rel deps)\<^sup>* \<longrightarrow> s \<notin> set seen \<union> set stack"
  using assms
proof (induction deps target stack seen rule: reach.induct)
  case (1 deps target seen)
  then have "(edge_rel deps)\<^sup>* `` set seen \<subseteq> set seen"
    by (metis Image_closed_trancl empty_set subset_refl sup_bot.right_neutral)
  then show ?case using 1 by auto
next
  case (2 deps target x stack seen)
  then have "x \<noteq> target" by auto
  show ?case
  proof (cases "x \<in> set seen")
    case True
    then have "set seen \<union> set (x # stack) = set seen \<union> set stack" by auto
    moreover have "(s, target) \<in> (edge_rel deps)\<^sup>* \<longrightarrow> s \<notin> set seen \<union> set stack"
      using True \<open>x \<noteq> target\<close> "2.prems" by (intro "2.IH"(1)) (simp_all add: insert_absorb)
    ultimately show ?thesis by metis
  next
    case False
    have "edge_rel deps `` set (x # seen) = set (targets deps x) \<union> edge_rel deps `` set seen"
      by (auto simp: edge_rel_def)
    also have "\<dots> \<subseteq> set (x # seen) \<union> set (targets deps x @ stack)"
      using "2.prems"(3) by auto
    finally have "(s, target) \<in> (edge_rel deps)\<^sup>* \<longrightarrow>
        s \<notin> set (x # seen) \<union> set (targets deps x @ stack)"
      using False \<open>x \<noteq> target\<close> "2.prems"(1,2) by (intro "2.IH"(2)) simp_all
    then show ?thesis by auto
  qed
qed

lemma reach_iff: "reach deps target [s] [] \<longleftrightarrow> (s, target) \<in> (edge_rel deps)\<^sup>*"
proof
  assume "reach deps target [s] []"
  from reach_sound [OF this] show "(s, target) \<in> (edge_rel deps)\<^sup>*" by simp
next
  assume path: "(s, target) \<in> (edge_rel deps)\<^sup>*"
  show "reach deps target [s] []"
  proof (rule ccontr)
    assume "\<not> reach deps target [s] []"
    from reach_complete [OF this, of s] path show False by simp
  qed
qed

text \<open>Each kept edge leaves the graph acyclic, and what a reported cycle is about stays true
  while the graph grows.\<close>

definition edges_ok :: "string set \<Rightarrow> dep_map \<times> dropped_edge list \<Rightarrow> bool" where
  "edges_ok ids acc \<longleftrightarrow>
     acyclic (edge_rel (fst acc)) \<and> edge_rel (fst acc) \<subseteq> ids \<times> ids
     \<and> (\<forall>fa fb. (CycleEdge, fa, fb) \<in> set (snd acc) \<longrightarrow> (fb, fa) \<in> (edge_rel (fst acc))\<^sup>*)"

declare reach.simps [simp del]

lemma resolve_ref_known:
  assumes "resolve_ref ids ref = Inr key"
  shows "dget ids key \<noteq> None"
proof (cases "fst ref = []")
  case True
  with assms have "filter (\<lambda>key. snd key = snd ref) (dkeys ids) = [key]"
    by (auto simp: resolve_ref_def split: list.splits)
  then have "key \<in> set (dkeys ids)" by (metis filter_is_subset list.set_intros(1) subsetD)
  then show ?thesis by (simp add: map_of_eq_None_iff)
qed (use assms in \<open>auto simp: resolve_ref_def split: if_splits\<close>)

lemma resolve_ref_reason: "resolve_ref ids ref = Inl reason \<Longrightarrow> reason \<noteq> CycleEdge"
  by (auto simp: resolve_ref_def split: if_splits list.splits)

lemma known_id: "dget ids a \<noteq> None \<Longrightarrow> the (dget ids a) \<in> snd ` set ids"
  by (force dest: map_of_SomeD)

lemma edges_ok_drop:
  "edges_ok S (deps, dropped) \<Longrightarrow> reason \<noteq> CycleEdge \<or> (to, fa) \<in> (edge_rel deps)\<^sup>* \<Longrightarrow>
     edges_ok S (deps, dropped @ [(reason, fa, to)])"
  by (auto simp: edges_ok_def)

lemma edges_ok_add:
  assumes "edges_ok S (deps, dropped)" and "\<not> reach deps fa [fb] []" and "fa \<in> S" and "fb \<in> S"
  shows "edges_ok S (add_edge fa fb deps, dropped)"
proof -
  have "(edge_rel deps)\<^sup>* \<subseteq> (insert (fa, fb) (edge_rel deps))\<^sup>*" by (rule rtrancl_mono) auto
  then show ?thesis
    using assms by (auto simp: edges_ok_def acyclic_insert reach_iff)
qed

lemma infer_edge_ok:
  assumes "edges_ok (snd ` set ids) (deps, dropped)" and "dget ids a \<noteq> None"
  shows "edges_ok (snd ` set ids) (infer_edge h ids a ref (deps, dropped))"
proof (cases "resolve_ref ids ref")
  case (Inl reason)
  then show ?thesis
    using assms(1) resolve_ref_reason [OF Inl] by (simp add: Let_def edges_ok_drop)
next
  case (Inr key)
  note mem = known_id [OF assms(2)] known_id [OF resolve_ref_known [OF Inr]]
  show ?thesis
    using assms(1) mem Inr by (simp add: Let_def edges_ok_drop edges_ok_add reach_iff)
qed

lemma infer_from_ok:
  "infer_from h ids a bs acc = Inr acc' \<Longrightarrow> edges_ok (snd ` set ids) acc \<Longrightarrow> dget ids a \<noteq> None \<Longrightarrow>
     edges_ok (snd ` set ids) acc'"
proof (induction h ids a bs acc rule: infer_from.induct)
  case (2 h ids a b bs acc)
  then show ?case
    by (cases acc) (auto simp del: infer_edge.simps intro: infer_edge_ok)
qed simp

lemma infer_all_ok:
  "infer_all h ids subs acc = Inr acc' \<Longrightarrow> edges_ok (snd ` set ids) acc \<Longrightarrow>
     (\<forall>sub \<in> set subs. \<forall>a. issue_key_of sub = Inr a \<longrightarrow> dget ids a \<noteq> None) \<Longrightarrow>
     edges_ok (snd ` set ids) acc'"
proof (induction h ids subs acc rule: infer_all.induct)
  case (2 h ids sub subs acc)
  from "2.prems"(1) obtain a bs mid where a: "issue_key_of sub = Inr a" and bs: "blocked_by sub = Inr bs"
    and mid: "infer_from h ids a bs acc = Inr mid" and rest: "infer_all h ids subs mid = Inr acc'"
    by auto
  have "dget ids a \<noteq> None" using "2.prems"(3) a by (metis list.set_intros(1))
  with mid "2.prems"(2) have "edges_ok (snd ` set ids) mid" by (rule infer_from_ok)
  then show ?case using "2.IH" [OF rest] "2.prems"(3) by simp
qed simp

lemma assign_ids_keys:
  "set (dkeys (assign_ids h numbers ids ordinals ks)) = set (dkeys ids) \<union> set ks"
  by (induction h numbers ids ordinals ks rule: assign_ids.induct)
    (auto simp: Let_def dom_update dkeys_lookup simp flip: dom_map_of_conv_image_fst)

lemma edge_rel_sorted: "edge_rel (map (\<lambda>(s, ts). (s, sort ts)) deps) = edge_rel deps"
proof -
  have "dget (map (\<lambda>(s, ts). (s, sort ts)) deps) s = map_option sort (dget deps s)" for s
    by (induction deps) auto
  then show ?thesis by (auto simp: edge_rel_def split: option.splits)
qed

text \<open>C32: The edges inferred from the issues of a repository are between the subplots assigned
  to the issues and have no cycle, whatever the issues say; an edge is dropped as a cycle edge
  only if adding it to the edges that are returned would close a cycle.\<close>

theorem inferred_edges_acyclic:
  assumes "edges_from_relationships h subs = Inr (deps, dropped)"
  shows "\<exists>ids. subplot_ids_for_subissues h subs = Inr ids
    \<and> acyclic (edge_rel deps) \<and> edge_rel deps \<subseteq> snd ` set ids \<times> snd ` set ids
    \<and> (\<forall>fa fb. (CycleEdge, fa, fb) \<in> set dropped \<longrightarrow> \<not> acyclic (insert (fa, fb) (edge_rel deps)))"
proof -
  obtain ids ks deps' where ks: "map_res issue_key_of subs = Inr ks"
    and ids: "ids = assign_ids h (map snd ks) [] [] ks"
    and run: "infer_all h ids subs ([], []) = Inr (deps', dropped)"
    and deps: "deps = map (\<lambda>(s, ts). (s, sort ts)) deps'"
    using assms by (auto simp: edges_from_relationships_def subplot_ids_for_subissues_def)
  have "dget ids a \<noteq> None" if "sub \<in> set subs" and "issue_key_of sub = Inr a" for sub a
  proof -
    have "a \<in> set ks" using map_res_Inr_set2 [OF ks that(1)] that(2) by auto
    then have "a \<in> set (dkeys ids)" by (simp add: ids assign_ids_keys del: set_map)
    then show ?thesis by (simp add: map_of_eq_None_iff)
  qed
  then have "\<forall>sub \<in> set subs. \<forall>a. issue_key_of sub = Inr a \<longrightarrow> dget ids a \<noteq> None" by blast
  then have "edges_ok (snd ` set ids) (deps', dropped)"
    by (rule infer_all_ok [OF run, rotated]) (simp add: edges_ok_def acyclic_def)
  then show ?thesis
    using ks by (auto simp: edges_ok_def subplot_ids_for_subissues_def ids deps edge_rel_sorted
        acyclic_insert)
qed

text \<open>Three issues of one repository that block each other in a ring: two edges are kept.\<close>

definition demo_issue :: "int \<Rightarrow> json list \<Rightarrow> json dict" where
  "demo_issue n bs = [(''number'', JInt n), (''repo'', JStr ''a/b''), (''blocked_by'', JArr bs)]"

definition demo_issues :: "json dict list" where
  "demo_issues = [demo_issue 1 [JInt 3], demo_issue 2 [JInt 1], demo_issue 3 [JInt 2, JInt 9]]"

lemma demo_edges:
  "edges_from_relationships \<lparr>sha256 = (\<lambda>_. []), iso_utc = (\<lambda>_. True)\<rparr> demo_issues =
     Inr ([(''sub-1'', [''sub-3'']), (''sub-2'', [''sub-1''])],
          [(CycleEdge, ''sub-3'', ''sub-2''), (Dangling, ''sub-3'', ''sub-9'')])"
  by code_simp

theorem inferred_edges_acyclic_witness:
  "\<not> acyclic (insert (''sub-3'', ''sub-2'')
      (edge_rel [(''sub-1'', [''sub-3'']), (''sub-2'', [''sub-1''])]))"
  using inferred_edges_acyclic [OF demo_edges] by auto

end
