(* ===== verification/Outcome_Cascade.thy ===== *)
theory Outcome_Cascade
  imports Outcome_Live
begin

text \<open>
  The cascade of a block (\<open>blocked_subtree\<close>): beyond the blocked subplots it reaches exactly the
  ones downstream of them, and in a valid outcome a block alone is the cause and not in its cascade.
  A blocked subplot that depends on another blocked one is downstream too and the code puts it in the
  result, although its documentation says that the blocked nodes are not.
\<close>

section \<open>The cascade is the downstream closure\<close>

definition downstream :: "node list \<Rightarrow> (string \<times> string) set" where
  "downstream ns = {(d, s). s \<in> set (dependents ns d)}"

lemma downstream_iff: "(d, s) \<in> downstream ns \<longleftrightarrow> d \<in> set (node_ids ns) \<and> (d, s) \<in> dep_edges ns"
  by (auto simp: downstream_def dependents_def dep_edges_iff)

lemma cascade_sound:
  "set (cascade ns stack paused) \<subseteq> set paused \<union> (downstream ns)\<^sup>+ `` set stack"
proof (induction ns stack paused rule: cascade.induct)
  case (2 ns cur stack paused)
  define new where "new = remdups (filter (\<lambda>s. s \<notin> set paused) (dependents ns cur))"
  have new: "set new \<subseteq> downstream ns `` {cur}" by (auto simp: new_def downstream_def)
  have "set (cascade ns (cur # stack) paused)
      \<subseteq> set (paused @ new) \<union> (downstream ns)\<^sup>+ `` set (rev new @ stack)"
    using "2.IH" [OF new_def] by (simp add: new_def [symmetric] Let_def)
  also have "\<dots> \<subseteq> set paused \<union> (downstream ns)\<^sup>+ `` set (cur # stack)"
    using new by (auto intro: trancl_into_trancl2)
  finally show ?case .
qed simp

lemma cascade_keeps: "set paused \<subseteq> set (cascade ns stack paused)"
proof (induction ns stack paused rule: cascade.induct)
  case (2 ns cur stack paused)
  from "2.IH" [OF refl] show ?case by (simp add: Let_def)
qed simp

lemma cascade_closed:
  "(\<forall>p \<in> set paused. p \<in> set stack \<or> set (dependents ns p) \<subseteq> set paused) \<Longrightarrow>
     x \<in> set (cascade ns stack paused) \<union> set stack \<Longrightarrow>
     set (dependents ns x) \<subseteq> set (cascade ns stack paused)"
proof (induction ns stack paused rule: cascade.induct)
  case (2 ns cur stack paused)
  define new where "new = remdups (filter (\<lambda>s. s \<notin> set paused) (dependents ns cur))"
  have eq: "cascade ns (cur # stack) paused = cascade ns (rev new @ stack) (paused @ new)"
    by (simp add: new_def Let_def)
  have cur: "set (dependents ns cur) \<subseteq> set (paused @ new)" by (auto simp: new_def)
  have inv: "\<forall>p \<in> set (paused @ new).
      p \<in> set (rev new @ stack) \<or> set (dependents ns p) \<subseteq> set (paused @ new)"
    using "2.prems"(1) cur by auto
  show ?case
  proof (cases "x = cur")
    case True
    then show ?thesis using cur cascade_keeps [of "paused @ new" ns "rev new @ stack"] eq by auto
  next
    case False
    with "2.prems"(2) have "x \<in> set (cascade ns (rev new @ stack) (paused @ new)) \<union> set (rev new @ stack)"
      unfolding eq by auto
    from "2.IH" [OF new_def inv this] show ?thesis unfolding eq .
  qed
qed simp

lemma cascade_iff:
  "s \<in> set (blocked_subtree sp blocked) \<longleftrightarrow>
     (\<exists>b \<in> set blocked. b \<in> set (node_ids (nodes sp)) \<and> (b, s) \<in> (dep_edges (nodes sp))\<^sup>+)"
proof -
  define ns where "ns = nodes sp"
  define start where "start = rev (filter (\<lambda>b. b \<in> set (node_ids ns)) blocked)"
  have closed: "downstream ns `` (set (cascade ns start []) \<union> set start) \<subseteq> set (cascade ns start [])"
    using cascade_closed [of "[]" start ns] by (auto simp: downstream_def)
  have "t \<in> set (cascade ns start [])" if "b \<in> set start" and "(b, t) \<in> (downstream ns)\<^sup>+" for b t
    using that(2) by (induction rule: trancl_induct) (use that(1) closed in blast)+
  then have "set (cascade ns start []) = (downstream ns)\<^sup>+ `` set start"
    using cascade_sound [of ns start "[]"] by auto
  moreover have "(b, t) \<in> (downstream ns)\<^sup>+ \<longleftrightarrow> (b, t) \<in> (dep_edges ns)\<^sup>+"
    if "b \<in> set (node_ids ns)" for b t
  proof
    show "(b, t) \<in> (downstream ns)\<^sup>+" if "(b, t) \<in> (dep_edges ns)\<^sup>+"
      using that
    proof (induction rule: trancl_induct)
      case (base y)
      then show ?case using \<open>b \<in> set (node_ids ns)\<close> by (simp add: downstream_iff r_into_trancl)
    next
      case (step y z)
      have "y \<in> set (node_ids ns)"
        using step.hyps(1) by (induction rule: trancl_induct) (auto simp: dep_edges_iff)
      with step show ?case by (simp add: downstream_iff trancl_into_trancl)
    qed
  next
    show "(b, t) \<in> (dep_edges ns)\<^sup>+" if "(b, t) \<in> (downstream ns)\<^sup>+"
      using that by (rule trancl_mono) (auto simp: downstream_iff)
  qed
  ultimately show ?thesis
    unfolding blocked_subtree_def ns_def [symmetric] start_def [symmetric]
    by (auto simp: start_def Image_iff simp del: set_map)
qed

lemma blocked_node_in_cascade:
  "''b'' \<in> set (blocked_subtree demo_spec [''a'', ''b''])"
  by code_simp

text \<open>C33: In a valid outcome the subplots that a block pauses beyond the blocked ones are exactly
  the subplots that depend, directly or through others, on a subplot of the outcome that is blocked;
  so a subplot with no dependency path to a blocked one keeps running.  A block alone is the cause
  and is not in its own cascade.\<close>

theorem blocked_subtree_iff:
  assumes "validate_spec sp = Inr ()"
  shows "set (blocked_subtree sp blocked) - set blocked =
      {s. s \<notin> set blocked
        \<and> (\<exists>b \<in> set blocked. b \<in> set (node_ids (nodes sp)) \<and> (b, s) \<in> (dep_edges (nodes sp))\<^sup>+)}
    \<and> b \<notin> set (blocked_subtree sp [b])"
proof -
  have "acyclic (dep_edges (nodes sp))"
    using assms by (simp add: validate_iff spec_ok_def)
  then show ?thesis unfolding cascade_iff set_eq_iff by (auto simp: acyclic_def cascade_iff)
qed

theorem blocked_subtree_iff_witness:
  "set (blocked_subtree demo_spec [''b'', ''c'']) - {''b'', ''c''} = {''d''}
    \<and> ''b'' \<notin> set (blocked_subtree demo_spec [''b''])"
proof -
  have "set (blocked_subtree demo_spec [''b'', ''c'']) = {''d''}" by code_simp
  with blocked_subtree_iff [OF demo_spec_valid, of "[''b'', ''c'']" "''b''"] show ?thesis by simp
qed

end
