(* ===== verification/Outcome_Session.thy ===== *)
theory Outcome_Session
  imports Outcome_Edit_Laws
begin

text \<open>
  A session on an outcome: edits of its spec, operations on its store and approvals of its frontier,
  in any order and with any failures.  What an operation owes the dispatch gate is a locale; every
  edit and every operation of the store is an instance, and the sessions made of them dispatch only
  under a spec that was approved as it stands.
\<close>

section \<open>The contract of an operation\<close>

type_synonym outcome_state = "outcome_spec \<times> outcome_store"

text \<open>A valid spec, and no approval of a revision that is still to come.\<close>

definition session_ok :: "outcome_state \<Rightarrow> bool" where
  "session_ok = (\<lambda>(sp, st).
     validate_spec sp = Inr () \<and> list_all (\<lambda>k. k \<le> spec_revision sp) (approvals st))"

definition revised :: "outcome_spec \<Rightarrow> outcome_spec \<Rightarrow> bool" where
  "revised sp sp' \<longleftrightarrow>
     validate_spec sp' = Inr () \<and> spec_revision sp' = spec_revision sp + 1
     \<and> outcome_id sp' = outcome_id sp"

locale gated_operation =
  fixes op :: "'a \<Rightarrow> outcome_state \<Rightarrow> outcome_state"
  assumes store_kept: "store_later (snd s) (snd (op a s))"
    and same_or_revised: "validate_spec (fst s) = Inr () \<Longrightarrow> fst (op a s) = fst s \<or> revised (fst s) (fst (op a s))"
begin

lemma keeps_session_ok:
  assumes "session_ok s"
  shows "session_ok (op a s)"
  using assms store_kept [of s a] same_or_revised [of s a]
  by (fastforce simp: session_ok_def store_later_def revised_def list_all_iff split: prod.splits)

lemma gate_was_open:
  assumes "session_ok s" and "frontier_approved (snd (op a s)) (spec_revision (fst (op a s)))"
  shows "fst (op a s) = fst s \<and> frontier_approved (snd s) (spec_revision (fst s))"
  using assms store_kept [of s a] same_or_revised [of s a]
  by (auto simp: session_ok_def store_later_def revised_def frontier_approved_def list_all_iff split: prod.splits)

end

text \<open>An operation on the store alone.\<close>

locale store_operation =
  fixes act :: "'a \<Rightarrow> outcome_spec \<Rightarrow> 'b store_op"
  assumes act_keeps: "keeps (act a sp)"
begin

lemma act_later: "store_later st (snd (act a sp st))"
  using act_keeps by (simp add: keeps_def)

end

sublocale store_operation \<subseteq> on_store: gated_operation "\<lambda>a (sp, st). (sp, snd (act a sp st))"
  using act_keeps by unfold_locales (auto simp: keeps_def split: prod.splits)

section \<open>The operations\<close>

lemma edit_keeps: "store_later (snd s) (snd (snd (apply_edit e stamp s)))"
  by (metis apply_edit_later prod.collapse)

lemma edit_same_or_revised:
  assumes "validate_spec sp = Inr ()" and "apply_edit e stamp (sp, st) = (r, sp', st')"
  shows "sp' = sp \<or> revised sp sp'"
proof -
  have "distinct (node_ids (nodes sp))" using assms(1) by (simp add: validate_iff spec_ok_def)
  then have "atomic_edit sp r sp'" using assms(2) by (rule apply_edit_atomic)
  then show ?thesis by (auto simp: atomic_edit_def revised_def split: sum.splits)
qed

interpretation edits: gated_operation "\<lambda>(e, stamp) s. snd (apply_edit e stamp s)"
  using edit_same_or_revised
  by unfold_locales (auto simp: edit_keeps split: prod.splits, metis prod.collapse)

lemma keeps_barrier [keeping]: "keeps (barrier_satisfied rd n)"
  by (auto simp: barrier_satisfied_def Let_def intro!: keeping)

lemma keeps_write [keeping]: "keeps (write_completion_event ev)"
proof -
  have last: "keeps (\<lambda>st.
       let name = event_file (ev_subplot ev) (ev_attempt ev) in
       case dget (event_files st) name of
         None \<Rightarrow>
           (Inr Written, st\<lparr>event_files := dset name (Doc (event_to_dict ev)) (event_files st)\<rparr>)
       | Some Malformed \<Rightarrow> (Inl OutcomeStoreError, quarantine_file name st)
       | Some (Doc (JObj d)) \<Rightarrow>
           (if dget d ''idempotency_key'' = Some (JStr (ev_key ev)) then Inr Skipped
            else Inl OutcomeStoreError, st)
       | Some (Doc _) \<Rightarrow> (Inl OutcomeStoreError, st))"
    by (auto simp: keeps_def store_later_def quarantine_file_def Let_def
        split: option.splits file_content.splits json.splits)
  show ?thesis
    unfolding write_completion_event_def
    by (intro keeping) (auto intro: keeps_pure last)
qed

lemma keeps_harvest_nodes [keeping]: "keeps (harvest_nodes rd stamp already ns)"
proof (induction ns)
  case Nil
  then show ?case by (simp add: keeps_def)
next
  case (Cons n ns)
  have node: "keeps (harvest_node rd stamp already n)"
    by (auto simp: harvest_node_def Let_def
        intro!: keeping)
  have "harvest_nodes rd stamp already (n # ns) =
      st_bind (harvest_node rd stamp already n) (\<lambda>new.
      st_bind (harvest_nodes rd stamp already ns) (\<lambda>rest.
      st_lift (Inr (if new then subplot_id n # rest else rest))))"
    by (simp add: fun_eq_iff)
  then show ?case by (simp only:) (intro keeping node Cons.IH keeps_pure)
qed

lemma keeps_harvest [keeping]: "keeps (harvest rd stamp sp)"
  unfolding harvest_def by (intro keeping)

lemma keeps_ledger [keeping]: "keeps (append_ledger_once record)"
proof -
  have "keeps (\<lambda>st. (Inr True, append_ledger record st))"
    by (auto simp: keeps_def store_later_def append_ledger_def heal_torn_tail_def Let_def)
  then show ?thesis
    by (auto simp: append_ledger_once_def Let_def intro!: keeping)
qed

lemma keeps_leases [keeping]:
  "keeps (acquire_lease name holder ttl time)" "keeps (read_lease name)"
  by (auto simp: keeps_def store_later_def acquire_lease_def read_lease_def Let_def
      split: option.splits lock_content.splits sum.splits)

lemma keeps_release [keeping]: "keeps (release_lease name holder)"
  unfolding release_lease_def
  by (intro keeping)
    (auto simp: keeps_def store_later_def split: option.splits)

interpretation harvests: store_operation "\<lambda>(rd, stamp) sp. harvest rd stamp sp"
  by unfold_locales (auto simp: keeps_harvest split: prod.splits)

interpretation completions: store_operation "\<lambda>ev sp. write_completion_event ev"
  by unfold_locales (rule keeps_write)

interpretation ledger_records: store_operation "\<lambda>record sp. append_ledger_once record"
  by unfold_locales (rule keeps_ledger)

interpretation lease_claims: store_operation "\<lambda>(name, holder, ttl, time) sp. acquire_lease name holder ttl time"
  by unfold_locales (auto simp: keeps_leases split: prod.splits)

interpretation lease_releases: store_operation "\<lambda>(name, holder) sp. release_lease name holder"
  by unfold_locales (auto simp: keeps_release split: prod.splits)

interpretation status_views: store_operation "\<lambda>_ sp. outcome_status sp"
proof
  show "keeps (outcome_status sp)" for sp
    unfolding outcome_status_def derive_states_def terminal_state_map_def
    by (intro keeping)
qed

section \<open>Sessions\<close>

datatype session_call =
    EditSpec spec_edit string
  | Harvest readers string
  | RecordCompletion completion_event
  | RecordLine "json dict"
  | TakeLease string string int int
  | DropLease string string
  | ViewStatus
  | ApproveFrontier

fun session_step :: "session_call \<Rightarrow> outcome_state \<Rightarrow> outcome_state" where
  "session_step (EditSpec e stamp) s = snd (apply_edit e stamp s)"
| "session_step (Harvest rd stamp) (sp, st) = (sp, snd (harvest rd stamp sp st))"
| "session_step (RecordCompletion ev) (sp, st) = (sp, snd (write_completion_event ev st))"
| "session_step (RecordLine record) (sp, st) = (sp, snd (append_ledger_once record st))"
| "session_step (TakeLease name holder ttl time) (sp, st) = (sp, snd (acquire_lease name holder ttl time st))"
| "session_step (DropLease name holder) (sp, st) = (sp, snd (release_lease name holder st))"
| "session_step ViewStatus (sp, st) = (sp, snd (outcome_status sp st))"
| "session_step ApproveFrontier (sp, st) = (sp, snd (approve_frontier sp st))"

definition session_run :: "session_call list \<Rightarrow> outcome_state \<Rightarrow> outcome_state" where
  "session_run cs s = foldl (\<lambda>s c. session_step c s) s cs"

lemma session_run_simps [simp]:
  "session_run [] s = s"
  "session_run (cs @ [c]) s = session_step c (session_run cs s)"
  by (simp_all add: session_run_def)

lemmas store_calls_keep =
  harvests.act_later [where a = "(rd, stamp)" for rd stamp, simplified]
  completions.act_later ledger_records.act_later
  lease_claims.act_later [where a = "(name, holder, ttl, time)" for name holder ttl time, simplified]
  lease_releases.act_later [where a = "(name, holder)" for name holder, simplified]
  status_views.act_later

lemmas edit_call =
  edits.store_kept [where a = "(e, stamp)" for e stamp, simplified]
  edits.same_or_revised [where a = "(e, stamp)" for e stamp, simplified]

text \<open>Every call but an approval meets the contract.\<close>

interpretation calls: gated_operation "\<lambda>c. if c = ApproveFrontier then id else session_step c"
proof
  fix c s
  show "store_later (snd s) (snd ((if c = ApproveFrontier then id else session_step c) s))"
    using edit_call(1) [of s] by (cases c; cases s) (auto simp: store_calls_keep)
  show "fst ((if c = ApproveFrontier then id else session_step c) s) = fst s
      \<or> revised (fst s) (fst ((if c = ApproveFrontier then id else session_step c) s))"
    if "validate_spec (fst s) = Inr ()"
    using that edit_call(2) [of s] by (cases c; cases s) auto
qed

lemma session_step_ok:
  assumes "session_ok s"
  shows "session_ok (session_step c s)"
proof (cases "c = ApproveFrontier")
  case True
  then show ?thesis
    using assms by (cases s) (auto simp: approve_frontier_def session_ok_def list_all_iff)
next
  case False
  then show ?thesis using calls.keeps_session_ok [OF assms, of c] by simp
qed

lemma session_run_ok: "session_ok s \<Longrightarrow> session_ok (session_run cs s)"
  by (induction cs rule: rev_induct) (simp_all add: session_step_ok)

text \<open>C36: In any session on a valid outcome whose current revision is not approved at the start,
  with edits, harvests, completions, ledger records, leases, status views and approvals in any
  order and each of them failing or not, the spec stays valid, and when the dispatch gate is open
  at the end then some approval of the session was given to exactly the spec that is dispatched.\<close>

theorem dispatch_needs_approval:
  assumes "validate_spec sp = Inr ()" and "list_all (\<lambda>k. k < spec_revision sp) (approvals st)"
    and "session_run cs (sp, st) = (sp', st')"
  shows "validate_spec sp' = Inr ()
    \<and> (dispatch_gate st' sp' s \<longrightarrow>
        (\<exists>before after. cs = before @ ApproveFrontier # after
           \<and> fst (session_run before (sp, st)) = sp'))"
proof -
  have ok: "session_ok (session_run bs (sp, st))" for bs
    using assms(1,2) by (intro session_run_ok) (auto simp: session_ok_def list_all_iff)
  have "frontier_approved (snd (session_run cs (sp, st))) (spec_revision (fst (session_run cs (sp, st)))) \<longrightarrow>
    (\<exists>before after. cs = before @ ApproveFrontier # after
       \<and> fst (session_run before (sp, st)) = fst (session_run cs (sp, st)))"
  proof (induction cs rule: rev_induct)
    case Nil
    then show ?case using assms(2) by (auto simp: frontier_approved_def list_all_iff)
  next
    case (snoc c cs)
    show ?case
    proof (cases "c = ApproveFrontier")
      case True
      then show ?thesis
        by (intro impI exI [of _ cs] exI [of _ "[]"]) (cases "session_run cs (sp, st)", simp)
    next
      case False
      then show ?thesis
        using calls.gate_was_open [OF ok, of c cs] snoc.IH by (auto simp del: split_paired_Ex) (metis append_Cons append_assoc)
    qed
  qed
  with ok [of cs] assms(3) show ?thesis by (simp add: session_ok_def dispatch_gate_def)
qed

theorem dispatch_needs_approval_witness:
  "case session_run [EditSpec (AddDependency ''b'' ''c'') ''now'', ApproveFrontier, ViewStatus]
     (demo_spec, empty_store) of
     (sp', st') \<Rightarrow> dispatch_gate st' sp' ''b'' \<and> spec_revision sp' = 2 \<and> validate_spec sp' = Inr ()"
proof -
  define calls where "calls = [EditSpec (AddDependency ''b'' ''c'') ''now'', ApproveFrontier, ViewStatus]"
  obtain sp' st' where run: "session_run calls (demo_spec, empty_store) = (sp', st')" by fastforce
  have "case session_run [EditSpec (AddDependency ''b'' ''c'') ''now'', ApproveFrontier, ViewStatus]
     (demo_spec, empty_store) of (sp', st') \<Rightarrow> dispatch_gate st' sp' ''b'' \<and> spec_revision sp' = 2"
    by code_simp
  moreover have "list_all (\<lambda>k. k < spec_revision demo_spec) (approvals empty_store)"
    by (simp add: empty_store_def)
  from dispatch_needs_approval [OF demo_spec_valid this run]
  have "validate_spec sp' = Inr ()" by simp
  ultimately show ?thesis using run unfolding calls_def by simp
qed

end
