(* ===== verification/Outcome_Harvest.thy ===== *)
theory Outcome_Harvest
  imports Outcome_Live
begin

text \<open>
  What the event files of the cache guarantee: a file written for one attempt is never overwritten,
  a success stays a success, and a harvest on a cache that only this module writes returns, records
  each newly verified completion exactly once and never raises.
\<close>

section \<open>File names\<close>

lemma while_stops:
  assumes "list_all P xs" and "\<not> P y"
  shows "takeWhile P (xs @ y # ys) = xs" and "dropWhile P (xs @ y # ys) = y # ys"
  using assms by (induction xs) simp_all

lemma event_file_inject:
  "event_file s a = event_file s' a' \<longleftrightarrow> s = s' \<and> a = a'"
proof
  assume eq: "event_file s a = event_file s' a'"
  have digits: "list_all int_char (rev (int_text k))" for k
    using int_text_chars(1) [of k] by (simp add: list_all_iff)
  have stop: "\<not> int_char (CHR ''a'')" by (simp add: int_char_def is_digit_def)
  have tail: "takeWhile int_char (rev (t @ ''.a'' @ int_text k)) = rev (int_text k)"
    and front: "dropWhile int_char (rev (t @ ''.a'' @ int_text k)) = ''a.'' @ rev t" for t k
    using while_stops [OF digits [of k] stop] by simp_all
  from eq have "rev (s @ ''.a'' @ int_text a) = rev (s' @ ''.a'' @ int_text a')"
    by (simp add: event_file_def)
  then show "s = s' \<and> a = a'"
    using tail [of s a] tail [of s' a'] front [of s a] front [of s' a'] by (simp add: int_text_inject)
qed simp

lemma of_own_subplot: "of_subplot s (event_file s a)"
  by (simp add: of_subplot_def event_file_def ends_json_def)

lemma own_event_file: "is_event_file (event_file s a)"
  unfolding is_event_file_def list_ex_iff
  using of_own_subplot [of s a]
  by (intro bexI [of _ "length s"]) (simp_all add: event_file_def)

section \<open>The invariant of the event files\<close>

lemma event_round_trip: "event_to_dict ev = JObj d \<Longrightarrow> event_from_items d = Inr ev"
  by (auto simp: event_to_dict_def event_from_items_def jget_def py_int_def)

lemma event_to_dict_inject: "event_to_dict a = event_to_dict b \<longleftrightarrow> a = b"
  by (auto simp: event_to_dict_def intro: completion_event.equality)

definition stored_event :: "outcome_store \<Rightarrow> completion_event \<Rightarrow> bool" where
  "stored_event st ev \<longleftrightarrow>
     dget (event_files st) (event_file (ev_subplot ev) (ev_attempt ev)) = Some (Doc (event_to_dict ev))"

definition harvest_key :: "string \<Rightarrow> string \<Rightarrow> string" where
  "harvest_key s contract = ''harvest:'' @ s @ '':'' @ contract"

definition contracts :: "string list" where
  "contracts = [contract_code, contract_noncode, contract_child]"

text \<open>
  Every readable file holds the valid event its name says, and a key in the name space of the
  harvest belongs to a success that the harvest recorded.
\<close>

definition events_ok :: "outcome_store \<Rightarrow> bool" where
  "events_ok st \<longleftrightarrow>
     wf_dict (event_files st)
     \<and> (\<forall>name c. dget (event_files st) name = Some c \<longrightarrow> c = Malformed
          \<or> (\<exists>ev. c = Doc (event_to_dict ev) \<and> validate_event ev = Inr ()
                \<and> name = event_file (ev_subplot ev) (ev_attempt ev)))
     \<and> (\<forall>ev. stored_event st ev \<and> take 8 (ev_key ev) = ''harvest:'' \<longrightarrow>
          is_success ev \<and> (\<exists>c \<in> set contracts. ev_key ev = harvest_key (ev_subplot ev) c))"

lemma empty_store_ok: "events_ok empty_store"
  by (simp add: events_ok_def empty_store_def stored_event_def)

lemma quarantine_ok:
  assumes "events_ok st" and "dget (event_files st) name = Some Malformed"
  shows "events_ok (quarantine_file name st)"
    and "stored_event (quarantine_file name st) ev = stored_event st ev"
  using assms by (auto simp: events_ok_def quarantine_file_def stored_event_def)

text \<open>A read returns the stored events of the names it visits and leaves them in place.\<close>

definition read_of ::
    "outcome_store \<Rightarrow> string set \<Rightarrow> completion_event list \<Rightarrow> outcome_store \<Rightarrow> bool" where
  "read_of st names evs st' \<longleftrightarrow>
     events_ok st' \<and> (\<forall>ev. stored_event st' ev = stored_event st ev)
     \<and> set evs = {ev. stored_event st ev \<and> event_file (ev_subplot ev) (ev_attempt ev) \<in> names}
     \<and> (\<forall>name \<in> names. dget (event_files st') name \<noteq> Some Malformed)
     \<and> (\<forall>name. dget (event_files st') name = None
          \<or> dget (event_files st') name = dget (event_files st) name)"

lemma file_cases:
  assumes "events_ok st"
  obtains "dget (event_files st) name = None" | "dget (event_files st) name = Some Malformed"
    | ev where "stored_event st ev" and "name = event_file (ev_subplot ev) (ev_attempt ev)"
  using assms unfolding events_ok_def stored_event_def by (metis not_Some_eq)

lemma read_events_ok:
  "events_ok st \<Longrightarrow> \<exists>evs st'. read_events names st = (Inr evs, st') \<and> read_of st (set names) evs st'"
proof (induction names arbitrary: st)
  case (Cons name names)
  show ?case
    using Cons.prems
  proof (cases rule: file_cases [of st name])
    case 1
    from Cons.IH [OF Cons.prems] obtain evs st'
      where "read_events names st = (Inr evs, st')" and "read_of st (set names) evs st'" by blast
    moreover have "\<not> (stored_event st x \<and> event_file (ev_subplot x) (ev_attempt x) = name)" for x
      using 1 by (auto simp: stored_event_def)
    ultimately have "read_of st (set (name # names)) evs st'"
      using 1 unfolding read_of_def by (auto, metis option.distinct(1))
    with 1 \<open>read_events names st = (Inr evs, st')\<close> show ?thesis by simp
  next
    case 2
    from Cons.IH [OF quarantine_ok(1) [OF Cons.prems 2]] obtain evs st'
      where "read_events names (quarantine_file name st) = (Inr evs, st')"
        and "read_of (quarantine_file name st) (set names) evs st'" by blast
    moreover have "\<not> (stored_event st x \<and> event_file (ev_subplot x) (ev_attempt x) = name)" for x
      using 2 by (auto simp: stored_event_def)
    moreover have "dget (event_files (quarantine_file name st)) n =
        (if n = name then None else dget (event_files st) n)" for n
      by (simp add: quarantine_file_def)
    ultimately have "read_of st (set (name # names)) evs st'"
      unfolding read_of_def quarantine_ok(2) [OF Cons.prems 2]
      by (auto, (metis option.distinct(1))+)
    with 2 \<open>read_events names (quarantine_file name st) = (Inr evs, st')\<close> show ?thesis by simp
  next
    case (3 ev)
    from Cons.IH [OF Cons.prems] obtain evs st'
      where run: "read_events names st = (Inr evs, st')" and of: "read_of st (set names) evs st'" by blast
    obtain d where d: "event_to_dict ev = JObj d" by (simp add: event_to_dict_def)
    have "read_events (name # names) st = (Inr (ev # evs), st')"
      using 3 run event_round_trip [OF d] by (simp add: stored_event_def d)
    moreover have "stored_event st x \<and> event_file (ev_subplot x) (ev_attempt x) = name \<longleftrightarrow> x = ev" for x
      using 3 by (auto simp: stored_event_def event_to_dict_inject)
    moreover have "dget (event_files st) name = Some (Doc (event_to_dict ev))"
      using 3 by (simp add: stored_event_def)
    ultimately have "read_of st (set (name # names)) (ev # evs) st'"
      using of 3 unfolding read_of_def
      by (auto, metis file_content.distinct(1) option.distinct(1) option.inject)
    with \<open>read_events (name # names) st = (Inr (ev # evs), st')\<close> show ?thesis by blast
  qed
qed (simp add: read_of_def)

lemma read_completion_events_ok:
  assumes "events_ok st" and "safe_name s = Inr s"
  shows "\<exists>evs st'. read_completion_events s st = (Inr evs, st')
    \<and> read_of st {name. of_subplot s name} evs st'"
proof -
  obtain evs st' where run: "read_events (sort (filter (of_subplot s) (dkeys (event_files st)))) st = (Inr evs, st')"
    and of: "read_of st (set (sort (filter (of_subplot s) (dkeys (event_files st))))) evs st'"
    using read_events_ok [OF assms(1)] by blast
  have keys: "dget (event_files st) name = None" if "name \<notin> set (dkeys (event_files st))" for name
    using that by (simp add: map_of_eq_None_iff)
  have "read_of st {name. of_subplot s name} (sort_key ev_attempt evs) st'"
    using of keys unfolding read_of_def stored_event_def
    by (auto simp del: set_map) (metis option.distinct(1))+
  with run assms(2) show ?thesis by (simp add: read_completion_events_def)
qed

definition successes :: "outcome_store \<Rightarrow> string set" where
  "successes st = {ev_subplot ev |ev. stored_event st ev \<and> is_success ev}"

lemma successes_cong: "\<forall>ev. stored_event st' ev = stored_event st ev \<Longrightarrow> successes st' = successes st"
  by (simp add: successes_def)

lemma completed_subplots_ok:
  assumes "events_ok st"
  shows "\<exists>ss st'. completed_subplots True st = (Inr ss, st') \<and> set ss = successes st \<and> events_ok st'
    \<and> (\<forall>ev. stored_event st' ev = stored_event st ev)"
proof -
  obtain evs st' where run: "read_events (sort (filter is_event_file (dkeys (event_files st)))) st = (Inr evs, st')"
    and of: "read_of st (set (sort (filter is_event_file (dkeys (event_files st))))) evs st'"
    using read_events_ok [OF assms] by blast
  have "event_file (ev_subplot ev) (ev_attempt ev) \<in> set (dkeys (event_files st))"
    if "stored_event st ev" for ev
    using that by (auto simp: stored_event_def dkeys_lookup simp del: set_map)
  then have all: "set evs = {ev. stored_event st ev}"
    using of own_event_file unfolding read_of_def by auto
  have after: "events_ok st'" "\<forall>ev. stored_event st' ev = stored_event st ev"
    using of by (simp_all add: read_of_def)
  have "completed_subplots True st = (Inr (remdups (map ev_subplot (filter is_success evs))), st')"
    using run by (simp add: completed_subplots_def)
  moreover have "set (remdups (map ev_subplot (filter is_success evs))) = successes st"
    using all by (auto simp: successes_def)
  ultimately show ?thesis using after by blast
qed

text \<open>A write into a free slot under a fresh key stores the event and nothing else.\<close>

lemma write_fresh:
  assumes ok: "events_ok st" and valid: "validate_event ev = Inr ()"
    and key: "take 8 (ev_key ev) = ''harvest:'' \<Longrightarrow>
      is_success ev \<and> (\<exists>c \<in> set contracts. ev_key ev = harvest_key (ev_subplot ev) c)"
    and fresh: "\<And>x. stored_event st x \<Longrightarrow> of_subplot (ev_subplot ev) (event_file (ev_subplot x) (ev_attempt x)) \<Longrightarrow>
      ev_key x \<noteq> ev_key ev \<and> ev_attempt x \<noteq> ev_attempt ev"
  shows "\<exists>st'. write_completion_event ev st = (Inr Written, st') \<and> events_ok st'
    \<and> (\<forall>x. stored_event st' x \<longleftrightarrow> stored_event st x \<or> x = ev)"
proof -
  define name where "name = event_file (ev_subplot ev) (ev_attempt ev)"
  have safe: "safe_name (ev_subplot ev) = Inr (ev_subplot ev)"
    using valid by (auto simp: validate_event_def safe_name_def split: if_splits)
  obtain evs st1 where run: "read_completion_events (ev_subplot ev) st = (Inr evs, st1)"
    and of: "read_of st {name. of_subplot (ev_subplot ev) name} evs st1"
    using read_completion_events_ok [OF ok safe] by blast
  have ok1: "events_ok st1" and same: "\<And>x. stored_event st1 x = stored_event st x"
    and evs: "\<And>x. x \<in> set evs \<Longrightarrow> ev_key x \<noteq> ev_key ev"
    and clean: "dget (event_files st1) name \<noteq> Some Malformed"
    using of fresh by (auto simp: read_of_def name_def of_own_subplot)
  have free: "dget (event_files st1) name = None"
  proof (cases rule: file_cases [OF ok1, of name])
    case (3 x)
    then show ?thesis using fresh [of x] by (simp add: same name_def event_file_inject of_own_subplot)
  qed (use clean in simp_all)
  define st' where "st' = st1\<lparr>event_files := dset name (Doc (event_to_dict ev)) (event_files st1)\<rparr>"
  have "write_completion_event ev st = (Inr Written, st')"
    using valid run evs free
    by (auto simp: write_completion_event_def name_def [symmetric] st'_def list_ex_iff Let_def)
  moreover have stored: "stored_event st' x \<longleftrightarrow> stored_event st x \<or> x = ev" for x
    using free same [of x]
    by (auto simp: stored_event_def st'_def name_def event_to_dict_inject event_file_inject)
  moreover have "events_ok st'"
    unfolding events_ok_def
  proof (intro conjI allI impI)
    show "wf_dict (event_files st')" using ok1 by (auto simp: st'_def events_ok_def)
  next
    fix n c assume "dget (event_files st') n = Some c"
    then show "c = Malformed \<or> (\<exists>ev. c = Doc (event_to_dict ev) \<and> validate_event ev = Inr ()
        \<and> n = event_file (ev_subplot ev) (ev_attempt ev))"
      using ok1 valid unfolding events_ok_def
      by (cases "n = name") (auto simp: st'_def name_def)
  next
    fix x assume x: "stored_event st' x \<and> take 8 (ev_key x) = ''harvest:''"
    then show "is_success x" and "\<exists>c \<in> set contracts. ev_key x = harvest_key (ev_subplot x) c"
      using ok key stored [of x] unfolding events_ok_def by blast+
  qed
  ultimately show ?thesis by blast
qed

section \<open>The harvest\<close>

text \<open>A contract that is verified outside the cache: the child outcome, the pull request or the
  tracking issue.\<close>

definition external :: "node \<Rightarrow> bool" where
  "external n \<longleftrightarrow>
     is_outcome n \<or> node_kind n = ''code'' \<or> field_text (github n) ''issue'' \<noteq> []"

lemma barrier_external:
  assumes "external n"
  shows "\<exists>v. vd_contract v \<in> set contracts \<and> (\<forall>st. barrier_satisfied rd n st = (Inr v, st))"
  using assms by (auto simp: external_def barrier_satisfied_def Let_def contracts_def)

lemma barrier_ok:
  assumes "events_ok st" and "safe_name (subplot_id n) = Inr (subplot_id n)"
  shows "\<exists>v st'. barrier_satisfied rd n st = (Inr v, st') \<and> vd_contract v \<in> set contracts \<and> events_ok st'
    \<and> (\<forall>ev. stored_event st' ev = stored_event st ev)"
proof (cases "external n")
  case True
  from barrier_external [OF this, of rd] assms(1) show ?thesis by blast
next
  case False
  from read_completion_events_ok [OF assms] obtain evs st'
    where "read_completion_events (subplot_id n) st = (Inr evs, st')"
      and "events_ok st'" and "\<forall>ev. stored_event st' ev = stored_event st ev"
    by (auto simp: read_of_def)
  with False show ?thesis by (simp add: external_def barrier_satisfied_def Let_def contracts_def)
qed

definition plain_id :: "string \<Rightarrow> bool" where
  "plain_id s \<longleftrightarrow> is_slug s \<and> s \<noteq> ''.'' \<and> s \<noteq> ''..''"

lemma plain_id_safe: "plain_id s \<Longrightarrow> safe_name s = Inr s"
  by (auto simp: plain_id_def is_slug_def safe_name_def list_all_iff slug_char_def Let_def)

lemma contracts_by_last:
  "list_all (\<lambda>c. c \<noteq> [] \<and> list_all (\<lambda>d. last c = last d \<longrightarrow> c = d) contracts) contracts"
  by code_simp

lemma harvest_key_inject:
  assumes "harvest_key s c = harvest_key t d" and "c \<in> set contracts" and "d \<in> set contracts"
  shows "s = t"
proof -
  have "c \<noteq> []" "d \<noteq> []" and same: "last c = last d \<Longrightarrow> c = d"
    using contracts_by_last assms(2,3) unfolding list_all_iff by blast+
  moreover have "last (harvest_key s c) = last (harvest_key t d)" using assms(1) by simp
  ultimately have "last c = last d" by (simp add: harvest_key_def)
  with assms(1) same show ?thesis by (simp add: harvest_key_def)
qed

lemma next_attempt_above:
  assumes "ev \<in> set evs"
  shows "ev_attempt ev < next_attempt evs"
proof -
  have "ev_attempt ev \<le> Max (set (map ev_attempt evs))" using assms by (intro Max_ge) auto
  with assms show ?thesis by (auto simp: next_attempt_def)
qed

lemma next_attempt_pos:
  assumes "\<And>ev. ev \<in> set evs \<Longrightarrow> 1 \<le> ev_attempt ev"
  shows "1 \<le> next_attempt evs"
proof (cases evs)
  case (Cons ev evs')
  then show ?thesis using assms [of ev] next_attempt_above [of ev evs] by simp
qed (simp add: next_attempt_def)

lemma stored_valid: "events_ok st \<Longrightarrow> stored_event st ev \<Longrightarrow> validate_event ev = Inr ()"
  unfolding events_ok_def stored_event_def
  by (metis event_to_dict_inject file_content.distinct(1) file_content.inject)

lemma valid_attempt: "validate_event ev = Inr () \<Longrightarrow> 1 \<le> ev_attempt ev"
  by (auto simp: validate_event_def split: if_splits)

text \<open>The slot the harvest takes is free and its key is new.\<close>

lemma harvest_event_fresh:
  assumes ok: "events_ok st" and read: "read_of st {name. of_subplot s name} evs st'"
    and contract: "vd_contract v \<in> set contracts" and new: "s \<notin> successes st"
    and x: "stored_event st x" "of_subplot s (event_file (ev_subplot x) (ev_attempt x))"
  shows "ev_key x \<noteq> ev_key (harvest_event rd stamp s v evs)
    \<and> ev_attempt x \<noteq> ev_attempt (harvest_event rd stamp s v evs)"
proof
  show "ev_key x \<noteq> ev_key (harvest_event rd stamp s v evs)"
  proof
    assume "ev_key x = ev_key (harvest_event rd stamp s v evs)"
    then have key: "ev_key x = harvest_key s (vd_contract v)"
      by (simp add: harvest_event_def harvest_key_def)
    then have "take 8 (ev_key x) = ''harvest:''" by (simp add: harvest_key_def)
    with ok x(1) obtain c where "is_success x" and "c \<in> set contracts"
      and "ev_key x = harvest_key (ev_subplot x) c"
      unfolding events_ok_def by blast
    with key contract have "ev_subplot x = s" by (metis harvest_key_inject)
    with x(1) \<open>is_success x\<close> new show False by (auto simp: successes_def)
  qed
next
  have "x \<in> set evs" using x read by (simp add: read_of_def)
  then show "ev_attempt x \<noteq> ev_attempt (harvest_event rd stamp s v evs)"
    using next_attempt_above [of x evs] by (simp add: harvest_event_def)
qed

lemma harvest_write:
  assumes ok: "events_ok st" and read: "read_of st {name. of_subplot s name} evs st'"
    and safe: "safe_name s = Inr s"
    and contract: "vd_contract v \<in> set contracts" and new: "s \<notin> successes st"
  shows "\<exists>st''. write_completion_event (harvest_event rd stamp s v evs) st' = (Inr Written, st'')
    \<and> events_ok st'' \<and> (\<forall>ev. stored_event st ev \<longrightarrow> stored_event st'' ev)
    \<and> successes st'' = successes st \<union> {s}"
proof -
  define ev where "ev = harvest_event rd stamp s v evs"
  have ok': "events_ok st'" and same: "\<And>x. stored_event st' x = stored_event st x"
    using read by (simp_all add: read_of_def)
  have ev: "ev_subplot ev = s" "is_success ev" "ev_key ev = harvest_key s (vd_contract v)"
    by (simp_all add: ev_def harvest_event_def is_success_def success_states_def harvest_key_def)
  have "1 \<le> ev_attempt y" if "y \<in> set evs" for y
    using that read by (auto simp: read_of_def intro: valid_attempt stored_valid [OF ok])
  then have "1 \<le> next_attempt evs" by (rule next_attempt_pos)
  then have valid: "validate_event ev = Inr ()"
    using safe by (simp add: validate_event_def ev_def harvest_event_def terminal_states_def)
  have own: "is_success ev \<and> (\<exists>c \<in> set contracts. ev_key ev = harvest_key (ev_subplot ev) c)"
    using ev contract by auto
  have free: "ev_key x \<noteq> ev_key ev \<and> ev_attempt x \<noteq> ev_attempt ev"
    if "stored_event st' x" and "of_subplot (ev_subplot ev) (event_file (ev_subplot x) (ev_attempt x))" for x
    using harvest_event_fresh [OF ok read contract new, of x] that(1) that(2) [unfolded ev(1)]
    unfolding same ev_def by blast
  obtain st'' where "write_completion_event ev st' = (Inr Written, st'')" and "events_ok st''"
    and stored: "\<And>x. stored_event st'' x \<longleftrightarrow> stored_event st' x \<or> x = ev"
    using write_fresh [OF ok' valid own free] by blast
  moreover have "successes st'' = successes st \<union> {s}"
    using ev by (auto simp: successes_def stored same)
  ultimately show ?thesis by (auto simp: ev_def same)
qed

definition verified_outside :: "readers \<Rightarrow> node \<Rightarrow> bool" where
  "verified_outside rd n \<longleftrightarrow>
     (case fst (barrier_satisfied rd n empty_store) of Inr v \<Rightarrow> vd_satisfied v | Inl _ \<Rightarrow> False)"

definition harvested_to :: "outcome_store \<Rightarrow> string set \<Rightarrow> outcome_store \<Rightarrow> bool" where
  "harvested_to st new st' \<longleftrightarrow>
     events_ok st' \<and> (\<forall>ev. stored_event st ev \<longrightarrow> stored_event st' ev)
     \<and> successes st' = successes st \<union> new"

lemma harvest_node_ok:
  assumes ok: "events_ok st" and id: "plain_id (subplot_id n)"
    and new: "subplot_id n \<notin> set already \<Longrightarrow> subplot_id n \<notin> successes st"
  shows "\<exists>b st'. harvest_node rd stamp already n st = (Inr b, st')
    \<and> harvested_to st (if b then {subplot_id n} else {}) st'
    \<and> (b \<longrightarrow> subplot_id n \<notin> set already)
    \<and> (external n \<longrightarrow> (b \<longleftrightarrow> subplot_id n \<notin> set already \<and> verified_outside rd n))"
proof (cases "subplot_id n \<in> set already")
  case True
  then show ?thesis
    using ok by (intro exI [of _ False] exI [of _ st]) (simp add: harvest_node_def harvested_to_def)
next
  case False
  define s where "s = subplot_id n"
  have safe: "safe_name s = Inr s" using id by (simp add: s_def plain_id_safe)
  obtain v st1 where bar: "barrier_satisfied rd n st = (Inr v, st1)" and ok1: "events_ok st1"
    and contract: "vd_contract v \<in> set contracts"
    and same1: "\<And>ev. stored_event st1 ev = stored_event st ev"
    using barrier_ok [OF ok] safe unfolding s_def by blast
  have succ1: "successes st1 = successes st" using same1 by (simp add: successes_def)
  have ext: "vd_satisfied v \<longleftrightarrow> verified_outside rd n" if "external n"
    using barrier_external [OF that, of rd] bar by (auto simp: verified_outside_def)
  show ?thesis
  proof (cases "vd_satisfied v")
    case no: False
    have "harvest_node rd stamp already n st = (Inr False, st1)"
      using False bar no by (simp add: harvest_node_def Let_def)
    then show ?thesis
      using ok1 same1 succ1 False ext no
      by (intro exI [of _ False] exI [of _ st1]) (simp add: harvested_to_def)
  next
    case yes: True
    obtain evs st2 where read: "read_completion_events s st1 = (Inr evs, st2)"
      and of: "read_of st1 {name. of_subplot s name} evs st2"
      using read_completion_events_ok [OF ok1 safe] by blast
    obtain st3 where "write_completion_event (harvest_event rd stamp s v evs) st2 = (Inr Written, st3)"
      and to: "harvested_to st1 {s} st3"
      using harvest_write [OF ok1 of safe contract] new False succ1
      unfolding harvested_to_def s_def by blast
    then have "harvest_node rd stamp already n st = (Inr True, st3)"
      using False bar yes read by (simp add: harvest_node_def s_def Let_def)
    moreover have "harvested_to st {s} st3" using to same1 succ1 by (simp add: harvested_to_def)
    ultimately show ?thesis
      using False ext yes by (intro exI [of _ True] exI [of _ st3]) (simp add: s_def)
  qed
qed

lemma harvest_nodes_ok:
  assumes "events_ok st" and "\<forall>n \<in> set ns. plain_id (subplot_id n)" and "distinct (node_ids ns)"
    and "set (node_ids ns) \<inter> successes st \<subseteq> set already"
  shows "\<exists>hs st'. harvest_nodes rd stamp already ns st = (Inr hs, st')
    \<and> harvested_to st (set hs) st' \<and> distinct hs \<and> set hs \<subseteq> set (node_ids ns) - set already
    \<and> (\<forall>n \<in> set ns. external n \<longrightarrow>
         (subplot_id n \<in> set hs \<longleftrightarrow> subplot_id n \<notin> set already \<and> verified_outside rd n))"
  using assms
proof (induction ns arbitrary: st)
  case Nil
  then show ?case by (simp add: harvested_to_def)
next
  case (Cons n ns)
  from harvest_node_ok [of st n already rd stamp] Cons.prems obtain b st1
    where node: "harvest_node rd stamp already n st = (Inr b, st1)"
      and to1: "harvested_to st (if b then {subplot_id n} else {}) st1"
      and b: "b \<longrightarrow> subplot_id n \<notin> set already"
      and ext: "external n \<longrightarrow> (b \<longleftrightarrow> subplot_id n \<notin> set already \<and> verified_outside rd n)"
    by auto
  from to1 have "events_ok st1" and "set (node_ids ns) \<inter> successes st1 \<subseteq> set already"
    using Cons.prems(3,4) by (auto simp: harvested_to_def split: if_splits)
  with Cons.IH [of st1] Cons.prems(2,3) obtain hs st2
    where rest: "harvest_nodes rd stamp already ns st1 = (Inr hs, st2)"
      and to2: "harvested_to st1 (set hs) st2" and "distinct hs"
      and sub: "set hs \<subseteq> set (node_ids ns) - set already"
      and exts: "\<forall>n \<in> set ns. external n \<longrightarrow>
         (subplot_id n \<in> set hs \<longleftrightarrow> subplot_id n \<notin> set already \<and> verified_outside rd n)"
    by auto
  define hs' where "hs' = (if b then subplot_id n # hs else hs)"
  have "harvest_nodes rd stamp already (n # ns) st = (Inr hs', st2)"
    using node rest by (simp add: hs'_def)
  moreover have "harvested_to st (set hs') st2"
    using to1 to2 by (auto simp: harvested_to_def hs'_def split: if_splits)
  moreover have fresh: "subplot_id n \<notin> set hs" using sub Cons.prems(3) by auto
  moreover have "distinct hs'" "set hs' \<subseteq> set (node_ids (n # ns)) - set already"
    using fresh \<open>distinct hs\<close> sub b by (auto simp: hs'_def)
  moreover have "subplot_id m \<in> set hs' \<longleftrightarrow> subplot_id m \<notin> set already \<and> verified_outside rd m"
    if "m \<in> set (n # ns)" and "external m" for m
  proof (cases "m = n")
    case True
    then show ?thesis using ext that fresh by (simp add: hs'_def)
  next
    case False
    with that have "m \<in> set ns" by simp
    then have "subplot_id m \<noteq> subplot_id n" using Cons.prems(3) by (auto simp: image_iff)
    then show ?thesis using exts that(2) \<open>m \<in> set ns\<close> by (simp add: hs'_def)
  qed
  ultimately show ?case by blast
qed

text \<open>C34: A harvest of a valid outcome whose subplots have plain identifiers over a store of
  well-formed completion events succeeds. It appends a success event, at least one, for every subplot it
  returns and touches no event that was there, so that afterwards the completed subplots are those
  of before and the harvested ones; nothing completed is harvested again; and a subplot that is
  verified outside the store (a child outcome, a pull request, an issue) is harvested exactly when
  it was open and its reader confirms it.\<close>

theorem harvest_records:
  assumes "validate_spec sp = Inr ()" and "\<forall>n \<in> set (nodes sp). plain_id (subplot_id n)"
    and "events_ok st"
  shows "\<exists>before hs st' after.
    fst (completed_subplots True st) = Inr before \<and> harvest rd stamp sp st = (Inr hs, st')
    \<and> fst (completed_subplots True st') = Inr after \<and> set after = set before \<union> set hs
    \<and> events_ok st' \<and> (\<forall>ev. stored_event st ev \<longrightarrow> stored_event st' ev)
    \<and> distinct hs \<and> set hs \<subseteq> set (node_ids (nodes sp)) - set before
    \<and> (\<forall>n \<in> set (nodes sp). external n \<longrightarrow>
         (subplot_id n \<in> set hs \<longleftrightarrow> subplot_id n \<notin> set before \<and> verified_outside rd n))"
proof -
  obtain before st1 where run1: "completed_subplots True st = (Inr before, st1)"
    and before: "set before = successes st" and ok1: "events_ok st1"
    and same: "\<forall>ev. stored_event st1 ev = stored_event st ev"
    using completed_subplots_ok [OF assms(3)] by blast
  note succ = successes_cong [OF same]
  have "distinct (node_ids (nodes sp))" using assms(1) by (simp add: validate_iff spec_ok_def)
  then obtain hs st2 where run2: "harvest_nodes rd stamp before (nodes sp) st1 = (Inr hs, st2)"
    and to: "harvested_to st1 (set hs) st2"
    and hs: "distinct hs" "set hs \<subseteq> set (node_ids (nodes sp)) - set before"
      "\<forall>n \<in> set (nodes sp). external n \<longrightarrow>
         (subplot_id n \<in> set hs \<longleftrightarrow> subplot_id n \<notin> set before \<and> verified_outside rd n)"
    using harvest_nodes_ok [OF ok1 assms(2), of before rd stamp] before succ by blast
  obtain after where "fst (completed_subplots True st2) = Inr after" and "set after = successes st2"
    using completed_subplots_ok [of st2] to by (auto simp: harvested_to_def)
  moreover have "harvest rd stamp sp st = (Inr hs, st2)" using run1 run2 by (simp add: harvest_def)
  moreover have "events_ok st2" "\<forall>ev. stored_event st ev \<longrightarrow> stored_event st2 ev"
      "successes st2 = successes st \<union> set hs"
    using to same succ by (simp_all add: harvested_to_def)
  ultimately show ?thesis using run1 before hs by (intro exI [of _ before] exI [of _ hs] exI [of _ st2]
      exI [of _ after] conjI) simp_all
qed

text \<open>The child outcome of the demonstration is done: its subplot is harvested, the code leaves
  without a pull request are not.\<close>

definition demo_readers :: readers where
  "demo_readers = \<lparr>rd_gh = (\<lambda>_ _. None), rd_child = Some (\<lambda>_. ''done''), rd_outcome = None,
     rd_manifest = (\<lambda>_. False)\<rparr>"

theorem harvest_records_witness:
  "\<exists>hs st'. harvest demo_readers ''now'' demo_spec empty_store = (Inr hs, st') \<and> events_ok st'
    \<and> ''a'' \<in> set hs \<and> ''b'' \<notin> set hs"
proof -
  have "\<forall>n \<in> set (nodes demo_spec). plain_id (subplot_id n)"
    by (simp add: demo_spec_def demo_node_def plain_id_def is_slug_def slug_char_def)
  from harvest_records [OF demo_spec_valid this empty_store_ok, of demo_readers "''now''"]
  obtain before hs st' where "fst (completed_subplots True empty_store) = Inr before"
    and run: "harvest demo_readers ''now'' demo_spec empty_store = (Inr hs, st')" and "events_ok st'"
    and ext: "\<forall>n \<in> set (nodes demo_spec). external n \<longrightarrow>
         (subplot_id n \<in> set hs \<longleftrightarrow> subplot_id n \<notin> set before \<and> verified_outside demo_readers n)"
    by blast
  then have "before = []"
    by (simp add: completed_subplots_def empty_store_def)
  with ext have "''a'' \<in> set hs" and "''b'' \<notin> set hs"
    by (simp_all add: demo_spec_def demo_node_def external_def is_outcome_def verified_outside_def
        barrier_satisfied_def demo_readers_def success_states_def field_text_def Let_def)
  with run \<open>events_ok st'\<close> show ?thesis by blast
qed

section \<open>Where names collide\<close>

text \<open>
  The pattern of one subplot also matches the files of another whose identifier extends it by a
  dot and a text that starts with an a: the completion of \<open>x.alpha\<close> is read as one of \<open>x\<close>,
  and a canonical one closes an untracked non-code subplot \<open>x\<close> that never completed.
\<close>

definition alias_event :: completion_event where
  "alias_event = \<lparr>ev_subplot = ''x.alpha'', ev_state = ''done'', ev_key = ''k'', ev_attempt = 1,
     ev_at = [], ev_payload = [(''canonical'', JBool True)]\<rparr>"

definition alias_node :: node where
  "alias_node = (demo_node ''x'' [])\<lparr>node_kind := ''non-code''\<rparr>"

lemma completion_of_another_subplot:
  "case write_completion_event alias_event empty_store of
     (Inr w, st) \<Rightarrow> w = Written
       \<and> fst (read_completion_events ''x'' st) = Inr [alias_event]
       \<and> (case fst (barrier_satisfied demo_readers alias_node st) of
            Inr v \<Rightarrow> vd_satisfied v | Inl _ \<Rightarrow> False)
   | _ \<Rightarrow> False"
  by code_simp

text \<open>
  The slug rule of the spec admits the identifiers \<open>.\<close> and \<open>..\<close>, which every file operation of
  the store refuses: the spec is valid and its harvest raises.
\<close>

definition dotted_spec :: outcome_spec where
  "dotted_spec = demo_spec\<lparr>nodes := [(demo_node ''..'' [])\<lparr>child_spec_ref := ''other''\<rparr>]\<rparr>"

lemma dotted_spec_wedges:
  "validate_spec dotted_spec = Inr ()
    \<and> fst (harvest demo_readers ''now'' dotted_spec empty_store) = Inl OutcomeStoreError"
  by code_simp

end
