(* ===== verification/Outcome_Merge.thy ===== *)
theory Outcome_Merge
  imports Outcome_Session Outcome_Harvest
begin

text \<open>
  The merge queue of an outcome, \<open>saga/scripts/outcome_merge.py\<close>.  GitHub is a world of its own
  that every operation of the queue reads or changes; the operations are arguments.  The squash
  calls made are kept with the world, each with the merge state that was read before it.
\<close>

section \<open>The world of the queue\<close>

record 'g merge_ops =
  mo_pr_state :: "string \<Rightarrow> 'g \<Rightarrow> string \<times> 'g"
  mo_base_oid :: "string \<Rightarrow> 'g \<Rightarrow> string \<times> 'g"
  mo_merge_state :: "string \<Rightarrow> 'g \<Rightarrow> string \<times> 'g"
  mo_update_branch :: "string \<Rightarrow> 'g \<Rightarrow> bool \<times> 'g"
  mo_squash_merge :: "string \<Rightarrow> 'g \<Rightarrow> string \<times> 'g"
  mo_branch_exists :: "string \<Rightarrow> 'g \<Rightarrow> bool \<times> 'g"

record 'g merge_world =
  mw_world :: 'g
  mw_squashes :: "(string \<times> string) list"

definition ask :: "(string \<Rightarrow> 'g \<Rightarrow> 'a \<times> 'g) \<Rightarrow> string \<Rightarrow> 'g merge_world \<Rightarrow> 'a \<times> 'g merge_world" where
  "ask f ref w = (case f ref (mw_world w) of (x, g) \<Rightarrow> (x, w\<lparr>mw_world := g\<rparr>))"

definition squash ::
    "'g merge_ops \<Rightarrow> string \<Rightarrow> string \<Rightarrow> string \<Rightarrow> 'g merge_world \<Rightarrow> string \<times> 'g merge_world" where
  "squash ops s ms pr w =
     ask (mo_squash_merge ops) pr (w\<lparr>mw_squashes := mw_squashes w @ [(s, ms)]\<rparr>)"

text \<open>The reasons of the source, whose wording is an argument where it is stored.\<close>

datatype merge_reason =
    NoPr
  | MergedOutOfBand
  | ClosedUnmerged
  | BranchDeleted
  | OperatorMerges
  | MergeConflict
  | ReadinessUnknown
  | GatesNotGreen
  | BaseUnreadable
  | SquashMerged
  | BaseChurned int

record merge_outcome =
  mr_subplot :: string
  mr_state :: string
  mr_reason :: merge_reason
  mr_cycles :: int

definition merge_cap :: int where "merge_cap = 3"

section \<open>One subplot\<close>

text \<open>The loop with \<open>left\<close> cycles left of its \<open>max_cycles\<close>.\<close>

fun merge_loop ::
    "'g merge_ops \<Rightarrow> string \<Rightarrow> string \<Rightarrow> int \<Rightarrow> nat \<Rightarrow> int \<Rightarrow> 'g merge_world
       \<Rightarrow> merge_outcome \<times> 'g merge_world" where
  "merge_loop ops s pr max_cycles 0 cycles w =
     (\<lparr>mr_subplot = s, mr_state = ''capped'', mr_reason = BaseChurned max_cycles,
       mr_cycles = cycles\<rparr>, w)"
| "merge_loop ops s pr max_cycles (Suc left) cycles w =
     (let result = (\<lambda>state reason. \<lparr>mr_subplot = s, mr_state = state, mr_reason = reason,
            mr_cycles = cycles\<rparr>);
          (ms, w1) = ask (mo_merge_state ops) pr w
      in if ms = ''dirty'' then (result ''conflict'' MergeConflict, w1)
         else if ms = ''unknown'' then (result ''not-ready'' ReadinessUnknown, w1)
         else if ms = ''behind'' then
           (let (_, w2) = ask (mo_update_branch ops) pr w1
            in merge_loop ops s pr max_cycles left (cycles + 1) w2)
         else if ms = ''blocked'' then (result ''not-ready'' GatesNotGreen, w1)
         else
           (let (base, w2) = ask (mo_base_oid ops) pr w1
            in if base = [] then (result ''not-ready'' BaseUnreadable, w2)
               else
                 (let (answer, w3) = squash ops s ms pr w2
                  in if answer = ''merged'' then (result ''merged'' SquashMerged, w3)
                     else merge_loop ops s pr max_cycles left (cycles + 1) w3)))"

definition auto_merge_one ::
    "'g merge_ops \<Rightarrow> int \<Rightarrow> node \<Rightarrow> 'g merge_world \<Rightarrow> merge_outcome \<times> 'g merge_world" where
  "auto_merge_one ops max_cycles n w =
     (let s = subplot_id n;
          pr = field_text (github n) ''pr'';
          branch = field_text (github n) ''branch'';
          result = (\<lambda>state reason. \<lparr>mr_subplot = s, mr_state = state, mr_reason = reason,
            mr_cycles = 0\<rparr>)
      in if pr = [] then (result ''not-ready'' NoPr, w)
         else
           (let (state, w1) = ask (mo_pr_state ops) pr w
            in if state = ''merged'' then (result ''already-merged'' MergedOutOfBand, w1)
               else if state = ''closed'' then (result ''rejected'' ClosedUnmerged, w1)
               else
                 (let (there, w2) = (if branch = [] then (True, w1)
                        else ask (mo_branch_exists ops) branch w1)
                  in if \<not> there then (result ''rejected'' BranchDeleted, w2)
                     else if gated n \<or> risky n \<or> destructive n
                     then (result ''waits-operator'' OperatorMerges, w2)
                     else merge_loop ops s pr max_cycles (nat max_cycles) 0 w2)))"

section \<open>The queue\<close>

definition is_mergeable_kind :: "node \<Rightarrow> bool" where
  "is_mergeable_kind n \<longleftrightarrow>
     node_kind n = ''code'' \<and> \<not> is_outcome n \<and> truthy (jget (github n) ''pr'' JNull)"

definition queue_terminal :: "string list" where
  "queue_terminal = [''rejected'', ''stalled'']"

fun queue_negatives :: "string list \<Rightarrow> string list store_op" where
  "queue_negatives [] = st_lift (Inr [])"
| "queue_negatives (s # ss) =
     st_bind (read_completion_events s) (\<lambda>evs.
     st_bind (queue_negatives ss) (\<lambda>rest.
     st_lift (Inr (if evs \<noteq> [] \<and> ev_state (last evs) \<in> set queue_terminal then s # rest else rest))))"

definition skip_set :: "string list store_op" where
  "skip_set =
     st_bind (completed_subplots True) (\<lambda>success.
     st_bind (completed_subplots False) (\<lambda>reached.
     st_bind (queue_negatives reached) (\<lambda>negatives.
     st_lift (Inr (success @ negatives)))))"

definition record_terminal :: "(merge_reason \<Rightarrow> string) \<Rightarrow> string \<Rightarrow> string \<Rightarrow> merge_reason \<Rightarrow> unit store_op" where
  "record_terminal say s state reason =
     st_bind (read_completion_events s) (\<lambda>evs.
     if list_ex (\<lambda>ev. ev_state ev = state) evs then st_lift (Inr ())
     else
       st_bind (write_completion_event
         \<lparr>ev_subplot = s, ev_state = state, ev_key = ''terminal:'' @ s @ '':'' @ state,
          ev_attempt = next_attempt evs, ev_at = [], ev_payload = [(''reason'', JStr (say reason))]\<rparr>)
         (\<lambda>_. st_lift (Inr ())))"

text \<open>What the answer of one subplot records.\<close>

definition record_outcome :: "(merge_reason \<Rightarrow> string) \<Rightarrow> merge_outcome \<Rightarrow> unit store_op" where
  "record_outcome say m =
     (if mr_state m = ''rejected'' then record_terminal say (mr_subplot m) ''rejected'' (mr_reason m)
      else if mr_state m = ''conflict'' then record_terminal say (mr_subplot m) ''failed'' (mr_reason m)
      else st_lift (Inr ()))"

fun merge_nodes ::
    "'g merge_ops \<Rightarrow> (merge_reason \<Rightarrow> string) \<Rightarrow> int \<Rightarrow> string list \<Rightarrow> string list \<Rightarrow> node list
       \<Rightarrow> outcome_store \<times> 'g merge_world
       \<Rightarrow> (outcome_error + merge_outcome list) \<times> outcome_store \<times> 'g merge_world" where
  "merge_nodes ops say max_cycles skip success [] (st, w) = (Inr [], st, w)"
| "merge_nodes ops say max_cycles skip success (n # ns) (st, w) =
     (if subplot_id n \<in> set skip \<or> \<not> is_mergeable_kind n
         \<or> \<not> list_all (\<lambda>d. d \<in> set success) (depends_on n)
      then merge_nodes ops say max_cycles skip success ns (st, w)
      else
        (let (m, w1) = auto_merge_one ops max_cycles n w
         in case record_outcome say m st of
              (Inl e, st1) \<Rightarrow> (Inl e, st1, w1)
            | (Inr _, st1) \<Rightarrow>
                (case merge_nodes ops say max_cycles skip success ns (st1, w1) of
                   (Inl e, st2, w2) \<Rightarrow> (Inl e, st2, w2)
                 | (Inr ms, st2, w2) \<Rightarrow> (Inr (m # ms), st2, w2))))"

record merge_report =
  mp_outcomes :: "merge_outcome list"
  mp_rejected :: "string list"
  mp_cascade :: "string list"

definition process_merge_queue ::
    "'g merge_ops \<Rightarrow> (merge_reason \<Rightarrow> string) \<Rightarrow> int \<Rightarrow> outcome_spec
       \<Rightarrow> outcome_store \<times> 'g merge_world
       \<Rightarrow> (outcome_error + merge_report) \<times> outcome_store \<times> 'g merge_world" where
  "process_merge_queue ops say max_cycles sp = (\<lambda>(st, w).
     case st_bind skip_set (\<lambda>skip. st_bind (completed_subplots True) (\<lambda>success.
            st_lift (Inr (skip, success)))) st of
       (Inl e, st1) \<Rightarrow> (Inl e, st1, w)
     | (Inr (skip, success), st1) \<Rightarrow>
         (case merge_nodes ops say max_cycles skip success (nodes sp) (st1, w) of
            (Inl e, st2, w2) \<Rightarrow> (Inl e, st2, w2)
          | (Inr ms, st2, w2) \<Rightarrow>
              (let rejected = map mr_subplot (filter (\<lambda>m. mr_state m = ''rejected'') ms)
               in (Inr \<lparr>mp_outcomes = ms, mp_rejected = rejected,
                        mp_cascade = sort (blocked_subtree sp rejected)\<rparr>, st2, w2))))"

section \<open>The queue is an operation of the store\<close>

lemma keeps_skip_set [keeping]: "keeps skip_set"
proof -
  have negatives: "keeps (queue_negatives ss)" for ss
    by (induction ss) (simp_all only: queue_negatives.simps, (intro keeping | assumption)+)
  show ?thesis unfolding skip_set_def by (intro keeping negatives)
qed

lemma keeps_record [keeping]: "keeps (record_outcome say m)"
  by (auto simp: record_outcome_def record_terminal_def intro!: keeping)

lemma merge_nodes_keeps:
  "merge_nodes ops say mx skip success ns (st, w) = (r, st', w') \<Longrightarrow> store_later st st'"
proof (induction ns arbitrary: st w r st' w')
  case (Cons n ns)
  show ?case
  proof (cases "subplot_id n \<in> set skip \<or> \<not> is_mergeable_kind n
      \<or> \<not> list_all (\<lambda>d. d \<in> set success) (depends_on n)")
    case True
    with Cons show ?thesis by (auto split: if_splits)
  next
    case False
    obtain m w1 where m: "auto_merge_one ops mx n w = (m, w1)" by fastforce
    obtain q st1 where q: "record_outcome say m st = (q, st1)" by fastforce
    then have "store_later st st1" using keepsD [OF keeps_record] by blast
    moreover obtain r2 st2 w2 where rest: "merge_nodes ops say mx skip success ns (st1, w1) = (r2, st2, w2)"
      by (metis prod_cases3)
    then have "store_later st1 st2" by (rule Cons.IH)
    ultimately show ?thesis
      using Cons.prems False m q rest
      by (auto split: sum.splits intro: store_later_trans)
  qed
qed simp

lemma merge_queue_keeps:
  assumes "process_merge_queue ops say mx sp (st, w) = (r, st', w')"
  shows "store_later st st'"
proof -
  let ?sets = "st_bind skip_set (\<lambda>skip. st_bind (completed_subplots True) (\<lambda>success.
      st_lift (Inr (skip, success))))"
  obtain q st1 where sets: "?sets st = (q, st1)" by fastforce
  have "keeps ?sets" by (intro keeping)
  then have "store_later st st1" using sets by (rule keepsD)
  then show ?thesis
    using assms sets
    by (auto simp: process_merge_queue_def Let_def split: sum.splits prod.splits
        dest!: merge_nodes_keeps intro: store_later_trans simp del: st_simps)
qed

section \<open>What the queue squashes\<close>

definition squash_states :: "string list" where
  "squash_states = [''dirty'', ''unknown'', ''behind'', ''blocked'']"

definition squashes_only ::
    "(string \<Rightarrow> bool) \<Rightarrow> nat \<Rightarrow> 'g merge_world \<Rightarrow> 'g merge_world \<Rightarrow> bool" where
  "squashes_only P k w w' \<longleftrightarrow>
     (\<exists>new. mw_squashes w' = mw_squashes w @ new
        \<and> (\<forall>(s, ms) \<in> set new. P s \<and> ms \<notin> set squash_states)
        \<and> (\<forall>s. length (filter (\<lambda>q. fst q = s) new) \<le> k))"

lemma ask_squashes [simp]: "ask f ref w = (x, w') \<Longrightarrow> mw_squashes w' = mw_squashes w"
  by (auto simp: ask_def split: prod.splits)

lemma merge_loop_squashes:
  "merge_loop ops s pr mx left cycles w = (m, w') \<Longrightarrow>
     \<exists>new. mw_squashes w' = mw_squashes w @ new \<and> length new \<le> left
       \<and> (\<forall>q \<in> set new. fst q = s \<and> snd q \<notin> set squash_states)"
proof (induction left arbitrary: cycles w)
  case (Suc left)
  obtain ms w1 where ms: "ask (mo_merge_state ops) pr w = (ms, w1)" by fastforce
  obtain u w2 where up: "ask (mo_update_branch ops) pr w1 = (u, w2)" by fastforce
  obtain base w3 where base: "ask (mo_base_oid ops) pr w1 = (base, w3)" by fastforce
  obtain answer w4 where sq: "squash ops s ms pr w3 = (answer, w4)" by fastforce
  have w3: "mw_squashes w3 = mw_squashes w" using ms base by simp
  have w4: "mw_squashes w4 = mw_squashes w @ [(s, ms)]"
    using sq w3 by (auto simp: squash_def ask_def split: prod.splits)
  consider "w' = w1" | "w' = w3" | "ms = ''behind''" "merge_loop ops s pr mx left (cycles + 1) w2 = (m, w')"
    | "ms \<notin> set squash_states" "w' = w4"
    | "ms \<notin> set squash_states" "merge_loop ops s pr mx left (cycles + 1) w4 = (m, w')"
    using Suc.prems ms up base sq
    by (auto simp: squash_states_def Let_def split: if_splits)
  then show ?case
  proof cases
    case 3
    from Suc.IH [OF 3(2)] show ?thesis using ms up by (auto intro: le_SucI)
  next
    case 5
    from Suc.IH [OF 5(2)] obtain new where "mw_squashes w' = mw_squashes w4 @ new" "length new \<le> left"
      "\<forall>q \<in> set new. fst q = s \<and> snd q \<notin> set squash_states" by blast
    with w4 5(1) show ?thesis by (intro exI [of _ "(s, ms) # new"]) auto
  qed (use ms w3 w4 in \<open>auto intro: exI [of _ "[(s, ms)]"]\<close>)
qed simp

lemma auto_merge_squashes:
  assumes "auto_merge_one ops mx n w = (m, w')"
  shows "\<exists>new. mw_squashes w' = mw_squashes w @ new \<and> length new \<le> nat mx
    \<and> (\<forall>q \<in> set new. fst q = subplot_id n \<and> snd q \<notin> set squash_states)
    \<and> (new \<noteq> [] \<longrightarrow> \<not> gated n \<and> \<not> risky n \<and> \<not> destructive n)"
proof -
  let ?pr = "field_text (github n) ''pr''" and ?br = "field_text (github n) ''branch''"
  obtain state w1 where pr: "ask (mo_pr_state ops) ?pr w = (state, w1)" by fastforce
  obtain there w2 where br: "(if ?br = [] then (True, w1) else ask (mo_branch_exists ops) ?br w1) = (there, w2)"
    by fastforce
  have w2: "mw_squashes w2 = mw_squashes w" using pr br by (auto split: if_splits)
  consider "mw_squashes w' = mw_squashes w"
    | "\<not> gated n" "\<not> risky n" "\<not> destructive n"
      "merge_loop ops (subplot_id n) ?pr mx (nat mx) 0 w2 = (m, w')"
    using assms pr br w2
    by (auto simp: auto_merge_one_def Let_def split: if_splits)
  then show ?thesis
  proof cases
    case 2
    from merge_loop_squashes [OF 2(4)] 2 w2 show ?thesis by auto
  qed simp
qed

text \<open>The subplots a queue may squash when those in \<open>success\<close> are completed.\<close>

definition may_squash :: "string list \<Rightarrow> string list \<Rightarrow> node \<Rightarrow> bool" where
  "may_squash skip success n \<longleftrightarrow>
     subplot_id n \<notin> set skip \<and> is_mergeable_kind n \<and> set (depends_on n) \<subseteq> set success
     \<and> \<not> gated n \<and> \<not> risky n \<and> \<not> destructive n"

lemma merge_nodes_squashes:
  assumes "merge_nodes ops say mx skip success ns (st, w) = (r, st', w')" and "distinct (node_ids ns)"
  shows "\<exists>new. mw_squashes w' = mw_squashes w @ new
    \<and> (\<forall>q \<in> set new. snd q \<notin> set squash_states
         \<and> (\<exists>n \<in> set ns. subplot_id n = fst q \<and> may_squash skip success n))
    \<and> (\<forall>s. length (filter (\<lambda>q. fst q = s) new) \<le> nat mx)"
  using assms
proof (induction ns arbitrary: st w r st' w')
  case (Cons n ns)
  let ?P = "\<lambda>ns q. snd q \<notin> set squash_states \<and> (\<exists>n \<in> set ns. subplot_id n = fst q \<and> may_squash skip success n)"
  have dist: "distinct (node_ids ns)" and fresh: "subplot_id n \<notin> set (node_ids ns)"
    using Cons.prems(2) by auto
  show ?case
  proof (cases "subplot_id n \<in> set skip \<or> \<not> is_mergeable_kind n
      \<or> \<not> list_all (\<lambda>d. d \<in> set success) (depends_on n)")
    case True
    with Cons.prems(1) have "merge_nodes ops say mx skip success ns (st, w) = (r, st', w')"
      by (auto split: if_splits)
    from Cons.IH [OF this dist] show ?thesis by auto
  next
    case False
    obtain m w1 where m: "auto_merge_one ops mx n w = (m, w1)" by fastforce
    then obtain new where new: "mw_squashes w1 = mw_squashes w @ new" "length new \<le> nat mx"
      "\<forall>q \<in> set new. fst q = subplot_id n \<and> snd q \<notin> set squash_states"
      "new \<noteq> [] \<longrightarrow> \<not> gated n \<and> \<not> risky n \<and> \<not> destructive n"
      using auto_merge_squashes by blast
    then have here: "\<forall>q \<in> set new. ?P (n # ns) q"
      using False by (auto simp: may_squash_def list_all_iff)
    obtain q st1 where q: "record_outcome say m st = (q, st1)" by fastforce
    obtain r2 st2 w2 where rest: "merge_nodes ops say mx skip success ns (st1, w1) = (r2, st2, w2)"
      by (metis prod_cases3)
    from Cons.IH [OF rest dist] obtain later where later: "mw_squashes w2 = mw_squashes w1 @ later"
      "\<forall>q \<in> set later. ?P ns q" "\<forall>s. length (filter (\<lambda>q. fst q = s) later) \<le> nat mx" by blast
    have "length (filter (\<lambda>q. fst q = s) (new @ later)) \<le> nat mx" for s
    proof (cases "s = subplot_id n")
      case True
      have "fst q \<in> set (node_ids ns)" if "q \<in> set later" for q
        using later(2) that by force
      with True fresh have "filter (\<lambda>q. fst q = s) later = []"
        by (auto simp: filter_empty_conv simp del: set_map)
      then show ?thesis using new(2) by (auto intro: le_trans [OF length_filter_le])
    next
      case False
      then have "filter (\<lambda>q. fst q = s) new = []" using new(3) by (auto simp: filter_empty_conv)
      then show ?thesis using later(3) by simp
    qed
    moreover have "length (filter (\<lambda>q. fst q = s) new) \<le> nat mx" for s
      using new(2) by (rule le_trans [OF length_filter_le])
    moreover have "w' = w1 \<or> w' = w2"
      using Cons.prems(1) False m q rest by (auto split: sum.splits)
    ultimately show ?thesis
      using new(1) here later(1,2) by (elim disjE) (auto intro!: exI [of _ "new @ later"])
  qed
qed simp

section \<open>The order of merges\<close>

lemma stored_safe:
  assumes "events_ok st" and "stored_event st ev"
  shows "safe_name (ev_subplot ev) = Inr (ev_subplot ev)"
proof -
  have "validate_event ev = Inr ()" using assms stored_valid by blast
  then show ?thesis by (auto simp: validate_event_def safe_name_def split: if_splits)
qed

lemma completed_any_ok:
  assumes "events_ok st"
  shows "\<exists>ss st'. completed_subplots b st = (Inr ss, st') \<and> events_ok st'
    \<and> (\<forall>ev. stored_event st' ev = stored_event st ev) \<and> (\<forall>s \<in> set ss. safe_name s = Inr s)"
proof -
  obtain evs st' where run: "read_events (sort (filter is_event_file (dkeys (event_files st)))) st = (Inr evs, st')"
    and of: "read_of st (set (sort (filter is_event_file (dkeys (event_files st))))) evs st'"
    using read_events_ok [OF assms] by blast
  then have "completed_subplots b st = (Inr (remdups (map ev_subplot
      (filter (\<lambda>ev. is_success ev \<or> \<not> b) evs))), st')"
    by (simp add: completed_subplots_def)
  then show ?thesis using of stored_safe [OF assms] by (auto simp: read_of_def)
qed

lemma queue_negatives_ok:
  assumes "events_ok st" and "\<forall>s \<in> set ss. safe_name s = Inr s"
  shows "\<exists>ns st'. queue_negatives ss st = (Inr ns, st') \<and> events_ok st'
    \<and> (\<forall>ev. stored_event st' ev = stored_event st ev)"
  using assms
proof (induction ss arbitrary: st)
  case (Cons s ss)
  obtain evs st1 where read: "read_completion_events s st = (Inr evs, st1)"
    and of: "read_of st {name. of_subplot s name} evs st1"
    using read_completion_events_ok [of st s] Cons.prems by auto
  then obtain ns st2 where "queue_negatives ss st1 = (Inr ns, st2)" "events_ok st2"
    "\<forall>ev. stored_event st2 ev = stored_event st1 ev"
    using Cons.IH [of st1] Cons.prems by (auto simp: read_of_def)
  with read of show ?case by (auto simp: read_of_def)
qed simp

text \<open>C39: On a valid outcome and a store of well-formed events, whatever GitHub answers and however
  the queue ends, it squashes only code subplots with a pull request that are not completed, whose
  dependencies are all completed and that are neither gated nor risky nor destructive, each time after
  a merge state that is neither dirty nor unknown nor behind nor blocked, and each subplot at most
  \<open>max_cycles\<close> times.\<close>

theorem merges_in_order:
  assumes "validate_spec sp = Inr ()" and "events_ok st"
    and "process_merge_queue ops say max_cycles sp (st, w) = (r, st', w')"
  shows "\<exists>new. mw_squashes w' = mw_squashes w @ new
    \<and> (\<forall>q \<in> set new. snd q \<notin> set squash_states
         \<and> (\<exists>n \<in> set (nodes sp). subplot_id n = fst q \<and> is_mergeable_kind n
              \<and> \<not> gated n \<and> \<not> risky n \<and> \<not> destructive n
              \<and> subplot_id n \<notin> successes st \<and> set (depends_on n) \<subseteq> successes st))
    \<and> (\<forall>s. length (filter (\<lambda>q. fst q = s) new) \<le> nat max_cycles)"
proof -
  obtain before st1 where run1: "completed_subplots True st = (Inr before, st1)"
    and before: "set before = successes st" and ok1: "events_ok st1"
    and same1: "\<forall>ev. stored_event st1 ev = stored_event st ev"
    using completed_subplots_ok [OF assms(2)] by blast
  obtain reached st2 where run2: "completed_subplots False st1 = (Inr reached, st2)" and ok2: "events_ok st2"
    and same2: "\<forall>ev. stored_event st2 ev = stored_event st1 ev" and safe: "\<forall>s \<in> set reached. safe_name s = Inr s"
    using completed_any_ok [OF ok1] by blast
  obtain negs st3 where run3: "queue_negatives reached st2 = (Inr negs, st3)" and ok3: "events_ok st3"
    and same3: "\<forall>ev. stored_event st3 ev = stored_event st2 ev"
    using queue_negatives_ok [OF ok2 safe] by blast
  obtain success st4 where run4: "completed_subplots True st3 = (Inr success, st4)"
    and success: "set success = successes st3"
    using completed_subplots_ok [OF ok3] by blast
  have eq: "set success = successes st"
    using success same1 same2 same3 by (simp add: successes_def)
  obtain q st5 where nodes: "merge_nodes ops say max_cycles (before @ negs) success (nodes sp) (st4, w) = (q, st5, w')"
    using assms(3) run1 run2 run3 run4
    by (auto simp: process_merge_queue_def skip_set_def Let_def split: prod.splits sum.splits)
  have "distinct (node_ids (nodes sp))" using assms(1) by (simp add: validate_iff spec_ok_def)
  from merge_nodes_squashes [OF nodes this] show ?thesis
    using before eq by (fastforce simp: may_squash_def)
qed

text \<open>
  Two code subplots with open pull requests, the second depending on the first: the first is
  rebased once and squashed, the second waits.
\<close>

definition queue_spec :: outcome_spec where
  "queue_spec = demo_spec\<lparr>nodes :=
     [(demo_node ''a'' [])\<lparr>github := [(''pr'', JStr ''o/r#1'')]\<rparr>,
      (demo_node ''b'' [''a''])\<lparr>github := [(''pr'', JStr ''o/r#2'')]\<rparr>]\<rparr>"

definition queue_ops :: "bool merge_ops" where
  "queue_ops =
     \<lparr>mo_pr_state = (\<lambda>_ g. (''open'', g)), mo_base_oid = (\<lambda>_ g. (''b0'', g)),
      mo_merge_state = (\<lambda>_ g. (if g then ''clean'' else ''behind'', g)),
      mo_update_branch = (\<lambda>_ _. (True, True)), mo_squash_merge = (\<lambda>_ g. (''merged'', g)),
      mo_branch_exists = (\<lambda>_ g. (True, g))\<rparr>"

definition queue_world :: "bool merge_world" where
  "queue_world = \<lparr>mw_world = False, mw_squashes = []\<rparr>"

lemma queue_spec_valid: "validate_spec queue_spec = Inr ()"
  by code_simp

theorem merges_in_order_witness:
  "case process_merge_queue queue_ops (\<lambda>_. []) merge_cap queue_spec (empty_store, queue_world) of
     (r, st', w') \<Rightarrow> mw_squashes w' = [(''a'', ''clean'')] \<and> ''b'' \<notin> fst ` set (mw_squashes w')"
proof -
  obtain r st' w' where run: "process_merge_queue queue_ops (\<lambda>_. []) merge_cap queue_spec
      (empty_store, queue_world) = (r, st', w')"
    by (metis prod_cases3)
  have none: "successes empty_store = {}"
    by (simp add: successes_def stored_event_def empty_store_def)
  have start: "mw_squashes queue_world = []" by (simp add: queue_world_def)
  have "''b'' \<notin> fst ` set (mw_squashes w')"
    using merges_in_order [OF queue_spec_valid empty_store_ok run] none start
    by (auto simp: queue_spec_def demo_spec_def demo_node_def)
  moreover have "case process_merge_queue queue_ops (\<lambda>_. []) merge_cap queue_spec (empty_store, queue_world) of
     (r, st', w') \<Rightarrow> mw_squashes w' = [(''a'', ''clean'')]"
    by code_simp
  ultimately show ?thesis using run by simp
qed

end
