(* ===== verification/Outcome_Dispatch.thy ===== *)
theory Outcome_Dispatch
  imports Outcome_Live
begin

text \<open>
  The dispatcher seam of an outcome, \<open>saga/scripts/outcome_dispatcher.py\<close>: what a dispatch asks
  for and may answer, the receipts it leaves, the decision to halt or to degrade a subplot whose
  backend is not available, and the record-only dispatcher.  Whether a verified workflow is ready
  is the answer of another module and a parameter here.
\<close>

section \<open>Backends\<close>

definition always_available :: "string list" where
  "always_available = [''inline'', ''verified-workflow'', ''manual'']"

definition degrade_ladder :: "string list" where
  "degrade_ladder = [''verified-workflow'', ''inline'']"

text \<open>\<open>resolve_available\<close>: the booleans of the host are ignored by the source.\<close>

definition resolve_available :: "string list" where
  "resolve_available = filter (\<lambda>b. b \<in> set always_available) node_backends"

definition is_guarantee_bearing :: "node \<Rightarrow> bool" where
  "is_guarantee_bearing n \<longleftrightarrow> guarantee_tags n \<noteq> [] \<or> degrade_policy n = ''halt''"

section \<open>Requests, answers and receipts\<close>

record dispatch_request =
  rq_outcome :: string
  rq_subplot :: string
  rq_title :: string
  rq_backend :: string
  rq_ref :: string
  rq_intent :: string
  rq_run :: string
  rq_created :: int

text \<open>
  A dispatcher returns the identifier of a leaf (the legacy form) or a dictionary, raises
  \<open>BackendHaltError\<close> with a receipt or the transient refusal of a lease with its message, or raises
  something that nobody catches: a permanent \<open>DispatcherError\<close>, or whatever ends the process.
\<close>

datatype dispatch_reply =
    LeafId string
  | Acknowledgement "json dict"
  | BackendHalt "json dict"
  | TransientRefusal string
  | DispatchRaises

definition strs :: "string list \<Rightarrow> json" where
  "strs ss = JArr (map JStr ss)"

definition halt_receipt :: "string \<Rightarrow> string \<Rightarrow> string \<Rightarrow> string \<Rightarrow> string list \<Rightarrow> json dict" where
  "halt_receipt outcome s b reason available =
     [(''kind'', JStr ''halt''), (''outcome_id'', JStr outcome), (''subplot_id'', JStr s),
      (''backend'', JStr b), (''reason'', JStr reason), (''available'', strs available)]"

definition degrade_receipt :: "string \<Rightarrow> string \<Rightarrow> string \<Rightarrow> string \<Rightarrow> string \<Rightarrow> json dict" where
  "degrade_receipt outcome s from to reason =
     [(''kind'', JStr ''degrade''), (''outcome_id'', JStr outcome), (''subplot_id'', JStr s),
      (''from_backend'', JStr from), (''to_backend'', JStr to), (''reason'', JStr reason)]"

section \<open>Halt or degrade\<close>

datatype degrade_action = DispatchOn | DegradeTo | HaltLeaf

definition lower_rungs :: "string \<Rightarrow> string list" where
  "lower_rungs b = drop 1 (dropWhile (\<lambda>x. x \<noteq> b) degrade_ladder)"

definition degrade_decision ::
    "string \<Rightarrow> string list \<Rightarrow> bool \<Rightarrow> bool \<Rightarrow> bool \<Rightarrow> degrade_action \<times> string \<times> string" where
  "degrade_decision b available attending guarantee_bearing side_effect =
     (if b \<in> set available then (DispatchOn, b, [])
      else if attending then
        (HaltLeaf, b, b @ '' unavailable and the operator is attending -> HALT + page (R23)'')
      else if guarantee_bearing then
        (HaltLeaf, b, b @ '' unavailable but the leaf is guarantee-bearing -> HALT even when away (R23)'')
      else if side_effect then
        (HaltLeaf, b,
         b @ '' unavailable after a side effect -> HALT, never re-run on a lesser backend (R23)'')
      else case find (\<lambda>x. x \<in> set available) (lower_rungs b) of
        Some low \<Rightarrow>
          (DegradeTo, low, b @ '' unavailable; autonomous + away -> degraded to '' @ low @ '' (R23)'')
      | None \<Rightarrow>
          (HaltLeaf, b,
           b @ '' unavailable and no lower rung is available -> HALT (no silent substitution, R5)''))"

lemma degrade_decision_backend:
  assumes "degrade_decision b available attending guarantee side = (action, b', reason)"
    and "action \<noteq> HaltLeaf"
  shows "b' \<in> set available
    \<and> (if action = DegradeTo
        then b \<notin> set available \<and> b' \<in> set (lower_rungs b) \<and> \<not> attending \<and> \<not> guarantee \<and> \<not> side
        else b' = b)"
  using assms
  by (auto simp: degrade_decision_def find_Some_iff split: if_splits option.splits)

section \<open>Verified workflows\<close>

text \<open>What \<open>validate_verified_workflow_ready\<close> answers for a reference and a plan path.\<close>

datatype readiness =
    NotReady string string
  | Ready string

definition plan_path_from_ref :: "string \<Rightarrow> string" where
  "plan_path_from_ref ref =
     (let path = takeWhile (\<lambda>c. c \<noteq> CHR ''#'') ref
      in if take 11 path = ''docs/plans/'' then path else [])"

definition not_ready_text :: "string \<Rightarrow> string \<Rightarrow> string" where
  "not_ready_text reason hint =
     ''verified-workflow not ready for outcome-dispatch: '' @ reason @ ''; '' @ hint"

text \<open>\<open>evidence.get(a) or evidence.get(b) or ""\<close>, as text without blanks around it.\<close>

definition evidence_text :: "json dict \<Rightarrow> string list \<Rightarrow> string" where
  "evidence_text d ks =
     (case find (\<lambda>k. truthy (jget d k JNull)) ks of
        Some k \<Rightarrow> strip (py_str (jget d k JNull))
      | None \<Rightarrow> [])"

definition orchestration_ref :: "node \<Rightarrow> outcome_error + string" where
  "orchestration_ref n =
     (let canonical = evidence_text (node_evidence n) [''verified_workflow_ref'', ''orchestration_ref''];
          legacy = evidence_text (node_evidence n) [''team_execution_ref'']
      in if canonical \<noteq> [] \<and> legacy \<noteq> [] \<and> canonical \<noteq> legacy then Inl OutcomeError
         else Inr (if canonical \<noteq> [] then canonical else legacy))"

section \<open>The dispatchers\<close>

text \<open>
  \<open>dispatch\<close> and \<open>make_dispatcher\<close> without a lease authority.  Two of its messages have characters
  outside Latin-1; their wording is the argument \<open>say\<close>.
\<close>

datatype halt_cause = LegacyBackend | BackendUnavailable

definition record_only_dispatcher ::
    "(string \<Rightarrow> string \<Rightarrow> readiness) \<Rightarrow> (halt_cause \<Rightarrow> string) \<Rightarrow> string list \<Rightarrow> dispatch_request
       \<Rightarrow> dispatch_reply" where
  "record_only_dispatcher ready say available req =
     (let b = (if rq_backend req = ''team-execution'' then ''verified-workflow'' else rq_backend req);
          stop = (\<lambda>reason. BackendHalt
            (halt_receipt (rq_outcome req) (rq_subplot req) b reason available));
          ref = strip (rq_ref req);
          prepared = (\<lambda>extra.
            if b \<notin> set available then stop (say BackendUnavailable)
            else Acknowledgement
              ([(''status'', JStr ''prepared''), (''subplot_id'', JStr (rq_subplot req)),
                (''backend'', JStr b),
                (''proposed_leaf_saga_id'',
                   JStr (''leaf-'' @ rq_outcome req @ ''-'' @ rq_subplot req)),
                (''dispatch_id'', JStr []), (''attempt'', JInt 1), (''idempotency_key'', JStr [])]
               @ extra))
      in if b \<notin> set node_backends then
           (if b \<in> set legacy_node_backends then stop (say LegacyBackend) else DispatchRaises)
         else if b = ''verified-workflow'' then
           (case ready ref (plan_path_from_ref ref) of
              NotReady reason hint \<Rightarrow> stop (not_ready_text reason hint)
            | Ready resolved \<Rightarrow>
                prepared [(''orchestration_ref'', JStr (if resolved \<noteq> [] then resolved else ref))])
         else prepared [])"

text \<open>The dispatcher \<open>advance\<close> takes when it is given none.\<close>

definition default_dispatcher :: "dispatch_request \<Rightarrow> dispatch_reply" where
  "default_dispatcher req =
     (if rq_backend req = ''verified-workflow'' \<and> strip (rq_ref req) = []
      then BackendHalt (halt_receipt (rq_outcome req) (rq_subplot req) (rq_backend req)
             ''missing orchestration_ref for verified-workflow dispatch'' always_available)
      else LeafId (''leaf-'' @ rq_outcome req @ ''-'' @ rq_subplot req))"

end
