(* ===== verification/Outcome_Tick.thy ===== *)
theory Outcome_Tick
  imports Outcome_Dispatch
begin

text \<open>
  The reconcile loop of an outcome, \<open>_reconcile_once\<close> and \<open>advance\<close> of \<open>saga/scripts/outcome.py\<close>.
  A tick walks the ready frontier; for each subplot it takes the dispatch lock, decides the backend,
  records the intent, calls the dispatcher and records the acknowledgement.  The lists a tick
  collects are part of its state, and so are the requests the dispatcher was called with, which stay
  known when an exception ends the tick.
\<close>

section \<open>The state of a run\<close>

record tick =
  ts_store :: outcome_store
  ts_requests :: "dispatch_request list"
  ts_dispatched :: "string list"
  ts_halted :: "json dict list"
  ts_gated :: "string list"
  ts_degraded :: "json dict list"

type_synonym 'a tick_op = "tick \<Rightarrow> (outcome_error + 'a) \<times> tick"

definition tk_bind :: "'a tick_op \<Rightarrow> ('a \<Rightarrow> 'b tick_op) \<Rightarrow> 'b tick_op" where
  "tk_bind m k t = (case m t of (Inl e, t') \<Rightarrow> (Inl e, t') | (Inr x, t') \<Rightarrow> k x t')"

definition tk_lift :: "outcome_error + 'a \<Rightarrow> 'a tick_op" where
  "tk_lift r t = (r, t)"

definition tk_modify :: "(tick \<Rightarrow> tick) \<Rightarrow> unit tick_op" where
  "tk_modify f t = (Inr (), f t)"

definition in_store :: "'a store_op \<Rightarrow> 'a tick_op" where
  "in_store act t = (case act (ts_store t) of (r, st) \<Rightarrow> (r, t\<lparr>ts_store := st\<rparr>))"

lemma tk_simps [simp]:
  "tk_bind m k t = (case m t of (Inl e, t') \<Rightarrow> (Inl e, t') | (Inr x, t') \<Rightarrow> k x t')"
  "tk_lift r t = (r, t)"
  "tk_modify f t = (Inr (), f t)"
  "in_store act t = (case act (ts_store t) of (r, st) \<Rightarrow> (r, t\<lparr>ts_store := st\<rparr>))"
  by (simp_all add: tk_bind_def tk_lift_def tk_modify_def in_store_def)

text \<open>
  What a tick takes from outside: its holder and lease time, the instants of its clock and the fresh
  run identity of each subplot, the gate, the available backends, whether an operator attends, the
  readiness of a workflow, the dispatcher and the reader of launch receipts.
\<close>

record launch_receipt =
  lr_producer :: string
  lr_run :: string
  lr_sha256 :: string

record tick_env =
  te_holder :: string
  te_ttl :: int
  te_now :: "string \<Rightarrow> int"
  te_recorded :: "string \<Rightarrow> int"
  te_run :: "string \<Rightarrow> string"
  te_created :: "string \<Rightarrow> int"
  te_gate :: "(string \<Rightarrow> outcome_store \<Rightarrow> bool) option"
  te_available :: "string list option"
  te_attending :: bool
  te_ready :: "string \<Rightarrow> string \<Rightarrow> readiness"
  te_dispatch :: "dispatch_request \<Rightarrow> dispatch_reply"
  te_receipt :: "dispatch_request \<Rightarrow> string \<Rightarrow> string \<Rightarrow> string + launch_receipt"

section \<open>Locks and halts\<close>

definition release_dispatch :: "tick_env \<Rightarrow> string \<Rightarrow> unit tick_op" where
  "release_dispatch env s =
     tk_bind (in_store (release_lease (''dispatch-'' @ s) (te_holder env))) (\<lambda>_. tk_lift (Inr ()))"

text \<open>\<open>{**base, **extra}\<close>\<close>

definition spread :: "json dict \<Rightarrow> json dict \<Rightarrow> json dict" where
  "spread base extra = foldl (\<lambda>d (k, v). dset k v d) base extra"

definition dispatch_key :: "string \<Rightarrow> string" where
  "dispatch_key s = ''dispatch:'' @ s"

definition intent_key :: "string \<Rightarrow> string \<Rightarrow> string" where
  "intent_key outcome s = ''dispatch-intent:'' @ outcome @ '':'' @ s"

text \<open>A halt the ledger shows: the fields of the receipt come last, its \<open>kind\<close> included.\<close>

definition halt_record :: "string \<Rightarrow> json dict \<Rightarrow> json dict" where
  "halt_record s receipt =
     spread [(''phase'', JStr ''halt''), (''kind'', JStr ''dispatch''), (''key'', JStr (dispatch_key s))]
       receipt"

definition halt_leaf :: "tick_env \<Rightarrow> string \<Rightarrow> json dict \<Rightarrow> json dict \<Rightarrow> unit tick_op" where
  "halt_leaf env s record receipt =
     tk_bind (release_dispatch env s) (\<lambda>_.
     tk_bind (in_store (append_ledger_once record)) (\<lambda>_.
     tk_modify (\<lambda>t. t\<lparr>ts_halted := ts_halted t @ [receipt]\<rparr>)))"

text \<open>A halt that is only reported.\<close>

definition brief_halt :: "string \<Rightarrow> string \<Rightarrow> string \<Rightarrow> json dict" where
  "brief_halt s b reason =
     [(''kind'', JStr ''halt''), (''subplot_id'', JStr s), (''backend'', JStr b),
      (''reason'', JStr reason)]"

definition report_halt :: "tick_env \<Rightarrow> string \<Rightarrow> string \<Rightarrow> string \<Rightarrow> unit tick_op" where
  "report_halt env s b reason =
     tk_bind (release_dispatch env s) (\<lambda>_.
     tk_modify (\<lambda>t. t\<lparr>ts_halted := ts_halted t @ [brief_halt s b reason]\<rparr>))"

section \<open>Acknowledgements\<close>

text \<open>\<open>[A-Za-z0-9][A-Za-z0-9._:-]{0,159}\<close>\<close>

definition is_run_identity :: "string \<Rightarrow> bool" where
  "is_run_identity s \<longleftrightarrow>
     (case s of [] \<Rightarrow> False
      | c # cs \<Rightarrow> slug_char c \<and> c \<notin> set ''._-'' \<and> length cs \<le> 159
          \<and> list_all (\<lambda>d. slug_char d \<or> d = CHR '':'') cs)"

definition bound_ack :: "dispatch_request \<Rightarrow> json dict \<Rightarrow> bool" where
  "bound_ack req d \<longleftrightarrow>
     field_text d ''dispatch_intent_id'' = rq_intent req
     \<and> field_text d ''outcome_id'' = rq_outcome req
     \<and> field_text d ''subplot_id'' = rq_subplot req
     \<and> field_text d ''backend'' = rq_backend req"

definition valid_ack :: "dispatch_request \<Rightarrow> json dict \<Rightarrow> bool" where
  "valid_ack req d \<longleftrightarrow>
     has_text d ''ack_kind'' ''launched''
     \<and> strip (field_text d ''dispatch_ack_ref'') \<noteq> []
     \<and> bound_ack req d
     \<and> strip (field_text d ''producer_kind'') = ''verified-workflow''
     \<and> is_run_identity (strip (field_text d ''run_identity''))
     \<and> strip (field_text d ''leaf_saga_id'') \<noteq> []"

definition ack_record ::
    "tick_env \<Rightarrow> dispatch_request \<Rightarrow> string \<Rightarrow> json dict \<Rightarrow> launch_receipt \<Rightarrow> json dict" where
  "ack_record env req ref d receipt =
     [(''phase'', JStr ''ack''), (''kind'', JStr v2_kind), (''key'', JStr (rq_intent req)),
      (''dispatch_intent_id'', JStr (rq_intent req)), (''subplot_id'', JStr (rq_subplot req)),
      (''backend'', JStr (rq_backend req)), (''ack_kind'', JStr ''launched''),
      (''dispatch_ack_ref'', JStr (strip (field_text d ''dispatch_ack_ref''))),
      (''receipt_authority'', JStr ''owner-user-state-v1''),
      (''producer_kind'', JStr (lr_producer receipt)), (''run_identity'', JStr (lr_run receipt)),
      (''at'', JInt (te_recorded env (rq_subplot req))), (''receipt_sha256'', JStr (lr_sha256 receipt))]
     @ (if ref = [] then [] else [(''orchestration_ref'', JStr ref)])
     @ [(''leaf_saga_id'', JStr (strip (field_text d ''leaf_saga_id'')))]"

definition acknowledge :: "tick_env \<Rightarrow> dispatch_request \<Rightarrow> string \<Rightarrow> json dict \<Rightarrow> unit tick_op" where
  "acknowledge env req ref d =
     (let s = rq_subplot req; b = rq_backend req in
      if has_text d ''status'' ''prepared'' then release_dispatch env s
      else if \<not> valid_ack req d then report_halt env s b ''invalid dispatch acknowledgement''
      else case te_receipt env req (strip (field_text d ''dispatch_ack_ref''))
                  (strip (field_text d ''leaf_saga_id'')) of
        Inl msg \<Rightarrow> report_halt env s b (''invalid dispatch launch receipt: '' @ msg)
      | Inr receipt \<Rightarrow>
          if lr_producer receipt \<noteq> strip (field_text d ''producer_kind'')
             \<or> lr_run receipt \<noteq> strip (field_text d ''run_identity'')
          then report_halt env s b ''dispatch acknowledgement conflicts with its launch receipt''
          else
            tk_bind (in_store (append_ledger_once (ack_record env req ref d receipt))) (\<lambda>appended.
            if appended then tk_modify (\<lambda>t. t\<lparr>ts_dispatched := ts_dispatched t @ [s]\<rparr>)
            else tk_lift (Inr ())))"

definition commit_record :: "tick_env \<Rightarrow> dispatch_request \<Rightarrow> string \<Rightarrow> json dict" where
  "commit_record env req leaf =
     [(''phase'', JStr ''commit''), (''kind'', JStr ''dispatch''),
      (''key'', JStr (dispatch_key (rq_subplot req))), (''subplot_id'', JStr (rq_subplot req)),
      (''leaf_saga_id'', JStr leaf), (''backend'', JStr (rq_backend req)),
      (''at'', JInt (te_recorded env (rq_subplot req)))]"

section \<open>One subplot\<close>

definition intent_record :: "dispatch_request \<Rightarrow> json dict" where
  "intent_record req =
     [(''phase'', JStr ''intent''), (''kind'', JStr v2_kind), (''key'', JStr (rq_intent req)),
      (''dispatch_intent_id'', JStr (rq_intent req)), (''subplot_id'', JStr (rq_subplot req)),
      (''backend'', JStr (rq_backend req)), (''run_identity'', JStr (rq_run req)),
      (''at'', JInt (rq_created req))]"

text \<open>The degradation is recorded after the dispatcher answered.\<close>

definition note_degrade :: "string \<Rightarrow> json dict option \<Rightarrow> unit tick_op" where
  "note_degrade s degrade =
     (case degrade of
        None \<Rightarrow> tk_lift (Inr ())
      | Some receipt \<Rightarrow>
          tk_bind (in_store (append_ledger_once (spread
            [(''phase'', JStr ''degrade''), (''key'', JStr (dispatch_key s))] receipt))) (\<lambda>_.
          tk_modify (\<lambda>t. t\<lparr>ts_degraded := ts_degraded t @ [receipt]\<rparr>)))"

definition transient_halt :: "dispatch_request \<Rightarrow> string \<Rightarrow> json dict" where
  "transient_halt req msg =
     [(''kind'', JStr ''halt''), (''outcome_id'', JStr (rq_outcome req)),
      (''subplot_id'', JStr (rq_subplot req)), (''backend'', JStr (rq_backend req)),
      (''reason'', JStr msg)]"

definition transient_record :: "dispatch_request \<Rightarrow> string \<Rightarrow> json dict" where
  "transient_record req msg =
     spread (transient_halt req msg)
       [(''receipt_kind'', JStr ''halt''), (''phase'', JStr ''halt''),
        (''key'', JStr (dispatch_key (rq_subplot req))), (''kind'', JStr ''dispatch'')]"

definition on_reply ::
    "tick_env \<Rightarrow> dispatch_request \<Rightarrow> string \<Rightarrow> json dict option \<Rightarrow> dispatch_reply \<Rightarrow> unit tick_op" where
  "on_reply env req ref degrade reply =
     (let s = rq_subplot req in
      case reply of
        BackendHalt receipt \<Rightarrow> halt_leaf env s (halt_record s receipt) receipt
      | TransientRefusal msg \<Rightarrow> halt_leaf env s (transient_record req msg) (transient_halt req msg)
      | DispatchRaises \<Rightarrow> tk_lift (Inl DispatcherError)
      | Acknowledgement d \<Rightarrow> tk_bind (note_degrade s degrade) (\<lambda>_. acknowledge env req ref d)
      | LeafId leaf \<Rightarrow>
          tk_bind (note_degrade s degrade) (\<lambda>_.
          tk_bind (in_store (append_ledger_once (commit_record env req leaf))) (\<lambda>_.
          tk_lift (Inr ()))))"

definition call_dispatcher :: "tick_env \<Rightarrow> dispatch_request \<Rightarrow> dispatch_reply tick_op" where
  "call_dispatcher env req t =
     (Inr (te_dispatch env req), t\<lparr>ts_requests := ts_requests t @ [req]\<rparr>)"

definition request_of ::
    "tick_env \<Rightarrow> outcome_spec \<Rightarrow> node \<Rightarrow> string \<Rightarrow> string \<Rightarrow> string \<Rightarrow> dispatch_request" where
  "request_of env sp n s b ref =
     \<lparr>rq_outcome = outcome_id sp, rq_subplot = s, rq_title = title n, rq_backend = b, rq_ref = ref,
      rq_intent = intent_key (outcome_id sp) s, rq_run = ''outcome-run-'' @ te_run env s,
      rq_created = te_created env s\<rparr>"

definition unacknowledged :: string where
  "unacknowledged =
     ''dispatch intent already exists without an acknowledgement; ''
     @ ''reconcile launch evidence or an operator handoff before retrying''"

definition launch :: "tick_env \<Rightarrow> dispatch_request \<Rightarrow> string \<Rightarrow> json dict option \<Rightarrow> unit tick_op" where
  "launch env req ref degrade =
     tk_bind (in_store (append_ledger_once (intent_record req))) (\<lambda>created.
     if \<not> created then report_halt env (rq_subplot req) (rq_backend req) unacknowledged
     else tk_bind (call_dispatcher env req) (on_reply env req ref degrade))"

text \<open>\<open>_validate_team_execution_orchestration_ref\<close>: the reference to use, or the receipt of a halt.\<close>

definition validated_ref :: "tick_env \<Rightarrow> outcome_spec \<Rightarrow> string \<Rightarrow> string \<Rightarrow> json dict + string" where
  "validated_ref env sp s ref =
     (case te_ready env ref (plan_path_from_ref ref) of
        NotReady reason hint \<Rightarrow>
          Inl (halt_receipt (outcome_id sp) s ''verified-workflow'' (not_ready_text reason hint)
                 (case te_available env of Some av \<Rightarrow> av | None \<Rightarrow> always_available))
      | Ready resolved \<Rightarrow> Inr (if resolved \<noteq> [] then resolved else ref))"

definition dispatch_on ::
    "tick_env \<Rightarrow> outcome_spec \<Rightarrow> node \<Rightarrow> string \<Rightarrow> string \<Rightarrow> json dict option \<Rightarrow> unit tick_op" where
  "dispatch_on env sp n s b degrade =
     (if b = ''verified-workflow'' then
        tk_bind (tk_lift (orchestration_ref n)) (\<lambda>ref.
        case validated_ref env sp s ref of
          Inl receipt \<Rightarrow> halt_leaf env s (halt_record s receipt) receipt
        | Inr ref' \<Rightarrow> launch env (request_of env sp n s b ref') ref' degrade)
      else launch env (request_of env sp n s b []) [] degrade)"

definition backend_for :: "tick_env \<Rightarrow> node \<Rightarrow> degrade_action \<times> string \<times> string" where
  "backend_for env n =
     (case te_available env of
        None \<Rightarrow> (DispatchOn, backend n, [])
      | Some av \<Rightarrow>
          degrade_decision (backend n) av (te_attending env) (is_guarantee_bearing n) (destructive n))"

definition dispatch_node :: "tick_env \<Rightarrow> outcome_spec \<Rightarrow> node \<Rightarrow> string \<Rightarrow> unit tick_op" where
  "dispatch_node env sp n s =
     (case backend_for env n of
        (HaltLeaf, b, reason) \<Rightarrow>
          (let receipt = halt_receipt (outcome_id sp) s (backend n) reason (the (te_available env))
           in halt_leaf env s (halt_record s receipt) receipt)
      | (DegradeTo, b, reason) \<Rightarrow>
          dispatch_on env sp n s b (Some (degrade_receipt (outcome_id sp) s (backend n) b reason))
      | (DispatchOn, b, reason) \<Rightarrow> dispatch_on env sp n s b None)"

definition reconcile_leaf :: "tick_env \<Rightarrow> outcome_spec \<Rightarrow> string list \<Rightarrow> string \<Rightarrow> unit tick_op" where
  "reconcile_leaf env sp settled s t =
     (if s \<in> set settled then (Inr (), t)
      else if (case te_gate env of None \<Rightarrow> False | Some gate \<Rightarrow> \<not> gate s (ts_store t))
      then (Inr (), t\<lparr>ts_gated := ts_gated t @ [s]\<rparr>)
      else case node_by_id sp s of
        None \<Rightarrow> (Inr (), t)
      | Some n \<Rightarrow>
          tk_bind (in_store (acquire_dispatch s (te_holder env) (te_ttl env) (te_now env s))) (\<lambda>locked.
          if \<not> locked then tk_lift (Inr ()) else dispatch_node env sp n s) t)"

section \<open>One tick\<close>

fun reconcile_leaves :: "tick_env \<Rightarrow> outcome_spec \<Rightarrow> string list \<Rightarrow> string list \<Rightarrow> unit tick_op" where
  "reconcile_leaves env sp settled [] = tk_lift (Inr ())"
| "reconcile_leaves env sp settled (s # ss) =
     tk_bind (reconcile_leaf env sp settled s) (\<lambda>_. reconcile_leaves env sp settled ss)"

definition reconcile_once :: "tick_env \<Rightarrow> outcome_spec \<Rightarrow> unit tick_op" where
  "reconcile_once env sp =
     tk_bind (in_store (completed_subplots True)) (\<lambda>success.
     tk_bind (in_store (st_read reduce_dispatch_ledger)) (\<lambda>reduced.
     reconcile_leaves env sp (map fst (filter (\<lambda>(s, e). red_settled e) reduced))
       (ready_frontier sp success)))"

section \<open>Advancing\<close>

text \<open>
  The processors that run before the frontier is read (merges, harvest, worktrees, liveness) and
  after the dispatches (costs, board), those that are given, and the environment of each tick.
\<close>

record advance_env =
  av_before :: "nat \<Rightarrow> unit store_op list"
  av_tick :: "nat \<Rightarrow> tick_env"
  av_after :: "nat \<Rightarrow> unit store_op list"
  av_loop :: bool
  av_max_ticks :: int

fun run_all :: "unit store_op list \<Rightarrow> unit tick_op" where
  "run_all [] = tk_lift (Inr ())"
| "run_all (p # ps) = tk_bind (in_store p) (\<lambda>_. run_all ps)"

definition one_tick :: "advance_env \<Rightarrow> outcome_spec \<Rightarrow> nat \<Rightarrow> unit tick_op" where
  "one_tick av sp k =
     tk_bind (run_all (av_before av k)) (\<lambda>_.
     tk_bind (reconcile_once (av_tick av k) sp) (\<lambda>_.
     run_all (av_after av k)))"

text \<open>The tick \<open>k\<close>, and at most \<open>left\<close> after it; the answer is the number of ticks.\<close>

fun ticks_from :: "advance_env \<Rightarrow> outcome_spec \<Rightarrow> nat \<Rightarrow> nat \<Rightarrow> nat tick_op" where
  "ticks_from av sp 0 k t = tk_bind (one_tick av sp k) (\<lambda>_. tk_lift (Inr k)) t"
| "ticks_from av sp (Suc left) k t =
     tk_bind (one_tick av sp k) (\<lambda>_ t'.
       if \<not> av_loop av \<or> length (ts_dispatched t') = length (ts_dispatched t) then (Inr k, t')
       else ticks_from av sp left (Suc k) t') t"

text \<open>\<open>finally\<close>: the coordinator lease is released, whatever ended the loop.\<close>

definition finally_release :: "string \<Rightarrow> 'a tick_op \<Rightarrow> 'a tick_op" where
  "finally_release holder m t =
     (case m t of (r, t') \<Rightarrow>
        tk_bind (in_store (release_lease ''coordinator'' holder)) (\<lambda>_. tk_lift r) t')"

datatype advance_result =
    Busy status_view
  | Advanced nat status_view

definition advance ::
    "string \<Rightarrow> int \<Rightarrow> int \<Rightarrow> advance_env \<Rightarrow> outcome_spec \<Rightarrow> advance_result tick_op" where
  "advance holder ttl start av sp =
     tk_bind (in_store (acquire_coordinator holder ttl start)) (\<lambda>mine.
     if \<not> mine then tk_bind (in_store (outcome_status sp)) (\<lambda>v. tk_lift (Inr (Busy v)))
     else
       tk_bind (finally_release holder (ticks_from av sp (nat (av_max_ticks av - 1)) 1)) (\<lambda>k.
       tk_bind (in_store (outcome_status sp)) (\<lambda>v. tk_lift (Inr (Advanced k v)))))"

end
