(* ===== verification/Outcome_Launches.thy ===== *)
theory Outcome_Launches
  imports Outcome_Tick Outcome_Session
begin

text \<open>
  What bounds the dispatches of an outcome.  A request is made only behind an intent line that was
  appended for it and was not there before; no operation loses a complete line, and a dispatch that
  is settled stays settled.  And a tick requests only unsettled subplots of the ready frontier, behind
  the gate, on a backend the degrade policy allows.
\<close>

section \<open>Intents\<close>

definition has_intent :: "string \<Rightarrow> outcome_store \<Rightarrow> string \<Rightarrow> bool" where
  "has_intent outcome st s \<longleftrightarrow>
     (\<exists>r. Row r \<in> set (lines (replay_ledger st)) \<and> field_text r ''phase'' = ''intent''
       \<and> field_text r ''key'' = intent_key outcome s)"

lemma has_intent_later: "store_later st st' \<Longrightarrow> has_intent outcome st s \<Longrightarrow> has_intent outcome st' s"
  by (auto simp: has_intent_def dest: store_later_lines)

lemma rows_are_read: "read_lines ls = Inr rs \<Longrightarrow> Row r \<in> set ls \<Longrightarrow> r \<in> set rs"
  by (induction ls arbitrary: rs) (auto split: ledger_line.splits if_splits)

lemma append_once_new:
  assumes "append_ledger_once record st = (Inr True, st')"
  shows "Row record \<in> set (lines (replay_ledger st'))
    \<and> (\<forall>r. Row r \<in> set (lines (replay_ledger st)) \<longrightarrow>
         field_text r ''phase'' \<noteq> field_text record ''phase''
         \<or> field_text r ''key'' \<noteq> field_text record ''key'')"
proof -
  obtain rs where rs: "read_lines (all_lines (replay_ledger st)) = Inr rs"
    and new: "\<not> list_ex (\<lambda>r. field_text r ''phase'' = field_text record ''phase''
        \<and> field_text r ''key'' = field_text record ''key'') rs"
    and st': "st' = append_ledger record st"
    using assms
    by (auto simp: append_ledger_once_def store_ledger_def Let_def split: if_splits sum.splits)
  have "r \<in> set rs" if "Row r \<in> set (lines (replay_ledger st))" for r
    using rows_are_read [OF rs] that by (auto simp: all_lines_def)
  with new show ?thesis
    by (auto simp: st' append_ledger_def Let_def list_ex_iff)
qed

section \<open>What a step of a tick does to the requests\<close>

definition tick_later :: "(dispatch_request \<Rightarrow> bool) \<Rightarrow> tick \<Rightarrow> tick \<Rightarrow> bool" where
  "tick_later Q t t' \<longleftrightarrow>
     store_later (ts_store t) (ts_store t')
     \<and> (\<exists>new. ts_requests t' = ts_requests t @ new
          \<and> distinct (map (\<lambda>rq. (rq_outcome rq, rq_subplot rq)) new)
          \<and> (\<forall>rq \<in> set new. Q rq \<and> has_intent (rq_outcome rq) (ts_store t') (rq_subplot rq)
               \<and> \<not> has_intent (rq_outcome rq) (ts_store t) (rq_subplot rq)))"

lemma tick_later_refl [simp]: "tick_later Q t t"
  by (simp add: tick_later_def)

lemma tick_later_mono: "tick_later Q t t' \<Longrightarrow> (\<And>rq. Q rq \<Longrightarrow> Q' rq) \<Longrightarrow> tick_later Q' t t'"
  by (auto simp: tick_later_def)

lemma tick_later_store: "tick_later Q t t' \<Longrightarrow> store_later (ts_store t) (ts_store t')"
  by (simp add: tick_later_def)

lemma tick_later_trans:
  assumes "tick_later Q t t'" and "tick_later Q t' t''"
  shows "tick_later Q t t''"
proof -
  obtain new where st: "store_later (ts_store t) (ts_store t')"
    and new: "ts_requests t' = ts_requests t @ new" "distinct (map (\<lambda>rq. (rq_outcome rq, rq_subplot rq)) new)"
      "\<forall>rq \<in> set new. Q rq \<and> has_intent (rq_outcome rq) (ts_store t') (rq_subplot rq)
         \<and> \<not> has_intent (rq_outcome rq) (ts_store t) (rq_subplot rq)"
    using assms(1) by (auto simp: tick_later_def)
  obtain more where st': "store_later (ts_store t') (ts_store t'')"
    and more: "ts_requests t'' = ts_requests t' @ more"
      "distinct (map (\<lambda>rq. (rq_outcome rq, rq_subplot rq)) more)"
      "\<forall>rq \<in> set more. Q rq \<and> has_intent (rq_outcome rq) (ts_store t'') (rq_subplot rq)
         \<and> \<not> has_intent (rq_outcome rq) (ts_store t') (rq_subplot rq)"
    using assms(2) by (auto simp: tick_later_def)
  have "set (map (\<lambda>rq. (rq_outcome rq, rq_subplot rq)) new)
      \<inter> set (map (\<lambda>rq. (rq_outcome rq, rq_subplot rq)) more) = {}"
    using new(3) more(3) by fastforce
  with new more st st' show ?thesis
    unfolding tick_later_def
    by (intro conjI exI [of _ "new @ more"])
      (auto dest: has_intent_later intro: store_later_trans)
qed

definition requests :: "(dispatch_request \<Rightarrow> bool) \<Rightarrow> 'a tick_op \<Rightarrow> bool" where
  "requests Q m \<longleftrightarrow> (\<forall>t. tick_later Q t (snd (m t)))"

lemma requestsI: "(\<And>t. tick_later Q t (snd (m t))) \<Longrightarrow> requests Q m"
  by (simp add: requests_def)

lemma requestsD: "requests Q m \<Longrightarrow> m t = (r, t') \<Longrightarrow> tick_later Q t t'"
  by (auto simp: requests_def dest: spec [of _ t])

lemma requests_bind:
  assumes "requests Q m" and "\<And>x. requests Q (k x)"
  shows "requests Q (tk_bind m k)"
proof (rule requestsI)
  show "tick_later Q t (snd (tk_bind m k t))" for t
    using requestsD [OF assms(1), of t] requestsD [OF assms(2)]
    by (auto split: prod.splits sum.splits) (meson tick_later_trans surjective_pairing)
qed

lemma requests_lift: "requests Q (tk_lift r)"
  by (simp add: requests_def)

lemma requests_modify:
  "(\<And>t. ts_store (f t) = ts_store t \<and> ts_requests (f t) = ts_requests t) \<Longrightarrow> requests Q (tk_modify f)"
  by (simp add: requests_def tick_later_def)

lemma requests_in_store: "keeps act \<Longrightarrow> requests Q (in_store act)"
  by (auto simp: requests_def tick_later_def keeps_def split: prod.splits) (metis snd_conv)

lemma requests_mono: "requests Q m \<Longrightarrow> (\<And>rq. Q rq \<Longrightarrow> Q' rq) \<Longrightarrow> requests Q' m"
  unfolding requests_def by (blast intro: tick_later_mono)

lemmas quiet = requests_bind requests_lift requests_modify requests_in_store keeping

lemma keeps_acquire_dispatch [keeping]: "keeps (acquire_dispatch s holder ttl now)"
  unfolding acquire_dispatch_def by (intro keeping)

section \<open>The parts of a tick\<close>

lemma release_quiet: "requests Q (release_dispatch env s)"
  unfolding release_dispatch_def by (intro quiet)

lemma halts_quiet: "requests Q (halt_leaf env s record receipt)" "requests Q (report_halt env s b reason)"
  unfolding halt_leaf_def report_halt_def by (intro quiet release_quiet; simp)+

lemma note_quiet: "requests Q (note_degrade s degrade)"
  unfolding note_degrade_def by (cases degrade) (simp_all, intro quiet; simp)+

lemma acknowledge_quiet: "requests Q (acknowledge env req ref d)"
  unfolding acknowledge_def Let_def
  by (auto split: sum.splits intro!: quiet release_quiet halts_quiet)

lemma on_reply_quiet: "requests Q (on_reply env req ref degrade reply)"
  unfolding on_reply_def Let_def
  by (cases reply) (auto intro!: quiet halts_quiet note_quiet acknowledge_quiet)

lemma launch_requests:
  assumes "rq_intent req = intent_key (rq_outcome req) (rq_subplot req)"
  shows "requests (\<lambda>rq. rq = req) (launch env req ref degrade)"
proof (rule requestsI)
  fix t :: tick
  obtain r st where app: "append_ledger_once (intent_record req) (ts_store t) = (r, st)" by fastforce
  have later: "store_later (ts_store t) st" using keepsD [OF keeps_ledger app] .
  show "tick_later (\<lambda>rq. rq = req) t (snd (launch env req ref degrade t))"
  proof (cases "r = Inr True")
    case True
    define t1 where "t1 = t\<lparr>ts_store := st, ts_requests := ts_requests t @ [req]\<rparr>"
    have fields: "field_text (intent_record req) ''phase'' = ''intent''"
        "field_text (intent_record req) ''key'' = intent_key (rq_outcome req) (rq_subplot req)"
      by (simp_all add: intent_record_def field_text_def jget_def py_str_def assms)
    have "tick_later (\<lambda>rq. rq = req) t t1"
      using append_once_new [OF app [unfolded True]] later fields
      by (auto simp: tick_later_def t1_def has_intent_def)
    moreover have "tick_later (\<lambda>rq. rq = req) t1 (snd (on_reply env req ref degrade (te_dispatch env req) t1))"
      using on_reply_quiet by (simp add: requests_def)
    ultimately show ?thesis
      using app True by (auto simp: launch_def call_dispatcher_def t1_def intro: tick_later_trans)
  next
    case False
    define t1 where "t1 = t\<lparr>ts_store := st\<rparr>"
    have "tick_later (\<lambda>rq. rq = req) t t1" using later by (simp add: tick_later_def t1_def)
    moreover have "tick_later (\<lambda>rq. rq = req) t1
        (snd (report_halt env (rq_subplot req) (rq_backend req) unacknowledged t1))"
      using halts_quiet by (simp add: requests_def)
    ultimately show ?thesis
      using app False by (cases r) (auto simp: launch_def t1_def intro: tick_later_trans)
  qed
qed

text \<open>The backends a subplot may be dispatched on.\<close>

definition backend_allowed :: "tick_env \<Rightarrow> node \<Rightarrow> string \<Rightarrow> bool" where
  "backend_allowed env n b \<longleftrightarrow>
     (case te_available env of
        None \<Rightarrow> b = backend n
      | Some av \<Rightarrow> b \<in> set av
          \<and> (b = backend n
             \<or> b \<in> set (lower_rungs (backend n)) \<and> backend n \<notin> set av \<and> \<not> te_attending env
                \<and> \<not> is_guarantee_bearing n \<and> \<not> destructive n))"

definition asks_for :: "tick_env \<Rightarrow> outcome_spec \<Rightarrow> node \<Rightarrow> string \<Rightarrow> dispatch_request \<Rightarrow> bool" where
  "asks_for env sp n s rq \<longleftrightarrow>
     rq_outcome rq = outcome_id sp \<and> rq_subplot rq = s \<and> backend_allowed env n (rq_backend rq)"

lemma dispatch_on_requests:
  assumes "backend_allowed env n b"
  shows "requests (asks_for env sp n s) (dispatch_on env sp n s b degrade)"
proof -
  have launch: "requests (asks_for env sp n s) (launch env (request_of env sp n s b ref) ref degrade)" for ref
  proof (rule requests_mono [OF launch_requests])
    show "asks_for env sp n s rq" if "rq = request_of env sp n s b ref" for rq
      using that assms by (simp add: asks_for_def request_of_def)
  qed (simp add: request_of_def)
  show ?thesis
  proof (cases "b = ''verified-workflow''")
    case True
    have "requests (asks_for env sp n s) (case validated_ref env sp s ref of
        Inl receipt \<Rightarrow> halt_leaf env s (halt_record s receipt) receipt
      | Inr ref' \<Rightarrow> launch env (request_of env sp n s b ref') ref' degrade)" for ref
      by (cases "validated_ref env sp s ref") (simp_all add: halts_quiet launch)
    with True show ?thesis
      unfolding dispatch_on_def by (simp add: requests_bind requests_lift)
  qed (simp add: dispatch_on_def launch)
qed

lemma dispatch_node_requests: "requests (asks_for env sp n s) (dispatch_node env sp n s)"
proof -
  obtain action b reason where bf: "backend_for env n = (action, b, reason)" by (metis prod_cases3)
  have "backend_allowed env n b" if "action \<noteq> HaltLeaf"
  proof (cases "te_available env")
    case (Some av)
    with bf have "degrade_decision (backend n) av (te_attending env) (is_guarantee_bearing n)
        (destructive n) = (action, b, reason)" by (simp add: backend_for_def)
    from degrade_decision_backend [OF this that] Some show ?thesis
      by (auto simp: backend_allowed_def split: if_splits)
  qed (use bf in \<open>simp add: backend_for_def backend_allowed_def\<close>)
  then show ?thesis
    unfolding dispatch_node_def bf Let_def
    by (cases action) (auto intro!: dispatch_on_requests halts_quiet)
qed

section \<open>Halts in the ledger\<close>

text \<open>
  The record of a halt spreads its receipt last and takes over its kind, so the reduction passes over
  it; the record of a transient refusal is written the other way round and is seen.
\<close>

lemma halt_record_unseen:
  "reduce_entry (halt_record s (halt_receipt outcome s b reason available)) cur = Inr None"
  by (simp add: reduce_entry_def halt_record_def spread_def halt_receipt_def has_text_def jget_def
      v2_kind_def hashable_def Let_def)

lemma transient_record_seen:
  "\<exists>e. reduce_entry (transient_record req msg) None = Inr (Some e) \<and> red_halted e"
  by (simp add: reduce_entry_def transient_record_def transient_halt_def spread_def has_text_def
      confirmed_def)

section \<open>One tick\<close>

text \<open>What a tick that starts on the store \<open>st\<close> may ask for.\<close>

definition tick_asks ::
    "tick_env \<Rightarrow> outcome_spec \<Rightarrow> outcome_store \<Rightarrow> string list \<Rightarrow> string list \<Rightarrow> dispatch_request \<Rightarrow> bool" where
  "tick_asks env sp st settled frontier rq \<longleftrightarrow>
     rq_outcome rq = outcome_id sp \<and> rq_subplot rq \<in> set frontier \<and> rq_subplot rq \<notin> set settled
     \<and> (\<forall>gate. te_gate env = Some gate \<longrightarrow> (\<exists>st'. store_later st st' \<and> gate (rq_subplot rq) st'))
     \<and> (\<exists>n. node_by_id sp (rq_subplot rq) = Some n \<and> backend_allowed env n (rq_backend rq))"

lemma reconcile_leaf_asks:
  assumes "store_later st (ts_store t)" and "s \<in> set frontier"
  shows "tick_later (tick_asks env sp st settled frontier) t (snd (reconcile_leaf env sp settled s t))"
proof (cases "s \<in> set settled \<or> (\<exists>gate. te_gate env = Some gate \<and> \<not> gate s (ts_store t))
    \<or> node_by_id sp s = None")
  case True
  then show ?thesis
    by (auto simp: reconcile_leaf_def tick_later_def split: option.splits)
next
  case False
  then obtain n where n: "node_by_id sp s = Some n" by auto
  let ?body = "tk_bind (in_store (acquire_dispatch s (te_holder env) (te_ttl env) (te_now env s)))
      (\<lambda>locked. if \<not> locked then tk_lift (Inr ()) else dispatch_node env sp n s)"
  have "requests (asks_for env sp n s)
      (if \<not> locked then tk_lift (Inr ()) else dispatch_node env sp n s)" for locked
    by (simp add: requests_lift dispatch_node_requests)
  then have "requests (asks_for env sp n s) ?body"
    by (intro requests_bind requests_in_store keeps_acquire_dispatch)
  moreover have "tick_asks env sp st settled frontier rq" if "asks_for env sp n s rq" for rq
    using that n False assms by (auto simp: asks_for_def tick_asks_def)
  ultimately have "tick_later (tick_asks env sp st settled frontier) t (snd (?body t))"
    unfolding requests_def by (blast intro: tick_later_mono)
  moreover have "reconcile_leaf env sp settled s t = ?body t"
    using False n by (auto simp: reconcile_leaf_def split: option.splits)
  ultimately show ?thesis by simp
qed

lemma reconcile_leaves_asks:
  assumes "store_later st (ts_store t)" and "set ss \<subseteq> set frontier"
  shows "tick_later (tick_asks env sp st settled frontier) t (snd (reconcile_leaves env sp settled ss t))"
  using assms
proof (induction ss arbitrary: t)
  case (Cons s ss)
  obtain r t1 where leaf: "reconcile_leaf env sp settled s t = (r, t1)" by fastforce
  then have first: "tick_later (tick_asks env sp st settled frontier) t t1"
    using reconcile_leaf_asks [of st t s frontier env sp settled] Cons.prems by simp
  show ?case
  proof (cases r)
    case (Inr u)
    have "store_later st (ts_store t1)"
      using Cons.prems(1) tick_later_store [OF first] by (rule store_later_trans)
    with Cons.IH [of t1] Cons.prems(2)
    have "tick_later (tick_asks env sp st settled frontier) t1
        (snd (reconcile_leaves env sp settled ss t1))" by simp
    with first leaf Inr show ?thesis by (auto intro: tick_later_trans)
  qed (use first leaf in simp)
qed simp

definition settled_now :: "outcome_store \<Rightarrow> string list" where
  "settled_now st =
     (case reduce_dispatch_ledger st of
        Inl _ \<Rightarrow> []
      | Inr reduced \<Rightarrow> map fst (filter (\<lambda>(s, e). red_settled e) reduced))"

text \<open>
  A settled dispatch stays settled: what is appended behind its records can only refine it, however
  the ledger ends.
\<close>

lemma read_lines_prefix:
  "read_lines (ls @ ls') = Inr rs' \<Longrightarrow> \<exists>rs rest. read_lines ls = Inr rs \<and> rs' = rs @ rest"
  by (induction ls arbitrary: rs') (auto split: ledger_line.splits if_splits)

lemma reduce_records_append:
  "reduce_records (rs @ rest) red = bind_res (reduce_records rs red) (reduce_records rest)"
  by (induction rs arbitrary: red) (auto simp: Let_def bind_res_def split: sum.splits)

lemma reduce_entry_settled:
  "reduce_entry r cur = Inr (Some e) \<Longrightarrow> was_settled cur \<Longrightarrow> red_settled e"
  by (auto simp: reduce_entry_def split: if_splits)

lemma reduce_records_settled:
  "reduce_records rs red = Inr red' \<Longrightarrow> was_settled (dget red s) \<Longrightarrow> was_settled (dget red' s)"
proof (induction rs arbitrary: red)
  case (Cons r rs)
  show ?case
  proof (cases "field_text r ''subplot_id'' = []")
    case False
    with Cons.prems(1) obtain new where new: "reduce_entry r (dget red (field_text r ''subplot_id'')) = Inr new"
      and rest: "reduce_records rs (case new of None \<Rightarrow> red
        | Some e \<Rightarrow> dset (field_text r ''subplot_id'') e red) = Inr red'"
      by (auto simp: Let_def bind_res_def split: sum.splits)
    have "was_settled (dget (case new of None \<Rightarrow> red
        | Some e \<Rightarrow> dset (field_text r ''subplot_id'') e red) s)"
      using new Cons.prems(2) reduce_entry_settled
      by (auto simp: was_settled_def split: option.splits)
    with Cons.IH [OF rest] show ?thesis .
  qed (use Cons in \<open>simp add: Let_def\<close>)
qed simp

lemma reduce_records_wf: "reduce_records rs red = Inr red' \<Longrightarrow> wf_dict red \<Longrightarrow> wf_dict red'"
  by (induction rs arbitrary: red) (auto simp: Let_def bind_res_def split: sum.splits if_splits option.splits)

lemma settled_now_iff:
  "s \<in> set (settled_now st) \<longleftrightarrow>
     (\<exists>reduced. reduce_dispatch_ledger st = Inr reduced \<and> was_settled (dget reduced s))"
proof (cases "reduce_dispatch_ledger st")
  case (Inr reduced)
  have "wf_dict reduced"
    using Inr reduce_records_wf [of _ "[]"]
    by (auto simp: reduce_dispatch_ledger_def bind_res_def wf_dict_def split: sum.splits)
  then have "was_settled (dget reduced s) \<longleftrightarrow> (\<exists>e. (s, e) \<in> set reduced \<and> red_settled e)"
    by (auto simp: was_settled_def wf_dict_def map_of_eq_Some_iff split: option.splits
        dest: map_of_SomeD eq_key_imp_eq_value)
  with Inr show ?thesis by (auto simp: settled_now_def image_iff)
qed (simp add: settled_now_def)

text \<open>The settled dispatches of the complete lines, which no crash can take away.\<close>

definition settled_for_good :: "outcome_store \<Rightarrow> string \<Rightarrow> bool" where
  "settled_for_good st s \<longleftrightarrow>
     s \<in> set (settled_now (st\<lparr>replay_ledger := heal_torn_tail (replay_ledger st)\<rparr>))"

lemma settled_for_good_stays:
  assumes "settled_for_good st s" and "prefix (lines (replay_ledger st)) (lines (replay_ledger st'))"
    and "reduce_dispatch_ledger st' = Inr reduced"
  shows "s \<in> set (settled_now st')"
proof -
  obtain rs where rs: "read_lines (all_lines (replay_ledger st')) = Inr rs"
    and now: "reduce_records rs [] = Inr reduced"
    using assms(3) by (auto simp: reduce_dispatch_ledger_def store_ledger_def bind_res_def split: sum.splits)
  obtain ls where "all_lines (replay_ledger st') = lines (replay_ledger st) @ ls"
    using assms(2) by (auto simp: all_lines_def prefix_def)
  then obtain old rest where old: "read_lines (lines (replay_ledger st)) = Inr old" and "rs = old @ rest"
    using read_lines_prefix rs by metis
  have "store_ledger (st\<lparr>replay_ledger := heal_torn_tail (replay_ledger st)\<rparr>) = Inr old"
    using old by (simp add: store_ledger_def all_lines_def heal_torn_tail_def)
  then obtain red where "reduce_records old [] = Inr red" and "was_settled (dget red s)"
    using assms(1) by (auto simp: settled_for_good_def settled_now_iff reduce_dispatch_ledger_def)
  then have "was_settled (dget reduced s)"
    using now reduce_records_settled unfolding \<open>rs = old @ rest\<close> reduce_records_append by auto
  with assms(3) show ?thesis by (auto simp: settled_now_iff)
qed

lemma reconcile_once_asks:
  "\<exists>success st. completed_subplots True (ts_store t) = (success, st)
    \<and> tick_later (\<lambda>rq. (\<exists>reduced. reduce_dispatch_ledger st = Inr reduced)
         \<and> tick_asks env sp (ts_store t) (settled_now st)
             (case success of Inr ss \<Rightarrow> ready_frontier sp ss | Inl _ \<Rightarrow> []) rq)
         t (snd (reconcile_once env sp t))"
proof -
  obtain success st where got: "completed_subplots True (ts_store t) = (success, st)" by fastforce
  then have later: "store_later (ts_store t) st" using keepsD [OF keeps_readers(2)] by blast
  define t1 where "t1 = t\<lparr>ts_store := st\<rparr>"
  have first: "tick_later Q t t1" for Q using later by (simp add: tick_later_def t1_def)
  show ?thesis
  proof (cases success)
    case (Inl e)
    then have "snd (reconcile_once env sp t) = t1" using got by (simp add: reconcile_once_def t1_def)
    then show ?thesis using got first by auto
  next
    case (Inr ss)
    show ?thesis
    proof (cases "reduce_dispatch_ledger st")
      case (Inl e)
      then have "snd (reconcile_once env sp t) = t1"
        using got \<open>success = Inr ss\<close> by (simp add: reconcile_once_def t1_def)
      then show ?thesis using got first by auto
    next
      case reduced: (Inr reduced)
      have "snd (reconcile_once env sp t) =
          snd (reconcile_leaves env sp (settled_now st) (ready_frontier sp ss) t1)"
        using got Inr reduced by (simp add: reconcile_once_def t1_def settled_now_def)
      moreover have "tick_later (tick_asks env sp (ts_store t) (settled_now st) (ready_frontier sp ss)) t1
          (snd (reconcile_leaves env sp (settled_now st) (ready_frontier sp ss) t1))"
        using later by (intro reconcile_leaves_asks) (simp_all add: t1_def)
      ultimately show ?thesis
        using got Inr first reduced by (auto intro: tick_later_trans)
    qed
  qed
qed

text \<open>C38: Whatever a tick of the reconcile loop behind the approval gate does and however it ends,
  it calls the dispatcher at most once for a subplot, and only for a declared subplot of the ready
  frontier of the completed ones, when the current revision is approved, no settled dispatch of the
  subplot is on record and no intent for it was; the backend asked for is an available one, the one
  of the subplot or, if that is not available, a lower rung for a subplot that may be degraded; and
  the intent is on record afterwards.\<close>

theorem tick_requests_ready:
  assumes "reconcile_once env sp t = (r, t')" and "te_gate env = Some (\<lambda>s st. dispatch_gate st sp s)"
    and "completed_subplots True (ts_store t) = (Inr success, st)"
  shows "\<exists>new. ts_requests t' = ts_requests t @ new \<and> distinct (map rq_subplot new)
    \<and> (\<forall>rq \<in> set new.
         rq_outcome rq = outcome_id sp
         \<and> rq_subplot rq \<in> set (ready_frontier sp success) \<and> rq_subplot rq \<notin> set (settled_now st)
         \<and> frontier_approved (ts_store t) (spec_revision sp)
         \<and> (\<exists>n. node_by_id sp (rq_subplot rq) = Some n \<and> backend_allowed env n (rq_backend rq))
         \<and> \<not> has_intent (outcome_id sp) (ts_store t) (rq_subplot rq)
         \<and> has_intent (outcome_id sp) (ts_store t') (rq_subplot rq))"
proof -
  have "tick_later (tick_asks env sp (ts_store t) (settled_now st) (ready_frontier sp success)) t t'"
    using reconcile_once_asks [of t env sp] assms(1,3) by (auto intro: tick_later_mono)
  then obtain new where new: "ts_requests t' = ts_requests t @ new"
    and dist: "distinct (map (\<lambda>rq. (rq_outcome rq, rq_subplot rq)) new)"
    and each: "\<forall>rq \<in> set new. tick_asks env sp (ts_store t) (settled_now st) (ready_frontier sp success) rq
       \<and> has_intent (rq_outcome rq) (ts_store t') (rq_subplot rq)
       \<and> \<not> has_intent (rq_outcome rq) (ts_store t) (rq_subplot rq)"
    unfolding tick_later_def by blast
  have "distinct (map rq_subplot new)"
    using dist each by (auto simp: distinct_map inj_on_def tick_asks_def)
  moreover have "frontier_approved (ts_store t) (spec_revision sp)" if "rq \<in> set new" for rq
    using each that assms(2)
    by (auto simp: tick_asks_def dispatch_gate_def frontier_approved_def store_later_def)
  ultimately show ?thesis using new each by (auto simp: tick_asks_def)
qed

text \<open>The approved demonstration outcome: its first subplot is asked for.\<close>

definition demo_env :: tick_env where
  "demo_env =
     \<lparr>te_holder = ''h'', te_ttl = 900, te_now = (\<lambda>_. 0), te_recorded = (\<lambda>_. 0), te_run = (\<lambda>_. ''r''),
      te_created = (\<lambda>_. 0), te_gate = Some (\<lambda>s st. dispatch_gate st demo_spec s), te_available = None,
      te_attending = False, te_ready = (\<lambda>_ _. Ready []), te_dispatch = default_dispatcher,
      te_receipt = (\<lambda>_ _ _. Inl [])\<rparr>"

definition begin_on :: "outcome_store \<Rightarrow> tick" where
  "begin_on st =
     \<lparr>ts_store = st, ts_requests = [], ts_dispatched = [], ts_halted = [], ts_gated = [],
      ts_degraded = []\<rparr>"

definition demo_start :: tick where
  "demo_start = begin_on (snd (approve_frontier demo_spec empty_store))"

theorem tick_requests_ready_witness:
  "case reconcile_once demo_env demo_spec demo_start of
     (r, t') \<Rightarrow> map rq_subplot (ts_requests t') = [''a'']
       \<and> has_intent (outcome_id demo_spec) (ts_store t') ''a''"
proof -
  obtain r t' where run: "reconcile_once demo_env demo_spec demo_start = (r, t')" by fastforce
  have "case reconcile_once demo_env demo_spec demo_start of
     (r, t') \<Rightarrow> map rq_subplot (ts_requests t') = [''a'']"
    by code_simp
  with run have one: "map rq_subplot (ts_requests t') = [''a'']" by simp
  have gate: "te_gate demo_env = Some (\<lambda>s st. dispatch_gate st demo_spec s)"
    by (simp add: demo_env_def)
  have none: "completed_subplots True (ts_store demo_start) = (Inr [], ts_store demo_start)"
    by (simp add: demo_start_def begin_on_def approve_frontier_def completed_subplots_def empty_store_def)
  have "ts_requests demo_start = []" by (simp add: demo_start_def begin_on_def)
  with tick_requests_ready [OF run gate none] one
  have "has_intent (outcome_id demo_spec) (ts_store t') ''a''" by auto
  with run one show ?thesis by simp
qed

end
