(* ===== verification/Outcome_Once.thy ===== *)
theory Outcome_Once
  imports Outcome_Launches
begin

text \<open>
  The life of an outcome: ticks, edits, approvals, operations of the store and appends that a crash
  cut short, in any order.  A subplot whose dispatch is settled on the complete lines of the ledger
  is never given to a dispatcher again.
\<close>

section \<open>Advancing\<close>

text \<open>A part of an advance, started on a store with a lasting property, asks only for what \<open>Q\<close> allows.\<close>

definition lasting :: "(outcome_store \<Rightarrow> bool) \<Rightarrow> bool" where
  "lasting I \<longleftrightarrow> (\<forall>st st'. I st \<longrightarrow> store_later st st' \<longrightarrow> I st')"

definition requests_when ::
    "(outcome_store \<Rightarrow> bool) \<Rightarrow> (dispatch_request \<Rightarrow> bool) \<Rightarrow> 'a tick_op \<Rightarrow> bool" where
  "requests_when I Q m \<longleftrightarrow> (\<forall>t. I (ts_store t) \<longrightarrow> tick_later Q t (snd (m t)))"

lemma requests_whenI: "(\<And>t. I (ts_store t) \<Longrightarrow> tick_later Q t (snd (m t))) \<Longrightarrow> requests_when I Q m"
  by (simp add: requests_when_def)

lemma requests_whenD: "requests_when I Q m \<Longrightarrow> I (ts_store t) \<Longrightarrow> m t = (r, t') \<Longrightarrow> tick_later Q t t'"
  by (auto simp: requests_when_def dest: spec [of _ t])

lemma requests_always: "requests Q m \<Longrightarrow> requests_when I Q m"
  by (simp add: requests_def requests_when_def)

lemma lasting_tick: "lasting I \<Longrightarrow> I (ts_store t) \<Longrightarrow> tick_later Q t t' \<Longrightarrow> I (ts_store t')"
  using tick_later_store by (auto simp: lasting_def)

lemma requests_when_bind:
  assumes "lasting I" and "requests_when I Q m" and "\<And>x. requests_when I Q (k x)"
  shows "requests_when I Q (tk_bind m k)"
proof (rule requests_whenI)
  fix t :: tick assume I: "I (ts_store t)"
  obtain r t1 where run: "m t = (r, t1)" by fastforce
  then have first: "tick_later Q t t1" using requests_whenD [OF assms(2) I] by blast
  have "tick_later Q t1 (snd (k x t1))" for x
    using assms(3) lasting_tick [OF assms(1) I first] by (simp add: requests_when_def)
  with first run show "tick_later Q t (snd (tk_bind m k t))"
    by (cases r) (auto intro: tick_later_trans)
qed

text \<open>The processors of an advance keep the complete lines of the ledger, as every operation of
  the store does.\<close>

definition processors_keep :: "advance_env \<Rightarrow> bool" where
  "processors_keep av \<longleftrightarrow> (\<forall>k. \<forall>p \<in> set (av_before av k) \<union> set (av_after av k). keeps p)"

lemma run_all_quiet: "\<forall>p \<in> set ps. keeps p \<Longrightarrow> requests Q (run_all ps)"
  by (induction ps) (auto intro!: requests_bind requests_lift requests_in_store)

lemma one_tick_requests:
  assumes "lasting I" and "processors_keep av" and "\<And>env. requests_when I Q (reconcile_once env sp)"
  shows "requests_when I Q (one_tick av sp k)"
  unfolding one_tick_def
  by (intro requests_when_bind assms requests_always [OF run_all_quiet])
    (use assms(2) in \<open>auto simp: processors_keep_def\<close>)

lemma ticks_from_requests:
  assumes "lasting I" and "processors_keep av" and "\<And>env. requests_when I Q (reconcile_once env sp)"
  shows "requests_when I Q (ticks_from av sp left k)"
proof -
  have "tick_later Q t (snd (ticks_from av sp left k t))" if "I (ts_store t)" for t
    using that
  proof (induction left arbitrary: k t)
    case 0
    then show ?case
      using requests_whenD [OF one_tick_requests [OF assms], of t k]
      by (auto split: prod.splits sum.splits)
  next
    case (Suc left)
    obtain r t1 where one: "one_tick av sp k t = (r, t1)" by fastforce
    then have first: "tick_later Q t t1"
      using requests_whenD [OF one_tick_requests [OF assms]] Suc.prems by blast
    show ?case
      using one first tick_later_trans [OF first Suc.IH [of t1 "Suc k"]]
        lasting_tick [OF assms(1) Suc.prems first]
      by (cases r) auto
  qed
  then show ?thesis by (rule requests_whenI)
qed

lemma finally_requests:
  assumes "lasting I" and "requests_when I Q m"
  shows "requests_when I Q (finally_release holder m)"
proof (rule requests_whenI)
  fix t :: tick assume I: "I (ts_store t)"
  obtain r t1 where run: "m t = (r, t1)" by fastforce
  have "requests Q (tk_bind (in_store (release_lease ''coordinator'' holder)) (\<lambda>_. tk_lift r))"
    by (intro requests_bind requests_lift requests_in_store keeps_release)
  then have "tick_later Q t1 (snd (finally_release holder m t))"
    using run by (simp add: requests_def finally_release_def)
  with requests_whenD [OF assms(2) I run] show "tick_later Q t (snd (finally_release holder m t))"
    by (rule tick_later_trans)
qed

lemma advance_requests:
  assumes "lasting I" and "processors_keep av" and "\<And>env. requests_when I Q (reconcile_once env sp)"
  shows "requests_when I Q (advance holder ttl start av sp)"
proof -
  have ends: "requests_when I Q (in_store (outcome_status sp))" "requests_when I Q (tk_lift r)" for r
    by (intro requests_always requests_in_store requests_lift status_views.act_keeps)+
  have "requests_when I Q
      (if \<not> mine then tk_bind (in_store (outcome_status sp)) (\<lambda>v. tk_lift (Inr (Busy v)))
       else tk_bind (finally_release holder (ticks_from av sp (nat (av_max_ticks av - 1)) 1)) (\<lambda>k.
         tk_bind (in_store (outcome_status sp)) (\<lambda>v. tk_lift (Inr (Advanced k v)))))" for mine
    by (cases mine) (auto intro!: requests_when_bind finally_requests ticks_from_requests ends assms)
  then show ?thesis
    unfolding advance_def acquire_coordinator_def
    by (intro requests_when_bind assms(1) requests_always [OF requests_in_store] keeps_leases)
qed

section \<open>The life of an outcome\<close>

datatype outcome_event =
    Call session_call
  | Advance string int int advance_env
  | CutAppend ledger_line

text \<open>An append that a crash cuts short leaves a last line without its end, whatever it holds.\<close>

definition cut_append :: "ledger_line \<Rightarrow> outcome_store \<Rightarrow> outcome_store" where
  "cut_append line st =
     st\<lparr>replay_ledger := (heal_torn_tail (replay_ledger st))\<lparr>torn := Some line\<rparr>\<rparr>"

fun outcome_step :: "outcome_event \<Rightarrow> outcome_spec \<times> tick \<Rightarrow> outcome_spec \<times> tick" where
  "outcome_step (Call c) (sp, t) =
     (case session_step c (sp, ts_store t) of (sp', st) \<Rightarrow> (sp', t\<lparr>ts_store := st\<rparr>))"
| "outcome_step (Advance holder ttl start av) (sp, t) = (sp, snd (advance holder ttl start av sp t))"
| "outcome_step (CutAppend line) (sp, t) = (sp, t\<lparr>ts_store := cut_append line (ts_store t)\<rparr>)"

definition outcome_run :: "outcome_event list \<Rightarrow> outcome_spec \<times> tick \<Rightarrow> outcome_spec \<times> tick" where
  "outcome_run es s = foldl (\<lambda>s e. outcome_step e s) s es"

definition event_ok :: "outcome_event \<Rightarrow> bool" where
  "event_ok e \<longleftrightarrow> (case e of Advance _ _ _ av \<Rightarrow> processors_keep av | _ \<Rightarrow> True)"

lemma session_step_lines:
  "prefix (lines (replay_ledger st)) (lines (replay_ledger (snd (session_step c (sp, st)))))"
proof (cases "c = ApproveFrontier")
  case False
  then show ?thesis using calls.store_kept [of "(sp, st)" c] by (simp add: store_later_def)
qed (simp add: approve_frontier_def)

lemma cut_append_lines [simp]: "lines (replay_ledger (cut_append line st)) = lines (replay_ledger st)"
  by (simp add: cut_append_def heal_torn_tail_def)

section \<open>Settled dispatches\<close>

text \<open>The store \<open>st\<close> holds the complete lines of \<open>st0\<close>, in their order, and perhaps more behind them.\<close>

definition extends :: "outcome_store \<Rightarrow> outcome_store \<Rightarrow> bool" where
  "extends st0 st \<longleftrightarrow> prefix (lines (replay_ledger st0)) (lines (replay_ledger st))"

lemma lasting_extends: "lasting (extends st0)"
  by (auto simp: lasting_def extends_def store_later_def)

lemma reconcile_once_spares:
  assumes "settled_for_good st0 s"
  shows "requests_when (extends st0) (\<lambda>rq. rq_subplot rq \<noteq> s) (reconcile_once env sp)"
proof (rule requests_whenI)
  fix t :: tick assume st0: "extends st0 (ts_store t)"
  obtain success st where got: "completed_subplots True (ts_store t) = (success, st)"
    and asks: "tick_later (\<lambda>rq. (\<exists>reduced. reduce_dispatch_ledger st = Inr reduced)
         \<and> tick_asks env sp (ts_store t) (settled_now st)
             (case success of Inr ss \<Rightarrow> ready_frontier sp ss | Inl _ \<Rightarrow> []) rq)
         t (snd (reconcile_once env sp t))"
    using reconcile_once_asks by blast
  have "extends st0 st"
    using lasting_extends st0 keepsD [OF keeps_readers(2) got] by (auto simp: lasting_def)
  then have "s \<in> set (settled_now st)" if "reduce_dispatch_ledger st = Inr reduced" for reduced
    using settled_for_good_stays [OF assms _ that] by (simp add: extends_def)
  with asks show "tick_later (\<lambda>rq. rq_subplot rq \<noteq> s) t (snd (reconcile_once env sp t))"
    by (auto simp: tick_asks_def intro: tick_later_mono)
qed

lemma outcome_step_spares:
  assumes "settled_for_good st0 s" and "extends st0 (ts_store t)" and "event_ok e"
    and "outcome_step e (sp, t) = (sp', t')"
  shows "extends st0 (ts_store t')
    \<and> (\<exists>new. ts_requests t' = ts_requests t @ new \<and> s \<notin> rq_subplot ` set new)"
proof (cases e)
  case (Call c)
  obtain sp1 st1 where "session_step c (sp, ts_store t) = (sp1, st1)" by fastforce
  with Call assms(2,4) session_step_lines [of "ts_store t" c sp] show ?thesis
    by (auto simp: extends_def intro: prefix_order.trans)
next
  case (Advance holder ttl start av)
  with assms(3) have "processors_keep av" by (simp add: event_ok_def)
  then have "tick_later (\<lambda>rq. rq_subplot rq \<noteq> s) t t'"
    using advance_requests [OF lasting_extends _ reconcile_once_spares [OF assms(1)]] assms(2,4) Advance
    by (fastforce simp: requests_when_def)
  then show ?thesis
    using lasting_tick [OF lasting_extends assms(2)] by (auto simp: tick_later_def)
next
  case (CutAppend line)
  with assms(2,4) show ?thesis by (auto simp: extends_def)
qed

text \<open>C37: A settled dispatch is skipped on every later tick: once the complete lines of the replay
  ledger show the dispatch of a subplot as settled, by an acknowledgement or a commit of the old
  form, no later advance of any holder and environment whose processors lose no ledger line gives
  the subplot to a dispatcher again, whatever edits, approvals, operations of the store and appends
  cut short by a crash come between; and whenever the ledger reads it is still settled.\<close>

theorem settled_never_redispatched:
  assumes "s \<in> set (settled_now (ts_store t0\<lparr>replay_ledger := heal_torn_tail (replay_ledger (ts_store t0))\<rparr>))"
    and "\<forall>e \<in> set es. event_ok e" and "outcome_run es (sp, t0) = (sp', t)"
  shows "(\<exists>new. ts_requests t = ts_requests t0 @ new \<and> s \<notin> rq_subplot ` set new)
    \<and> (\<forall>reduced. reduce_dispatch_ledger (ts_store t) = Inr reduced \<longrightarrow> s \<in> set (settled_now (ts_store t)))"
proof -
  have settled: "settled_for_good (ts_store t0) s" using assms(1) by (simp add: settled_for_good_def)
  have "extends (ts_store t0) (ts_store t)
    \<and> (\<exists>new. ts_requests t = ts_requests t0 @ new \<and> s \<notin> rq_subplot ` set new)"
    using assms(2,3)
  proof (induction es arbitrary: sp' t rule: rev_induct)
    case Nil
    then show ?case by (simp add: outcome_run_def extends_def)
  next
    case (snoc e es)
    obtain sp1 t1 where run: "outcome_run es (sp, t0) = (sp1, t1)" by fastforce
    with snoc.prems(2) have "outcome_step e (sp1, t1) = (sp', t)" by (simp add: outcome_run_def)
    with outcome_step_spares [OF settled] snoc.IH [OF _ run] snoc.prems(1) show ?case by fastforce
  qed
  then show ?thesis using settled_for_good_stays [OF settled] by (auto simp: extends_def)
qed

text \<open>
  An outcome of the old form: the first subplot was committed before intents were written, and the
  commit is all the ledger says of it.
\<close>

definition legacy_store :: outcome_store where
  "legacy_store = append_ledger
     [(''subplot_id'', JStr ''a''), (''kind'', JStr ''dispatch''), (''phase'', JStr ''commit''),
      (''key'', JStr ''k'')] (snd (approve_frontier demo_spec empty_store))"

definition demo_advance :: advance_env where
  "demo_advance =
     \<lparr>av_before = (\<lambda>_. []), av_tick = (\<lambda>_. demo_env\<lparr>te_gate := None\<rparr>), av_after = (\<lambda>_. []),
      av_loop = True, av_max_ticks = 100\<rparr>"

definition demo_life :: "outcome_event list" where
  "demo_life = [Advance ''h'' 900 0 demo_advance, CutAppend Garbage, Advance ''h'' 900 1 demo_advance]"

theorem settled_never_redispatched_witness:
  "case outcome_run demo_life (demo_spec, begin_on legacy_store) of
     (sp', t) \<Rightarrow> ''a'' \<notin> rq_subplot ` set (ts_requests t)"
proof -
  obtain sp' t where run: "outcome_run demo_life (demo_spec, begin_on legacy_store) = (sp', t)"
    by fastforce
  have "''a'' \<in> set (settled_now (ts_store (begin_on legacy_store)
      \<lparr>replay_ledger := heal_torn_tail (replay_ledger (ts_store (begin_on legacy_store)))\<rparr>))"
    by code_simp
  moreover have "\<forall>e \<in> set demo_life. event_ok e"
    by (simp add: demo_life_def event_ok_def processors_keep_def demo_advance_def)
  ultimately show ?thesis
    using settled_never_redispatched [OF _ _ run] run by (auto simp: begin_on_def)
qed

text \<open>
  A dispatcher that refuses for now: the intent stays on record, and the next advance reports a halt
  instead of trying again.
\<close>

definition refusing_advance :: advance_env where
  "refusing_advance = demo_advance
     \<lparr>av_tick := (\<lambda>_. demo_env\<lparr>te_gate := None, te_dispatch := (\<lambda>_. TransientRefusal ''busy'')\<rparr>)\<rparr>"

lemma refused_dispatch_not_retried:
  "case outcome_run [Advance ''h'' 900 0 refusing_advance, Call ViewStatus, Advance ''h'' 900 1 refusing_advance]
     (demo_spec, begin_on empty_store) of
     (sp', t) \<Rightarrow> map rq_subplot (ts_requests t) = [''a''] \<and> length (ts_halted t) = 2"
  by code_simp

end
