(* ===== verification/Spec2Isabelle.thy ===== *)
theory Spec2Isabelle
  imports Lease_Upkeep Lease_Closures Dispatch_Driver Run_Laws Outcome_Elaborate Outcome_Edges Outcome_Cascade
    Outcome_Merge Outcome_Once
begin

text \<open>
  A model of the three stateful cores of the repository: the lease broker of the fleet-core plugin
  (\<open>plugins/fleet-core/scripts/fleet_commons/lease_broker.py\<close>), which fences the agents and
  worktrees of concurrent sessions; the dispatch ledger of the saga plugin
  (\<open>plugins/saga/scripts/run_ledger.py\<close> and \<open>dispatch_settlement.py\<close>), which records every
  attempt of a dispatched unit of work and decides what may be retried; and the outcomes of the saga
  plugin (\<open>plugins/saga/scripts/outcome_spec.py\<close>, \<open>outcome_edges.py\<close>, \<open>outcome_store.py\<close>,
  \<open>outcome_orchestrator.py\<close>, \<open>outcome_decompose.py\<close>, \<open>outcome_merge.py\<close>,
  \<open>outcome_dispatcher.py\<close> and the reconcile
  loop of \<open>outcome.py\<close>), the dependency graphs of work that say what may be dispatched at all.

  \<^bold>\<open>How the parts interact.\<close>  The broker and the ledger keep one shared file that several
  processes read and write under a lock.  An operation between taking and releasing the lock is one step on that file; the
  model is a function from the file (and the values of the environment the call observes) to a result
  and the new file, with every raise of the source as a value.  The broker's file is a registry that
  is read, validated, changed and rewritten; the ledger's file is an append-only chain of hashed
  records, and everything known about a dispatch is derived from it on every read.  An outcome is a spec document and a
  store beside it: completion events in files of their own, a replay ledger with the line format of
  the run ledger, leases and approvals.  The spec is changed only by edits, the store by the
  reconcile loop, which reads the ready frontier off the spec and the completed subplots and gives its
  subplots to a dispatcher, each behind an intent line.

  \<^bold>\<open>Shared theories.\<close>
  \<open>Prelude\<close> has the error sum with its bind, guards, the monadic map and insertion-ordered
  dictionaries.  \<open>Py_Json\<close> has JSON values with unbounded integers, \<open>json.dumps(sort_keys=True)\<close>
  as \<open>canonical_json\<close> and \<open>norm_items\<close>, what a document reads back as.  \<open>Py_Text\<close> has
  \<open>str.strip\<close>, \<open>str.lower\<close> and \<open>str(value)\<close>.  \<open>Json_Text\<close> shows that canonical text
  determines a document.

  \<^bold>\<open>Lease broker.\<close>
  \<open>Lease_Values\<close> are the field validators; \<open>Lease_Records\<close>, \<open>Lease_Close\<close> and \<open>Lease_Rows\<close> the row
  types with \<open>from_dict\<close> and \<open>to_dict\<close>; \<open>Lease_Registry\<close> and \<open>Lease_Validation\<close> the registry
  document, its migrations and cross-row checks; \<open>Lease_Store\<close> reading, writing, compaction and
  the archive of closed heads, whose writes end as a \<open>write_fate\<close> says: all durable, or an \<open>OSError\<close> at
  the document or at one of the sidecars, before or after the file is replaced.  The operations follow: \<open>Lease_Admission\<close>, \<open>Lease_Grants\<close>,
  \<open>Lease_Tokens\<close>, \<open>Lease_Settlements\<close>, \<open>Lease_Sessions\<close>, \<open>Lease_Maintenance\<close> and
  \<open>Lease_Recovery\<close>.  \<open>Lease_Contract\<close> states the contract of an operation on the registry as
  a locale, \<open>Lease_Providers\<close> and \<open>Lease_Settlement_Steps\<close> interpret it for every operation of
  the code, \<open>Lease_Reachable\<close> has the reachable authorities.  The properties are in
  \<open>Lease_Fencing\<close> (fencing over any sequence of calls), \<open>Lease_Ownership\<close> and \<open>Lease_Capacity\<close>
  (what a grant stores and how much it may take, for calls of agents and of the hook alike),
  \<open>Lease_Replays\<close> (repeated calls), \<open>Lease_Closures\<close> (every operation keeps the record that closes
  an owner, as a locale with its interpretations, so that the owner stays refused until the record is
  evicted),
  \<open>Lease_Retention\<close> (what is reclaimed), \<open>Lease_Commit\<close> (settlement commits) and
  \<open>Lease_Upkeep\<close> (repair, write targets, recovery, round trips); \<open>Lease_Demo\<close> is the concrete
  history their instances use.

  \<^bold>\<open>Dispatch ledger.\<close>
  \<open>Run_Ledger\<close> is the file: complete lines, the unterminated fragment of a crashed append, the
  hash chain, \<open>append_fact_atomic\<close> and the readers.  \<open>Run_Chain\<close> states what an append promises
  its client as a locale and interprets it; \<open>Run_Evidence\<close> shows that the tail hash determines the
  history.  \<open>Dispatch_Facts\<close> are the four fact builders and the canonical form of a fact,
  \<open>Dispatch_Ledger\<close> the four writers with their guards, \<open>Dispatch_Attempts\<close> the operations of a
  driver, \<open>Dispatch_Reports\<close> the derived views.  \<open>Dispatch_Typed\<close> and \<open>Dispatch_Rows\<close> relate
  stored dictionaries to typed facts; \<open>Dispatch_Invariant\<close> is the invariant of the records and
  \<open>Dispatch_Reachable\<close> every ledger the writers can leave behind, crashes included.
  \<open>Dispatch_Refinement\<close> and \<open>Dispatch_Machine\<close> give the attempt machine of a unit and show that
  the ledger refines it.  \<open>Dispatch_Retry\<close>, \<open>Dispatch_Progress\<close> and \<open>Dispatch_Gate\<close> have the
  lemmas about the retry queue, the preparation of an attempt and the report.  The properties are in
  \<open>Dispatch_Laws\<close>, \<open>Dispatch_Settling\<close>, \<open>Dispatch_Driver\<close> and \<open>Run_Laws\<close>, with their
  instances on the ledger of \<open>Dispatch_Demo\<close>.  Two of them meet a last line that a crash left
  without its newline: readers return it when it is a record, and the next append removes it, so
  what is final (\<open>terminal_forever\<close>) is what the complete lines say, with the counterexample
  \<open>torn_status_not_final\<close> beside it; and no crash of an append makes a ledger unreadable
  (\<open>appends_survive_crashes\<close>), which only a complete line that is no record does
  (\<open>garbage_line_bricks\<close>).

  \<^bold>\<open>Outcomes.\<close>
  \<open>Outcome_Spec\<close> has \<open>Node\<close> and \<open>OutcomeSpec\<close> with their readers and writers (and the conversions
  of Python they rely on: truth values, \<open>str\<close> and \<open>int\<close> of a JSON value), \<open>validate\<close>, the
  dependency layers, the ready frontier, the connected components and \<open>redirect_dependency\<close>.
  \<open>Outcome_Dag\<close> shows that the layers exist exactly for declared acyclic dependencies;
  \<open>Outcome_Valid\<close> has what \<open>validate\<close> accepts, the completion runs of a valid outcome, its layers
  and the round trip of the document.  \<open>Outcome_Edges\<close> are the dependencies inferred from blocking
  issues.  \<open>Outcome_Store\<close> is the store: events with quarantine of malformed files, the replay
  ledger with \<open>reduce_dispatch_ledger\<close> and \<open>replay_pending\<close>, leases, approvals and the dispatch
  gate.  \<open>Outcome_Live\<close> has the live states and the status, the completion barrier, the harvest and
  the cascade of a block; \<open>Outcome_Cascade\<close> shows which subplots a block pauses beyond the blocked
  ones and \<open>Outcome_Harvest\<close>
  what a harvest records, and where two subplots share event files.  \<open>Outcome_Edits\<close> are the edits
  of \<open>outcome_decompose.py\<close> with the undo each writes out; \<open>Outcome_Edit_Laws\<close> shows them atomic,
  \<open>Outcome_Elaborate\<close> that an elaboration keeps the order of the outcome.  \<open>Outcome_Session\<close>
  states what an operation owes the dispatch gate as a locale, interprets it for the edits and the
  operations of the store, and has the property of the sessions made of them.  \<open>Outcome_Dispatch\<close> is
  the dispatcher seam with the decision to halt or degrade, \<open>Outcome_Tick\<close> is \<open>_reconcile_once\<close> and
  \<open>advance\<close>; \<open>Outcome_Launches\<close> shows what one tick may ask a dispatcher for and that a settled
  dispatch stays settled, and \<open>Outcome_Once\<close> that no later life of an outcome asks again for a
  subplot whose dispatch is settled.  \<open>Outcome_Merge\<close> is the merge queue that runs
  before a harvest, and shows what it may squash.

  \<^bold>\<open>Parameters.\<close>  SHA-256, the recognition of an ISO time and of a UTC offset are functions of a
  \<open>host\<close> record.  What is assumed of the digest is that it returns 64 hexadecimal characters
  (\<open>digest_host\<close>); \<open>chain_pins_history\<close> also assumes it injective on the texts it compares.  Clocks,
  identifiers, the process table, the file system and the fate of each write are the
  \<open>providers\<close> argument of a broker call, so every theorem holds for all of them.  The
  GitHub command line, the reader of child outcomes and the existence of a manifest are the
  \<open>readers\<close> argument of a harvest; the refusal of a prune by the worktree authority is a flag of
  the edit.  A tick takes its dispatcher, the readiness of workflows, the reader of launch receipts,
  its clock and its fresh identities from the \<open>tick_env\<close> argument.  The merge queue takes its GitHub
  operations as functions on a world of any type.  The instants of leases and of the
  records of a tick are whole ticks of the clock.

  \<^bold>\<open>Bounds.\<close>  Integers are unbounded, as in Python.  There is no fuel: the loops of the source
  are recursions over finite lists, or worklists (the dependency layers, reachability, the components,
  the cascade) with a termination measure that counts the subplots still to be visited.  Characters are code points below 256, so text outside Latin-1 is
  not represented.

  \<^bold>\<open>Not modelled.\<close>  Locks, \<open>fsync\<close>, file modes and the node checks of the broker; the backup copy a
  repair writes; floating-point aggregates of the ledger (\<open>rollup\<close>, \<open>reuse_ratio\<close>,
  \<open>last_n_prior\<close>); \<open>classify_evidence\<close> and the other readers of receipt files; command lines.
  Of the outcomes: the offline queue, the git common directory, temporary files and modes of the
  store, closing issues and reaping worktrees after a prune, the decomposition artifact, the
  files of launch receipts and \<open>reconcile_dispatch_ack\<close> over them (the record it appends is an append
  like any other in \<open>Outcome_Once\<close>), board synchronisation, and two ticks that run at the same time:
  the coordinator lease is there to keep them apart.  A float keeps the text Python prints
  for it; the conversion of a list of pairs to a dictionary is modelled for string keys; evidence
  references that are unsorted nested lists are refused with \<open>TypeError\<close> where the code names them
  unsorted.  The other plugins are front ends of services and renderers of files.
\<close>

end
